(* ===== verification/Update_Prelude.thy ===== *)
theory Update_Prelude
  imports Main "HOL-Library.Word"
begin

text \<open>
  Shared vocabulary of the development: the machine integers of the C++ sources, byte
  buffers, views that may carry a null pointer, text literals as bytes, the little-endian
  integer codecs, in-place buffer writes (\<open>memset\<close>/\<open>memcpy\<close>) and the generic list and word
  lemmas the component theories use.

  Conventions. \<open>uint8_t\<close> and \<open>char\<close> are \<open>8 word\<close>, \<open>uint16_t\<close>, \<open>uint32_t\<close>, \<open>uint64_t\<close> are
  words of their width, so that arithmetic wraps as in C++ and comparisons are unsigned.
  A \<open>size_t\<close> that measures a buffer held in memory is the length of a list, hence a \<open>nat\<close>.
  A C string is the list of its bytes before the terminating NUL; a pointer that may be null
  is an \<open>option\<close>.
\<close>

unbundle bit_operations_syntax

named_theorems buffer_simps \<open>reading a byte range back from an edited buffer\<close>
named_theorems status_simps \<open>the decision procedures, unfolded\<close>

type_synonym u8 = "8 word"
type_synonym u16 = "16 word"
type_synonym u32 = "32 word"
type_synonym u64 = "64 word"
type_synonym byte = "8 word"
type_synonym bytes = "8 word list"
type_synonym cstring = "8 word list"

section \<open>Views and text\<close>

text \<open>
  \<open>ByteView\<close> and \<open>MutableByteView\<close>: a pointer and a size. A null pointer still carries a size,
  and the sources test the two separately.
\<close>

datatype byte_view = NullView nat | Bytes bytes

fun view_size :: "byte_view \<Rightarrow> nat" where
  "view_size (NullView n) = n"
| "view_size (Bytes bs) = length bs"

fun view_null :: "byte_view \<Rightarrow> bool" where
  "view_null (NullView _) = True"
| "view_null (Bytes _) = False"

fun view_bytes :: "byte_view \<Rightarrow> bytes" where
  "view_bytes (NullView _) = []"
| "view_bytes (Bytes bs) = bs"

text \<open>A pointer and an element count; a null pointer still carries its count.\<close>

datatype 'a array_view = NullArray nat | Array "'a list"

fun array_count :: "'a array_view \<Rightarrow> nat" where
  "array_count (NullArray n) = n"
| "array_count (Array xs) = length xs"

fun array_items :: "'a array_view \<Rightarrow> 'a list" where
  "array_items (NullArray n) = []"
| "array_items (Array xs) = xs"

text \<open>A string literal of the sources, as the bytes the compiler emits for it.\<close>

definition ascii :: "string \<Rightarrow> bytes" where
  "ascii s = map of_char s"

lemma length_ascii [simp]: "length (ascii s) = length s"
  by (simp add: ascii_def)

lemma ascii_Nil [simp]: "ascii [] = []"
  by (simp add: ascii_def)

lemma ascii_Cons [simp]: "ascii (c # cs) = of_char c # ascii cs"
  by (simp add: ascii_def)

text \<open>A character literal of the sources.\<close>

abbreviation ch :: "char \<Rightarrow> byte" where
  "ch c \<equiv> of_char c"

text \<open>Reading memory as a C string stops before the first NUL.\<close>

definition c_str :: "bytes \<Rightarrow> cstring" where
  "c_str bs = takeWhile (\<lambda>b. b \<noteq> 0) bs"

lemma c_str_no_nul: "0 \<notin> set (c_str bs)"
  by (auto simp: c_str_def dest: set_takeWhileD)

lemma c_str_id: "0 \<notin> set bs \<Longrightarrow> c_str bs = bs"
  by (auto simp: c_str_def takeWhile_eq_all_conv)

text \<open>
  \<open>strchr\<close> and \<open>memchr\<close> as the index of the first occurrence; \<open>strncmp (s, p, strlen (p)) == 0\<close> for
  C strings.
\<close>

definition memchr :: "byte \<Rightarrow> bytes \<Rightarrow> nat option" where
  "memchr c s = (let i = length (takeWhile (\<lambda>b. b \<noteq> c) s) in if i < length s then Some i else None)"

definition starts_with :: "bytes \<Rightarrow> bytes \<Rightarrow> bool" where
  "starts_with s p \<longleftrightarrow> take (length p) s = p"

lemma memchr_None: "memchr c s = None \<longleftrightarrow> c \<notin> set s"
proof -
  have "length (takeWhile (\<lambda>b. b \<noteq> c) s) < length s \<longleftrightarrow> c \<in> set s"
    by (induction s) auto
  then show ?thesis by (simp add: memchr_def Let_def)
qed

lemma memchr_Some: "memchr c s = Some i \<longleftrightarrow> (\<exists>xs ys. s = xs @ c # ys \<and> c \<notin> set xs \<and> i = length xs)"
proof
  assume a: "memchr c s = Some i"
  then have i: "i = length (takeWhile (\<lambda>b. b \<noteq> c) s)" "i < length s"
    by (auto simp: memchr_def Let_def split: if_splits)
  then have d: "dropWhile (\<lambda>b. b \<noteq> c) s \<noteq> []"
    by (metis append_Nil2 less_irrefl takeWhile_dropWhile_id)
  then have "hd (dropWhile (\<lambda>b. b \<noteq> c) s) = c" by (metis (mono_tags) hd_dropWhile)
  with d have "s = takeWhile (\<lambda>b. b \<noteq> c) s @ c # tl (dropWhile (\<lambda>b. b \<noteq> c) s)"
    by (metis list.collapse takeWhile_dropWhile_id)
  moreover have "c \<notin> set (takeWhile (\<lambda>b. b \<noteq> c) s)" by (auto dest: set_takeWhileD)
  ultimately show "\<exists>xs ys. s = xs @ c # ys \<and> c \<notin> set xs \<and> i = length xs" using i by blast
next
  assume "\<exists>xs ys. s = xs @ c # ys \<and> c \<notin> set xs \<and> i = length xs"
  then obtain xs ys where "s = xs @ c # ys" "c \<notin> set xs" "i = length xs" by blast
  moreover have "takeWhile (\<lambda>b. b \<noteq> c) (xs @ c # ys) = xs"
    using \<open>c \<notin> set xs\<close> by (induction xs) auto
  ultimately show "memchr c s = Some i" by (simp add: memchr_def)
qed

lemma memchr_append: "c \<notin> set xs \<Longrightarrow> memchr c (xs @ c # ys) = Some (length xs)"
  by (auto simp: memchr_Some)

lemma starts_with_iff: "starts_with s p \<longleftrightarrow> (\<exists>t. s = p @ t)"
  by (metis append_eq_conv_conj append_take_drop_id starts_with_def)

section \<open>Lists\<close>

lemma takeWhile_dropWhile_length:
  "length (takeWhile P xs) + length (dropWhile P xs) = length xs"
  by (metis length_append takeWhile_dropWhile_id)

lemma list_all_take: "list_all P xs \<Longrightarrow> list_all P (take n xs)"
  by (auto simp: list_all_iff dest: in_set_takeD)

lemma find_key_iff:
  "distinct (map f xs) \<Longrightarrow> find (\<lambda>y. f y = k) xs = Some x \<longleftrightarrow> x \<in> set xs \<and> f x = k"
  by (induction xs) auto

lemma list_all_drop: "list_all P xs \<Longrightarrow> list_all P (drop n xs)"
  by (auto simp: list_all_iff dest: in_set_dropD)

text \<open>Two buffers are equal when they agree on consecutive slices that cover them.\<close>

fun chop :: "nat list \<Rightarrow> 'a list \<Rightarrow> 'a list list" where
  "chop [] xs = []"
| "chop (w # ws) xs = take w xs # chop ws (drop w xs)"

lemma concat_chop: "sum_list ws = length xs \<Longrightarrow> concat (chop ws xs) = xs"
  by (induction ws arbitrary: xs) auto

lemma chop_eqI:
  assumes "chop ws xs = chop ws ys" "sum_list ws = length xs" "sum_list ws = length ys"
  shows "xs = ys"
  using assms concat_chop by metis

section \<open>Loops that may stop with an error\<close>

text \<open>
  A loop that reads one item per turn and stops at the first error; a turn sees the items read so
  far. \<open>sum_bind\<close> continues only after a success.
\<close>

fun for_each :: "('a list \<Rightarrow> 'b \<Rightarrow> 'e + 'a) \<Rightarrow> 'a list \<Rightarrow> 'b list \<Rightarrow> 'e + 'a list" where
  "for_each f out [] = Inr out"
| "for_each f out (i # is) =
     (case f out i of Inl e \<Rightarrow> Inl e | Inr a \<Rightarrow> for_each f (out @ [a]) is)"

definition sum_bind :: "'e + 'a \<Rightarrow> ('a \<Rightarrow> 'e + 'b) \<Rightarrow> 'e + 'b" where
  "sum_bind m f = (case m of Inl e \<Rightarrow> Inl e | Inr x \<Rightarrow> f x)"

definition guarded :: "bool \<Rightarrow> unit option" where
  "guarded b = (if b then Some () else None)"

text \<open>The same with a state of the caller's choice instead of the list.\<close>

fun scan_each :: "('s \<Rightarrow> 'b \<Rightarrow> 'e + 's) \<Rightarrow> 's \<Rightarrow> 'b list \<Rightarrow> 'e + 's" where
  "scan_each f s [] = Inr s"
| "scan_each f s (i # is) = (case f s i of Inl e \<Rightarrow> Inl e | Inr s' \<Rightarrow> scan_each f s' is)"

lemma guarded_Some [simp]: "guarded b = Some u \<longleftrightarrow> b"
  by (simp add: guarded_def)

lemma sum_bind_Inr [simp]: "sum_bind m f = Inr y \<longleftrightarrow> (\<exists>x. m = Inr x \<and> f x = Inr y)"
  by (cases m) (simp_all add: sum_bind_def)

lemma sum_bind_simps [simp]: "sum_bind (Inl e) f = Inl e" "sum_bind (Inr x) f = f x"
  by (simp_all add: sum_bind_def)

lemma for_each_Inr:
  "for_each f out is = Inr r \<longleftrightarrow>
     (\<exists>as. r = out @ as \<and> length as = length is
        \<and> (\<forall>k < length is. f (out @ take k as) (is ! k) = Inr (as ! k)))"
proof (induction "is" arbitrary: out)
  case (Cons i "is")
  show ?case (is "?L \<longleftrightarrow> ?R")
  proof
    assume ?L
    then obtain a where a: "f out i = Inr a" "for_each f (out @ [a]) is = Inr r"
      by (auto split: sum.splits)
    with Cons.IH obtain as where as: "r = (out @ [a]) @ as" "length as = length is"
      "\<forall>k < length is. f ((out @ [a]) @ take k as) (is ! k) = Inr (as ! k)" by blast
    have "f (out @ take k (a # as)) ((i # is) ! k) = Inr ((a # as) ! k)" if "k < length (i # is)" for k
      using that a(1) as(3) by (cases k) auto
    with as show ?R by (intro exI [of _ "a # as"]) simp
  next
    assume ?R
    then obtain as where as: "r = out @ as" "length as = Suc (length is)"
      "\<forall>k < Suc (length is). f (out @ take k as) ((i # is) ! k) = Inr (as ! k)" by auto
    then obtain a as' where c: "as = a # as'" "length as' = length is" by (cases as) auto
    from as(3) c have "f out i = Inr a" by (metis append_Nil2 nth_Cons_0 take0 zero_less_Suc)
    moreover have "f ((out @ [a]) @ take k as') (is ! k) = Inr (as' ! k)" if "k < length is" for k
      using as(3) [rule_format, of "Suc k"] that c by simp
    ultimately show ?L using Cons.IH [of "out @ [a]"] as(1) c by auto
  qed
qed auto

text \<open>What every turn establishes of its item, given the items before it, holds of the result.\<close>

lemma for_each_induct [consumes 1, case_names Nil snoc]:
  assumes "for_each f [] is = Inr r" "P []"
    and "\<And>out i a. P out \<Longrightarrow> i \<in> set is \<Longrightarrow> f out i = Inr a \<Longrightarrow> P (out @ [a])"
  shows "P r"
proof -
  have "P r" if "for_each f out js = Inr r" "P out" "set js \<subseteq> set is" for out js
    using that by (induction js arbitrary: out) (auto intro: assms(3) split: sum.splits)
  with assms(1,2) show ?thesis by blast
qed

lemma scan_each_induct [consumes 2, case_names step]:
  assumes "scan_each f s is = Inr s'" "P s"
    and step: "\<And>s i s'. P s \<Longrightarrow> i \<in> set is \<Longrightarrow> f s i = Inr s' \<Longrightarrow> P s'"
  shows "P s'"
proof -
  have "P s'" if "scan_each f s js = Inr s'" "P s" "set js \<subseteq> set is" for s js
    using that
  proof (induction js arbitrary: s)
    case (Cons j js)
    then obtain s1 where s1: "f s j = Inr s1" "scan_each f s1 js = Inr s'" by (auto split: sum.splits)
    with Cons.prems step [of s j s1] have "P s1" by simp
    with s1 Cons show ?case by simp
  qed simp
  with assms(1,2) show ?thesis by blast
qed

text \<open>The same over the indices \<open>0..<n\<close>, which count the turns.\<close>

lemma for_each_upt [consumes 1, case_names Nil snoc]:
  assumes "for_each f [] [0..<n] = Inr r" "P []"
    and step: "\<And>out a. P out \<Longrightarrow> length out < n \<Longrightarrow> f out (length out) = Inr a \<Longrightarrow> P (out @ [a])"
  shows "P r"
proof -
  from assms(1) have l: "length r = n" and f: "\<And>k. k < n \<Longrightarrow> f (take k r) k = Inr (r ! k)"
    by (auto simp: for_each_Inr)
  have "P (take k r)" if "k \<le> n" for k
    using that
  proof (induction k)
    case (Suc k)
    then show ?case using step [of "take k r" "r ! k"] f [of k] l by (simp add: take_Suc_conv_app_nth)
  qed (simp add: assms(2))
  then show ?thesis using l by fastforce
qed

lemma scan_each_upt [consumes 2, case_names step]:
  assumes "scan_each f s [0..<n] = Inr r" "P 0 s"
    and step: "\<And>s i s'. P i s \<Longrightarrow> i < n \<Longrightarrow> f s i = Inr s' \<Longrightarrow> P (Suc i) s'"
  shows "P n r"
proof -
  have "P n r" if "scan_each f s [i..<n] = Inr r" "P i s" "i \<le> n" for i s
    using that
  proof (induction "n - i" arbitrary: i s)
    case (Suc d)
    then obtain s1 where s1: "f s i = Inr s1" "scan_each f s1 [Suc i..<n] = Inr r"
      by (auto simp: upt_conv_Cons split: sum.splits)
    from Suc.hyps(2) have "i < n" "d = n - Suc i" by simp_all
    then show ?case using Suc.hyps(1) [of "Suc i" s1] s1 step [of i s s1] Suc.prems by simp
  qed simp
  with assms(1,2) show ?thesis by simp
qed

text \<open>Appending to a sorted list needs a comparison with its last item only.\<close>

lemma sorted_wrt_snoc:
  "transp R \<Longrightarrow> sorted_wrt R (xs @ [x]) \<longleftrightarrow> sorted_wrt R xs \<and> (xs = [] \<or> R (last xs) x)"
  by (cases xs rule: rev_cases) (auto simp: sorted_wrt_append dest: transpD)

lemma for_each_error:
  assumes "for_each f out is = Inl e"
  shows "\<exists>out i. i \<in> set is \<and> f out i = Inl e"
  using assms
proof (induction "is" arbitrary: out)
  case (Cons i "is")
  then show ?case by (cases "f out i") force+
qed simp

lemma scan_each_error:
  assumes "scan_each f s is = Inl e"
  shows "\<exists>s i. i \<in> set is \<and> f s i = Inl e"
  using assms
proof (induction "is" arbitrary: s)
  case (Cons i "is")
  then show ?case by (cases "f s i") force+
qed simp

lemma for_each_length: "for_each f out is = Inr r \<Longrightarrow> length r = length out + length is"
  by (auto simp: for_each_Inr)

lemma sorted_wrt_map_snoc:
  "transp R \<Longrightarrow> sorted_wrt R (map f xs @ [y]) \<longleftrightarrow> sorted_wrt R (map f xs) \<and> (xs = [] \<or> R (f (last xs)) y)"
  by (cases xs rule: rev_cases) (auto simp: sorted_wrt_append dest: transpD)

section \<open>Buffers\<close>

text \<open>
  \<open>get_bytes\<close> is the range \<open>[off, off + n)\<close> of a buffer, \<open>put_bytes\<close> overwrites the range that
  starts at \<open>off\<close> (\<open>memcpy (buf + off, bs, n)\<close>).
\<close>

definition get_bytes :: "'a list \<Rightarrow> nat \<Rightarrow> nat \<Rightarrow> 'a list" where
  "get_bytes buf off n = take n (drop off buf)"

definition put_bytes :: "'a list \<Rightarrow> nat \<Rightarrow> 'a list \<Rightarrow> 'a list" where
  "put_bytes buf off bs = take off buf @ bs @ drop (off + length bs) buf"

lemma length_put_bytes [simp]:
  "off + length bs \<le> length buf \<Longrightarrow> length (put_bytes buf off bs) = length buf"
  by (simp add: put_bytes_def)

lemma length_get_bytes [simp]:
  "off + n \<le> length buf \<Longrightarrow> length (get_bytes buf off n) = n"
  by (simp add: get_bytes_def)

lemma get_put_same [buffer_simps]:
  "off + length bs \<le> length buf \<Longrightarrow> n = length bs \<Longrightarrow>
   get_bytes (put_bytes buf off bs) off n = bs"
  by (simp add: get_bytes_def put_bytes_def)

lemma get_put_before [buffer_simps]:
  "off' + length bs \<le> length buf \<Longrightarrow> off + n \<le> off' \<Longrightarrow>
   get_bytes (put_bytes buf off' bs) off n = get_bytes buf off n"
  by (simp add: get_bytes_def put_bytes_def drop_take)

lemma get_put_after [buffer_simps]:
  assumes "off' + length bs \<le> length buf" "off' + length bs \<le> off"
  shows "get_bytes (put_bytes buf off' bs) off n = get_bytes buf off n"
proof -
  have "drop off (put_bytes buf off' bs)
      = drop (off - off' - length bs) (drop (off' + length bs) buf)"
    using assms by (simp add: put_bytes_def)
  also have "\<dots> = drop off buf"
    using assms by (simp add: add.commute add.left_commute)
  finally show ?thesis by (simp add: get_bytes_def)
qed

lemma get_bytes_replicate [buffer_simps]:
  "off + n \<le> k \<Longrightarrow> get_bytes (replicate k x) off n = replicate n x"
  by (simp add: get_bytes_def)

lemma get_bytes_nest [buffer_simps]:
  "off + n \<le> k \<Longrightarrow> get_bytes (get_bytes buf o' k) off n = get_bytes buf (o' + off) n"
  by (simp add: get_bytes_def drop_take add.commute)

lemma get_bytes_single: "off < length buf \<Longrightarrow> get_bytes buf off 1 = [buf ! off]"
  by (simp add: get_bytes_def take_Suc_conv_app_nth hd_drop_conv_nth
      take_Suc hd_conv_nth)

lemma get_bytes_zero: "get_bytes buf 0 n = take n buf"
  by (simp add: get_bytes_def)

lemma nth_get_bytes: "i < n \<Longrightarrow> off + n \<le> length buf \<Longrightarrow> get_bytes buf off n ! i = buf ! (off + i)"
  by (simp add: get_bytes_def)

lemma chop_get_bytes:
  "off \<le> length buf \<Longrightarrow> chop (w # ws) (drop off buf) = get_bytes buf off w # chop ws (drop (off + w) buf)"
  by (simp add: get_bytes_def add.commute)

text \<open>
  A serializer is a list of such writes. \<open>layout\<close> says that they come in increasing order,
  do not overlap and end within the buffer.
\<close>

fun write_all :: "'a list \<Rightarrow> (nat \<times> 'a list) list \<Rightarrow> 'a list" where
  "write_all buf [] = buf"
| "write_all buf ((off, bs) # ws) = write_all (put_bytes buf off bs) ws"

fun layout :: "nat \<Rightarrow> nat \<Rightarrow> (nat \<times> 'a list) list \<Rightarrow> bool" where
  "layout lo n [] = (lo \<le> n)"
| "layout lo n ((off, bs) # ws) = (lo \<le> off \<and> layout (off + length bs) n ws)"

lemma layout_le: "layout lo n ws \<Longrightarrow> lo \<le> n"
  by (induction lo n ws rule: layout.induct) auto

lemma length_write_all [simp]:
  "layout lo n ws \<Longrightarrow> length buf = n \<Longrightarrow> length (write_all buf ws) = n"
  by (induction lo n ws arbitrary: buf rule: layout.induct) (auto dest: layout_le)

lemma write_all_before:
  "layout lo n ws \<Longrightarrow> length buf = n \<Longrightarrow> off + k \<le> lo \<Longrightarrow>
   get_bytes (write_all buf ws) off k = get_bytes buf off k"
proof (induction lo n ws arbitrary: buf rule: layout.induct)
  case (2 lo n o' bs ws)
  then have "o' + length bs \<le> n" by (auto dest: layout_le)
  with 2 show ?case by (simp add: get_put_before)
qed simp

lemma write_all_get:
  "layout lo n ws \<Longrightarrow> length buf = n \<Longrightarrow> (off, bs) \<in> set ws \<Longrightarrow> k = length bs \<Longrightarrow>
   get_bytes (write_all buf ws) off k = bs"
proof (induction lo n ws arbitrary: buf rule: layout.induct)
  case (2 lo n o' bs' ws)
  then have fit: "o' + length bs' \<le> n" by (auto dest: layout_le)
  show ?case
  proof (cases "(off, bs) \<in> set ws")
    case True
    with 2 fit show ?thesis by simp
  next
    case False
    with 2 have "off = o'" "bs = bs'" by auto
    with 2 fit show ?thesis
      using write_all_before [of "o' + length bs'" n ws "put_bytes buf o' bs'" o' "length bs'"]
      by (simp add: get_put_same)
  qed
qed simp

lemma write_all_gap:
  "layout lo n ws \<Longrightarrow> length buf = n \<Longrightarrow>
   list_all (\<lambda>(o', bs). o' + length bs \<le> off \<or> off + k \<le> o') ws \<Longrightarrow>
   get_bytes (write_all buf ws) off k = get_bytes buf off k"
proof (induction lo n ws arbitrary: buf rule: layout.induct)
  case (2 lo n o' bs ws)
  then have "o' + length bs \<le> n" by (auto dest: layout_le)
  with 2 show ?case by (auto simp: get_put_before get_put_after)
qed simp

lemma write_all_append: "write_all buf (ws @ ws') = write_all (write_all buf ws) ws'"
  by (induction buf ws rule: write_all.induct) simp_all

section \<open>Little-endian integers\<close>

text \<open>
  The loops \<open>destination[i] = (value >> (8 * i)) & 0xff\<close> and
  \<open>value |= source[i] << (8 * i)\<close>, for any width.
\<close>

definition le_bytes :: "nat \<Rightarrow> 'a::len word \<Rightarrow> bytes" where
  "le_bytes n v = map (\<lambda>i. ucast (drop_bit (8 * i) v AND 0xff)) [0..<n]"

fun le_value_from :: "nat \<Rightarrow> bytes \<Rightarrow> 'a::len word \<Rightarrow> 'a word" where
  "le_value_from i [] v = v"
| "le_value_from i (b # bs) v = le_value_from (Suc i) bs (v OR push_bit (8 * i) (ucast b))"

definition le_value :: "bytes \<Rightarrow> 'a::len word" where
  "le_value bs = le_value_from 0 bs 0"

lemma length_le_bytes [simp]: "length (le_bytes n v) = n"
  by (simp add: le_bytes_def)

lemma bit_le_byte:
  "bit (ucast (drop_bit (8 * i) v AND (0xff :: 'a::len word)) :: byte) k
     \<longleftrightarrow> k < 8 \<and> bit v (8 * i + k)"
proof -
  have m: "(0xff :: 'a word) = mask 8" by (simp add: mask_eq_exp_minus_1)
  show ?thesis
    unfolding m
    by (auto simp: bit_simps ac_simps dest: bit_imp_le_length)
qed

lemma bit_le_value_from:
  "bit (le_value_from i bs v :: 'a::len word) k \<longleftrightarrow>
     bit v k \<or> (k < LENGTH('a) \<and> 8 * i \<le> k \<and> k < 8 * (i + length bs)
                 \<and> bit (bs ! ((k - 8 * i) div 8)) ((k - 8 * i) mod 8))"
proof (induction i bs v rule: le_value_from.induct)
  case (1 i v)
  then show ?case by auto
next
  case (2 i b bs v)
  let ?R = "k < LENGTH('a) \<and> 8 * i \<le> k \<and> k < 8 * (i + Suc (length bs))
            \<and> bit ((b # bs) ! ((k - 8 * i) div 8)) ((k - 8 * i) mod 8)"
  have b0: "bit (push_bit (8 * i) (ucast b) :: 'a word) k
        \<longleftrightarrow> k < LENGTH('a) \<and> 8 * i \<le> k \<and> k < 8 * i + 8 \<and> bit b (k - 8 * i)"
    by (auto simp: bit_simps dest: bit_imp_le_length)
  show ?case
  proof (cases "8 * i + 8 \<le> k")
    case True
    then have "(k - 8 * i) div 8 = Suc ((k - 8 * Suc i) div 8)"
      and "(k - 8 * i) mod 8 = (k - 8 * Suc i) mod 8"
      by (auto simp: le_div_geq le_mod_geq add.commute)
    with True 2 b0 show ?thesis by (auto simp: bit_or_iff)
  next
    case False
    then have "8 * i \<le> k \<Longrightarrow> (k - 8 * i) div 8 = 0 \<and> (k - 8 * i) mod 8 = k - 8 * i"
      by auto
    with False 2 b0 show ?thesis by (auto simp: bit_or_iff)
  qed
qed

lemma bit_le_value:
  "bit (le_value bs :: 'a::len word) k \<longleftrightarrow>
     k < LENGTH('a) \<and> k < 8 * length bs \<and> bit (bs ! (k div 8)) (k mod 8)"
  by (auto simp: le_value_def bit_le_value_from)

lemma le_value_le_bytes:
  "LENGTH('a) = 8 * n \<Longrightarrow> le_value (le_bytes n (v :: 'a::len word)) = v"
proof (rule bit_word_eqI)
  fix k assume l: "LENGTH('a) = 8 * n" and k: "k < LENGTH('a)"
  then have d: "k div 8 < n" by auto
  have "8 * (k div 8) + k mod 8 = k" by simp
  with l k d show "bit (le_value (le_bytes n v) :: 'a word) k = bit v k"
    by (simp add: bit_le_value le_bytes_def bit_le_byte)
qed

lemma le_bytes_le_value:
  assumes "LENGTH('a) = 8 * length bs"
  shows "le_bytes (length bs) (le_value bs :: 'a::len word) = bs"
proof (rule nth_equalityI)
  show "length (le_bytes (length bs) (le_value bs :: 'a word)) = length bs" by simp
next
  fix i assume "i < length (le_bytes (length bs) (le_value bs :: 'a word))"
  then have i: "i < length bs" by simp
  show "le_bytes (length bs) (le_value bs :: 'a word) ! i = bs ! i"
  proof (rule bit_word_eqI)
    fix k assume k: "k < LENGTH(8)"
    then have "8 * i + k < 8 * length bs" using i by simp
    moreover have "(8 * i + k) div 8 = i" "(8 * i + k) mod 8 = k" using k by auto
    ultimately show "bit (le_bytes (length bs) (le_value bs :: 'a word) ! i) k = bit (bs ! i) k"
      using i k assms by (simp add: le_bytes_def bit_le_byte bit_le_value)
  qed
qed

section \<open>Exclusive or\<close>

lemma xor_right_cancel [simp]: "a XOR c = b XOR c \<longleftrightarrow> a = (b :: 'a::len word)"
proof
  assume "a XOR c = b XOR c"
  then have "(a XOR c) XOR c = (b XOR c) XOR c" by (rule arg_cong)
  then show "a = b" by (simp only: xor.assoc xor_self_eq xor.right_neutral)
qed simp

lemma xor_left_cancel [simp]: "c XOR a = c XOR b \<longleftrightarrow> a = (b :: 'a::len word)"
  using xor_right_cancel [of a c b] by (simp only: xor.commute)

section \<open>Checked unsigned arithmetic\<close>

text \<open>
  The overflow guard \<open>right > UINT64_MAX - left\<close> that the sources place before an addition is
  exactly the condition under which the addition is exact.
\<close>

lemma word_add_guard:
  fixes a b :: "'a::len word"
  shows "b \<le> - 1 - a \<longleftrightarrow> unat a + unat b < 2 ^ LENGTH('a)"
proof -
  have "unat (- 1 - a) = 2 ^ LENGTH('a) - 1 - unat a"
    by (simp add: unat_sub unsigned_minus_1_eq_mask mask_eq_exp_minus_1)
  moreover have "unat a < 2 ^ LENGTH('a)" by simp
  ultimately show ?thesis
    unfolding word_le_nat_alt by linarith
qed

lemma unat_add_exact:
  fixes a b :: "'a::len word"
  shows "unat a + unat b < 2 ^ LENGTH('a) \<Longrightarrow> unat (a + b) = unat a + unat b"
  by (simp add: unat_word_ariths)

text \<open>
  The guard \<open>parsed > (UINT64_MAX - digit) / base\<close> in front of \<open>parsed * base + digit\<close>.
\<close>

lemma word_digit_guard:
  fixes a b d :: "'a::len word"
  assumes "b \<noteq> 0"
  shows "a \<le> (- 1 - d) div b \<longleftrightarrow> unat a * unat b + unat d < 2 ^ LENGTH('a)"
proof -
  have b: "0 < unat b" using assms by (simp add: unat_gt_0)
  have d: "unat d < 2 ^ LENGTH('a)" by simp
  have "unat (- 1 - d) = 2 ^ LENGTH('a) - 1 - unat d"
    by (simp add: unat_sub unsigned_minus_1_eq_mask mask_eq_exp_minus_1)
  then have "a \<le> (- 1 - d) div b \<longleftrightarrow> unat a \<le> (2 ^ LENGTH('a) - 1 - unat d) div unat b"
    by (simp only: word_le_nat_alt unat_div_distrib)
  also have "\<dots> \<longleftrightarrow> unat a * unat b \<le> 2 ^ LENGTH('a) - 1 - unat d"
    by (rule less_eq_div_iff_mult_less_eq [OF b])
  also have "\<dots> \<longleftrightarrow> unat a * unat b + unat d < 2 ^ LENGTH('a)"
    using d by linarith
  finally show ?thesis .
qed

lemma word_digit_exact:
  fixes a b d :: "'a::len word"
  assumes "unat a * unat b + unat d < 2 ^ LENGTH('a)"
  shows "unat (a * b + d) = unat a * unat b + unat d"
proof -
  have "unat (a * b) = unat a * unat b" using assms by (simp add: unat_word_ariths)
  then show ?thesis using assms unat_add_exact [of "a * b" d] by simp
qed

lemma unat_of_nat_small: "n < 2 ^ LENGTH('a) \<Longrightarrow> unat (of_nat n :: 'a::len word) = n"
  by (simp add: unat_of_nat)


section \<open>Decimal digit strings\<close>

definition is_digit :: "byte \<Rightarrow> bool" where
  "is_digit c \<longleftrightarrow> ch CHR ''0'' \<le> c \<and> c \<le> ch CHR ''9''"

definition digit_value :: "byte \<Rightarrow> nat" where
  "digit_value c = unat (c - ch CHR ''0'')"

fun decimal_value :: "bytes \<Rightarrow> nat \<Rightarrow> nat" where
  "decimal_value [] v = v"
| "decimal_value (c # cs) v = decimal_value cs (v * 10 + digit_value c)"

lemma decimal_value_mono: "v \<le> decimal_value cs v"
proof (induction cs arbitrary: v)
  case (Cons c cs)
  have "v \<le> v * 10 + digit_value c" by simp
  also have "\<dots> \<le> decimal_value (c # cs) v" using Cons by simp
  finally show ?case .
qed simp

lemma is_digit_guard: "c < ch CHR ''0'' \<or> c > ch CHR ''9'' \<longleftrightarrow> \<not> is_digit c"
  by (auto simp: is_digit_def)

lemma decimal_step:
  fixes v :: u64
  shows "v > (- 1 - ucast (c - ch CHR ''0'')) div 10 \<longleftrightarrow> 2 ^ 64 \<le> unat v * 10 + digit_value c" (is ?A)
    and "unat v * 10 + digit_value c < 2 ^ 64 \<Longrightarrow>
      unat (v * 10 + ucast (c - ch CHR ''0'')) = unat v * 10 + digit_value c" (is "?B \<Longrightarrow> ?C")
proof -
  define d :: u64 where "d = ucast (c - ch CHR ''0'')"
  have d: "unat d = digit_value c"
    using unsigned_less [of "c - ch CHR ''0''", where 'a = nat]
    by (simp add: d_def digit_value_def unsigned_ucast_eq take_bit_nat_eq_self)
  show ?A
    using word_digit_guard [of 10 v d] d unfolding d_def [symmetric] linorder_not_le [symmetric] by simp
  show ?C if ?B
    using word_digit_exact [of v 10 d] d that unfolding d_def [symmetric] by simp
qed

text \<open>A digit string whose value does not fit 64 bits after its first digit never fits.\<close>

lemma decimal_value_too_big:
  fixes n :: u64
  shows "2 ^ 64 \<le> unat v * 10 + digit_value c \<Longrightarrow> unat n \<noteq> decimal_value (c # cs) (unat v)"
  using decimal_value_mono [of "unat v * 10 + digit_value c" cs] unsigned_less [of n, where 'a = nat]
  by simp

section \<open>Recording calls\<close>

text \<open>An operation on a machine state that also records its call and its answer.\<close>

definition traced :: "('r \<Rightarrow> 'e) \<Rightarrow> ('w \<Rightarrow> 'r \<times> 'w) \<Rightarrow> 'w \<times> 'e list \<Rightarrow> 'r \<times> 'w \<times> 'e list" where
  "traced ev f = (\<lambda>(w, l). case f w of (r, w') \<Rightarrow> (r, w', l @ [ev r]))"

lemma traced_iff: "traced ev f (w, l) = (r, w', l') \<longleftrightarrow> f w = (r, w') \<and> l' = l @ [ev r]"
  by (auto simp: traced_def split: prod.split)

lemma tracedE:
  assumes "traced ev f wl = (r, wl')"
  obtains w' where "f (fst wl) = (r, w')" "wl' = (w', snd wl @ [ev r])"
  using assms by (cases wl) (auto simp: traced_def split: prod.splits)

end
