(* ===== verification/Update_Policy.thy ===== *)
theory Update_Policy
  imports Update_Prelude
begin

text \<open>
  \<open>update_types.cpp\<close> and \<open>update_policy.cpp\<close>: the board families, the rule that only a confirmed
  menu action may start discovery, and the rule that decides whether an authenticated release
  may replace the installed one. Enumerations that are read back from raw bytes by a
  \<open>static_cast\<close> carry one extra constructor for the values outside the enumeration.
\<close>

section \<open>Board families and channels\<close>

datatype BoardFamily = BoardUnknown | Pi4Pi400 | Pi5Pi500 | BoardOther u8

datatype ReleaseChannel = ChannelUnknown | Stable | Prerelease

fun BoardFamily_byte :: "BoardFamily \<Rightarrow> u8" where
  "BoardFamily_byte BoardUnknown = 0"
| "BoardFamily_byte Pi4Pi400 = 1"
| "BoardFamily_byte Pi5Pi500 = 2"
| "BoardFamily_byte (BoardOther b) = b"

definition BoardFamily_of_byte :: "u8 \<Rightarrow> BoardFamily" where
  "BoardFamily_of_byte b =
     (if b = 0 then BoardUnknown else if b = 1 then Pi4Pi400
      else if b = 2 then Pi5Pi500 else BoardOther b)"

definition IsKnownBoardFamily :: "BoardFamily \<Rightarrow> bool" where
  "IsKnownBoardFamily board \<longleftrightarrow> board = Pi4Pi400 \<or> board = Pi5Pi500"

lemma BoardFamily_byte_of_byte [simp]: "BoardFamily_byte (BoardFamily_of_byte b) = b"
  by (simp add: BoardFamily_of_byte_def)

lemma BoardFamily_of_byte_known [simp]:
  "IsKnownBoardFamily board \<Longrightarrow> BoardFamily_of_byte (BoardFamily_byte board) = board"
  by (auto simp: IsKnownBoardFamily_def BoardFamily_of_byte_def)

lemma BoardFamily_of_byte_0 [simp]: "BoardFamily_of_byte 0 = BoardUnknown"
  by (simp add: BoardFamily_of_byte_def)

section \<open>Starting discovery\<close>

datatype UpdateInvocation =
    InvocationUnknown
  | ConfirmedUpdateMenuAction
  | Boot
  | EmulatorStart
  | NetworkEnabled
  | NetworkBecameReady
  | MenuOpened
  | MenuIdle
  | Timer
  | LocalRecovery

record UpdateStartContext =
  invocation :: UpdateInvocation
  network_feature_enabled :: bool
  network_ready :: bool

datatype UpdateStartDecision =
    Allowed | NotExplicitUserAction | NetworkFeatureDisabled | NetworkNotReady

definition EvaluateUpdateStart :: "UpdateStartContext \<Rightarrow> UpdateStartDecision" where
  "EvaluateUpdateStart ctx =
     (if invocation ctx \<noteq> ConfirmedUpdateMenuAction then NotExplicitUserAction
      else if \<not> network_feature_enabled ctx then NetworkFeatureDisabled
      else if \<not> network_ready ctx then NetworkNotReady
      else Allowed)"

section \<open>Accepting a release\<close>

datatype ReleaseSource = SourceUnknown | GitHubLatestKdreBmx | SourceOther

record InstalledRelease =
  has_update_metadata :: bool
  installed_release_sequence :: u64
  installed_board :: BoardFamily
  updater_abi :: u32

record ReleaseCandidate =
  release_source :: ReleaseSource
  channel :: ReleaseChannel
  api_reports_draft :: bool
  api_reports_prerelease :: bool
  candidate_release_sequence :: u64
  candidate_board :: BoardFamily
  minimum_updater_abi :: u32
  maximum_updater_abi :: u32

datatype ReleaseDecision =
    UpdateAvailable
  | LegacyInstallation
  | InvalidInstalledMetadata
  | UnsupportedSource
  | NotStable
  | InvalidCandidateMetadata
  | BoardMismatch
  | UpdaterAbiMismatch
  | AlreadyCurrent
  | DowngradeDenied

definition EvaluateReleaseCandidate ::
  "InstalledRelease \<Rightarrow> ReleaseCandidate \<Rightarrow> ReleaseDecision" where
  "EvaluateReleaseCandidate inst cand =
     (if \<not> has_update_metadata inst then LegacyInstallation
      else if \<not> IsKnownBoardFamily (installed_board inst) \<or> installed_release_sequence inst = 0
              \<or> updater_abi inst = 0
        then InvalidInstalledMetadata
      else if release_source cand \<noteq> GitHubLatestKdreBmx then UnsupportedSource
      else if channel cand \<noteq> Stable \<or> api_reports_draft cand \<or> api_reports_prerelease cand
        then NotStable
      else if \<not> IsKnownBoardFamily (candidate_board cand) \<or> candidate_release_sequence cand = 0
              \<or> minimum_updater_abi cand = 0 \<or> maximum_updater_abi cand = 0
              \<or> minimum_updater_abi cand > maximum_updater_abi cand
        then InvalidCandidateMetadata
      else if candidate_board cand \<noteq> installed_board inst then BoardMismatch
      else if updater_abi inst < minimum_updater_abi cand
              \<or> updater_abi inst > maximum_updater_abi cand
        then UpdaterAbiMismatch
      else if candidate_release_sequence cand = installed_release_sequence inst
        then AlreadyCurrent
      else if candidate_release_sequence cand < installed_release_sequence inst
        then DowngradeDenied
      else UpdateAvailable)"

text \<open>
  An abstract view of the same rule: the candidate is admissible for the installation, and
  strictly newer. The code implements it as a chain of refusals.
\<close>

definition installation_managed :: "InstalledRelease \<Rightarrow> bool" where
  "installation_managed inst \<longleftrightarrow>
     has_update_metadata inst \<and> IsKnownBoardFamily (installed_board inst)
     \<and> installed_release_sequence inst \<noteq> 0 \<and> updater_abi inst \<noteq> 0"

definition candidate_published :: "ReleaseCandidate \<Rightarrow> bool" where
  "candidate_published cand \<longleftrightarrow>
     release_source cand = GitHubLatestKdreBmx \<and> channel cand = Stable
     \<and> \<not> api_reports_draft cand \<and> \<not> api_reports_prerelease cand"

definition candidate_fits :: "InstalledRelease \<Rightarrow> ReleaseCandidate \<Rightarrow> bool" where
  "candidate_fits inst cand \<longleftrightarrow>
     candidate_board cand = installed_board inst
     \<and> minimum_updater_abi cand \<noteq> 0
     \<and> updater_abi inst \<in> {minimum_updater_abi cand .. maximum_updater_abi cand}"

lemma candidate_abi_bounds:
  "minimum_updater_abi cand \<le> updater_abi inst \<Longrightarrow> updater_abi inst \<le> maximum_updater_abi cand \<Longrightarrow>
   updater_abi inst \<noteq> 0 \<Longrightarrow>
   maximum_updater_abi cand \<noteq> 0 \<and> minimum_updater_abi cand \<le> maximum_updater_abi cand"
  by (auto dest: order_trans)

lemma newer_sequence_nonzero: "(a :: u64) < b \<Longrightarrow> b \<noteq> 0"
  by auto

text \<open>
  Discovery is allowed exactly when the user confirmed the menu action and the network is
  both enabled and ready; every other invocation (boot, timer, menu, network event, recovery,
  unknown) is refused.
\<close>

theorem EvaluateUpdateStart_allowed_iff:
  "EvaluateUpdateStart ctx = Allowed \<longleftrightarrow>
     invocation ctx = ConfirmedUpdateMenuAction \<and> network_feature_enabled ctx \<and> network_ready ctx"
  by (simp add: EvaluateUpdateStart_def)

text \<open>
  (C18) The chain of refusals implements the specification: an update is offered exactly when
  the installation is managed, the candidate is a published stable release of the pinned
  repository, it fits the board and the updater ABI window, and its release sequence is strictly
  greater than the installed one. In particular no downgrade or reinstallation is ever offered.
\<close>

theorem EvaluateReleaseCandidate_available_iff:
  "EvaluateReleaseCandidate inst cand = UpdateAvailable \<longleftrightarrow>
     installation_managed inst \<and> candidate_published cand \<and> candidate_fits inst cand
     \<and> installed_release_sequence inst < candidate_release_sequence cand"
proof -
  have ne: "installed_release_sequence inst < candidate_release_sequence cand \<Longrightarrow>
      candidate_release_sequence cand \<noteq> 0"
    by (rule newer_sequence_nonzero)
  show ?thesis
    using ne candidate_abi_bounds [of cand inst]
    by (auto simp: EvaluateReleaseCandidate_def installation_managed_def candidate_published_def
        candidate_fits_def not_less)
qed

end
