(* ===== verification/Crc32.thy ===== *)
theory Crc32
  imports Update_Prelude
begin

text \<open>
  \<open>crc32.cpp\<close>: the bitwise CRC-32 that guards the journal, the transaction records and the local
  log against torn writes. The bit loop is shown to be an injective linear map of the register,
  from which the detection theorem follows: two messages that differ only inside a window of
  four consecutive bytes never have the same checksum. The locales \<open>window_checksum\<close> and
  \<open>framed_checksum\<close> are the interface a framed record relies on.
\<close>

section \<open>The algorithm\<close>

definition crc_bit :: "u32 \<Rightarrow> u32" where
  "crc_bit crc = (let mask = - (crc AND 1) in drop_bit 1 crc XOR (0xedb88320 AND mask))"

fun crc_bits :: "nat \<Rightarrow> u32 \<Rightarrow> u32" where
  "crc_bits 0 crc = crc"
| "crc_bits (Suc n) crc = crc_bits n (crc_bit crc)"

fun crc_run :: "u32 \<Rightarrow> bytes \<Rightarrow> u32" where
  "crc_run crc [] = crc"
| "crc_run crc (b # bs) = crc_run (crc_bits 8 (crc XOR ucast b)) bs"

definition CalculateCrc32 :: "byte_view \<Rightarrow> u32" where
  "CalculateCrc32 v =
     (if view_null v \<and> view_size v \<noteq> 0 then 0
      else crc_run 0xffffffff (view_bytes v) XOR 0xffffffff)"

section \<open>The bit step is linear and injective\<close>

lemma crc_bit_cases: "crc_bit c = (if odd c then drop_bit 1 c XOR 0xedb88320 else drop_bit 1 c)"
  by (auto simp: crc_bit_def Let_def and_one_eq odd_iff_mod_2_eq_one even_iff_mod_2_eq_zero)

lemma odd_xor_word: "odd (a XOR b) \<longleftrightarrow> (odd a \<noteq> odd (b :: u32))"
  using bit_xor_iff [of a b 0] by (simp add: bit_0)

lemma crc_bit_xor: "crc_bit (a XOR b) = crc_bit a XOR crc_bit b"
proof -
  have d: "drop_bit 1 (a XOR b) = drop_bit 1 a XOR drop_bit 1 b"
    by (rule drop_bit_xor)
  show ?thesis
    by (cases "odd a"; cases "odd b")
       (simp_all add: crc_bit_cases odd_xor_word d xor.assoc xor.left_commute xor.commute)
qed

lemma crc_bits_xor: "crc_bits n (a XOR b) = crc_bits n a XOR crc_bits n b"
  by (induction n arbitrary: a b) (simp_all add: crc_bit_xor)

lemma crc_bit_zero: "crc_bit c = 0 \<longleftrightarrow> c = 0"
proof
  assume z: "crc_bit c = 0"
  have hi: "\<not> bit (drop_bit 1 c) 31"
    using bit_imp_le_length [of c 32] by (auto simp: bit_drop_bit_eq)
  have p: "bit (0xedb88320 :: u32) 31" by simp
  have ev: "even c"
  proof (rule ccontr)
    assume "odd c"
    then have "bit (crc_bit c) 31" using hi p by (simp add: crc_bit_cases bit_xor_iff)
    with z show False by simp
  qed
  with z have d: "drop_bit 1 c = 0" by (simp add: crc_bit_cases)
  show "c = 0"
  proof (rule bit_word_eqI)
    fix n assume "n < LENGTH(32)"
    show "bit c n = bit 0 n"
    proof (cases n)
      case 0
      with ev show ?thesis by (simp add: bit_0)
    next
      case (Suc m)
      have "bit (drop_bit 1 c) m = bit (0 :: u32) m" using d by simp
      with Suc show ?thesis by (simp add: bit_drop_bit_eq)
    qed
  qed
next
  assume "c = 0"
  then show "crc_bit c = 0" by (simp add: crc_bit_def)
qed

lemma crc_bits_zero: "crc_bits n c = 0 \<longleftrightarrow> c = 0"
  by (induction n arbitrary: c) (simp_all add: crc_bit_zero)

lemma crc_bits_inj: "crc_bits n a = crc_bits n b \<longleftrightarrow> a = b"
proof
  assume "crc_bits n a = crc_bits n b"
  then have "crc_bits n (a XOR b) = 0" by (simp add: crc_bits_xor)
  then have "a XOR b = 0" by (simp add: crc_bits_zero)
  then have "a XOR b = b XOR b" by simp
  then show "a = b" by (simp only: xor_right_cancel)
qed simp

lemma crc_bits_add: "crc_bits (m + n) c = crc_bits n (crc_bits m c)"
  by (induction m arbitrary: c) simp_all

lemma crc_run_append: "crc_run c (xs @ ys) = crc_run (crc_run c xs) ys"
  by (induction xs arbitrary: c) simp_all

lemma crc_run_inj: "crc_run a bs = crc_run b bs \<Longrightarrow> a = b"
proof (induction bs arbitrary: a b)
  case (Cons x bs)
  from Cons.prems have "crc_run (crc_bits 8 (a XOR ucast x)) bs = crc_run (crc_bits 8 (b XOR ucast x)) bs"
    by (simp only: crc_run.simps)
  then have "crc_bits 8 (a XOR ucast x) = crc_bits 8 (b XOR ucast x)" by (rule Cons.IH)
  then show ?case by (simp only: crc_bits_inj xor_right_cancel)
qed simp

section \<open>A run of up to four bytes as one register step\<close>

lemma crc_bits_push:
  "k \<le> 32 \<Longrightarrow> (\<forall>i. bit w i \<longrightarrow> i + k < 32) \<Longrightarrow> crc_bits k (push_bit k w) = w"
proof (induction k)
  case 0
  then show ?case by simp
next
  case (Suc k)
  have "even (push_bit (Suc k) w)"
    by (simp add: push_bit_Suc)
  moreover have "drop_bit 1 (push_bit (Suc k) w) = push_bit k w"
  proof (rule bit_word_eqI)
    fix n assume "n < LENGTH(32)"
    show "bit (drop_bit 1 (push_bit (Suc k) w)) n = bit (push_bit k w) n"
      using Suc.prems
      by (cases "n = 31")
         (auto simp: bit_simps simp del: push_bit_Suc dest: bit_imp_le_length)
  qed
  ultimately have "crc_bit (push_bit (Suc k) w) = push_bit k w"
    by (simp add: crc_bit_cases)
  moreover have "crc_bits k (push_bit k w) = w"
    using Suc.prems by (intro Suc.IH) fastforce+
  ultimately show ?case by simp
qed

lemma bit_le_value_len: "bit (le_value bs :: u32) i \<Longrightarrow> i < 8 * length bs"
  by (simp add: bit_le_value)

lemma le_value_Cons:
  "length bs \<le> 3 \<Longrightarrow> (le_value (b # bs) :: u32) = ucast b XOR push_bit 8 (le_value bs)"
proof (rule bit_word_eqI)
  fix n assume l: "length bs \<le> 3" and n: "n < LENGTH(32)"
  show "bit (le_value (b # bs) :: u32) n = bit (ucast b XOR push_bit 8 (le_value bs) :: u32) n"
  proof (cases "n < 8")
    case True
    then show ?thesis using n by (auto simp: bit_le_value bit_simps)
  next
    case False
    then have "n div 8 = Suc ((n - 8) div 8)" "n mod 8 = (n - 8) mod 8"
      by (auto simp: le_div_geq le_mod_geq)
    then show ?thesis using False n l
      by (auto simp: bit_le_value bit_simps dest: bit_imp_le_length)
  qed
qed

lemma crc_run_window:
  "length bs \<le> 4 \<Longrightarrow> crc_run c bs = crc_bits (8 * length bs) (c XOR le_value bs)"
proof (induction bs arbitrary: c)
  case Nil
  then show ?case by (simp add: le_value_def)
next
  case (Cons b bs)
  then have l: "length bs \<le> 3" by simp
  let ?V = "le_value bs :: u32"
  have p: "crc_bits 8 (push_bit 8 ?V) = ?V"
  proof (rule crc_bits_push)
    show "\<forall>i. bit ?V i \<longrightarrow> i + 8 < 32"
    proof (intro allI impI)
      fix i assume "bit ?V i"
      then have "i < 8 * length bs" by (rule bit_le_value_len)
      with l show "i + 8 < 32" by linarith
    qed
  qed simp
  have "crc_run c (b # bs) = crc_bits (8 * length bs) (crc_bits 8 (c XOR ucast b) XOR ?V)"
    using Cons by simp
  also have "crc_bits 8 (c XOR ucast b) XOR ?V = crc_bits 8 (c XOR ucast b XOR push_bit 8 ?V)"
    using p by (simp only: crc_bits_xor xor.assoc)
  also have "c XOR ucast b XOR push_bit 8 ?V = c XOR le_value (b # bs)"
    using l by (simp only: le_value_Cons xor.assoc)
  finally show ?case by (simp only: crc_bits_add [symmetric] length_Cons mult_Suc_right)
qed

lemma le_value_inj:
  assumes "length a = length b" "length a \<le> 4" "(le_value a :: u32) = le_value b"
  shows "a = b"
proof (rule nth_equalityI [OF assms(1)])
  fix i assume i: "i < length a"
  show "a ! i = b ! i"
  proof (rule bit_word_eqI)
    fix k assume k: "k < LENGTH(8)"
    have "bit (le_value a :: u32) (8 * i + k) = bit (le_value b :: u32) (8 * i + k)"
      using assms(3) by simp
    moreover have "(8 * i + k) div 8 = i" "(8 * i + k) mod 8 = k" using k by auto
    moreover have "8 * i + k < 32" "8 * i + k < 8 * length a" using i k assms(2) by auto
    ultimately show "bit (a ! i) k = bit (b ! i) k"
      using assms(1) by (simp add: bit_le_value)
  qed
qed

section \<open>Detection\<close>

text \<open>
  The contract a framed record relies on: a checksum that tells apart any two messages whose
  difference is confined to a window of \<open>w\<close> consecutive bytes.
\<close>

locale window_checksum =
  fixes checksum :: "bytes \<Rightarrow> u32" and w :: nat
  assumes window_detects:
    "length a = length b \<Longrightarrow> length a \<le> w \<Longrightarrow> a \<noteq> b \<Longrightarrow>
     checksum (p @ a @ q) \<noteq> checksum (p @ b @ q)"
    and window_positive: "1 \<le> w"
begin

lemma single_byte_detects: "x \<noteq> y \<Longrightarrow> checksum (p @ x # q) \<noteq> checksum (p @ y # q)"
  using window_detects [of "[x]" "[y]" p q] window_positive by simp

lemma update_detects:
  assumes "i < length bs" "bs ! i \<noteq> x"
  shows "checksum (bs[i := x]) \<noteq> checksum bs"
proof -
  have "bs = take i bs @ bs ! i # drop (Suc i) bs"
    using assms by (simp add: id_take_nth_drop [symmetric])
  moreover have "bs[i := x] = take i bs @ x # drop (Suc i) bs"
    using assms by (simp add: upd_conv_take_nth_drop)
  ultimately show ?thesis
    using assms single_byte_detects by metis
qed

end

text \<open>
  CRC-32 detects every corruption confined to four consecutive bytes: two messages of the
  same length that agree outside such a window and differ inside it have different checksums.
\<close>

lemma crc_run_detects:
  assumes "length a = length b" "length a \<le> 4" "a \<noteq> b"
  shows "crc_run c (p @ a @ q) \<noteq> crc_run c (p @ b @ q)"
proof
  let ?c = "crc_run c p"
  assume "crc_run c (p @ a @ q) = crc_run c (p @ b @ q)"
  then have "crc_run ?c a = crc_run ?c b"
    by (metis crc_run_append crc_run_inj)
  then have "crc_bits (8 * length a) (?c XOR le_value a) = crc_bits (8 * length a) (?c XOR le_value b)"
    using assms by (metis crc_run_window)
  then have "(le_value a :: u32) = le_value b" by (simp only: crc_bits_inj xor_left_cancel)
  then show False using assms le_value_inj by blast
qed

theorem CalculateCrc32_detects_window:
  assumes "length a = length b" "length a \<le> 4" "a \<noteq> b"
  shows "CalculateCrc32 (Bytes (p @ a @ q)) \<noteq> CalculateCrc32 (Bytes (p @ b @ q))"
  using crc_run_detects [OF assms]
  by (simp only: CalculateCrc32_def view_null.simps view_bytes.simps simp_thms if_False xor_right_cancel
      not_False_eq_True)

text \<open>
  A frame is a message followed by its checksum, least significant byte first. Running the register
  over the whole frame leaves a constant exactly when the checksum is right, so that a window of
  the frame may straddle the message and the checksum.
\<close>

lemma crc_frame_residue:
  assumes "length s = 4"
  shows "le_value s = CalculateCrc32 (Bytes m)
         \<longleftrightarrow> crc_run 0xffffffff (m @ s) = crc_bits 32 0xffffffff"
proof -
  let ?c = "crc_run 0xffffffff m" and ?v = "le_value s :: u32" and ?i = "0xffffffff :: u32"
  have "?c XOR (?c XOR ?i) = ?i" by (simp only: xor.assoc [symmetric] xor_self_eq xor.left_neutral)
  then have "?v = ?c XOR ?i \<longleftrightarrow> ?c XOR ?v = ?i"
    using xor_left_cancel [of ?c ?v "?c XOR ?i"] by simp
  also have "\<dots> \<longleftrightarrow> crc_bits 32 (?c XOR ?v) = crc_bits 32 ?i" by (simp only: crc_bits_inj)
  also have "crc_bits 32 (?c XOR ?v) = crc_run ?i (m @ s)"
    using assms by (simp add: crc_run_append crc_run_window)
  finally show ?thesis by (simp add: CalculateCrc32_def)
qed

locale framed_checksum = window_checksum +
  assumes frame_detects:
    "m @ s = p @ a @ q \<Longrightarrow> m' @ s' = p @ b @ q \<Longrightarrow> length s = 4 \<Longrightarrow> length s' = 4 \<Longrightarrow>
     length a = length b \<Longrightarrow> length a \<le> w \<Longrightarrow> a \<noteq> b \<Longrightarrow>
     le_value s = checksum m \<Longrightarrow> le_value s' \<noteq> checksum m'"

interpretation crc: framed_checksum "\<lambda>bs. CalculateCrc32 (Bytes bs)" 4
proof
  fix m s p a q m' s' b :: bytes
  assume eq: "m @ s = p @ a @ q" "m' @ s' = p @ b @ q" and l: "length s = 4" "length s' = 4"
    and ab: "length a = length b" "length a \<le> 4" "a \<noteq> b"
    and ok: "le_value s = CalculateCrc32 (Bytes m)"
  have "crc_run 0xffffffff (p @ a @ q) = crc_bits 32 0xffffffff"
    using ok unfolding crc_frame_residue [OF l(1)] eq .
  with crc_run_detects [OF ab] have "crc_run 0xffffffff (p @ b @ q) \<noteq> crc_bits 32 0xffffffff"
    by metis
  then show "le_value s' \<noteq> CalculateCrc32 (Bytes m')"
    unfolding crc_frame_residue [OF l(2)] eq .
qed (simp_all add: CalculateCrc32_detects_window)

theorem CalculateCrc32_detects_window_witness:
  "CalculateCrc32 (Bytes ([1] @ [2, 3] @ [9])) \<noteq> CalculateCrc32 (Bytes ([1] @ [2, 4] @ [9]))"
  using CalculateCrc32_detects_window [of "[2, 3]" "[2, 4]" "[1]" "[9]"] by simp

lemma crc_bits_8:
  "crc_bits 8 c = crc_bit (crc_bit (crc_bit (crc_bit (crc_bit (crc_bit (crc_bit (crc_bit c)))))))"
  by (simp add: eval_nat_numeral)

text \<open>The standard check value of CRC-32.\<close>

lemma CalculateCrc32_check_value:
  "CalculateCrc32 (Bytes (ascii ''123456789'')) = 0xcbf43926"
  by (simp add: CalculateCrc32_def crc_bits_8 crc_bit_cases)

end
