(* ===== verification/Sha256_Standard.thy ===== *)
theory Sha256_Standard
  imports Complex_Main Update_Prelude
begin

text \<open>
  SHA-256 as the standard (FIPS 180-4) defines it, written down without reference to the program:
  the constants are fractional parts of square and cube roots of primes, the message schedule is a
  recurrence, the working variables are an iterated function, and bytes and words are related by
  arithmetic. \<open>sha256_spec\<close> is the digest of a message; theory \<open>Sha256\<close> proves that the streaming
  object of the program computes it.
\<close>

section \<open>Constants\<close>

text \<open>The first 64 primes, and the first 32 bits of the fractional part of a real number.\<close>

definition first_primes :: "nat list" where
  "first_primes = concat
    [[2, 3, 5, 7, 11, 13, 17, 19],
     [23, 29, 31, 37, 41, 43, 47, 53],
     [59, 61, 67, 71, 73, 79, 83, 89],
     [97, 101, 103, 107, 109, 113, 127, 131],
     [137, 139, 149, 151, 157, 163, 167, 173],
     [179, 181, 191, 193, 197, 199, 211, 223],
     [227, 229, 233, 239, 241, 251, 257, 263],
     [269, 271, 277, 281, 283, 293, 307, 311]]"

definition fraction_bits :: "real \<Rightarrow> u32" where
  "fraction_bits x = of_int \<lfloor>2 ^ 32 * frac x\<rfloor>"

definition hash_constant :: "nat \<Rightarrow> u32" where
  "hash_constant i = fraction_bits (sqrt (real (first_primes ! i)))"

definition round_constant :: "nat \<Rightarrow> u32" where
  "round_constant t = fraction_bits (root 3 (real (first_primes ! t)))"

section \<open>The compression function\<close>

type_synonym hash_value = "u32 \<times> u32 \<times> u32 \<times> u32 \<times> u32 \<times> u32 \<times> u32 \<times> u32"

definition small_sigma0 :: "u32 \<Rightarrow> u32" where
  "small_sigma0 x = word_rotr 7 x XOR word_rotr 18 x XOR drop_bit 3 x"

definition small_sigma1 :: "u32 \<Rightarrow> u32" where
  "small_sigma1 x = word_rotr 17 x XOR word_rotr 19 x XOR drop_bit 10 x"

definition big_sigma0 :: "u32 \<Rightarrow> u32" where
  "big_sigma0 x = word_rotr 2 x XOR word_rotr 13 x XOR word_rotr 22 x"

definition big_sigma1 :: "u32 \<Rightarrow> u32" where
  "big_sigma1 x = word_rotr 6 x XOR word_rotr 11 x XOR word_rotr 25 x"

text \<open>Word \<open>i\<close> of a 64-byte block, and word \<open>t\<close> of the schedule of that block.\<close>

definition block_word :: "bytes \<Rightarrow> nat \<Rightarrow> u32" where
  "block_word b i = of_nat (unat (b ! (4 * i)) * 2 ^ 24 + unat (b ! (4 * i + 1)) * 2 ^ 16
                            + unat (b ! (4 * i + 2)) * 2 ^ 8 + unat (b ! (4 * i + 3)))"

fun scheduled :: "bytes \<Rightarrow> nat \<Rightarrow> u32" where
  "scheduled b t =
     (if t < 16 then block_word b t
      else small_sigma1 (scheduled b (t - 2)) + scheduled b (t - 7)
           + small_sigma0 (scheduled b (t - 15)) + scheduled b (t - 16))"

declare scheduled.simps [simp del]

fun working_step :: "u32 \<Rightarrow> u32 \<Rightarrow> hash_value \<Rightarrow> hash_value" where
  "working_step k w (a, b, c, d, e, f, g, h) =
     (let t1 = h + big_sigma1 e + ((e AND f) XOR (NOT e AND g)) + k + w;
          t2 = big_sigma0 a + ((a AND b) XOR (a AND c) XOR (b AND c))
      in (t1 + t2, a, b, c, d + t1, e, f, g))"

primrec working_variables :: "bytes \<Rightarrow> hash_value \<Rightarrow> nat \<Rightarrow> hash_value" where
  "working_variables b s 0 = s"
| "working_variables b s (Suc t) =
     working_step (round_constant t) (scheduled b t) (working_variables b s t)"

fun add_hash :: "hash_value \<Rightarrow> hash_value \<Rightarrow> hash_value" where
  "add_hash (a, b, c, d, e, f, g, h) (a', b', c', d', e', f', g', h') =
     (a + a', b + b', c + c', d + d', e + e', f + f', g + g', h + h')"

definition next_hash :: "bytes \<Rightarrow> hash_value \<Rightarrow> hash_value" where
  "next_hash b s = add_hash s (working_variables b s 64)"

section \<open>Padding, blocks and digest\<close>

text \<open>
  The marker byte, the zeros that bring the length to 56 modulo 64, the length in bits as eight
  bytes, most significant first.
\<close>

definition length_field :: "nat \<Rightarrow> bytes" where
  "length_field n = map (\<lambda>i. of_nat (n div 256 ^ (7 - i))) [0..<8]"

definition sha_pad :: "bytes \<Rightarrow> bytes" where
  "sha_pad m = m @ [0x80] @ replicate ((119 - length m mod 64) mod 64) 0
                 @ length_field (8 * length m)"

definition hash_start :: hash_value where
  "hash_start = (hash_constant 0, hash_constant 1, hash_constant 2, hash_constant 3,
                 hash_constant 4, hash_constant 5, hash_constant 6, hash_constant 7)"

text \<open>The hash value after the first \<open>n\<close> blocks of a padded message.\<close>

primrec hash_after :: "bytes \<Rightarrow> nat \<Rightarrow> hash_value" where
  "hash_after p 0 = hash_start"
| "hash_after p (Suc n) = next_hash (take 64 (drop (64 * n) p)) (hash_after p n)"

definition word_bytes :: "u32 \<Rightarrow> bytes" where
  "word_bytes w = map (\<lambda>i. of_nat (unat w div 256 ^ (3 - i))) [0..<4]"

fun hash_words :: "hash_value \<Rightarrow> u32 list" where
  "hash_words (a, b, c, d, e, f, g, h) = [a, b, c, d, e, f, g, h]"

definition sha256_spec :: "bytes \<Rightarrow> bytes" where
  "sha256_spec m =
     concat (map word_bytes (hash_words (hash_after (sha_pad m) (length (sha_pad m) div 64))))"

section \<open>Facts about the standard\<close>

text \<open>
  The table holds the numbers below 312 that no prime below 18 divides properly, which are the
  primes below 312 since \<open>312 < 19\<^sup>2\<close>.
\<close>

lemma first_primes_sieve:
  "first_primes = filter (\<lambda>n. \<not> list_ex (\<lambda>d. d \<noteq> n \<and> n mod d = 0) [2, 3, 5, 7, 11, 13, 17]) [2..<312]"
  by (simp add: first_primes_def)

text \<open>
  The 32 fraction bits of a root, from the integer test that brackets it: \<open>2\<^sup>3\<^sup>2 c + k\<close> is the
  floor of the \<open>n\<close>-th root of \<open>2\<^sup>3\<^sup>2\<^sup>n p\<close>.
\<close>

lemma fraction_bits_root:
  fixes c k n p :: nat
  assumes "0 < n" "k < 2 ^ 32"
    and "(2 ^ 32 * c + k) ^ n \<le> (2 ^ 32) ^ n * p" "(2 ^ 32) ^ n * p < (2 ^ 32 * c + k + 1) ^ n"
  shows "fraction_bits (root n (real p)) = of_nat k"
proof -
  let ?r = "root n (real p)"
  have r: "root n ((2 ^ 32) ^ n * real p) = 2 ^ 32 * ?r"
    using assms(1) by (simp add: real_root_mult real_root_power_cancel)
  have "real ((2 ^ 32 * c + k) ^ n) \<le> real ((2 ^ 32) ^ n * p)"
    using assms(3) by (rule of_nat_mono)
  then have "(2 ^ 32 * real c + real k) ^ n \<le> (2 ^ 32) ^ n * real p" by simp
  then have lo: "2 ^ 32 * real c + real k \<le> 2 ^ 32 * ?r"
    unfolding r [symmetric] using assms(1)
    by (metis add_nonneg_nonneg mult_nonneg_nonneg of_nat_0_le_iff real_root_le_iff
        real_root_power_cancel zero_le_numeral zero_le_power)
  have "real ((2 ^ 32) ^ n * p) < real ((2 ^ 32 * c + k + 1) ^ n)"
    using assms(4) by (simp only: of_nat_less_iff)
  then have "(2 ^ 32) ^ n * real p < (2 ^ 32 * real c + real k + 1) ^ n"
    by (simp add: add.commute)
  then have hi: "2 ^ 32 * ?r < 2 ^ 32 * real c + real k + 1"
    unfolding r [symmetric] using assms(1)
    by (metis add_nonneg_nonneg mult_nonneg_nonneg of_nat_0_le_iff real_root_less_iff
        real_root_power_cancel zero_le_numeral zero_le_one zero_le_power)
  have "real k < 2 ^ 32" using assms(2) by (metis of_nat_less_iff of_nat_numeral of_nat_power)
  then have "\<lfloor>?r\<rfloor> = int c"
    using lo hi assms(2) by (intro floor_unique) simp_all
  then have "2 ^ 32 * frac ?r = 2 ^ 32 * ?r - 2 ^ 32 * real c"
    by (simp add: frac_def algebra_simps)
  then have "\<lfloor>2 ^ 32 * frac ?r\<rfloor> = int k"
    using lo hi by (intro floor_unique) simp_all
  then show ?thesis by (simp add: fraction_bits_def)
qed

lemma length_length_field [simp]: "length (length_field n) = 8"
  by (simp add: length_field_def)

lemma pad_zeros:
  fixes t :: nat
  assumes "t < 64"
  shows "(119 - t) mod 64 = (if t \<le> 55 then 55 - t else 119 - t)"
proof (cases "t \<le> 55")
  case True
  then have "119 - t = 64 + (55 - t)" by linarith
  then have "(119 - t) mod 64 = (55 - t) mod 64" by (simp only: mod_add_self1)
  also have "\<dots> = 55 - t" by (rule mod_less) linarith
  finally show ?thesis using True by simp
next
  case False
  then have "(119 - t) mod 64 = 119 - t" by (intro mod_less) linarith
  then show ?thesis using False by simp
qed

lemma pad_total:
  fixes t :: nat
  assumes "t < 64"
  shows "(t + (1 + (119 - t) mod 64 + 8)) mod 64 = 0"
  using assms unfolding pad_zeros [OF assms] by (cases "t \<le> 55") simp_all

lemma sha_pad_blocks: "64 dvd length (sha_pad m)"
proof -
  have "length (sha_pad m) mod 64 = (length m + (1 + (119 - length m mod 64) mod 64 + 8)) mod 64"
    by (simp add: sha_pad_def)
  also have "\<dots> = (length m mod 64 + (1 + (119 - length m mod 64) mod 64 + 8)) mod 64"
    by (simp only: mod_add_left_eq)
  also have "\<dots> = 0" by (rule pad_total) simp
  finally show ?thesis by (simp only: dvd_eq_mod_eq_0)
qed

end
