(* ===== verification/Sha256.thy ===== *)
theory Sha256
  imports Sha256_Standard
begin

text \<open>
  \<open>sha256.cpp\<close>: the streaming SHA-256 object (\<open>Reset\<close>, \<open>Update\<close>, \<open>Transform\<close>, \<open>Final\<close>), the one-shot
  \<open>Sha256Digest\<close> and the constant-time comparison. The state is the class's members; the buffer
  is the list of its \<open>buffer_size\<close> live bytes padded with whatever stale bytes the array still
  holds. The theorems show that the compression function, the constants and the padding of the code
  are those of the standard as theory \<open>Sha256_Standard\<close> states it, that the streaming object computes
  \<open>sha256_spec\<close>, and that the result does not depend on how the input is split.
\<close>

section \<open>The code\<close>

definition RotateRight :: "u32 \<Rightarrow> nat \<Rightarrow> u32" where
  "RotateRight v count = drop_bit count v OR push_bit (32 - count) v"

definition LoadBigEndian32 :: "bytes \<Rightarrow> u32" where
  "LoadBigEndian32 input =
     push_bit 24 (ucast (input ! 0)) OR push_bit 16 (ucast (input ! 1)) OR
     push_bit 8 (ucast (input ! 2)) OR ucast (input ! 3)"

definition StoreBigEndian32 :: "u32 \<Rightarrow> bytes" where
  "StoreBigEndian32 v =
     [ucast (drop_bit 24 v), ucast (drop_bit 16 v), ucast (drop_bit 8 v), ucast v]"

definition kRoundConstants :: "u32 list" where
  "kRoundConstants = concat [
    [0x428a2f98, 0x71374491, 0xb5c0fbcf, 0xe9b5dba5],
    [0x3956c25b, 0x59f111f1, 0x923f82a4, 0xab1c5ed5],
    [0xd807aa98, 0x12835b01, 0x243185be, 0x550c7dc3],
    [0x72be5d74, 0x80deb1fe, 0x9bdc06a7, 0xc19bf174],
    [0xe49b69c1, 0xefbe4786, 0x0fc19dc6, 0x240ca1cc],
    [0x2de92c6f, 0x4a7484aa, 0x5cb0a9dc, 0x76f988da],
    [0x983e5152, 0xa831c66d, 0xb00327c8, 0xbf597fc7],
    [0xc6e00bf3, 0xd5a79147, 0x06ca6351, 0x14292967],
    [0x27b70a85, 0x2e1b2138, 0x4d2c6dfc, 0x53380d13],
    [0x650a7354, 0x766a0abb, 0x81c2c92e, 0x92722c85],
    [0xa2bfe8a1, 0xa81a664b, 0xc24b8b70, 0xc76c51a3],
    [0xd192e819, 0xd6990624, 0xf40e3585, 0x106aa070],
    [0x19a4c116, 0x1e376c08, 0x2748774c, 0x34b0bcb5],
    [0x391c0cb3, 0x4ed8aa4a, 0x5b9cca4f, 0x682e6ff3],
    [0x748f82ee, 0x78a5636f, 0x84c87814, 0x8cc70208],
    [0x90befffa, 0xa4506ceb, 0xbef9a3f7, 0xc67178f2]]"

record Sha256 =
  sha_state :: "u32 list"
  total_bytes :: u64
  sha_buffer :: bytes
  buffer_size :: nat
  finalized :: bool

definition Sha256_Reset :: Sha256 where
  "Sha256_Reset = \<lparr>
     sha_state = [0x6a09e667, 0xbb67ae85, 0x3c6ef372, 0xa54ff53a,
               0x510e527f, 0x9b05688c, 0x1f83d9ab, 0x5be0cd19],
     total_bytes = 0, sha_buffer = replicate 64 0, buffer_size = 0, finalized = False\<rparr>"

text \<open>The message schedule: sixteen loaded words, then one word per iteration \<open>i = 16 .. 63\<close>.\<close>

definition schedule_word :: "u32 list \<Rightarrow> u32" where
  "schedule_word ws =
     (let i = length ws;
          s0 = RotateRight (ws ! (i - 15)) 7 XOR RotateRight (ws ! (i - 15)) 18 XOR
               drop_bit 3 (ws ! (i - 15));
          s1 = RotateRight (ws ! (i - 2)) 17 XOR RotateRight (ws ! (i - 2)) 19 XOR
               drop_bit 10 (ws ! (i - 2))
      in ws ! (i - 16) + s0 + ws ! (i - 7) + s1)"

fun extend_schedule :: "nat \<Rightarrow> u32 list \<Rightarrow> u32 list" where
  "extend_schedule 0 ws = ws"
| "extend_schedule (Suc n) ws = extend_schedule n (ws @ [schedule_word ws])"

definition message_schedule :: "bytes \<Rightarrow> u32 list" where
  "message_schedule block =
     extend_schedule 48 (map (\<lambda>i. LoadBigEndian32 (drop (i * 4) block)) [0..<16])"

type_synonym round_state = "u32 \<times> u32 \<times> u32 \<times> u32 \<times> u32 \<times> u32 \<times> u32 \<times> u32"

definition sha_round :: "u32 \<Rightarrow> u32 \<Rightarrow> round_state \<Rightarrow> round_state" where
  "sha_round k w s = (case s of (a, b, c, d, e, f, g, h) \<Rightarrow>
     let sum1 = RotateRight e 6 XOR RotateRight e 11 XOR RotateRight e 25;
         choice = (e AND f) XOR (NOT e AND g);
         temporary1 = h + sum1 + choice + k + w;
         sum0 = RotateRight a 2 XOR RotateRight a 13 XOR RotateRight a 22;
         majority = (a AND b) XOR (a AND c) XOR (b AND c);
         temporary2 = sum0 + majority
     in (temporary1 + temporary2, a, b, c, d + temporary1, e, f, g))"

definition compress :: "u32 list \<Rightarrow> bytes \<Rightarrow> u32 list" where
  "compress st block =
     (let ws = message_schedule block;
          (a, b, c, d, e, f, g, h) =
            fold (\<lambda>i s. sha_round (kRoundConstants ! i) (ws ! i) s) [0..<64]
              (st ! 0, st ! 1, st ! 2, st ! 3, st ! 4, st ! 5, st ! 6, st ! 7)
      in [st ! 0 + a, st ! 1 + b, st ! 2 + c, st ! 3 + d,
          st ! 4 + e, st ! 5 + f, st ! 6 + g, st ! 7 + h])"

definition Sha256_Transform :: "Sha256 \<Rightarrow> bytes \<Rightarrow> Sha256" where
  "Sha256_Transform s block = s\<lparr>sha_state := compress (sha_state s) block\<rparr>"

text \<open>
  The copy loop of \<open>Update\<close>: a turn copies one chunk behind the live bytes and compresses the
  buffer when it is full; each turn moves \<open>min (64 - buffer_size) size\<close> bytes.
\<close>

definition Sha256_fill :: "Sha256 \<Rightarrow> bytes \<Rightarrow> Sha256" where
  "Sha256_fill s chunk =
     (let s1 = s\<lparr>sha_buffer := put_bytes (sha_buffer s) (buffer_size s) chunk,
                 buffer_size := buffer_size s + length chunk\<rparr>
      in if buffer_size s1 = 64
         then (Sha256_Transform s1 (sha_buffer s1))\<lparr>buffer_size := 0\<rparr> else s1)"

function Sha256_absorb :: "Sha256 \<Rightarrow> bytes \<Rightarrow> Sha256" where
  "Sha256_absorb s input =
     (if input = [] \<or> 64 \<le> buffer_size s then s
      else
        (let copy_size = min (64 - buffer_size s) (length input)
         in Sha256_absorb (Sha256_fill s (take copy_size input)) (drop copy_size input)))"
  by pat_completeness auto
termination
  by (relation "measure (\<lambda>(s, input). length input)") (auto simp: min_def)

declare Sha256_absorb.simps [simp del]

definition Sha256_Update :: "Sha256 \<Rightarrow> byte_view \<Rightarrow> bool \<times> Sha256" where
  "Sha256_Update s v =
     (if finalized s \<or> (view_null v \<and> view_size v \<noteq> 0)
         \<or> view_size v > unat (- 1 - total_bytes s)
      then (False, s)
      else (True, Sha256_absorb
                    (s\<lparr>total_bytes := total_bytes s + of_nat (view_size v)\<rparr>) (view_bytes v)))"

text \<open>
  \<open>Final\<close>: append the marker bit, spill a block when the length field does not fit, append the
  length and emit the state. The result is \<open>None\<close> when the code returns false.
\<close>

definition Sha256_pad_tail :: "Sha256 \<Rightarrow> Sha256" where
  "Sha256_pad_tail s =
     (let total_bits = total_bytes s * 8;
          s1 = s\<lparr>sha_buffer := put_bytes (sha_buffer s) (buffer_size s) [0x80],
                 buffer_size := buffer_size s + 1\<rparr>;
          s2 = (if buffer_size s1 > 56
                then (Sha256_Transform s1
                        (put_bytes (sha_buffer s1) (buffer_size s1)
                           (replicate (64 - buffer_size s1) 0)))\<lparr>
                        sha_buffer := put_bytes (sha_buffer s1) (buffer_size s1)
                           (replicate (64 - buffer_size s1) 0),
                        buffer_size := 0\<rparr>
                else s1);
          b3 = put_bytes (sha_buffer s2) (buffer_size s2) (replicate (56 - buffer_size s2) 0);
          b4 = put_bytes b3 56 (rev (map (\<lambda>i. ucast (drop_bit (i * 8) total_bits)) [0..<8]))
      in Sha256_Transform s2 b4)"

definition Sha256_Final :: "Sha256 \<Rightarrow> (bytes option) \<times> Sha256" where
  "Sha256_Final s =
     (if finalized s \<or> total_bytes s > (- 1) div 8 then (None, s)
      else
        (let s1 = Sha256_pad_tail s
         in (Some (concat (map StoreBigEndian32 (sha_state s1))),
             s1\<lparr>finalized := True, sha_buffer := replicate 64 0\<rparr>)))"

definition Sha256Digest :: "byte_view \<Rightarrow> bytes option" where
  "Sha256Digest input =
     (if view_null input \<and> view_size input \<noteq> 0 then None
      else (case Sha256_Update Sha256_Reset input of
              (False, _) \<Rightarrow> None
            | (True, s) \<Rightarrow> fst (Sha256_Final s)))"

fun digest_difference :: "bytes \<Rightarrow> bytes \<Rightarrow> u8 \<Rightarrow> u8" where
  "digest_difference (l # ls) (r # rs) d = digest_difference ls rs (d OR (l XOR r))"
| "digest_difference _ _ d = d"

definition ConstantTimeDigestEqual :: "bytes option \<Rightarrow> bytes option \<Rightarrow> bool" where
  "ConstantTimeDigestEqual left right =
     (case (left, right) of
        (Some l, Some r) \<Rightarrow> digest_difference (take 32 l) (take 32 r) 0 = 0
      | _ \<Rightarrow> False)"


section \<open>The code's compression function is the standard's\<close>

lemma RotateRight_rotr: "0 < n \<Longrightarrow> n < 32 \<Longrightarrow> RotateRight v n = word_rotr n v"
proof (rule bit_word_eqI)
  fix i
  assume n: "0 < n" "n < 32" and "i < LENGTH(32)"
  then have i: "i < 32" by simp
  have m: "(i + n) mod 32 = (if i + n < 32 then i + n else i + n - 32)"
    using n i by (simp add: mod_if)
  have b: "bit v k \<Longrightarrow> k < 32" for k using bit_imp_le_length [of v k] by simp
  show "bit (RotateRight v n) i \<longleftrightarrow> bit (word_rotr n v) i"
    using n i b by (auto simp: RotateRight_def bit_simps m add.commute [of n] split: if_splits)
qed

lemma or_disjoint_bits:
  fixes x y :: "'a::len word"
  assumes "\<And>k. bit x k \<Longrightarrow> n \<le> k" "\<And>k. bit y k \<Longrightarrow> k < n"
  shows "x OR y = x + y"
  by (rule disjunctive_add [symmetric]) (meson assms not_less)

lemma be_word:
  fixes a b c d :: byte
  shows "push_bit 24 (ucast a) OR push_bit 16 (ucast b) OR push_bit 8 (ucast c) OR ucast d
         = (of_nat (unat a * 2 ^ 24 + unat b * 2 ^ 16 + unat c * 2 ^ 8 + unat d) :: u32)"
proof -
  have small: "bit x k \<Longrightarrow> k < 8" for x :: byte and k
    using bit_imp_le_length [of x k] by simp
  let ?d = "ucast d :: u32" and ?c = "push_bit 8 (ucast c) :: u32"
    and ?b = "push_bit 16 (ucast b) :: u32" and ?a = "push_bit 24 (ucast a) :: u32"
  have d: "k < 8" if "bit ?d k" for k using that by (auto simp: bit_simps dest: small)
  have c: "k < 16" if "bit (?c OR ?d) k" for k
    using that d [of k] small [of c "k - 8"] by (auto simp: bit_simps)
  have b: "k < 24" if "bit (?b OR (?c OR ?d)) k" for k
    using that c [of k] small [of b "k - 16"] by (auto simp: bit_simps)
  have "?c OR ?d = ?c + ?d"
    by (rule or_disjoint_bits [of _ 8]) (auto simp: bit_push_bit_iff intro: d)
  moreover have "?b OR (?c OR ?d) = ?b + (?c OR ?d)"
    by (rule or_disjoint_bits [of _ 16]) (auto simp: bit_push_bit_iff intro: c)
  moreover have "?a OR (?b OR (?c OR ?d)) = ?a + (?b OR (?c OR ?d))"
    by (rule or_disjoint_bits [of _ 24]) (auto simp: bit_push_bit_iff intro: b)
  ultimately show ?thesis by (simp add: push_bit_eq_mult mult.commute)
qed

lemma LoadBigEndian32_word: "4 * i + 4 \<le> length b \<Longrightarrow> LoadBigEndian32 (drop (4 * i) b) = block_word b i"
  by (simp add: LoadBigEndian32_def block_word_def be_word)

lemma StoreBigEndian32_word: "StoreBigEndian32 w = word_bytes w"
proof -
  have "ucast (drop_bit n w) = (of_nat (unat w div 2 ^ n) :: byte)" for n
  proof -
    have "unat (drop_bit n w) = unat w div 2 ^ n" by (subst unat_drop_bit_eq) (rule drop_bit_eq_div)
    then show ?thesis by (metis of_nat_unat)
  qed
  moreover have "ucast w = (of_nat (unat w) :: byte)" by simp
  moreover have "[0..<4] = [0, 1, 2, 3 :: nat]" by (simp add: upt_rec)
  ultimately show ?thesis by (simp add: StoreBigEndian32_def word_bytes_def)
qed

section \<open>The constants of the code are the standard's\<close>

text \<open>The integer parts of the cube and square roots of the primes, for \<open>fraction_bits_root\<close>.\<close>

definition cube_root_parts :: "nat list" where
  "cube_root_parts = concat
    [[1, 1, 1, 1],
     [2, 2, 2, 2, 2],
     [3, 3, 3, 3, 3, 3, 3, 3, 3],
     [4, 4, 4, 4, 4, 4, 4, 4, 4, 4, 4, 4],
     [5, 5, 5, 5, 5, 5, 5, 5, 5, 5, 5, 5, 5, 5, 5, 5, 5],
     [6, 6, 6, 6, 6, 6, 6, 6, 6, 6, 6, 6, 6, 6, 6, 6, 6]]"

definition root_digits :: "nat \<Rightarrow> nat \<Rightarrow> nat \<Rightarrow> nat \<Rightarrow> bool" where
  "root_digits n p c k \<longleftrightarrow> k < 2 ^ 32 \<and> (2 ^ 32 * c + k) ^ n \<le> (2 ^ 32) ^ n * p
      \<and> (2 ^ 32) ^ n * p < (2 ^ 32 * c + k + 1) ^ n"

lemma root_digits_bits: "0 < n \<Longrightarrow> root_digits n p c (unat w) \<Longrightarrow> fraction_bits (root n (real p)) = w"
  using fraction_bits_root [of n "unat w" c p] by (simp add: root_digits_def)

lemma round_constants_digits:
  "list_all2 (\<lambda>(p, c). root_digits 3 p c) (List.zip first_primes cube_root_parts) (map unat kRoundConstants)"
  by (simp add: first_primes_def kRoundConstants_def cube_root_parts_def root_digits_def)

lemma length_kRoundConstants [simp]: "length kRoundConstants = 64"
  by (simp add: kRoundConstants_def)

lemma kRoundConstants_standard:
  assumes "t < 64"
  shows "kRoundConstants ! t = round_constant t"
proof -
  have "length cube_root_parts = 64" "length first_primes = 64"
    by (simp_all add: cube_root_parts_def first_primes_def)
  with round_constants_digits assms
  have "root_digits 3 (first_primes ! t) (cube_root_parts ! t) (unat (kRoundConstants ! t))"
    by (auto simp: list_all2_conv_all_nth)
  then show ?thesis by (simp add: root_digits_bits round_constant_def)
qed

lemma hash_start_digits:
  "list_all2 (\<lambda>(p, c). root_digits 2 p c) (List.zip (take 8 first_primes) [1, 1, 2, 2, 3, 3, 4, 4])
     (map unat (sha_state Sha256_Reset))"
  by (simp add: first_primes_def Sha256_Reset_def root_digits_def)

lemma hash_start_standard: "hash_words hash_start = sha_state Sha256_Reset"
proof -
  let ?c = "[1, 1, 2, 2, 3, 3, 4, 4] :: nat list"
  have l: "length first_primes = 64" "length (sha_state Sha256_Reset) = 8"
    by (simp_all add: first_primes_def Sha256_Reset_def)
  have "hash_constant i = sha_state Sha256_Reset ! i" if "i < 8" for i
  proof -
    have "root_digits 2 (first_primes ! i) (?c ! i) (unat (sha_state Sha256_Reset ! i))"
      using list_all2_nthD2 [OF hash_start_digits, of i] that l by simp
    then show ?thesis by (simp add: root_digits_bits hash_constant_def sqrt_def)
  qed
  then have "hash_words hash_start = map (nth (sha_state Sha256_Reset)) [0..<8]"
    by (simp add: hash_start_def upt_rec numeral_eq_Suc)
  then show ?thesis using map_nth [of "sha_state Sha256_Reset"] l by simp
qed

section \<open>The compression of a block is the standard's\<close>

lemma schedule_word_standard:
  assumes "16 \<le> k"
  shows "schedule_word (map (scheduled b) [0..<k]) = scheduled b k"
  using assms
  by (subst scheduled.simps)
    (simp add: schedule_word_def Let_def RotateRight_rotr small_sigma0_def small_sigma1_def ac_simps)

lemma extend_schedule_standard:
  "16 \<le> k \<Longrightarrow> extend_schedule n (map (scheduled b) [0..<k]) = map (scheduled b) [0..<k + n]"
proof (induction n arbitrary: k)
  case (Suc n)
  have "map (scheduled b) [0..<k] @ [scheduled b k] = map (scheduled b) [0..<Suc k]" by simp
  with Suc.IH [of "Suc k"] Suc.prems show ?case
    by (simp only: extend_schedule.simps schedule_word_standard add_Suc add_Suc_right le_SucI)
qed simp

lemma message_schedule_standard:
  assumes "length b = 64"
  shows "message_schedule b = map (scheduled b) [0..<64]"
proof -
  have "LoadBigEndian32 (drop (i * 4) b) = scheduled b i" if "i < 16" for i
    using that assms LoadBigEndian32_word [of i b]
    by (subst scheduled.simps) (simp add: mult.commute)
  then have words: "map (\<lambda>i. LoadBigEndian32 (drop (i * 4) b)) [0..<16] = map (scheduled b) [0..<16]"
    by simp
  show ?thesis
    unfolding message_schedule_def words using extend_schedule_standard [of 16 48 b] by simp
qed

lemma hash_value_fields [case_names fields]:
  fixes s :: hash_value
  obtains a b c d e f g h where "s = (a, b, c, d, e, f, g, h)"
  by (metis surj_pair)

lemma sha_round_standard: "sha_round k w s = working_step k w s"
  by (cases s rule: hash_value_fields) (simp add: sha_round_def Let_def RotateRight_rotr big_sigma0_def big_sigma1_def ac_simps)

lemma rounds_standard:
  "n \<le> 64 \<Longrightarrow>
   fold (\<lambda>i s. sha_round (kRoundConstants ! i) (map (scheduled b) [0..<64] ! i) s) [0..<n] s
   = working_variables b s n"
  by (induction n) (simp_all add: sha_round_standard kRoundConstants_standard)

lemma compress_standard:
  assumes "length b = 64"
  shows "compress (hash_words s) b = hash_words (next_hash b s)"
proof (cases s rule: hash_value_fields)
  case (fields s0 s1 s2 s3 s4 s5 s6 s7)
  obtain a0 a1 a2 a3 a4 a5 a6 a7 where w: "working_variables b s 64 = (a0, a1, a2, a3, a4, a5, a6, a7)"
    by (rule hash_value_fields)
  show ?thesis
    using w rounds_standard [of 64 b s]
    by (simp add: compress_def message_schedule_standard [OF assms] fields next_hash_def numeral_eq_Suc
        del: upt_Suc)
qed

section \<open>Folding the compression over the blocks\<close>

function hash_blocks :: "u32 list \<Rightarrow> bytes \<Rightarrow> u32 list" where
  "hash_blocks st bs =
     (if length bs < 64 then st else hash_blocks (compress st (take 64 bs)) (drop 64 bs))"
  by pat_completeness auto
termination
  by (relation "measure (\<lambda>(st, bs). length bs)") auto

declare hash_blocks.simps [simp del]

lemma length_compress [simp]: "length (compress st block) = 8"
  by (simp add: compress_def Let_def split: prod.split)

lemma hash_blocks_short [simp]: "length bs < 64 \<Longrightarrow> hash_blocks st bs = st"
  by (subst hash_blocks.simps) simp

lemma hash_blocks_one: "length b = 64 \<Longrightarrow> hash_blocks st (b @ bs) = hash_blocks (compress st b) bs"
  by (subst hash_blocks.simps) simp

lemma hash_blocks_single [simp]: "length b = 64 \<Longrightarrow> hash_blocks st b = compress st b"
  using hash_blocks_one [of b st "[]"] by simp

lemma hash_blocks_append:
  "64 dvd length xs \<Longrightarrow> hash_blocks st (xs @ ys) = hash_blocks (hash_blocks st xs) ys"
proof (induction st xs rule: hash_blocks.induct)
  case (1 st xs)
  show ?case
  proof (cases "length xs < 64")
    case True
    with "1.prems" have "xs = []" by (auto elim!: dvdE)
    then show ?thesis by simp
  next
    case False
    then have d: "64 dvd length (drop 64 xs)" using "1.prems" by (simp add: dvd_diff_nat)
    have "take 64 xs @ (drop 64 xs @ ys) = xs @ ys"
      by (simp only: append.assoc [symmetric] append_take_drop_id)
    then have "hash_blocks st (xs @ ys) = hash_blocks (compress st (take 64 xs)) (drop 64 xs @ ys)"
      using hash_blocks_one [of "take 64 xs" st "drop 64 xs @ ys"] False by (simp only: not_less) simp
    also have "\<dots> = hash_blocks (hash_blocks (compress st (take 64 xs)) (drop 64 xs)) ys"
      using "1.IH" False d by blast
    also have "hash_blocks (compress st (take 64 xs)) (drop 64 xs) = hash_blocks st xs"
      using False by (subst (2) hash_blocks.simps) simp
    finally show ?thesis .
  qed
qed

lemma length_hash_blocks: "length st = 8 \<Longrightarrow> length (hash_blocks st bs) = 8"
proof (induction st bs rule: hash_blocks.induct)
  case (1 st bs)
  show ?case
  proof (cases "length bs < 64")
    case True
    with "1.prems" show ?thesis by simp
  next
    case False
    then have "length (hash_blocks (compress st (take 64 bs)) (drop 64 bs)) = 8"
      using "1.IH" by simp
    with False show ?thesis by (subst hash_blocks.simps) simp
  qed
qed

lemma hash_blocks_after:
  "64 * n \<le> length p \<Longrightarrow> hash_blocks (sha_state Sha256_Reset) (take (64 * n) p) = hash_words (hash_after p n)"
proof (induction n)
  case 0
  then show ?case by (simp add: hash_start_standard)
next
  case (Suc n)
  let ?b = "take 64 (drop (64 * n) p)"
  have "take (64 * Suc n) p = take (64 * n) p @ ?b"
    by (simp only: mult_Suc_right add.commute [of 64] take_add)
  moreover have "length ?b = 64" "64 dvd length (take (64 * n) p)" using Suc.prems by simp_all
  ultimately show ?case using Suc by (simp add: hash_blocks_append compress_standard)
qed

lemma sha256_spec_blocks:
  "sha256_spec m = concat (map StoreBigEndian32 (hash_blocks (sha_state Sha256_Reset) (sha_pad m)))"
proof -
  have "64 * (length (sha_pad m) div 64) = length (sha_pad m)" using sha_pad_blocks by simp
  then have "hash_blocks (sha_state Sha256_Reset) (sha_pad m)
      = hash_words (hash_after (sha_pad m) (length (sha_pad m) div 64))"
    using hash_blocks_after [of "length (sha_pad m) div 64" "sha_pad m"] by simp
  moreover have "StoreBigEndian32 = word_bytes" by (rule ext) (rule StoreBigEndian32_word)
  ultimately show ?thesis by (simp add: sha256_spec_def)
qed

text \<open>The length field as the code writes it, from the wrapped 64-bit number of bits.\<close>

definition be64 :: "u64 \<Rightarrow> bytes" where
  "be64 v = rev (map (\<lambda>i. ucast (drop_bit (i * 8) v)) [0..<8])"

lemma length_be64 [simp]: "length (be64 v) = 8"
  by (simp add: be64_def)

lemma length_field_be64: "length_field (8 * n) = be64 (of_nat n * 8)"
proof -
  have byte: "(ucast (drop_bit (8 * k) (of_nat m :: u64)) :: byte) = of_nat (m div 256 ^ k)" if "k < 8" for k m
  proof -
    have "(256 :: nat) ^ k = 2 ^ (8 * k)" by (simp add: power_mult)
    moreover have "bit (ucast (drop_bit (8 * k) (of_nat m :: u64)) :: byte) i
        = bit (of_nat (m div 2 ^ (8 * k)) :: byte) i" if "i < 8" for i
    proof -
      have "8 * k + i < 64" using that \<open>k < 8\<close> by linarith
      then show ?thesis using that
        by (simp add: bit_simps flip: drop_bit_eq_div)
    qed
    ultimately show ?thesis by (intro bit_word_eqI) simp
  qed
  have "of_nat n * 8 = (of_nat (8 * n) :: u64)" by simp
  moreover have "rev (map (\<lambda>i. ucast (drop_bit (i * 8) v)) [0..<8])
      = (map (\<lambda>i. ucast (drop_bit (8 * (7 - i)) v)) [0..<8] :: bytes)" for v :: u64
    by (simp add: upt_rec)
  ultimately show ?thesis unfolding be64_def length_field_def
    by (simp only:) (simp add: byte del: of_nat_mult)
qed

section \<open>What a streaming state has absorbed\<close>

definition absorbed :: "Sha256 \<Rightarrow> bytes \<Rightarrow> bool" where
  "absorbed s m \<longleftrightarrow>
     length (sha_buffer s) = 64 \<and>
     (\<exists>full tail. m = full @ tail \<and> 64 dvd length full \<and> length tail < 64
        \<and> buffer_size s = length tail \<and> take (length tail) (sha_buffer s) = tail
        \<and> sha_state s = hash_blocks (sha_state Sha256_Reset) full)"

lemma absorbedE:
  assumes "absorbed s m"
  obtains full tail where "m = full @ tail" "64 dvd length full" "length tail < 64"
    "buffer_size s = length tail" "take (length tail) (sha_buffer s) = tail"
    "sha_state s = hash_blocks (sha_state Sha256_Reset) full" "length (sha_buffer s) = 64"
  using assms by (auto simp: absorbed_def)

lemma absorbed_Reset: "absorbed Sha256_Reset []"
  by (auto simp: absorbed_def Sha256_Reset_def)

lemma absorbed_total_bytes [simp]: "absorbed (s\<lparr>total_bytes := n\<rparr>) m = absorbed s m"
  by (simp add: absorbed_def)

lemma put_bytes_fill:
  "off + length bs = length buf \<Longrightarrow> put_bytes buf off bs = take off buf @ bs"
  by (simp add: put_bytes_def)

lemma absorbed_step:
  assumes "absorbed s m" "length c \<le> 64 - buffer_size s"
  shows "absorbed (Sha256_fill s c) (m @ c)"
proof -
  from assms(1) obtain full tail where *: "m = full @ tail" "64 dvd length full"
      "length tail < 64" "buffer_size s = length tail" "take (length tail) (sha_buffer s) = tail"
      "sha_state s = hash_blocks (sha_state Sha256_Reset) full" "length (sha_buffer s) = 64"
    by (rule absorbedE)
  have len: "length (put_bytes (sha_buffer s) (length tail) c) = 64"
    using assms(2) * by simp
  show ?thesis
  proof (cases "length tail + length c = 64")
    case True
    have "put_bytes (sha_buffer s) (length tail) c = tail @ c"
      using True * by (simp add: put_bytes_fill)
    moreover have "hash_blocks (sha_state s) (tail @ c) = compress (sha_state s) (tail @ c)"
      using True by simp
    moreover have "64 dvd length (full @ tail @ c)" using True *(2) by simp
    ultimately show ?thesis using True * len
      unfolding absorbed_def
      by (intro conjI exI [of _ "full @ tail @ c"] exI [of _ "[]"])
         (simp_all add: Sha256_fill_def Sha256_Transform_def hash_blocks_append)
  next
    case False
    then have "length (tail @ c) < 64" using assms(2) * by simp
    moreover have "take (length (tail @ c)) (put_bytes (sha_buffer s) (length tail) c) = tail @ c"
      using * by (simp add: put_bytes_def)
    ultimately show ?thesis using False * len
      unfolding absorbed_def
      by (intro conjI exI [of _ full] exI [of _ "tail @ c"]) (simp_all add: Sha256_fill_def)
  qed
qed

lemma absorbed_absorb: "absorbed s m \<Longrightarrow> absorbed (Sha256_absorb s input) (m @ input)"
proof (induction s input arbitrary: m rule: Sha256_absorb.induct)
  case (1 s input)
  show ?case
  proof (cases "input = []")
    case True
    with "1.prems" show ?thesis by (subst Sha256_absorb.simps) simp
  next
    case False
    have b: "\<not> 64 \<le> buffer_size s" using "1.prems" by (auto elim: absorbedE)
    let ?c = "min (64 - buffer_size s) (length input)"
    have "absorbed (Sha256_fill s (take ?c input)) (m @ take ?c input)"
      using "1.prems" by (rule absorbed_step) simp
    then have "absorbed (Sha256_absorb (Sha256_fill s (take ?c input)) (drop ?c input))
                 ((m @ take ?c input) @ drop ?c input)"
      using False b by (intro "1.IH" [OF _ refl]) simp_all
    then show ?thesis using False b by (subst Sha256_absorb.simps) (simp add: Let_def)
  qed
qed

section \<open>Finalisation\<close>

lemma take_put_bytes:
  "off + length bs \<le> length buf \<Longrightarrow> n = off + length bs \<Longrightarrow>
   take n (put_bytes buf off bs) = take off buf @ bs"
  by (simp add: put_bytes_def)

lemma pad_one_block:
  assumes "length buf = 64" "length tail \<le> 55" "take (length tail) buf = tail"
  shows "put_bytes (put_bytes (put_bytes buf (length tail) [0x80]) (length tail + 1)
                      (replicate (56 - (length tail + 1)) 0)) 56 (be64 v)
         = tail @ [0x80] @ replicate (55 - length tail) 0 @ be64 v"
proof -
  let ?b1 = "put_bytes buf (length tail) [0x80]"
  let ?b2 = "put_bytes ?b1 (length tail + 1) (replicate (56 - (length tail + 1)) 0)"
  have l1: "length ?b1 = 64" and l2: "length ?b2 = 64" using assms by simp_all
  have t1: "take (length tail + 1) ?b1 = tail @ [0x80]"
    using assms by (subst take_put_bytes) simp_all
  have t2: "take 56 ?b2 = (tail @ [0x80]) @ replicate (55 - length tail) 0"
    using assms l1 t1 by (subst take_put_bytes) simp_all
  show ?thesis using l2 t2 by (subst put_bytes_fill) simp_all
qed

lemma pad_two_blocks:
  assumes "length buf = 64" "56 \<le> length tail" "length tail < 64"
    "take (length tail) buf = tail"
  shows "put_bytes (put_bytes buf (length tail) [0x80]) (length tail + 1)
           (replicate (64 - (length tail + 1)) 0)
         = tail @ [0x80] @ replicate (63 - length tail) 0"
proof -
  let ?b1 = "put_bytes buf (length tail) [0x80]"
  have "take (length tail + 1) ?b1 = tail @ [0x80]"
    using assms by (subst take_put_bytes) simp_all
  then show ?thesis using assms by (subst put_bytes_fill) simp_all
qed

lemma pad_length_block:
  "length buf = 64 \<Longrightarrow>
   put_bytes (put_bytes buf 0 (replicate 56 0)) 56 (be64 v) = replicate 56 0 @ be64 v"
  by (subst put_bytes_fill) (simp_all add: take_put_bytes)

lemma pad_tail_state:
  assumes "absorbed s m" "total_bytes s = of_nat (length m)"
  shows "sha_state (Sha256_pad_tail s) = hash_blocks (sha_state Sha256_Reset) (sha_pad m)"
proof -
  let ?H = "sha_state Sha256_Reset"
  let ?v = "of_nat (length m) * 8 :: u64"
  from assms(1) obtain full tail where *: "m = full @ tail" "64 dvd length full"
      "length tail < 64" "buffer_size s = length tail" "take (length tail) (sha_buffer s) = tail"
      "sha_state s = hash_blocks ?H full" "length (sha_buffer s) = 64"
    by (rule absorbedE)
  have md: "length m mod 64 = length tail" using *(1-3) by (auto elim!: dvdE)
  show ?thesis
  proof (cases "length tail \<le> 55")
    case True
    let ?b = "tail @ [0x80] @ replicate (55 - length tail) 0 @ be64 ?v"
    have "sha_state (Sha256_pad_tail s) = compress (hash_blocks ?H full) ?b"
      using True * assms(2) pad_one_block [of "sha_buffer s" tail ?v]
      by (simp add: Sha256_pad_tail_def Let_def Sha256_Transform_def be64_def)
    also have "\<dots> = hash_blocks ?H (full @ ?b)"
      using * True by (simp add: hash_blocks_append)
    also have "full @ ?b = sha_pad m"
      using True *(3) unfolding sha_pad_def md length_field_be64 by (simp add: pad_zeros *(1))
    finally show ?thesis .
  next
    case False
    let ?b1 = "tail @ [0x80] @ replicate (63 - length tail) 0"
    let ?b2 = "replicate 56 0 @ be64 ?v"
    have l1: "length ?b1 = 64" using False *(3) by simp
    have "sha_state (Sha256_pad_tail s) = compress (compress (hash_blocks ?H full) ?b1) ?b2"
      using False * assms(2) l1 pad_two_blocks [of "sha_buffer s" tail] pad_length_block [of ?b1 ?v]
      by (simp add: Sha256_pad_tail_def Let_def Sha256_Transform_def be64_def)
    also have "\<dots> = hash_blocks ?H (full @ ?b1 @ ?b2)"
      using * l1 by (simp only: hash_blocks_append hash_blocks_one) simp
    also have "full @ ?b1 @ ?b2 = sha_pad m"
    proof -
      have "119 - length tail = (63 - length tail) + 56" using False *(3) by simp
      then have "replicate (119 - length tail) (0::byte)
          = replicate (63 - length tail) 0 @ replicate 56 0"
        by (simp only: replicate_add)
      then show ?thesis using False *(3) unfolding sha_pad_def md length_field_be64 by (simp add: pad_zeros *(1))
    qed
    finally show ?thesis .
  qed
qed

section \<open>The streaming interface\<close>

text \<open>
  What a client of an incremental digest relies on: an abstraction \<open>holds\<close> of the bytes fed so
  far, and a digest of at most \<open>cap\<close> bytes that depends on nothing else. \<open>feed_all\<close> is the
  sequence of calls a client makes.
\<close>

locale incremental_digest =
  fixes init :: 's
    and feed :: "'s \<Rightarrow> bytes \<Rightarrow> bool \<times> 's"
    and final :: "'s \<Rightarrow> bytes option \<times> 's"
    and holds :: "'s \<Rightarrow> bytes \<Rightarrow> bool"
    and digest :: "bytes \<Rightarrow> bytes"
    and cap :: nat
  assumes holds_init: "holds init []"
    and holds_feed: "holds s m \<Longrightarrow> length m + length d \<le> cap \<Longrightarrow>
          \<exists>s'. feed s d = (True, s') \<and> holds s' (m @ d)"
    and holds_final: "holds s m \<Longrightarrow> length m \<le> cap \<Longrightarrow> fst (final s) = Some (digest m)"
begin

fun feed_all :: "'s \<Rightarrow> bytes list \<Rightarrow> bool \<times> 's" where
  "feed_all s [] = (True, s)"
| "feed_all s (d # ds) = (case feed s d of (True, s') \<Rightarrow> feed_all s' ds | (False, s') \<Rightarrow> (False, s'))"

lemma feed_all_holds:
  "holds s m \<Longrightarrow> length m + length (concat ds) \<le> cap \<Longrightarrow>
   \<exists>s'. feed_all s ds = (True, s') \<and> holds s' (m @ concat ds)"
proof (induction ds arbitrary: s m)
  case (Cons d ds)
  from Cons.prems obtain s' where "feed s d = (True, s')" "holds s' (m @ d)"
    using holds_feed [of s m d] by auto
  with Cons.prems Cons.IH [of s' "m @ d"] show ?case by simp
qed simp

lemma chunking_irrelevant:
  assumes "length (concat ds) \<le> cap"
  shows "\<exists>s. feed_all init ds = (True, s) \<and> fst (final s) = Some (digest (concat ds))"
  using feed_all_holds [OF holds_init] assms holds_final by fastforce

end

definition Sha256_holds :: "Sha256 \<Rightarrow> bytes \<Rightarrow> bool" where
  "Sha256_holds s m \<longleftrightarrow>
     absorbed s m \<and> total_bytes s = of_nat (length m) \<and> \<not> finalized s \<and> length m < 2 ^ 64"

lemma finalized_fill [simp]: "finalized (Sha256_fill s c) = finalized s"
  by (simp add: Sha256_fill_def Sha256_Transform_def Let_def)

lemma total_bytes_fill [simp]: "total_bytes (Sha256_fill s c) = total_bytes s"
  by (simp add: Sha256_fill_def Sha256_Transform_def Let_def)

lemma absorb_frame:
  "finalized (Sha256_absorb s input) = finalized s \<and> total_bytes (Sha256_absorb s input) = total_bytes s"
proof (induction s input rule: Sha256_absorb.induct)
  case (1 s input)
  show ?case
  proof (cases "input = [] \<or> 64 \<le> buffer_size s")
    case True
    then show ?thesis by (subst (1 2) Sha256_absorb.simps) simp
  next
    case False
    with "1.IH" [OF False refl] show ?thesis
      by (subst (1 2) Sha256_absorb.simps) (simp only: if_False Let_def finalized_fill total_bytes_fill)
  qed
qed

lemma Sha256_Update_holds:
  assumes "Sha256_holds s m" "length m + length d < 2 ^ 64"
  shows "\<exists>s'. Sha256_Update s (Bytes d) = (True, s') \<and> Sha256_holds s' (m @ d)"
proof -
  have "unat (- 1 - total_bytes s) = 2 ^ 64 - 1 - length m"
    using assms by (simp add: Sha256_holds_def unat_sub unsigned_minus_1_eq_mask
        mask_eq_exp_minus_1 unat_of_nat_small)
  then have "\<not> length d > unat (- 1 - total_bytes s)" using assms(2) by simp
  moreover have "absorbed (Sha256_absorb (s\<lparr>total_bytes := total_bytes s + of_nat (length d)\<rparr>) d) (m @ d)"
    using assms(1) by (intro absorbed_absorb) (simp add: Sha256_holds_def)
  ultimately show ?thesis using assms
    by (simp add: Sha256_Update_def Sha256_holds_def absorb_frame)
qed

lemma Sha256_Final_holds:
  assumes "Sha256_holds s m" "length m \<le> (2 ^ 64 - 1) div 8"
  shows "fst (Sha256_Final s) = Some (sha256_spec m)"
proof -
  have "unat ((- 1 :: u64) div 8) = (2 ^ 64 - 1) div 8"
    by (simp add: unat_div unsigned_minus_1_eq_mask mask_eq_exp_minus_1)
  then have "\<not> total_bytes s > (- 1) div 8"
    using assms by (simp add: Sha256_holds_def word_less_nat_alt unat_of_nat_small)
  then show ?thesis
    using assms(1) by (simp add: Sha256_Final_def Sha256_holds_def Let_def sha256_spec_blocks pad_tail_state [of s m])
qed

lemma Sha256_Final_Some:
  assumes "Sha256_holds s m" "fst (Sha256_Final s) = Some d"
  shows "d = sha256_spec m"
proof -
  have "\<not> total_bytes s > (- 1) div 8"
    using assms(2) by (auto simp: Sha256_Final_def split: if_splits)
  then have "unat (total_bytes s) \<le> unat ((- 1 :: u64) div 8)"
    by (simp add: word_less_nat_alt)
  moreover have "unat ((- 1 :: u64) div 8) = (2 ^ 64 - 1) div 8"
    by (simp add: unat_div unsigned_minus_1_eq_mask mask_eq_exp_minus_1)
  moreover have "unat (total_bytes s) = length m"
    using assms(1) by (simp add: Sha256_holds_def unat_of_nat_small)
  ultimately have "length m \<le> (2 ^ 64 - 1) div 8" by simp
  with Sha256_Final_holds [OF assms(1)] assms(2) show ?thesis by simp
qed

lemma Sha256_Update_True:
  assumes "Sha256_holds s m" "Sha256_Update s (Bytes d) = (True, s')"
  shows "Sha256_holds s' (m @ d)"
proof -
  have "length d \<le> unat (- 1 - total_bytes s)"
    using assms(2) by (auto simp: Sha256_Update_def split: if_splits)
  moreover have "unat (- 1 - total_bytes s) = 2 ^ 64 - 1 - length m"
    using assms by (simp add: Sha256_holds_def unat_sub unsigned_minus_1_eq_mask
        mask_eq_exp_minus_1 unat_of_nat_small)
  moreover have "length m < 2 ^ 64" using assms(1) by (simp add: Sha256_holds_def)
  ultimately have "length m + length d < 2 ^ 64" by linarith
  from Sha256_Update_holds [OF assms(1) this] assms(2) show ?thesis by auto
qed

interpretation sha: incremental_digest Sha256_Reset "\<lambda>s d. Sha256_Update s (Bytes d)" Sha256_Final
  Sha256_holds sha256_spec "(2 ^ 64 - 1) div 8"
proof
  show "Sha256_holds Sha256_Reset []"
    by (simp add: Sha256_holds_def absorbed_Reset) (simp add: Sha256_Reset_def)
next
  fix s m and d :: bytes
  assume "Sha256_holds s m" "length m + length d \<le> (2 ^ 64 - 1) div 8"
  then show "\<exists>s'. Sha256_Update s (Bytes d) = (True, s') \<and> Sha256_holds s' (m @ d)"
    by (intro Sha256_Update_holds) simp_all
next
  fix s m
  assume "Sha256_holds s m" "length m \<le> (2 ^ 64 - 1) div 8"
  then show "fst (Sha256_Final s) = Some (sha256_spec m)" by (rule Sha256_Final_holds)
qed

section \<open>Properties\<close>

fun Sha256_feed_all :: "Sha256 \<Rightarrow> bytes list \<Rightarrow> bool \<times> Sha256" where
  "Sha256_feed_all s [] = (True, s)"
| "Sha256_feed_all s (d # ds) =
     (case Sha256_Update s (Bytes d) of
        (True, s') \<Rightarrow> Sha256_feed_all s' ds | (False, s') \<Rightarrow> (False, s'))"

lemma Sha256_feed_all_eq: "Sha256_feed_all s ds = sha.feed_all s ds"
  by (induction ds arbitrary: s) (simp_all split: prod.split bool.split)

text \<open>
  (C16) The streaming object computes SHA-256 whatever the chunking: for every way to split a
  message of at most \<open>UINT64_MAX / 8\<close> bytes into calls of \<open>Update\<close>, all calls succeed and \<open>Final\<close>
  returns the SHA-256 digest of the concatenation as the standard defines it (\<open>sha256_spec\<close> in theory
  \<open>Sha256_Standard\<close>, which shares no constant and no function with the code).
\<close>

theorem Sha256_streaming_correct:
  assumes "length (concat chunks) \<le> (2 ^ 64 - 1) div 8"
  shows "\<exists>s. Sha256_feed_all Sha256_Reset chunks = (True, s)
             \<and> fst (Sha256_Final s) = Some (sha256_spec (concat chunks))"
  unfolding Sha256_feed_all_eq using assms by (rule sha.chunking_irrelevant)

theorem Sha256_streaming_correct_witness:
  "\<exists>s. Sha256_feed_all Sha256_Reset [[97], [], [98, 99]] = (True, s)
        \<and> fst (Sha256_Final s) = Some (sha256_spec [97, 98, 99])"
  using Sha256_streaming_correct [of "[[97], [], [98, 99]]"] by simp

text \<open>
  The one-shot \<open>Sha256Digest\<close> agrees with the specification on every message of at most
  \<open>UINT64_MAX / 8\<close> bytes.
\<close>

theorem Sha256Digest_correct:
  assumes "length m \<le> (2 ^ 64 - 1) div 8"
  shows "Sha256Digest (Bytes m) = Some (sha256_spec m)"
proof -
  have "length m < 2 ^ 64" using assms by simp
  then obtain s where "Sha256_Update Sha256_Reset (Bytes m) = (True, s)" "Sha256_holds s m"
    using Sha256_Update_holds [OF sha.holds_init, of m] by auto
  with assms show ?thesis by (simp add: Sha256Digest_def Sha256_Final_holds)
qed

theorem Sha256Digest_correct_witness:
  "Sha256Digest (Bytes [1, 2, 3]) = Some (sha256_spec [1, 2, 3])"
  using Sha256Digest_correct [of "[1, 2, 3]"] by simp

lemma digest_difference_zero:
  "length l = length r \<Longrightarrow> digest_difference l r d = 0 \<longleftrightarrow> d = 0 \<and> l = r"
proof (induction l r d rule: digest_difference.induct)
  case (1 l ls r rs d)
  have "l XOR r = 0 \<longleftrightarrow> l = r" using xor_right_cancel [of l r r] by simp
  with 1 show ?case by (simp add: or_eq_0_iff)
qed auto

text \<open>
  The constant-time comparison accepts two digests exactly when they are equal, and rejects
  a missing digest on either side.
\<close>

theorem ConstantTimeDigestEqual_iff:
  assumes "\<And>l. left = Some l \<Longrightarrow> length l = 32" "\<And>r. right = Some r \<Longrightarrow> length r = 32"
  shows "ConstantTimeDigestEqual left right \<longleftrightarrow> left \<noteq> None \<and> left = right"
  using assms by (cases left; cases right)
    (auto simp: ConstantTimeDigestEqual_def digest_difference_zero)

theorem ConstantTimeDigestEqual_iff_witness:
  "ConstantTimeDigestEqual (Some (replicate 32 7)) (Some (replicate 32 7))
   \<and> \<not> ConstantTimeDigestEqual (Some (replicate 32 7)) (Some (replicate 31 7 @ [6]))"
  using ConstantTimeDigestEqual_iff [of "Some (replicate 32 7)" "Some (replicate 32 7)"]
    ConstantTimeDigestEqual_iff [of "Some (replicate 32 7)" "Some (replicate 31 7 @ [6])"]
  by (simp add: numeral_eq_Suc)

end
