(* ===== verification/Fat_Path_Policy.thy ===== *)
theory Fat_Path_Policy
  imports Update_Prelude
begin

text \<open>
  \<open>fat_path_policy.cpp\<close>: the portable subset of FAT long names that release inventories may use.
  The validator is a single index loop over the path; it is shown equivalent to a specification
  that splits the path at its slashes and judges each component on its own.
\<close>

section \<open>The code\<close>

datatype FatPathValidationStatus = FatPathOk | FatPathInvalidArgument | FatPathTooLong | FatPathInvalid

definition kFatReleasePathMaximumBytes :: nat where
  "kFatReleasePathMaximumBytes = 240"

definition FatAsciiLower :: "byte \<Rightarrow> byte" where
  "FatAsciiLower v = (if v \<ge> ch CHR ''A'' \<and> v \<le> ch CHR ''Z''
                      then v + (ch CHR ''a'' - ch CHR ''A'') else v)"

fun equal_ignore_case :: "bytes \<Rightarrow> bytes \<Rightarrow> bool" where
  "equal_ignore_case [] [] = True"
| "equal_ignore_case (v # vs) (e # es) =
     (FatAsciiLower v = FatAsciiLower e \<and> equal_ignore_case vs es)"
| "equal_ignore_case _ _ = False"

text \<open>The C++ function gets a pointer and a size; the model gets the \<open>size\<close> bytes.\<close>

definition EqualsAsciiIgnoreCase :: "bytes \<Rightarrow> cstring \<Rightarrow> bool" where
  "EqualsAsciiIgnoreCase v expected \<longleftrightarrow>
     length expected = length v \<and> equal_ignore_case v expected"

definition IsReservedStem :: "bytes \<Rightarrow> bool" where
  "IsReservedStem component =
     (let stem = takeWhile (\<lambda>b. b \<noteq> ch CHR ''.'') component
      in list_ex (\<lambda>name. EqualsAsciiIgnoreCase stem (ascii name)) [''CON'', ''PRN'', ''AUX'', ''NUL'']
         \<or> (length stem = 4
            \<and> (EqualsAsciiIgnoreCase (take 3 component) (ascii ''COM'')
               \<or> EqualsAsciiIgnoreCase (take 3 component) (ascii ''LPT''))
            \<and> component ! 3 \<ge> ch CHR ''1'' \<and> component ! 3 \<le> ch CHR ''9''))"

definition IsForbidden :: "byte \<Rightarrow> bool" where
  "IsForbidden v \<longleftrightarrow> v \<in> set (ascii [CHR 0x22, CHR ''*'', CHR '':'', CHR ''<'', CHR ''>'',
                                   CHR ''?'', CHR 0x5C, CHR ''|''])"

text \<open>The refusal at a separator or at the end, for the component \<open>[component_begin, index)\<close>.\<close>

definition fat_component_rejected :: "bytes \<Rightarrow> nat \<Rightarrow> nat \<Rightarrow> bool" where
  "fat_component_rejected path component_begin index =
     (let component_size = index - component_begin
      in component_size = 0 \<or> component_size > 255
         \<or> path ! component_begin = ch CHR '' ''
         \<or> path ! (index - 1) = ch CHR '' ''
         \<or> path ! (index - 1) = ch CHR ''.''
         \<or> (component_size = 1 \<and> path ! component_begin = ch CHR ''.'')
         \<or> (component_size = 2 \<and> path ! component_begin = ch CHR ''.''
            \<and> path ! (component_begin + 1) = ch CHR ''.'')
         \<or> IsReservedStem (get_bytes path component_begin component_size))"

function fat_scan :: "bytes \<Rightarrow> nat \<Rightarrow> nat \<Rightarrow> FatPathValidationStatus" where
  "fat_scan path index component_begin =
     (if length path < index then FatPathOk
      else
        (let at_end = (index = length path);
             v = (if at_end then ch CHR ''/'' else path ! index)
         in if \<not> at_end \<and> v \<noteq> ch CHR ''/''
            then (if v < 0x20 \<or> v > 0x7e \<or> IsForbidden v then FatPathInvalid
                  else fat_scan path (Suc index) component_begin)
            else
              (if fat_component_rejected path component_begin index then FatPathInvalid
               else fat_scan path (Suc index) (index + 1))))"
  by pat_completeness auto
termination
  by (relation "measure (\<lambda>(path, index, begin). Suc (length path) - index)") auto

declare fat_scan.simps [simp del]

definition ValidateFatRelativePathBytes ::
  "byte_view \<Rightarrow> nat \<Rightarrow> FatPathValidationStatus" where
  "ValidateFatRelativePathBytes view maximum_path_bytes =
     (let path = view_bytes view; size = view_size view
      in if view_null view \<or> maximum_path_bytes = 0 then FatPathInvalidArgument
         else if size = 0 then FatPathInvalid
         else if size > maximum_path_bytes then FatPathTooLong
         else if path ! 0 = ch CHR ''/'' \<or> path ! (size - 1) = ch CHR ''/'' then FatPathInvalid
         else fat_scan path 0 0)"

text \<open>The wrapper for C strings: a bounded scan for the terminator, then the byte version.\<close>

definition ValidateFatRelativePath :: "cstring option \<Rightarrow> nat \<Rightarrow> FatPathValidationStatus" where
  "ValidateFatRelativePath path maximum_path_bytes =
     (case path of
        None \<Rightarrow> FatPathInvalidArgument
      | Some p \<Rightarrow>
          if maximum_path_bytes = 0 then FatPathInvalidArgument
          else
            (let size = min maximum_path_bytes (length p)
             in if size = maximum_path_bytes \<and> length p > size then FatPathTooLong
                else ValidateFatRelativePathBytes (Bytes (take size p)) maximum_path_bytes))"

lemma equal_ignore_case_iff:
  "equal_ignore_case v e \<longleftrightarrow> map FatAsciiLower v = map FatAsciiLower e"
  by (induction v e rule: equal_ignore_case.induct) auto

lemma EqualsAsciiIgnoreCase_iff:
  "EqualsAsciiIgnoreCase v e \<longleftrightarrow> map FatAsciiLower v = map FatAsciiLower e"
  by (auto simp: EqualsAsciiIgnoreCase_def equal_ignore_case_iff dest: map_eq_imp_length_eq)

section \<open>Specification\<close>

fun split_slash :: "bytes \<Rightarrow> bytes list" where
  "split_slash [] = [[]]"
| "split_slash (b # bs) =
     (if b = ch CHR ''/'' then [] # split_slash bs
      else (case split_slash bs of [] \<Rightarrow> [[b]] | c # cs \<Rightarrow> (b # c) # cs))"

definition fat_char_ok :: "byte \<Rightarrow> bool" where
  "fat_char_ok b \<longleftrightarrow> 0x20 \<le> b \<and> b \<le> 0x7e \<and> \<not> IsForbidden b"

definition fat_component_ok :: "bytes \<Rightarrow> bool" where
  "fat_component_ok c \<longleftrightarrow>
     1 \<le> length c \<and> length c \<le> 255 \<and> list_all fat_char_ok c
     \<and> hd c \<noteq> ch CHR '' '' \<and> last c \<noteq> ch CHR '' '' \<and> last c \<noteq> ch CHR ''.''
     \<and> \<not> IsReservedStem c"

lemma split_slash_nonempty [simp]: "split_slash bs \<noteq> []"
  by (cases bs) (auto split: list.splits)

lemma split_slash_step:
  "split_slash (b # bs) =
     (if b = ch CHR ''/'' then [] # split_slash bs
      else (b # hd (split_slash bs)) # tl (split_slash bs))"
  using split_slash_nonempty [of bs] by (auto split: list.splits simp del: split_slash_nonempty)

lemma split_slash_prefix:
  "ch CHR ''/'' \<notin> set pre \<Longrightarrow>
   split_slash (pre @ rest) = (pre @ hd (split_slash rest)) # tl (split_slash rest)"
  by (induction pre) (auto simp: split_slash_step simp del: split_slash.simps(2))

lemma split_slash_only:
  assumes "ch CHR ''/'' \<notin> set pre"
  shows "split_slash pre = [pre]" "split_slash (pre @ ch CHR ''/'' # rest) = pre # split_slash rest"
  using split_slash_prefix [OF assms, of "[]"] split_slash_prefix [OF assms, of "ch CHR ''/'' # rest"]
  by simp_all



section \<open>The loop computes the specification\<close>

lemma fat_char_ok_iff: "(v < 0x20 \<or> v > 0x7e \<or> IsForbidden v) \<longleftrightarrow> \<not> fat_char_ok v"
  by (auto simp: fat_char_ok_def not_le)

text \<open>The test the loop makes at a separator, phrased on the component it closes.\<close>

definition fat_close_ok :: "bytes \<Rightarrow> bool" where
  "fat_close_ok c \<longleftrightarrow>
     1 \<le> length c \<and> length c \<le> 255
     \<and> hd c \<noteq> ch CHR '' '' \<and> last c \<noteq> ch CHR '' '' \<and> last c \<noteq> ch CHR ''.''
     \<and> \<not> IsReservedStem c"

lemma fat_component_ok_close:
  "fat_component_ok c \<longleftrightarrow> list_all fat_char_ok c \<and> fat_close_ok c"
  by (auto simp: fat_component_ok_def fat_close_ok_def)

lemma fat_close_test:
  assumes "begin \<le> index" "index \<le> length path"
  shows "fat_component_rejected path begin index
         \<longleftrightarrow> \<not> fat_close_ok (get_bytes path begin (index - begin))"
proof (cases "index = begin")
  case True
  then show ?thesis by (simp add: fat_component_rejected_def fat_close_ok_def get_bytes_def)
next
  case False
  let ?c = "get_bytes path begin (index - begin)"
  from False assms have l: "length ?c = index - begin" by simp
  then have ne: "?c \<noteq> []" using False assms by (metis diff_is_0_eq le_antisym length_0_conv)
  have h: "hd ?c = path ! begin"
    using False assms ne by (simp add: hd_conv_nth nth_get_bytes)
  have la: "last ?c = path ! (index - 1)"
    using False assms ne l by (simp add: last_conv_nth nth_get_bytes)
  have dots: "index - begin = 1 \<Longrightarrow> index - 1 = begin" "index - begin = 2 \<Longrightarrow> index - 1 = begin + 1"
    using assms by linarith+
  show ?thesis
    using False assms dots
    by (auto simp: fat_component_rejected_def fat_close_ok_def h la l Let_def)
qed

lemma fat_scan_correct:
  assumes "component_begin \<le> index" "index \<le> length path"
    and "list_all fat_char_ok (get_bytes path component_begin (index - component_begin))"
    and "ch CHR ''/'' \<notin> set (get_bytes path component_begin (index - component_begin))"
  shows "fat_scan path index component_begin =
    (if list_all fat_component_ok (split_slash (drop component_begin path))
     then FatPathOk else FatPathInvalid)"
  using assms
proof (induction path index component_begin rule: fat_scan.induct)
  case (1 path i b)
  let ?c = "get_bytes path b (i - b)"
  have split: "drop b path = ?c @ drop i path"
    using "1.prems"(1) by (simp add: get_bytes_def) (metis append_take_drop_id drop_drop le_add_diff_inverse2)
  have sp: "split_slash (drop b path) = (?c @ hd (split_slash (drop i path))) # tl (split_slash (drop i path))"
    unfolding split using "1.prems"(4) by (rule split_slash_prefix)
  have close: "fat_component_ok ?c \<longleftrightarrow> fat_close_ok ?c"
    using "1.prems"(3) by (simp add: fat_component_ok_close)
  consider (fin) "i = length path" | (slash) "i < length path" "path ! i = ch CHR ''/''"
    | (char) "i < length path" "path ! i \<noteq> ch CHR ''/''"
    using "1.prems"(2) by linarith
  then show ?case
  proof cases
    case fin
    have over: "fat_scan path (Suc i) (i + 1) = FatPathOk"
      using fin by (subst fat_scan.simps) simp
    show ?thesis
      using fin over close sp fat_close_test [OF "1.prems"(1,2)]
      by (subst fat_scan.simps) simp
  next
    case slash
    have d: "drop i path = ch CHR ''/'' # drop (Suc i) path"
      using slash by (metis Cons_nth_drop_Suc)
    have ih: "fat_close_ok ?c \<Longrightarrow> fat_scan path (Suc i) (i + 1) =
        (if list_all fat_component_ok (split_slash (drop (i + 1) path)) then FatPathOk else FatPathInvalid)"
      using slash "1.prems" fat_close_test [OF "1.prems"(1,2)]
      by (intro "1.IH"(2) [OF _ refl refl]) (simp_all add: get_bytes_def)
    show ?thesis
      using slash ih close sp d
      by (subst fat_scan.simps)
         (simp add: fat_close_test [OF "1.prems"(1,2)])
  next
    case char
    have d: "drop i path = path ! i # drop (Suc i) path"
      using char by (simp add: Cons_nth_drop_Suc)
    show ?thesis
    proof (cases "fat_char_ok (path ! i)")
      case True
      have ext: "get_bytes path b (Suc i - b) = ?c @ [path ! i]"
        using "1.prems"(1) char
        by (simp add: get_bytes_def Suc_diff_le take_Suc_conv_app_nth)
      have "fat_scan path (Suc i) b =
          (if list_all fat_component_ok (split_slash (drop b path)) then FatPathOk else FatPathInvalid)"
        using True char "1.prems" fat_char_ok_iff
        by (intro "1.IH"(1) [OF _ refl refl]) (auto simp: ext)
      then show ?thesis
        using True char by (subst fat_scan.simps) (simp add: fat_char_ok_iff)
    next
      case False
      then have "\<not> list_all fat_component_ok (split_slash (drop b path))"
        using sp d char
        by (simp add: fat_component_ok_close split_slash_step del: split_slash.simps(2))
      then show ?thesis
        using False char by (subst fat_scan.simps) (simp add: fat_char_ok_iff)
    qed
  qed
qed

section \<open>Properties\<close>

lemma split_slash_snoc: "split_slash (p @ [ch CHR ''/'']) = split_slash p @ [[]]"
proof (induction p)
  case (Cons b p)
  then show ?case by (cases "split_slash p") auto
qed simp

lemma outer_slash_rejected:
  assumes "p \<noteq> []" "p ! 0 = ch CHR ''/'' \<or> p ! (length p - 1) = ch CHR ''/''"
  shows "\<not> list_all fat_component_ok (split_slash p)"
proof -
  have bad: "\<not> fat_component_ok []" by (simp add: fat_component_ok_def)
  from assms(2) show ?thesis
  proof
    assume "p ! 0 = ch CHR ''/''"
    with assms(1) bad show ?thesis by (cases p) auto
  next
    assume "p ! (length p - 1) = ch CHR ''/''"
    with assms(1) have "p = butlast p @ [ch CHR ''/'']"
      by (metis append_butlast_last_id last_conv_nth)
    then have "[] \<in> set (split_slash p)" by (metis split_slash_snoc in_set_conv_decomp)
    with bad show ?thesis by (auto simp: list_all_iff)
  qed
qed

text \<open>
  (C19) The validator accepts a path exactly when it is non-empty, within the byte limit, and every
  component between slashes has 1 to 255 printable, permitted bytes, neither starts with a space
  nor ends in a space or a dot, and is not a reserved device name.
\<close>

theorem ValidateFatRelativePathBytes_ok_iff:
  "ValidateFatRelativePathBytes (Bytes p) limit = FatPathOk \<longleftrightarrow>
     limit \<noteq> 0 \<and> p \<noteq> [] \<and> length p \<le> limit \<and> list_all fat_component_ok (split_slash p)"
proof -
  have scan: "fat_scan p 0 0 = (if list_all fat_component_ok (split_slash p) then FatPathOk
                                else FatPathInvalid)"
    using fat_scan_correct [of 0 0 p] by (simp add: get_bytes_def)
  show ?thesis
    using outer_slash_rejected [of p]
    by (auto simp: ValidateFatRelativePathBytes_def Let_def scan)
qed

lemma dots_not_ok: "\<not> fat_component_ok (ascii ''.'')" "\<not> fat_component_ok (ascii ''..'')"
  by (simp_all add: fat_component_ok_def)

text \<open>
  An accepted path cannot leave the directory it is joined to: it is relative, has no \<open>.\<close>
  or \<open>..\<close> component, and contains neither a backslash, a drive colon nor a control byte.
\<close>

theorem accepted_path_confined:
  assumes "ValidateFatRelativePathBytes (Bytes p) limit = FatPathOk"
  shows "hd p \<noteq> ch CHR ''/''
    \<and> ascii ''.'' \<notin> set (split_slash p) \<and> ascii ''..'' \<notin> set (split_slash p)
    \<and> [] \<notin> set (split_slash p)
    \<and> (\<forall>c \<in> set (split_slash p). \<forall>b \<in> set c. 0x20 \<le> b \<and> b \<le> 0x7e \<and> b \<noteq> 0x5c \<and> b \<noteq> 0x3a)"
proof -
  from assms have ok: "list_all fat_component_ok (split_slash p)" and ne: "p \<noteq> []"
    by (simp_all add: ValidateFatRelativePathBytes_ok_iff)
  have "hd p \<noteq> ch CHR ''/''"
    using outer_slash_rejected [OF ne] ok ne by (metis hd_conv_nth)
  moreover have "[] \<notin> set (split_slash p)"
    using ok by (auto simp: list_all_iff fat_component_ok_def)
  moreover have "\<forall>c \<in> set (split_slash p). \<forall>b \<in> set c. fat_char_ok b"
    using ok by (auto simp: list_all_iff fat_component_ok_def)
  then have "\<forall>c \<in> set (split_slash p). \<forall>b \<in> set c. 0x20 \<le> b \<and> b \<le> 0x7e \<and> b \<noteq> 0x5c \<and> b \<noteq> 0x3a"
    by (fastforce simp: fat_char_ok_def IsForbidden_def)
  ultimately show ?thesis using ok dots_not_ok by (auto simp: list_all_iff)
qed

lemma boot_path_ok: "ValidateFatRelativePathBytes (Bytes (ascii ''boot/kernel8.img'')) 240 = FatPathOk"
  by (simp add: ValidateFatRelativePathBytes_ok_iff fat_component_ok_def fat_char_ok_def
      IsForbidden_def IsReservedStem_def EqualsAsciiIgnoreCase_iff FatAsciiLower_def)

theorem accepted_path_confined_witness:
  "ascii ''..'' \<notin> set (split_slash (ascii ''boot/kernel8.img''))"
  using accepted_path_confined [OF boot_path_ok] by blast

text \<open>
  The C-string entry point and the counted-bytes entry point decide every path alike,
  including the over-long ones.
\<close>

theorem ValidateFatRelativePath_agrees:
  "ValidateFatRelativePath (Some p) limit = ValidateFatRelativePathBytes (Bytes p) limit"
  by (auto simp: ValidateFatRelativePath_def ValidateFatRelativePathBytes_def Let_def min_def)

definition reserved_stems :: "bytes list" where
  "reserved_stems = map ascii ([''con'', ''prn'', ''aux'', ''nul'']
     @ map (\<lambda>d. ''com'' @ [d]) ''123456789'' @ map (\<lambda>d. ''lpt'' @ [d]) ''123456789'')"

end
