(* ===== verification/Update_Journal.thy ===== *)
theory Update_Journal
  imports Update_Policy Crc32
begin

text \<open>
  \<open>update_journal.cpp\<close>: the durable record that drives an update through its states. The theory
  models the record and its validity rule, the 188-byte codec, the choice between the two copies
  on the card, the transition check and the capability predicates.
\<close>

section \<open>States and flags\<close>

datatype JournalState =
    JIdle | JDiscovered | JDownloaded | JPrepared | JStaged | JCandidatePending
  | JCandidateHealthy | JCommitting | JCommitted | JRollingBack | JStateOther u8

fun JournalState_byte :: "JournalState \<Rightarrow> u8" where
  "JournalState_byte JIdle = 0"
| "JournalState_byte JDiscovered = 1"
| "JournalState_byte JDownloaded = 2"
| "JournalState_byte JPrepared = 3"
| "JournalState_byte JStaged = 4"
| "JournalState_byte JCandidatePending = 5"
| "JournalState_byte JCandidateHealthy = 6"
| "JournalState_byte JCommitting = 7"
| "JournalState_byte JCommitted = 8"
| "JournalState_byte JRollingBack = 9"
| "JournalState_byte (JStateOther b) = b"

definition JournalState_of_byte :: "u8 \<Rightarrow> JournalState" where
  "JournalState_of_byte b =
     (if b = 0 then JIdle else if b = 1 then JDiscovered else if b = 2 then JDownloaded
      else if b = 3 then JPrepared else if b = 4 then JStaged else if b = 5 then JCandidatePending
      else if b = 6 then JCandidateHealthy else if b = 7 then JCommitting
      else if b = 8 then JCommitted else if b = 9 then JRollingBack else JStateOther b)"

type_synonym JournalFlags = u16

definition kJournalFlagUserApproved :: JournalFlags where "kJournalFlagUserApproved = push_bit 0 1"
definition kJournalFlagResetRequired :: JournalFlags where "kJournalFlagResetRequired = push_bit 1 1"
definition kJournalFlagResetApproved :: JournalFlags where "kJournalFlagResetApproved = push_bit 2 1"
definition kJournalFlagDownloadVerified :: JournalFlags where "kJournalFlagDownloadVerified = push_bit 3 1"
definition kJournalFlagSnapshotComplete :: JournalFlags where "kJournalFlagSnapshotComplete = push_bit 4 1"
definition kJournalFlagStagingComplete :: JournalFlags where "kJournalFlagStagingComplete = push_bit 5 1"
definition kJournalFlagTrybootArmed :: JournalFlags where "kJournalFlagTrybootArmed = push_bit 6 1"
definition kJournalFlagCandidateHealthy :: JournalFlags where "kJournalFlagCandidateHealthy = push_bit 7 1"
definition kJournalFlagSelectorCommitted :: JournalFlags where "kJournalFlagSelectorCommitted = push_bit 8 1"
definition kJournalFlagRollbackRequested :: JournalFlags where "kJournalFlagRollbackRequested = push_bit 9 1"

definition kKnownJournalFlags :: JournalFlags where
  "kKnownJournalFlags =
     kJournalFlagUserApproved OR kJournalFlagResetRequired OR kJournalFlagResetApproved OR
     kJournalFlagDownloadVerified OR kJournalFlagSnapshotComplete OR
     kJournalFlagStagingComplete OR kJournalFlagTrybootArmed OR kJournalFlagCandidateHealthy OR
     kJournalFlagSelectorCommitted OR kJournalFlagRollbackRequested"

lemmas journal_flag_defs =
  kJournalFlagUserApproved_def kJournalFlagResetRequired_def kJournalFlagResetApproved_def
  kJournalFlagDownloadVerified_def kJournalFlagSnapshotComplete_def
  kJournalFlagStagingComplete_def kJournalFlagTrybootArmed_def kJournalFlagCandidateHealthy_def
  kJournalFlagSelectorCommitted_def kJournalFlagRollbackRequested_def

section \<open>The record\<close>

definition kTransactionIdBytes :: nat where "kTransactionIdBytes = 16"
definition kSha256DigestBytes :: nat where "kSha256DigestBytes = 32"
definition kJournalEncodedSize :: nat where "kJournalEncodedSize = 188"
definition kMaximumJournalSteps :: u32 where "kMaximumJournalSteps = 65535"

record JournalRecord =
  generation :: u64
  transaction_id :: bytes
  jstate :: JournalState
  substate :: u8
  flags :: JournalFlags
  source_release_sequence :: u64
  target_release_sequence :: u64
  board :: BoardFamily
  manifest_sha256 :: bytes
  zip_sha256 :: bytes
  consent_sha256 :: bytes
  old_boot_generation :: u64
  new_boot_generation :: u64
  completed_steps :: u32
  total_steps :: u32

text \<open>
  The C++ members are arrays of fixed extent. \<open>well_sized\<close> states these extents for the lists of
  the model; it is a fact of the type there, not a run-time check.
\<close>

definition well_sized :: "JournalRecord \<Rightarrow> bool" where
  "well_sized r \<longleftrightarrow> length (transaction_id r) = kTransactionIdBytes
     \<and> length (manifest_sha256 r) = kSha256DigestBytes
     \<and> length (zip_sha256 r) = kSha256DigestBytes
     \<and> length (consent_sha256 r) = kSha256DigestBytes"

definition IsKnownState :: "JournalState \<Rightarrow> bool" where
  "IsKnownState s \<longleftrightarrow> s = JIdle \<or> s = JDiscovered \<or> s = JDownloaded \<or> s = JPrepared \<or> s = JStaged
     \<or> s = JCandidatePending \<or> s = JCandidateHealthy \<or> s = JCommitting \<or> s = JCommitted
     \<or> s = JRollingBack"

definition BytesAreZero :: "bytes \<Rightarrow> bool" where
  "BytesAreZero bs \<longleftrightarrow> foldl (OR) 0 bs = 0"

definition BytesAreNonZero :: "bytes \<Rightarrow> bool" where
  "BytesAreNonZero bs \<longleftrightarrow> \<not> BytesAreZero bs"

definition RequiredFlagsForState :: "JournalState \<Rightarrow> JournalFlags" where
  "RequiredFlagsForState s =
     (let downloaded = kJournalFlagUserApproved OR kJournalFlagDownloadVerified;
          staged = downloaded OR kJournalFlagSnapshotComplete OR kJournalFlagStagingComplete
      in case s of
           JDownloaded \<Rightarrow> downloaded
         | JPrepared \<Rightarrow> downloaded
         | JStaged \<Rightarrow> staged
         | JCandidatePending \<Rightarrow> staged OR kJournalFlagTrybootArmed
         | JCandidateHealthy \<Rightarrow> staged OR kJournalFlagTrybootArmed OR kJournalFlagCandidateHealthy
         | JCommitting \<Rightarrow> staged OR kJournalFlagTrybootArmed OR kJournalFlagCandidateHealthy
         | JCommitted \<Rightarrow> staged OR kJournalFlagTrybootArmed OR kJournalFlagCandidateHealthy OR
                         kJournalFlagSelectorCommitted
         | JRollingBack \<Rightarrow> downloaded OR kJournalFlagRollbackRequested
         | _ \<Rightarrow> 0)"

definition AllowedFlagsForState :: "JournalState \<Rightarrow> JournalFlags" where
  "AllowedFlagsForState s =
     (let consent = kJournalFlagResetRequired OR kJournalFlagResetApproved
      in case s of
           JIdle \<Rightarrow> 0
         | JDiscovered \<Rightarrow> kJournalFlagResetRequired
         | JDownloaded \<Rightarrow> RequiredFlagsForState s OR consent
         | JPrepared \<Rightarrow> RequiredFlagsForState s OR consent OR kJournalFlagSnapshotComplete
         | JStaged \<Rightarrow> RequiredFlagsForState s OR consent
         | JCandidatePending \<Rightarrow> RequiredFlagsForState s OR consent
         | JCandidateHealthy \<Rightarrow> RequiredFlagsForState s OR consent
         | JCommitting \<Rightarrow> RequiredFlagsForState s OR consent OR kJournalFlagSelectorCommitted
         | JCommitted \<Rightarrow> RequiredFlagsForState s OR consent
         | JRollingBack \<Rightarrow> kKnownJournalFlags
         | JStateOther _ \<Rightarrow> 0)"

definition RecordIsValid :: "JournalRecord \<Rightarrow> bool" where
  "RecordIsValid r =
     (if generation r = 0 \<or> generation r = - 1 \<or> \<not> IsKnownState (jstate r) \<or> substate r > 31
         \<or> flags r AND NOT kKnownJournalFlags \<noteq> 0
         \<or> completed_steps r > total_steps r \<or> total_steps r > kMaximumJournalSteps
      then False
      else if jstate r = JIdle then
        flags r = 0 \<and> substate r = 0 \<and> BytesAreZero (transaction_id r)
        \<and> source_release_sequence r = 0 \<and> target_release_sequence r = 0
        \<and> board r = BoardUnknown \<and> BytesAreZero (manifest_sha256 r)
        \<and> BytesAreZero (zip_sha256 r) \<and> BytesAreZero (consent_sha256 r)
        \<and> old_boot_generation r = 0 \<and> new_boot_generation r = 0
        \<and> completed_steps r = 0 \<and> total_steps r = 0
      else if \<not> BytesAreNonZero (transaction_id r) \<or> source_release_sequence r = 0
         \<or> target_release_sequence r \<le> source_release_sequence r
         \<or> \<not> IsKnownBoardFamily (board r)
         \<or> \<not> BytesAreNonZero (manifest_sha256 r) \<or> \<not> BytesAreNonZero (zip_sha256 r)
         \<or> \<not> BytesAreNonZero (consent_sha256 r)
         \<or> old_boot_generation r = 0 \<or> new_boot_generation r = 0
         \<or> old_boot_generation r = new_boot_generation r \<or> total_steps r = 0
      then False
      else
        (let required = RequiredFlagsForState (jstate r); allowed = AllowedFlagsForState (jstate r)
         in if flags r AND required \<noteq> required \<or> flags r AND NOT allowed \<noteq> 0 then False
            else
              (let reset_required = (flags r AND kJournalFlagResetRequired \<noteq> 0);
                   reset_approved = (flags r AND kJournalFlagResetApproved \<noteq> 0)
               in if reset_approved \<and> \<not> reset_required then False
                  else if reset_required \<and> jstate r \<noteq> JDiscovered \<and> \<not> reset_approved then False
                  else True)))"

definition MakeIdleJournalRecord :: "u64 \<Rightarrow> JournalRecord" where
  "MakeIdleJournalRecord gen =
     \<lparr>generation = gen, transaction_id = replicate 16 0, jstate = JIdle, substate = 0, flags = 0,
      source_release_sequence = 0, target_release_sequence = 0, board = BoardUnknown,
      manifest_sha256 = replicate 32 0, zip_sha256 = replicate 32 0,
      consent_sha256 = replicate 32 0, old_boot_generation = 0, new_boot_generation = 0,
      completed_steps = 0, total_steps = 0\<rparr>"

section \<open>The codec\<close>

datatype JournalCodecStatus =
    CodecOk | CodecInvalidArgument | CodecWrongSize | CodecInvalidRecord | CodecBadMagic
  | CodecUnsupportedVersion | CodecBadCrc | CodecNonZeroReservedBytes

definition kJournalMagic :: bytes where
  "kJournalMagic = ascii ''BMXJNL1'' @ [0]"

definition kJournalFormatVersion :: u16 where "kJournalFormatVersion = 1"

definition kJournalCrcOffset :: nat where "kJournalCrcOffset = kJournalEncodedSize - 4"

definition WriteU16 :: "u16 \<Rightarrow> bytes" where
  "WriteU16 v = [ucast (v AND 0xff), ucast (drop_bit 8 v AND 0xff)]"

definition WriteU32 :: "u32 \<Rightarrow> bytes" where
  "WriteU32 v = le_bytes 4 v"

definition WriteU64 :: "u64 \<Rightarrow> bytes" where
  "WriteU64 v = le_bytes 8 v"

definition ReadU16 :: "bytes \<Rightarrow> u16" where
  "ReadU16 src = ucast (src ! 0) OR push_bit 8 (ucast (src ! 1))"

definition ReadU32 :: "bytes \<Rightarrow> u32" where
  "ReadU32 src = le_value (take 4 src)"

definition ReadU64 :: "bytes \<Rightarrow> u64" where
  "ReadU64 src = le_value (take 8 src)"

text \<open>
  The buffer writes in source order, after \<open>memset\<close> has cleared the buffer; bytes 57 to 63 are
  reserved and stay zero. The checksum over the first 184 bytes is written last.
\<close>

definition journal_writes :: "JournalRecord \<Rightarrow> (nat \<times> bytes) list" where
  "journal_writes r =
     [(0, kJournalMagic),
      (8, WriteU16 kJournalFormatVersion),
      (10, WriteU16 (of_nat kJournalEncodedSize)),
      (12, WriteU64 (generation r)),
      (20, transaction_id r),
      (36, [JournalState_byte (jstate r)]),
      (37, [substate r]),
      (38, WriteU16 (flags r)),
      (40, WriteU64 (source_release_sequence r)),
      (48, WriteU64 (target_release_sequence r)),
      (56, [BoardFamily_byte (board r)]),
      (64, manifest_sha256 r),
      (96, zip_sha256 r),
      (128, consent_sha256 r),
      (160, WriteU64 (old_boot_generation r)),
      (168, WriteU64 (new_boot_generation r)),
      (176, WriteU32 (completed_steps r)),
      (180, WriteU32 (total_steps r))]"

definition journal_payload :: "JournalRecord \<Rightarrow> bytes" where
  "journal_payload r = write_all (replicate kJournalEncodedSize 0) (journal_writes r)"

definition SerializeJournal :: "JournalRecord \<Rightarrow> byte_view \<Rightarrow> JournalCodecStatus \<times> bytes" where
  "SerializeJournal r output =
     (if view_null output then (CodecInvalidArgument, view_bytes output)
      else if view_size output \<noteq> kJournalEncodedSize then (CodecWrongSize, view_bytes output)
      else if \<not> RecordIsValid r then (CodecInvalidRecord, view_bytes output)
      else
        (let b = journal_payload r
         in (CodecOk, put_bytes b kJournalCrcOffset
               (WriteU32 (CalculateCrc32 (Bytes (take kJournalCrcOffset b)))))))"

definition journal_fields :: "bytes \<Rightarrow> JournalRecord" where
  "journal_fields b =
     \<lparr>generation = ReadU64 (drop 12 b),
      transaction_id = get_bytes b 20 16,
      jstate = JournalState_of_byte (b ! 36),
      substate = b ! 37,
      flags = ReadU16 (drop 38 b),
      source_release_sequence = ReadU64 (drop 40 b),
      target_release_sequence = ReadU64 (drop 48 b),
      board = BoardFamily_of_byte (b ! 56),
      manifest_sha256 = get_bytes b 64 32,
      zip_sha256 = get_bytes b 96 32,
      consent_sha256 = get_bytes b 128 32,
      old_boot_generation = ReadU64 (drop 160 b),
      new_boot_generation = ReadU64 (drop 168 b),
      completed_steps = ReadU32 (drop 176 b),
      total_steps = ReadU32 (drop 180 b)\<rparr>"

text \<open>A record is written to the caller only when every check passed.\<close>

definition ParseJournal :: "byte_view \<Rightarrow> JournalCodecStatus + JournalRecord" where
  "ParseJournal encoded =
     (let b = view_bytes encoded
      in if view_null encoded then Inl CodecInvalidArgument
         else if view_size encoded \<noteq> kJournalEncodedSize then Inl CodecWrongSize
         else if take 8 b \<noteq> kJournalMagic then Inl CodecBadMagic
         else if ReadU16 (drop 8 b) \<noteq> kJournalFormatVersion then Inl CodecUnsupportedVersion
         else if unat (ReadU16 (drop 10 b)) \<noteq> kJournalEncodedSize then Inl CodecWrongSize
         else if \<not> BytesAreZero (get_bytes b 57 7) then Inl CodecNonZeroReservedBytes
         else if ReadU32 (drop kJournalCrcOffset b)
                 \<noteq> CalculateCrc32 (Bytes (take kJournalCrcOffset b)) then Inl CodecBadCrc
         else if \<not> RecordIsValid (journal_fields b) then Inl CodecInvalidRecord
         else Inr (journal_fields b))"

section \<open>Codec lemmas\<close>

lemma foldl_or_zero: "foldl (OR) (a :: u8) bs = 0 \<longleftrightarrow> a = 0 \<and> (\<forall>b \<in> set bs. b = 0)"
  by (induction bs arbitrary: a) (auto simp: or_eq_0_iff)

lemma BytesAreZero_iff: "BytesAreZero bs \<longleftrightarrow> bs = replicate (length bs) 0"
  by (auto simp: BytesAreZero_def foldl_or_zero replicate_eqI intro!: replicate_eqI [symmetric]
      dest: arg_cong [where f = set])

lemma BytesAreZero_replicate [simp]: "BytesAreZero (replicate n b) \<longleftrightarrow> n = 0 \<or> b = 0"
  by (auto simp: BytesAreZero_def foldl_or_zero)

lemma WriteU16_le: "WriteU16 v = le_bytes 2 v"
  by (simp add: WriteU16_def le_bytes_def numeral_2_eq_2)

lemma ReadU16_le: "2 \<le> length src \<Longrightarrow> ReadU16 src = le_value (take 2 src)"
  by (cases src; cases "tl src")
     (auto simp: ReadU16_def le_value_def numeral_2_eq_2)

lemma length_writes [simp]:
  "length (WriteU16 v) = 2" "length (WriteU32 w) = 4" "length (WriteU64 x) = 8"
  "length kJournalMagic = 8"
  by (simp_all add: WriteU16_le WriteU32_def WriteU64_def kJournalMagic_def)

lemmas journal_sizes = kJournalEncodedSize_def kJournalCrcOffset_def kTransactionIdBytes_def
  kSha256DigestBytes_def

lemma ReadU32_get: "ReadU32 (drop off b) = le_value (get_bytes b off 4)"
  by (simp add: ReadU32_def get_bytes_def)

lemma ReadU64_get: "ReadU64 (drop off b) = le_value (get_bytes b off 8)"
  by (simp add: ReadU64_def get_bytes_def)

lemma ReadU16_get: "off + 2 \<le> length b \<Longrightarrow> ReadU16 (drop off b) = le_value (get_bytes b off 2)"
  by (simp add: ReadU16_le get_bytes_def)

lemma le_value_writes [simp]:
  "le_value (WriteU16 v) = v" "le_value (WriteU32 w) = w" "le_value (WriteU64 x) = x"
  by (simp_all add: WriteU16_le WriteU32_def WriteU64_def le_value_le_bytes)

lemma nth_get_single: "off < length b \<Longrightarrow> b ! off = hd (get_bytes b off 1)"
  using get_bytes_single [of off b] by simp

lemma JournalState_of_byte_known [simp]:
  "IsKnownState s \<Longrightarrow> JournalState_of_byte (JournalState_byte s) = s"
  by (auto simp: IsKnownState_def JournalState_of_byte_def)

lemma JournalState_byte_of_byte [simp]: "JournalState_byte (JournalState_of_byte b) = b"
  by (simp add: JournalState_of_byte_def)

lemma journal_layout:
  assumes "well_sized r" "length c = 4"
  shows "layout 0 188 (journal_writes r @ [(184, c)])"
  using assms by (simp add: journal_writes_def well_sized_def journal_sizes)

lemma RecordIsValid_known: "RecordIsValid r \<Longrightarrow> IsKnownState (jstate r)"
  by (auto simp: RecordIsValid_def split: if_splits)

lemma RecordIsValid_board:
  "RecordIsValid r \<Longrightarrow> BoardFamily_of_byte (BoardFamily_byte (board r)) = board r"
  by (cases "jstate r = JIdle") (auto simp: RecordIsValid_def Let_def split: if_splits)

text \<open>The encoder's output as one list of writes, with the checksum last.\<close>

definition journal_encoding :: "JournalRecord \<Rightarrow> bytes" where
  "journal_encoding r =
     write_all (replicate 188 0)
       (journal_writes r @ [(184, WriteU32 (CalculateCrc32 (Bytes (take 184 (journal_payload r)))))])"

lemma SerializeJournal_valid:
  "RecordIsValid r \<Longrightarrow> length buf = 188 \<Longrightarrow>
   SerializeJournal r (Bytes buf) = (CodecOk, journal_encoding r)"
  by (simp add: SerializeJournal_def journal_encoding_def write_all_append Let_def
      journal_payload_def journal_sizes)

lemma length_journal_encoding [simp]: "well_sized r \<Longrightarrow> length (journal_encoding r) = 188"
  unfolding journal_encoding_def by (rule length_write_all [OF journal_layout]) simp_all

lemma journal_encoding_get:
  assumes "well_sized r" "(off, bs) \<in> set (journal_writes r)" "k = length bs"
  shows "get_bytes (journal_encoding r) off k = bs"
  unfolding journal_encoding_def
  by (rule write_all_get [OF journal_layout]) (use assms in simp_all)

lemma journal_encoding_crc:
  assumes "well_sized r"
  shows "get_bytes (journal_encoding r) 184 4 =
         WriteU32 (CalculateCrc32 (Bytes (take 184 (journal_payload r))))"
  unfolding journal_encoding_def
  by (rule write_all_get [OF journal_layout]) (use assms in simp_all)

lemma journal_encoding_reserved:
  assumes "well_sized r"
  shows "get_bytes (journal_encoding r) 57 7 = replicate 7 0"
proof -
  have "get_bytes (journal_encoding r) 57 7 = get_bytes (replicate 188 0) 57 7"
    unfolding journal_encoding_def
    by (rule write_all_gap [OF journal_layout])
       (use assms in \<open>simp_all add: journal_writes_def well_sized_def journal_sizes\<close>)
  then show ?thesis by (simp add: get_bytes_replicate)
qed

lemma journal_encoding_take:
  assumes "well_sized r"
  shows "take 184 (journal_encoding r) = take 184 (journal_payload r)"
proof -
  have "length (journal_payload r) = 188"
    unfolding journal_payload_def kJournalEncodedSize_def
    by (rule length_write_all [of 0]) (use assms in \<open>simp_all add: journal_writes_def well_sized_def journal_sizes\<close>)
  then show ?thesis
    by (simp add: journal_encoding_def write_all_append journal_payload_def [symmetric]
        kJournalEncodedSize_def [symmetric] put_bytes_def)
       (simp add: journal_payload_def kJournalEncodedSize_def put_bytes_def)
qed

text \<open>Every field can be read back at its offset.\<close>

lemma journal_encoding_slices:
  assumes "well_sized r"
  shows "get_bytes (journal_encoding r) 0 8 = kJournalMagic"
    "get_bytes (journal_encoding r) 8 2 = WriteU16 kJournalFormatVersion"
    "get_bytes (journal_encoding r) 10 2 = WriteU16 (of_nat kJournalEncodedSize)"
    "get_bytes (journal_encoding r) 12 8 = WriteU64 (generation r)"
    "get_bytes (journal_encoding r) 20 16 = transaction_id r"
    "get_bytes (journal_encoding r) 36 1 = [JournalState_byte (jstate r)]"
    "get_bytes (journal_encoding r) 37 1 = [substate r]"
    "get_bytes (journal_encoding r) 38 2 = WriteU16 (flags r)"
    "get_bytes (journal_encoding r) 40 8 = WriteU64 (source_release_sequence r)"
    "get_bytes (journal_encoding r) 48 8 = WriteU64 (target_release_sequence r)"
    "get_bytes (journal_encoding r) 56 1 = [BoardFamily_byte (board r)]"
    "get_bytes (journal_encoding r) 64 32 = manifest_sha256 r"
    "get_bytes (journal_encoding r) 96 32 = zip_sha256 r"
    "get_bytes (journal_encoding r) 128 32 = consent_sha256 r"
    "get_bytes (journal_encoding r) 160 8 = WriteU64 (old_boot_generation r)"
    "get_bytes (journal_encoding r) 168 8 = WriteU64 (new_boot_generation r)"
    "get_bytes (journal_encoding r) 176 4 = WriteU32 (completed_steps r)"
    "get_bytes (journal_encoding r) 180 4 = WriteU32 (total_steps r)"
  using assms
  by (rule journal_encoding_get; use assms in \<open>simp add: journal_writes_def well_sized_def journal_sizes\<close>)+

lemma journal_fields_encoding:
  assumes "well_sized r" "RecordIsValid r"
  shows "journal_fields (journal_encoding r) = r"
proof -
  have "journal_fields (journal_encoding r) =
     \<lparr>generation = generation r, transaction_id = transaction_id r, jstate = jstate r,
      substate = substate r, flags = flags r,
      source_release_sequence = source_release_sequence r,
      target_release_sequence = target_release_sequence r, board = board r,
      manifest_sha256 = manifest_sha256 r, zip_sha256 = zip_sha256 r,
      consent_sha256 = consent_sha256 r, old_boot_generation = old_boot_generation r,
      new_boot_generation = new_boot_generation r, completed_steps = completed_steps r,
      total_steps = total_steps r\<rparr>"
    using assms(1) RecordIsValid_known [OF assms(2)] RecordIsValid_board [OF assms(2)]
    unfolding journal_fields_def ReadU64_get ReadU32_get
    by (simp add: ReadU16_get nth_get_single journal_encoding_slices del: One_nat_def)
  then show ?thesis by simp
qed

section \<open>Properties of the codec\<close>

lemma ParseJournal_encoding:
  assumes "well_sized r" "RecordIsValid r"
  shows "ParseJournal (Bytes (journal_encoding r)) = Inr r"
  using assms journal_encoding_slices(1-3) [OF assms(1)]
  by (simp add: ParseJournal_def Let_def journal_sizes ReadU16_get ReadU32_get
      journal_encoding_crc journal_encoding_take journal_encoding_reserved
      journal_fields_encoding get_bytes_zero)

text \<open>
  (C14) Round trip: a valid record serialised into a buffer of the right size parses back to the
  same record.
\<close>

theorem journal_roundtrip:
  assumes "well_sized r" "RecordIsValid r" "length buf = kJournalEncodedSize"
  shows "\<exists>b. SerializeJournal r (Bytes buf) = (CodecOk, b) \<and> ParseJournal (Bytes b) = Inr r"
  using assms SerializeJournal_valid [of r buf] ParseJournal_encoding
  by (simp add: kJournalEncodedSize_def)

definition sample_record :: JournalRecord where
  "sample_record =
     \<lparr>generation = 7, transaction_id = replicate 16 1, jstate = JStaged, substate = 0,
      flags = 0x39, source_release_sequence = 4, target_release_sequence = 5, board = Pi4Pi400,
      manifest_sha256 = replicate 32 2, zip_sha256 = replicate 32 3,
      consent_sha256 = replicate 32 4, old_boot_generation = 1, new_boot_generation = 2,
      completed_steps = 1, total_steps = 3\<rparr>"

lemma sample_record_ok: "well_sized sample_record" "RecordIsValid sample_record"
  by (simp_all add: sample_record_def well_sized_def journal_sizes RecordIsValid_def
      IsKnownState_def kKnownJournalFlags_def journal_flag_defs kMaximumJournalSteps_def
      BytesAreNonZero_def IsKnownBoardFamily_def RequiredFlagsForState_def
      AllowedFlagsForState_def Let_def)

theorem journal_roundtrip_witness:
  "\<exists>b. SerializeJournal sample_record (Bytes (replicate 188 0)) = (CodecOk, b)
       \<and> ParseJournal (Bytes b) = Inr sample_record"
  using journal_roundtrip [OF sample_record_ok, of "replicate 188 0"]
  by (simp add: kJournalEncodedSize_def)

lemma ParseJournal_InrD:
  assumes "ParseJournal (Bytes b) = Inr r"
  shows "length b = 188" "take 8 b = kJournalMagic" "ReadU16 (drop 8 b) = kJournalFormatVersion"
    "ReadU16 (drop 10 b) = of_nat kJournalEncodedSize" "get_bytes b 57 7 = replicate 7 0"
    "ReadU32 (drop 184 b) = CalculateCrc32 (Bytes (take 184 b))"
    "RecordIsValid (journal_fields b)" "r = journal_fields b"
proof -
  have *: "length b = 188 \<and> take 8 b = kJournalMagic \<and> ReadU16 (drop 8 b) = kJournalFormatVersion
      \<and> unat (ReadU16 (drop 10 b)) = kJournalEncodedSize \<and> BytesAreZero (get_bytes b 57 7)
      \<and> ReadU32 (drop 184 b) = CalculateCrc32 (Bytes (take 184 b))
      \<and> RecordIsValid (journal_fields b) \<and> r = journal_fields b"
    using assms by (auto simp: ParseJournal_def Let_def journal_sizes split: if_splits)
  then show "length b = 188" "take 8 b = kJournalMagic" "ReadU16 (drop 8 b) = kJournalFormatVersion"
    "ReadU32 (drop 184 b) = CalculateCrc32 (Bytes (take 184 b))"
    "RecordIsValid (journal_fields b)" "r = journal_fields b"
    by simp_all
  have "ReadU16 (drop 10 b) = of_nat (unat (ReadU16 (drop 10 b)))" by simp
  with * show "ReadU16 (drop 10 b) = of_nat kJournalEncodedSize" by metis
  from * have "length (get_bytes b 57 7) = 7" by simp
  with * show "get_bytes b 57 7 = replicate 7 0" by (metis BytesAreZero_iff)
qed

lemma write_read_slices:
  "off + 2 \<le> length b \<Longrightarrow> WriteU16 (ReadU16 (drop off b)) = get_bytes b off 2"
  "off + 4 \<le> length b \<Longrightarrow> WriteU32 (ReadU32 (drop off b)) = get_bytes b off 4"
  "off + 8 \<le> length b \<Longrightarrow> WriteU64 (ReadU64 (drop off b)) = get_bytes b off 8"
  using le_bytes_le_value [of "get_bytes b off 2", where 'a = 16]
    le_bytes_le_value [of "get_bytes b off 4", where 'a = 32]
    le_bytes_le_value [of "get_bytes b off 8", where 'a = 64]
  by (simp_all add: WriteU16_le WriteU32_def WriteU64_def ReadU16_get ReadU32_get ReadU64_get)

text \<open>The 188 bytes as the consecutive fields of the format.\<close>

definition journal_widths :: "nat list" where
  "journal_widths = [8, 2, 2, 8, 16, 1, 1, 2, 8, 8, 1, 7, 32, 32, 32, 8, 8, 4, 4, 4]"

lemma chop_journal:
  "chop journal_widths b =
     [get_bytes b 0 8, get_bytes b 8 2, get_bytes b 10 2, get_bytes b 12 8, get_bytes b 20 16,
      get_bytes b 36 1, get_bytes b 37 1, get_bytes b 38 2, get_bytes b 40 8, get_bytes b 48 8,
      get_bytes b 56 1, get_bytes b 57 7, get_bytes b 64 32, get_bytes b 96 32,
      get_bytes b 128 32, get_bytes b 160 8, get_bytes b 168 8, get_bytes b 176 4,
      get_bytes b 180 4, get_bytes b 184 4]"
  by (simp add: journal_widths_def get_bytes_def)

lemma well_sized_fields: "length b = 188 \<Longrightarrow> well_sized (journal_fields b)"
  by (simp add: well_sized_def journal_fields_def journal_sizes)

text \<open>
  The encoding is canonical: every buffer that parses is exactly the serialisation of the
  record it parses to, so two different buffers never denote the same journal record.
\<close>

theorem journal_canonical:
  assumes "ParseJournal (Bytes b) = Inr r"
  shows "SerializeJournal r (Bytes b) = (CodecOk, b)"
proof -
  note P = ParseJournal_InrD [OF assms]
  have ws: "well_sized r" using P(1,8) by (simp add: well_sized_fields)
  let ?e = "journal_encoding r"
  have sl: "butlast (chop journal_widths ?e) = butlast (chop journal_widths b)"
    using P(1,5) ws P(2) [folded get_bytes_zero]
    by (simp add: chop_journal journal_encoding_slices journal_encoding_reserved P(8)
        journal_fields_def write_read_slices get_bytes_single [of _ b] P(3,4) [symmetric] del: One_nat_def)
  have len: "length ?e = 188" using ws by simp
  have "concat (butlast (chop journal_widths x)) = take 184 x" if "length x = 188" for x :: bytes
    using that concat_chop [of "butlast journal_widths" "take 184 x"]
    by (simp add: journal_widths_def min_def drop_take)
  then have t: "take 184 ?e = take 184 b" using sl len P(1) by metis
  have "drop 184 ?e = drop 184 b"
  proof -
    have "get_bytes ?e 184 4 = WriteU32 (CalculateCrc32 (Bytes (take 184 ?e)))"
      using ws by (simp add: journal_encoding_crc journal_encoding_take)
    also have "\<dots> = WriteU32 (ReadU32 (drop 184 b))" using t P(6) by simp
    also have "\<dots> = get_bytes b 184 4" using P(1) by (intro write_read_slices) simp
    finally show ?thesis using len P(1) by (simp add: get_bytes_def)
  qed
  with t have "?e = b" by (metis append_take_drop_id)
  then show ?thesis using SerializeJournal_valid [of r b] P(1,7,8) by simp
qed

theorem journal_canonical_witness:
  "SerializeJournal sample_record (Bytes (journal_encoding sample_record))
     = (CodecOk, journal_encoding sample_record)"
proof -
  have "ParseJournal (Bytes (journal_encoding sample_record)) = Inr sample_record"
    by (rule ParseJournal_encoding [OF sample_record_ok])
  then show ?thesis by (rule journal_canonical)
qed

lemma corrupted_crc_mismatch:
  assumes "well_sized r" "journal_encoding r = p @ a @ q"
    and "length a' = length a" "length a \<le> 4" "a' \<noteq> a"
  shows "ReadU32 (drop 184 (p @ a' @ q)) \<noteq> CalculateCrc32 (Bytes (take 184 (p @ a' @ q)))"
proof -
  let ?e = "journal_encoding r" and ?c = "p @ a' @ q"
  have lens: "length ?e = 188" "length ?c = 188" using assms(1-3) length_journal_encoding [OF assms(1)]
    by simp_all
  have "WriteU32 (CalculateCrc32 (Bytes (take 184 ?e))) = drop 184 ?e"
    using assms(1) journal_encoding_crc [OF assms(1)] journal_encoding_take [OF assms(1)]
    by (simp add: get_bytes_def)
  then have "le_value (drop 184 ?e) = CalculateCrc32 (Bytes (take 184 ?e))"
    by (metis le_value_writes(2))
  moreover have "take 184 ?e @ drop 184 ?e = p @ a @ q" "take 184 ?c @ drop 184 ?c = ?c"
    using assms(2) by (simp_all only: append_take_drop_id)
  moreover have "length (drop 184 ?e) = 4" "length (drop 184 ?c) = 4" using lens by simp_all
  ultimately have "le_value (drop 184 ?c) \<noteq> CalculateCrc32 (Bytes (take 184 ?c))"
    using assms(3-5) crc.frame_detects [of "take 184 ?e" "drop 184 ?e" p a q "take 184 ?c" "drop 184 ?c" a']
    by metis
  then show ?thesis using lens by (simp add: ReadU32_def)
qed

text \<open>
  (C17) Corruption is detected: if any window of up to four bytes of a stored record, wherever it
  lies in the payload and the checksum field or across their border, is overwritten with different
  bytes, parsing fails.
\<close>

theorem journal_corruption_rejected:
  assumes "well_sized r" "RecordIsValid r" "SerializeJournal r (Bytes buf) = (CodecOk, p @ a @ q)"
    and "length a' = length a" "length a \<le> 4" "a' \<noteq> a"
  shows "\<exists>e. ParseJournal (Bytes (p @ a' @ q)) = Inl e"
proof (rule ccontr)
  assume "\<nexists>e. ParseJournal (Bytes (p @ a' @ q)) = Inl e"
  then obtain r' where "ParseJournal (Bytes (p @ a' @ q)) = Inr r'"
    by (cases "ParseJournal (Bytes (p @ a' @ q))") auto
  then have "ReadU32 (drop 184 (p @ a' @ q)) = CalculateCrc32 (Bytes (take 184 (p @ a' @ q)))"
    by (rule ParseJournal_InrD(6))
  moreover have "length buf = 188"
    using assms(3) by (auto simp: SerializeJournal_def journal_sizes split: if_splits)
  then have "journal_encoding r = p @ a @ q"
    using assms(2,3) by (simp add: SerializeJournal_valid)
  ultimately show False
    using corrupted_crc_mismatch [OF assms(1) _ assms(4-6)] by blast
qed

theorem journal_corruption_rejected_witness:
  "\<exists>e. ParseJournal (Bytes (take 182 (journal_encoding sample_record)
          @ map NOT (take 4 (drop 182 (journal_encoding sample_record)))
          @ drop 186 (journal_encoding sample_record))) = Inl e"
proof -
  let ?b = "journal_encoding sample_record" and ?w = "take 4 (drop 182 (journal_encoding sample_record))"
  have len: "length ?b = 188" using sample_record_ok by simp
  have "take 182 ?b @ ?w @ drop 186 ?b = ?b"
    using append_take_drop_id [of 4 "drop 182 ?b"] append_take_drop_id [of 182 ?b] by simp
  then have s: "SerializeJournal sample_record (Bytes ?b) = (CodecOk, take 182 ?b @ ?w @ drop 186 ?b)"
    using SerializeJournal_valid [OF sample_record_ok(2) len] by simp
  have "NOT (?w ! 0) \<noteq> ?w ! 0" using bit_not_iff [of "?w ! 0" 0] by (metis bit_0 even_not_iff)
  moreover have "0 < length ?w" using len by simp
  ultimately have "map NOT ?w \<noteq> ?w" by (metis nth_map)
  then show ?thesis
    using journal_corruption_rejected [OF sample_record_ok s, of "map NOT ?w"] by simp
qed

end
