(* ===== verification/Journal_Protocol.thy ===== *)
theory Journal_Protocol
  imports Update_Journal "HOL-Library.Sublist"
begin

text \<open>
  \<open>update_journal.cpp\<close>, second half: the choice between the two stored copies, the transition
  check and the capability predicates. The transition check is read as a step relation on
  records; its invariants and the order in which a transaction passes through its states are
  proved by induction over runs. The locale \<open>redundant_medium\<close> is the contract of the two-copy
  medium, interpreted on the code's codec and selection.
\<close>

section \<open>Comparing records\<close>

definition SameTransaction :: "JournalRecord \<Rightarrow> JournalRecord \<Rightarrow> bool" where
  "SameTransaction l r \<longleftrightarrow> transaction_id l = transaction_id r"

definition SameImmutableFields :: "JournalRecord \<Rightarrow> JournalRecord \<Rightarrow> bool" where
  "SameImmutableFields l r \<longleftrightarrow>
     source_release_sequence l = source_release_sequence r
     \<and> target_release_sequence l = target_release_sequence r \<and> board l = board r
     \<and> manifest_sha256 l = manifest_sha256 r \<and> zip_sha256 l = zip_sha256 r
     \<and> consent_sha256 l = consent_sha256 r
     \<and> old_boot_generation l = old_boot_generation r
     \<and> new_boot_generation l = new_boot_generation r"

definition JournalRecordsEqual :: "JournalRecord \<Rightarrow> JournalRecord \<Rightarrow> bool" where
  "JournalRecordsEqual l r \<longleftrightarrow>
     generation l = generation r \<and> SameTransaction l r \<and> jstate l = jstate r
     \<and> substate l = substate r \<and> flags l = flags r \<and> SameImmutableFields l r
     \<and> completed_steps l = completed_steps r \<and> total_steps l = total_steps r"

lemma JournalRecordsEqual_iff: "JournalRecordsEqual l r \<longleftrightarrow> l = r"
  by (cases l; cases r) (auto simp: JournalRecordsEqual_def SameTransaction_def SameImmutableFields_def)

section \<open>Choosing a copy\<close>

record JournalCopy =
  copy_present :: bool
  copy_encoded :: byte_view

datatype JournalSelectionStatus =
    NoJournal | SelectedA | SelectedB | SelectedEquivalentCopies | NoValidCopy
  | AmbiguousSameGeneration

record JournalSelectionResult =
  sel_status :: JournalSelectionStatus
  copy_a_status :: JournalCodecStatus
  copy_b_status :: JournalCodecStatus
  sel_record :: JournalRecord

text \<open>The status and record a copy contributes; an absent copy keeps the initial \<open>WrongSize\<close>.\<close>

definition copy_parse :: "JournalCopy \<Rightarrow> JournalCodecStatus + JournalRecord" where
  "copy_parse c = (if copy_present c then ParseJournal (copy_encoded c) else Inl CodecWrongSize)"

definition codec_status :: "JournalCodecStatus + JournalRecord \<Rightarrow> JournalCodecStatus" where
  "codec_status p = (case p of Inl e \<Rightarrow> e | Inr _ \<Rightarrow> CodecOk)"

definition SelectJournalCopy :: "JournalCopy \<Rightarrow> JournalCopy \<Rightarrow> JournalSelectionResult" where
  "SelectJournalCopy a b =
     (let result = \<lparr>sel_status = NoJournal, copy_a_status = CodecWrongSize,
                    copy_b_status = CodecWrongSize, sel_record = MakeIdleJournalRecord 0\<rparr>
      in if \<not> copy_present a \<and> \<not> copy_present b then result
         else
           (let pa = copy_parse a; pb = copy_parse b;
                result = result\<lparr>copy_a_status := codec_status pa, copy_b_status := codec_status pb\<rparr>
            in case (pa, pb) of
                 (Inl _, Inl _) \<Rightarrow> result\<lparr>sel_status := NoValidCopy\<rparr>
               | (Inr ra, Inl _) \<Rightarrow> result\<lparr>sel_status := SelectedA, sel_record := ra\<rparr>
               | (Inl _, Inr rb) \<Rightarrow> result\<lparr>sel_status := SelectedB, sel_record := rb\<rparr>
               | (Inr ra, Inr rb) \<Rightarrow>
                   if generation ra = generation rb then
                     (if \<not> JournalRecordsEqual ra rb
                      then result\<lparr>sel_status := AmbiguousSameGeneration\<rparr>
                      else result\<lparr>sel_status := SelectedEquivalentCopies, sel_record := ra\<rparr>)
                   else if generation ra > generation rb
                   then result\<lparr>sel_status := SelectedA, sel_record := ra\<rparr>
                   else result\<lparr>sel_status := SelectedB, sel_record := rb\<rparr>))"

section \<open>Transitions\<close>

definition StateEdgeAllowed :: "JournalState \<Rightarrow> JournalState \<Rightarrow> bool" where
  "StateEdgeAllowed current nxt =
     (if current = nxt \<and> current \<noteq> JIdle then True
      else if nxt = JIdle then
        current = JDiscovered \<or> current = JDownloaded \<or> current = JCommitted
        \<or> current = JRollingBack
      else if nxt = JRollingBack then
        current = JPrepared \<or> current = JStaged \<or> current = JCandidatePending
        \<or> current = JCandidateHealthy \<or> current = JCommitting \<or> current = JCommitted
      else
        (case current of
           JIdle \<Rightarrow> nxt = JDiscovered
         | JDiscovered \<Rightarrow> nxt = JDownloaded
         | JDownloaded \<Rightarrow> nxt = JPrepared
         | JPrepared \<Rightarrow> nxt = JStaged
         | JStaged \<Rightarrow> nxt = JCandidatePending
         | JCandidatePending \<Rightarrow> nxt = JCandidateHealthy
         | JCandidateHealthy \<Rightarrow> nxt = JCommitting
         | JCommitting \<Rightarrow> nxt = JCommitted
         | _ \<Rightarrow> False))"

datatype JournalTransitionStatus =
    TransitionAllowed | InvalidCurrentRecord | InvalidNextRecord | GenerationMismatch
  | StateTransitionDenied | TransactionMismatch | ImmutableFieldChanged | FlagsRegressed
  | ProgressRegressed

definition ValidateJournalTransition ::
  "JournalRecord \<Rightarrow> JournalRecord \<Rightarrow> JournalTransitionStatus" where
  "ValidateJournalTransition current nxt =
     (if \<not> RecordIsValid current then InvalidCurrentRecord
      else if \<not> RecordIsValid nxt then InvalidNextRecord
      else if generation current = - 1 \<or> generation nxt \<noteq> generation current + 1
        then GenerationMismatch
      else if \<not> StateEdgeAllowed (jstate current) (jstate nxt) then StateTransitionDenied
      else if jstate current = JIdle then TransitionAllowed
      else if jstate nxt = JIdle then TransitionAllowed
      else if \<not> SameTransaction current nxt then TransactionMismatch
      else if \<not> SameImmutableFields current nxt then ImmutableFieldChanged
      else if flags nxt AND flags current \<noteq> flags current then FlagsRegressed
      else if completed_steps nxt < completed_steps current
              \<or> total_steps nxt \<noteq> total_steps current then ProgressRegressed
      else TransitionAllowed)"

definition JournalStateAllowsSnapshotOrStagingWrites :: "JournalState \<Rightarrow> bool" where
  "JournalStateAllowsSnapshotOrStagingWrites s \<longleftrightarrow> s = JPrepared"

definition JournalStateAllowsCandidateArm :: "JournalState \<Rightarrow> bool" where
  "JournalStateAllowsCandidateArm s \<longleftrightarrow> s = JStaged"

definition JournalStateAllowsCandidateHealthMark :: "JournalState \<Rightarrow> bool" where
  "JournalStateAllowsCandidateHealthMark s \<longleftrightarrow> s = JCandidatePending"

definition JournalStateAllowsSelectorCommit :: "JournalState \<Rightarrow> bool" where
  "JournalStateAllowsSelectorCommit s \<longleftrightarrow> s = JCandidateHealthy \<or> s = JCommitting"

definition JournalStateAllowsRollbackWrites :: "JournalState \<Rightarrow> bool" where
  "JournalStateAllowsRollbackWrites s \<longleftrightarrow> s = JRollingBack"

definition JournalStateAllowsCleanup :: "JournalState \<Rightarrow> bool" where
  "JournalStateAllowsCleanup s \<longleftrightarrow> s = JCommitted \<or> s = JRollingBack"

section \<open>The two-copy medium\<close>

text \<open>
  The contract between the journal codec and the store that keeps two copies of the record:
  encoding and decoding are inverse on storable records, and \<open>pick\<close> prefers the decodable copy
  with the greater version.
\<close>

locale redundant_medium =
  fixes encode :: "'r \<Rightarrow> 'b" and decode :: "'b \<Rightarrow> 'r option"
    and storable :: "'r \<Rightarrow> bool" and version :: "'r \<Rightarrow> nat"
    and pick :: "'b \<Rightarrow> 'b \<Rightarrow> 'r option"
  assumes decode_encode: "storable r \<Longrightarrow> decode (encode r) = Some r"
    and pick_left: "decode a = Some r \<Longrightarrow>
          (\<And>r'. decode b = Some r' \<Longrightarrow> version r' < version r) \<Longrightarrow> pick a b = Some r"
    and pick_right: "decode b = Some r \<Longrightarrow>
          (\<And>r'. decode a = Some r' \<Longrightarrow> version r' < version r) \<Longrightarrow> pick a b = Some r"
begin

text \<open>
  The current record sits in one copy. Whatever a write of the next record leaves in the other
  copy, provided it is either undecodable, an older record, or the complete next record, the
  medium yields the current or the next record.
\<close>

definition torn_write :: "'r \<Rightarrow> 'r \<Rightarrow> 'b \<Rightarrow> bool" where
  "torn_write cur nxt t \<longleftrightarrow>
     (case decode t of None \<Rightarrow> True | Some r \<Rightarrow> version r < version cur \<or> r = nxt)"

lemma power_cut:
  assumes "storable cur" "version cur < version nxt" "torn_write cur nxt t"
  shows "pick (encode cur) t \<in> {Some cur, Some nxt} \<and> pick t (encode cur) \<in> {Some cur, Some nxt}"
proof (cases "decode t = Some nxt")
  case True
  then show ?thesis
    using pick_right [of t nxt "encode cur"] pick_left [of t nxt "encode cur"]
      decode_encode [OF assms(1)] assms(2) by auto
next
  case False
  then have "decode t = Some r' \<Longrightarrow> version r' < version cur" for r'
    using assms(3) by (auto simp: torn_write_def)
  then show ?thesis
    using pick_left [of "encode cur" cur t] pick_right [of "encode cur" cur t]
      decode_encode [OF assms(1)] by auto
qed

lemma completed_write:
  assumes "storable cur" "storable nxt" "version cur < version nxt"
  shows "pick (encode cur) (encode nxt) = Some nxt \<and> pick (encode nxt) (encode cur) = Some nxt"
  using pick_right [of "encode nxt" nxt "encode cur"] pick_left [of "encode nxt" nxt "encode cur"]
    decode_encode assms by auto

end

definition stored_copy :: "bytes \<Rightarrow> JournalCopy" where
  "stored_copy bs = \<lparr>copy_present = True, copy_encoded = Bytes bs\<rparr>"

definition parsed_record :: "bytes \<Rightarrow> JournalRecord option" where
  "parsed_record bs = (case ParseJournal (Bytes bs) of Inl _ \<Rightarrow> None | Inr r \<Rightarrow> Some r)"

definition selected_record :: "JournalSelectionResult \<Rightarrow> JournalRecord option" where
  "selected_record s =
     (if sel_status s \<in> {SelectedA, SelectedB, SelectedEquivalentCopies}
      then Some (sel_record s) else None)"

lemmas selection_defs = SelectJournalCopy_def selected_record_def copy_parse_def
  parsed_record_def stored_copy_def

interpretation journal_medium: redundant_medium journal_encoding parsed_record
  "\<lambda>r. well_sized r \<and> RecordIsValid r" "\<lambda>r. unat (generation r)"
  "\<lambda>a b. selected_record (SelectJournalCopy (stored_copy a) (stored_copy b))"
proof
  fix r
  assume "well_sized r \<and> RecordIsValid r"
  then show "parsed_record (journal_encoding r) = Some r"
    by (simp add: parsed_record_def ParseJournal_encoding)
next
  fix a b r
  assume a: "parsed_record a = Some r"
    and b: "\<And>r'. parsed_record b = Some r' \<Longrightarrow> unat (generation r') < unat (generation r)"
  show "selected_record (SelectJournalCopy (stored_copy a) (stored_copy b)) = Some r"
    using a b by (cases "ParseJournal (Bytes a)"; cases "ParseJournal (Bytes b)")
      (auto simp: selection_defs Let_def word_less_nat_alt)
next
  fix a b r
  assume b: "parsed_record b = Some r"
    and a: "\<And>r'. parsed_record a = Some r' \<Longrightarrow> unat (generation r') < unat (generation r)"
  show "selected_record (SelectJournalCopy (stored_copy a) (stored_copy b)) = Some r"
    using a b by (cases "ParseJournal (Bytes a)"; cases "ParseJournal (Bytes b)")
      (auto simp: selection_defs Let_def word_less_nat_alt)
qed

section \<open>Properties of the two-copy medium\<close>

lemma transition_generation:
  assumes "ValidateJournalTransition cur nxt = TransitionAllowed"
  shows "unat (generation nxt) = Suc (unat (generation cur))"
proof -
  have "generation cur \<noteq> - 1" "generation nxt = generation cur + 1"
    using assms by (auto simp: ValidateJournalTransition_def split: if_splits)
  then show ?thesis by (metis add.commute Suc_eq_plus1 unatSuc add.right_inverse minus_unique)
qed

text \<open>
  (C15) A power cut during a journal write loses nothing: while one copy holds the current record,
  and the other holds undecodable bytes, an older record, or the complete record of an allowed
  next transition, selection yields the current or the next record, whichever copy is which.
\<close>

theorem journal_power_cut:
  assumes "well_sized cur" "ValidateJournalTransition cur nxt = TransitionAllowed"
    and "parsed_record t = None \<or> parsed_record t = Some nxt
         \<or> (\<exists>old. parsed_record t = Some old \<and> generation old < generation cur)"
  shows "selected_record (SelectJournalCopy (stored_copy (journal_encoding cur)) (stored_copy t))
           \<in> {Some cur, Some nxt}
       \<and> selected_record (SelectJournalCopy (stored_copy t) (stored_copy (journal_encoding cur)))
           \<in> {Some cur, Some nxt}"
proof -
  have "RecordIsValid cur" using assms(2) by (auto simp: ValidateJournalTransition_def split: if_splits)
  moreover have "unat (generation cur) < unat (generation nxt)"
    using transition_generation [OF assms(2)] by simp
  moreover have "journal_medium.torn_write cur nxt t"
    using assms(3) by (auto simp: journal_medium.torn_write_def word_less_nat_alt)
  ultimately show ?thesis using assms(1) journal_medium.power_cut [of cur nxt t] by simp
qed

definition sample_next :: JournalRecord where
  "sample_next = sample_record\<lparr>generation := 8, jstate := JCandidatePending, flags := 0x79\<rparr>"

lemma sample_transition: "ValidateJournalTransition sample_record sample_next = TransitionAllowed"
  using sample_record_ok(2)
  by (simp add: ValidateJournalTransition_def sample_next_def)
     (simp add: sample_record_def RecordIsValid_def
      IsKnownState_def kKnownJournalFlags_def journal_flag_defs kMaximumJournalSteps_def
      BytesAreNonZero_def IsKnownBoardFamily_def RequiredFlagsForState_def
      AllowedFlagsForState_def Let_def StateEdgeAllowed_def SameTransaction_def
      SameImmutableFields_def)

lemma parsed_record_short: "length t \<noteq> 188 \<Longrightarrow> parsed_record t = None"
  by (simp add: parsed_record_def ParseJournal_def Let_def journal_sizes)

theorem journal_power_cut_witness:
  "selected_record (SelectJournalCopy (stored_copy (journal_encoding sample_record))
                                      (stored_copy [1, 2, 3])) \<in> {Some sample_record, Some sample_next}"
  using journal_power_cut [OF sample_record_ok(1) sample_transition, of "[1, 2, 3]"]
    parsed_record_short [of "[1, 2, 3]"] by simp

text \<open>
  Selection is sound: a selected record is valid, was parsed from a copy that is present,
  and no copy that parses carries a later generation; two different records with the same
  generation are never resolved silently.
\<close>

theorem selection_sound:
  assumes "selected_record (SelectJournalCopy a b) = Some r"
  shows "RecordIsValid r \<and> (copy_parse a = Inr r \<or> copy_parse b = Inr r)
    \<and> (\<forall>r'. copy_parse a = Inr r' \<or> copy_parse b = Inr r' \<longrightarrow>
             r' = r \<or> generation r' < generation r)"
proof -
  have valid: "copy_parse c = Inr x \<Longrightarrow> RecordIsValid x" for c x
    by (auto simp: copy_parse_def ParseJournal_def Let_def split: if_splits)
  have absent: "\<not> copy_present c \<Longrightarrow> copy_parse c = Inl CodecWrongSize" for c
    by (simp add: copy_parse_def)
  show ?thesis
    using assms valid absent
    by (cases "copy_parse a"; cases "copy_parse b")
       (auto simp: SelectJournalCopy_def selected_record_def Let_def JournalRecordsEqual_iff
         split: if_splits)
qed

theorem selection_sound_witness:
  "RecordIsValid sample_record
   \<and> (copy_parse (stored_copy (journal_encoding sample_record)) = Inr sample_record
      \<or> copy_parse (stored_copy []) = Inr sample_record)"
proof -
  have "selected_record (SelectJournalCopy (stored_copy (journal_encoding sample_record))
          (stored_copy [])) = Some sample_record"
    using sample_record_ok
    by (simp add: selection_defs ParseJournal_encoding Let_def)
       (simp add: ParseJournal_def journal_sizes)
  then show ?thesis using selection_sound by blast
qed

section \<open>Runs of the journal\<close>

inductive journal_run :: "JournalRecord list \<Rightarrow> bool" where
  run_start: "RecordIsValid r \<Longrightarrow> jstate r = JIdle \<Longrightarrow> journal_run [r]"
| run_step: "journal_run rs \<Longrightarrow> ValidateJournalTransition (last rs) r = TransitionAllowed \<Longrightarrow>
     journal_run (rs @ [r])"

lemma run_nonempty: "journal_run rs \<Longrightarrow> rs \<noteq> []"
  by (induction rule: journal_run.induct) simp_all

lemma TransitionAllowedD:
  assumes "ValidateJournalTransition cur nxt = TransitionAllowed"
  shows "RecordIsValid cur" "RecordIsValid nxt" "StateEdgeAllowed (jstate cur) (jstate nxt)"
    "jstate cur \<noteq> JIdle \<Longrightarrow> jstate nxt \<noteq> JIdle \<Longrightarrow>
       SameTransaction cur nxt \<and> SameImmutableFields cur nxt
       \<and> flags nxt AND flags cur = flags cur
       \<and> completed_steps cur \<le> completed_steps nxt \<and> total_steps nxt = total_steps cur"
  using assms by (auto simp: ValidateJournalTransition_def split: if_splits)

text \<open>The states a transaction must have passed, in order, before it can be in a given state.\<close>

fun gates :: "JournalState \<Rightarrow> JournalState list" where
  "gates JIdle = [JIdle]"
| "gates JDiscovered = [JIdle, JDiscovered]"
| "gates JDownloaded = [JIdle, JDiscovered, JDownloaded]"
| "gates JPrepared = [JIdle, JDiscovered, JDownloaded, JPrepared]"
| "gates JStaged = [JIdle, JDiscovered, JDownloaded, JPrepared, JStaged]"
| "gates JCandidatePending =
     [JIdle, JDiscovered, JDownloaded, JPrepared, JStaged, JCandidatePending]"
| "gates JCandidateHealthy =
     [JIdle, JDiscovered, JDownloaded, JPrepared, JStaged, JCandidatePending, JCandidateHealthy]"
| "gates JCommitting =
     [JIdle, JDiscovered, JDownloaded, JPrepared, JStaged, JCandidatePending, JCandidateHealthy,
      JCommitting]"
| "gates JCommitted =
     [JIdle, JDiscovered, JDownloaded, JPrepared, JStaged, JCandidatePending, JCandidateHealthy,
      JCommitting, JCommitted]"
| "gates JRollingBack = [JIdle, JDiscovered, JDownloaded, JPrepared, JRollingBack]"
| "gates (JStateOther _) = []"

lemma gates_edge:
  assumes "StateEdgeAllowed s s'" "IsKnownState s" "IsKnownState s'"
  shows "gates s' = gates s \<or> gates s' = [s'] \<or>
         (\<exists>xs. subseq xs (gates s) \<and> gates s' = xs @ [s'])"
proof -
  have pre: "subseq [JIdle, JDiscovered, JDownloaded, JPrepared] (gates s)"
    if "s \<in> {JPrepared, JStaged, JCandidatePending, JCandidateHealthy, JCommitting, JCommitted}"
    using that by auto
  have "s' = s \<or> s' = JIdle \<or> gates s' = gates s @ [s'] \<or>
     (s' = JRollingBack \<and>
      s \<in> {JPrepared, JStaged, JCandidatePending, JCandidateHealthy, JCommitting, JCommitted})"
    using assms by (auto simp: StateEdgeAllowed_def IsKnownState_def split: if_splits)
  then show ?thesis using pre by (auto intro: subseq_order.order_refl)
qed

lemma run_gates: "journal_run rs \<Longrightarrow> subseq (gates (jstate (last rs))) (map jstate rs)"
proof (induction rule: journal_run.induct)
  case (run_start r)
  then show ?case by simp
next
  case (run_step rs r)
  note T = TransitionAllowedD [OF run_step.hyps(2)]
  from gates_edge [OF T(3) RecordIsValid_known [OF T(1)] RecordIsValid_known [OF T(2)]]
  consider "gates (jstate r) = gates (jstate (last rs))" | "gates (jstate r) = [jstate r]"
    | xs where "subseq xs (gates (jstate (last rs)))" "gates (jstate r) = xs @ [jstate r]"
    by blast
  then show ?case
  proof cases
    case 1
    then show ?thesis using run_step.IH by (auto intro: list_emb_prefix)
  next
    case 2
    then show ?thesis by (simp add: subseq_singleton_left)
  next
    case 3
    then show ?thesis
      using run_step.IH by (auto intro!: list_emb_append_mono intro: subseq_order.order_trans)
  qed
qed

text \<open>
  (C13) No shortcut to a commit: a run of allowed transitions that starts idle and ends with a
  committed record has passed, in this order, through discovery, verified download, preparation,
  staging, a pending candidate boot, a healthy candidate and the commit in progress.
\<close>

theorem commit_passes_every_gate:
  assumes "journal_run rs" "jstate (last rs) = JCommitted"
  shows "subseq [JIdle, JDiscovered, JDownloaded, JPrepared, JStaged, JCandidatePending,
                 JCandidateHealthy, JCommitting, JCommitted] (map jstate rs)"
  using run_gates [OF assms(1)] assms(2) by simp

definition sample_at :: "u64 \<Rightarrow> JournalState \<Rightarrow> JournalFlags \<Rightarrow> JournalRecord" where
  "sample_at g s f = sample_record\<lparr>generation := g, jstate := s, flags := f\<rparr>"

lemmas validity_simps = sample_at_def sample_record_def MakeIdleJournalRecord_def RecordIsValid_def
  IsKnownState_def kKnownJournalFlags_def journal_flag_defs kMaximumJournalSteps_def
  BytesAreNonZero_def IsKnownBoardFamily_def RequiredFlagsForState_def AllowedFlagsForState_def
  Let_def

lemma sample_at_valid:
  "RecordIsValid (MakeIdleJournalRecord 1)"
  "RecordIsValid (sample_at 2 JDiscovered 0)" "RecordIsValid (sample_at 3 JDownloaded 0x09)"
  "RecordIsValid (sample_at 4 JPrepared 0x09)" "RecordIsValid (sample_at 5 JStaged 0x39)"
  "RecordIsValid (sample_at 6 JCandidatePending 0x79)"
  "RecordIsValid (sample_at 7 JCandidateHealthy 0xf9)"
  "RecordIsValid (sample_at 8 JCommitting 0xf9)" "RecordIsValid (sample_at 9 JCommitted 0x1f9)"
  by (simp_all add: validity_simps)

lemma sample_at_step:
  assumes "RecordIsValid (sample_at g s f)" "RecordIsValid (sample_at g' s' f')"
    "g \<noteq> - 1" "g' = g + 1" "StateEdgeAllowed s s'" "f' AND f = f"
  shows "ValidateJournalTransition (sample_at g s f) (sample_at g' s' f') = TransitionAllowed"
  using assms
  by (simp add: ValidateJournalTransition_def)
     (auto simp: sample_at_def SameTransaction_def SameImmutableFields_def)

lemma sample_first_step:
  "ValidateJournalTransition (MakeIdleJournalRecord 1) (sample_at 2 JDiscovered 0) = TransitionAllowed"
  using sample_at_valid(1,2)
  by (simp add: ValidateJournalTransition_def)
     (simp add: sample_at_def MakeIdleJournalRecord_def StateEdgeAllowed_def)

definition sample_run :: "JournalRecord list" where
  "sample_run =
     [MakeIdleJournalRecord 1, sample_at 2 JDiscovered 0, sample_at 3 JDownloaded 0x09,
      sample_at 4 JPrepared 0x09, sample_at 5 JStaged 0x39, sample_at 6 JCandidatePending 0x79,
      sample_at 7 JCandidateHealthy 0xf9, sample_at 8 JCommitting 0xf9,
      sample_at 9 JCommitted 0x1f9]"

text \<open>Runs as an executable check on the list of records.\<close>

fun allowed_chain :: "JournalRecord \<Rightarrow> JournalRecord list \<Rightarrow> bool" where
  "allowed_chain r [] = True"
| "allowed_chain r (r' # rs) \<longleftrightarrow>
     ValidateJournalTransition r r' = TransitionAllowed \<and> allowed_chain r' rs"

lemma run_extend: "journal_run (rs @ [r]) \<Longrightarrow> allowed_chain r rs' \<Longrightarrow> journal_run (rs @ r # rs')"
proof (induction rs' arbitrary: rs r)
  case (Cons r' rs')
  then have "journal_run ((rs @ [r]) @ [r'])" using run_step [OF Cons.prems(1), of r'] by simp
  then show ?case using Cons.IH [of "rs @ [r]" r'] Cons.prems(2) by simp
qed simp

lemma journal_run_sample: "journal_run sample_run"
proof -
  have "allowed_chain (MakeIdleJournalRecord 1) (tl sample_run)"
    by (simp add: sample_run_def sample_first_step sample_at_step sample_at_valid
        StateEdgeAllowed_def)
  moreover have "journal_run ([] @ [MakeIdleJournalRecord 1])"
    using sample_at_valid(1) by (simp add: run_start MakeIdleJournalRecord_def)
  ultimately show ?thesis
    using run_extend [of "[]" "MakeIdleJournalRecord 1" "tl sample_run"] by (simp add: sample_run_def)
qed

theorem commit_passes_every_gate_witness:
  "subseq [JIdle, JDiscovered, JDownloaded, JPrepared, JStaged, JCandidatePending,
           JCandidateHealthy, JCommitting, JCommitted] (map jstate sample_run)"
  by (rule commit_passes_every_gate [OF journal_run_sample]) (simp add: sample_run_def sample_at_def)

text \<open>
  Generations number the records of a run: they are positive, stay below the reserved
  maximum and increase by exactly one, so no write order can be confused.
\<close>

theorem run_generations:
  assumes "journal_run rs"
  shows "\<forall>i < length rs.
           unat (generation (rs ! i)) = unat (generation (rs ! 0)) + i
           \<and> 0 < unat (generation (rs ! i)) \<and> generation (rs ! i) \<noteq> - 1"
  using assms
proof (induction rule: journal_run.induct)
  case (run_start r)
  then show ?case by (auto simp: RecordIsValid_def unat_gt_0 split: if_splits)
next
  case (run_step rs r)
  have l: "last rs = rs ! (length rs - 1)" "0 < length rs"
    using run_nonempty [OF run_step.hyps(1)] by (simp_all add: last_conv_nth)
  have valid: "generation r \<noteq> 0" "generation r \<noteq> - 1"
    using TransitionAllowedD(2) [OF run_step.hyps(2)] by (auto simp: RecordIsValid_def split: if_splits)
  have new: "unat (generation r) = unat (generation (rs ! 0)) + length rs"
    using run_step.IH [rule_format, of "length rs - 1"] l transition_generation [OF run_step.hyps(2)]
    by simp
  show ?case
  proof (intro allI impI)
    fix i assume "i < length (rs @ [r])"
    then consider "i < length rs" | "i = length rs" by fastforce
    then show "unat (generation ((rs @ [r]) ! i)) = unat (generation ((rs @ [r]) ! 0)) + i
        \<and> 0 < unat (generation ((rs @ [r]) ! i)) \<and> generation ((rs @ [r]) ! i) \<noteq> - 1"
    proof cases
      case 1
      then show ?thesis using run_step.IH by (metis nth_append l(2))
    next
      case 2
      then show ?thesis using new valid l(2) by (simp add: nth_append unat_gt_0)
    qed
  qed
qed

theorem run_generations_witness:
  "unat (generation (sample_run ! 8)) = unat (generation (sample_run ! 0)) + 8
   \<and> generation (sample_run ! 8) \<noteq> - 1"
proof -
  have "8 < length sample_run" by (simp add: sample_run_def)
  then show ?thesis using run_generations [OF journal_run_sample] by blast
qed

text \<open>Steps that stay inside one transaction.\<close>

inductive within_transaction :: "JournalRecord \<Rightarrow> JournalRecord \<Rightarrow> bool" where
  txn_refl: "jstate r \<noteq> JIdle \<Longrightarrow> within_transaction r r"
| txn_step: "within_transaction r r' \<Longrightarrow> ValidateJournalTransition r' r'' = TransitionAllowed \<Longrightarrow>
     jstate r'' \<noteq> JIdle \<Longrightarrow> within_transaction r r''"

lemma within_not_idle: "within_transaction r r' \<Longrightarrow> jstate r' \<noteq> JIdle"
  by (induction rule: within_transaction.induct) simp_all

lemma flags_trans:
  "(b AND a = a) \<Longrightarrow> (c AND b = b) \<Longrightarrow> (c AND a = (a :: JournalFlags))"
  by (metis and.assoc)

text \<open>
  (C20) A transaction keeps its identity: along any sequence of allowed transitions without an
  idle record, the transaction id, the release sequences, the board, the three digests and the
  boot generations never change, flags are only added, and progress never goes back.
\<close>

theorem transaction_identity_frozen:
  assumes "within_transaction r r'"
  shows "SameTransaction r r' \<and> SameImmutableFields r r' \<and> flags r' AND flags r = flags r
    \<and> completed_steps r \<le> completed_steps r' \<and> total_steps r' = total_steps r"
  using assms
proof (induction rule: within_transaction.induct)
  case (txn_refl r)
  then show ?case by (simp add: SameTransaction_def SameImmutableFields_def)
next
  case (txn_step r r' r'')
  have "jstate r' \<noteq> JIdle" by (rule within_not_idle [OF txn_step.hyps(1)])
  note step = TransitionAllowedD(4) [OF txn_step.hyps(2) this txn_step.hyps(3)]
  with txn_step.IH show ?case
    by (auto simp: SameTransaction_def SameImmutableFields_def intro: flags_trans order_trans)
qed

lemma within_sample: "within_transaction (sample_at 5 JStaged 0x39) (sample_at 6 JCandidatePending 0x79)"
proof (rule txn_step [OF txn_refl])
  show "ValidateJournalTransition (sample_at 5 JStaged 0x39) (sample_at 6 JCandidatePending 0x79)
      = TransitionAllowed"
    by (rule sample_at_step [OF sample_at_valid(5,6)]) (simp_all add: StateEdgeAllowed_def)
qed (simp_all add: sample_at_def)

theorem transaction_identity_frozen_witness:
  "SameTransaction (sample_at 5 JStaged 0x39) (sample_at 6 JCandidatePending 0x79)
   \<and> SameImmutableFields (sample_at 5 JStaged 0x39) (sample_at 6 JCandidatePending 0x79)"
  using transaction_identity_frozen [OF within_sample] by blast

lemma within_rollback:
  "within_transaction (sample_at 9 JRollingBack 0x209) (sample_at 10 JRollingBack 0x209)"
proof (rule txn_step [OF txn_refl])
  show "ValidateJournalTransition (sample_at 9 JRollingBack 0x209) (sample_at 10 JRollingBack 0x209)
      = TransitionAllowed"
    by (rule sample_at_step) (simp_all add: validity_simps StateEdgeAllowed_def)
qed (simp_all add: sample_at_def)

text \<open>
  (C21) Rollback is final: once a transaction is rolling back, every later record of it is still
  rolling back, so it can neither be committed nor re-armed; only the return to idle is left.
\<close>

theorem rollback_is_final:
  assumes "within_transaction r r'" "jstate r = JRollingBack"
  shows "jstate r' = JRollingBack \<and> \<not> JournalStateAllowsSelectorCommit (jstate r')
    \<and> \<not> JournalStateAllowsCandidateArm (jstate r')"
proof -
  have "jstate r' = JRollingBack"
    using assms
  proof (induction rule: within_transaction.induct)
    case (txn_step r r' r'')
    then have "jstate r' = JRollingBack" by simp
    with TransitionAllowedD(3) [OF txn_step.hyps(2)] txn_step.hyps(3) show ?case
      by (auto simp: StateEdgeAllowed_def split: if_splits)
  qed
  then show ?thesis
    by (simp add: JournalStateAllowsSelectorCommit_def JournalStateAllowsCandidateArm_def)
qed

theorem rollback_is_final_witness:
  "within_transaction (sample_at 9 JRollingBack 0x209) (sample_at 10 JRollingBack 0x209)
   \<and> jstate (sample_at 10 JRollingBack 0x209) = JRollingBack
   \<and> \<not> JournalStateAllowsSelectorCommit (jstate (sample_at 10 JRollingBack 0x209))
   \<and> \<not> JournalStateAllowsCandidateArm (jstate (sample_at 10 JRollingBack 0x209))"
  using rollback_is_final [OF within_rollback] within_rollback by (simp add: sample_at_def)

text \<open>
  (C22) Evidence before effects: a valid record whose state permits the selector commit carries the
  user's approval, the verified download, the finished snapshot and staging, the armed one-shot
  boot and the healthy candidate, and any required configuration reset has been approved.
\<close>

theorem selector_commit_requires_evidence:
  assumes "RecordIsValid r" "JournalStateAllowsSelectorCommit (jstate r)"
  shows "(\<forall>f \<in> {kJournalFlagUserApproved, kJournalFlagDownloadVerified, kJournalFlagSnapshotComplete,
               kJournalFlagStagingComplete, kJournalFlagTrybootArmed, kJournalFlagCandidateHealthy}.
           flags r AND f = f)
    \<and> (flags r AND kJournalFlagResetRequired \<noteq> 0 \<longrightarrow> flags r AND kJournalFlagResetApproved \<noteq> 0)
    \<and> source_release_sequence r < target_release_sequence r"
proof -
  let ?req = "RequiredFlagsForState (jstate r)"
  have st: "jstate r = JCandidateHealthy \<or> jstate r = JCommitting"
    using assms(2) by (simp add: JournalStateAllowsSelectorCommit_def)
  have req: "flags r AND ?req = ?req"
    using assms(1) st by (auto simp: RecordIsValid_def Let_def split: if_splits)
  have sub: "\<forall>f \<in> {kJournalFlagUserApproved, kJournalFlagDownloadVerified,
      kJournalFlagSnapshotComplete, kJournalFlagStagingComplete, kJournalFlagTrybootArmed,
      kJournalFlagCandidateHealthy}. ?req AND f = f"
    using st by (auto simp: RequiredFlagsForState_def journal_flag_defs Let_def)
  then have "\<forall>f \<in> {kJournalFlagUserApproved, kJournalFlagDownloadVerified,
      kJournalFlagSnapshotComplete, kJournalFlagStagingComplete, kJournalFlagTrybootArmed,
      kJournalFlagCandidateHealthy}. flags r AND f = f"
    using req flags_trans by blast
  moreover have "flags r AND kJournalFlagResetRequired \<noteq> 0 \<longrightarrow> flags r AND kJournalFlagResetApproved \<noteq> 0"
    "source_release_sequence r < target_release_sequence r"
    using assms(1) st by (auto simp: RecordIsValid_def Let_def not_le split: if_splits)
  ultimately show ?thesis by blast
qed

theorem selector_commit_requires_evidence_witness:
  "flags (sample_at 7 JCandidateHealthy 0xf9) AND kJournalFlagTrybootArmed = kJournalFlagTrybootArmed"
  using selector_commit_requires_evidence [OF sample_at_valid(7)]
  by (simp add: sample_at_def JournalStateAllowsSelectorCommit_def)

end
