(* ===== verification/Storage_Preflight.thy ===== *)
theory Storage_Preflight
  imports Update_Prelude
begin

text \<open>
  \<open>storage_preflight.cpp\<close>: the exact peak-space calculation that precedes every installation. The
  code works on 64-bit words with overflow guards; the theorems restate each result over the
  natural numbers, where nothing wraps. An output pointer that the code fills is the \<open>Some\<close> of an
  option; \<open>None\<close> is the \<open>false\<close> return.
\<close>

section \<open>The code\<close>

definition kMinimumUpdateSafetyReserveBytes :: u64 where
  "kMinimumUpdateSafetyReserveBytes = 16 * 1024 * 1024"

definition kDefaultMaximumStorageComponentBytes :: u64 where
  "kDefaultMaximumStorageComponentBytes = 4 * 1024 * 1024 * 1024"

definition kDefaultMaximumUpdatePeakBytes :: u64 where
  "kDefaultMaximumUpdatePeakBytes = 16 * 1024 * 1024 * 1024"

definition kMaximumSupportedUpdateAllocationUnitBytes :: u64 where
  "kMaximumSupportedUpdateAllocationUnitBytes = 64 * 1024"

definition kUpdateStorageMetadataLogicalBytes :: u64 where
  "kUpdateStorageMetadataLogicalBytes = 1024 * 1024 + 1024"

record StorageDemand =
  zip_download_bytes :: u64
  staged_files_bytes :: u64
  snapshot_bytes :: u64
  largest_temporary_file_bytes :: u64
  metadata_journal_log_bytes :: u64
  safety_reserve_bytes :: u64
  manifest_required_peak_bytes :: u64

record StorageLimits =
  maximum_component_bytes :: u64
  maximum_peak_bytes :: u64

definition StorageLimits_Defaults :: StorageLimits where
  "StorageLimits_Defaults =
     \<lparr>maximum_component_bytes = kDefaultMaximumStorageComponentBytes,
      maximum_peak_bytes = kDefaultMaximumUpdatePeakBytes\<rparr>"

datatype StorageDecision =
    Sufficient | InvalidLimits | InvalidReserve | ComponentLimitExceeded | ArithmeticOverflow
  | PeakLimitExceeded | InsufficientSpace

record StoragePreflightResult =
  decision :: StorageDecision
  calculated_peak_bytes :: u64
  required_peak_bytes :: u64
  available_bytes :: u64
  shortfall_bytes :: u64

definition AddWithoutOverflow :: "u64 \<Rightarrow> u64 \<Rightarrow> u64 option" where
  "AddWithoutOverflow left right = (if right > - 1 - left then None else Some (left + right))"

definition ComponentWithinLimit :: "u64 \<Rightarrow> StorageLimits \<Rightarrow> bool" where
  "ComponentWithinLimit v limits \<longleftrightarrow> v \<le> maximum_component_bytes limits"

definition MakeResult :: "StorageDecision \<Rightarrow> u64 \<Rightarrow> StoragePreflightResult" where
  "MakeResult d available =
     \<lparr>decision = d, calculated_peak_bytes = 0, required_peak_bytes = 0,
      available_bytes = available, shortfall_bytes = 0\<rparr>"

definition IsSupportedUpdateAllocationUnit :: "u64 \<Rightarrow> bool" where
  "IsSupportedUpdateAllocationUnit u \<longleftrightarrow>
     u \<noteq> 0 \<and> u \<le> kMaximumSupportedUpdateAllocationUnitBytes \<and> u AND (u - 1) = 0"

definition RoundUpUpdateAllocation :: "u64 \<Rightarrow> u64 \<Rightarrow> u64 option" where
  "RoundUpUpdateAllocation logical_bytes unit =
     (if \<not> IsSupportedUpdateAllocationUnit unit then None
      else if logical_bytes = 0 then Some 0
      else
        (let remainder = logical_bytes mod unit;
             padding = (if remainder = 0 then 0 else unit - remainder)
         in AddWithoutOverflow logical_bytes padding))"

definition CalculateUpdateMetadataAllocationBytes :: "u64 \<Rightarrow> u64 \<Rightarrow> u64 \<Rightarrow> u64 option" where
  "CalculateUpdateMetadataAllocationBytes files directories unit =
     (if \<not> IsSupportedUpdateAllocationUnit unit then None
      else
        (case RoundUpUpdateAllocation kUpdateStorageMetadataLogicalBytes unit of
           None \<Rightarrow> None
         | Some fixed \<Rightarrow>
             if files > - 1 - directories then None
             else
               (let entries = files + directories
                in if entries \<noteq> 0 \<and> unit > (- 1) div entries then None
                   else AddWithoutOverflow fixed (entries * unit))))"

fun add_components :: "u64 \<Rightarrow> u64 list \<Rightarrow> u64 option" where
  "add_components calculated [] = Some calculated"
| "add_components calculated (c # cs) =
     (case AddWithoutOverflow calculated c of None \<Rightarrow> None | Some s \<Rightarrow> add_components s cs)"

definition demand_components :: "StorageDemand \<Rightarrow> u64 list" where
  "demand_components d =
     [zip_download_bytes d, staged_files_bytes d, snapshot_bytes d,
      largest_temporary_file_bytes d, metadata_journal_log_bytes d, safety_reserve_bytes d]"

definition EvaluateStoragePreflight ::
  "u64 \<Rightarrow> StorageDemand \<Rightarrow> StorageLimits \<Rightarrow> StoragePreflightResult" where
  "EvaluateStoragePreflight available demand limits =
     (if maximum_component_bytes limits = 0 \<or> maximum_peak_bytes limits = 0
         \<or> maximum_component_bytes limits > maximum_peak_bytes limits
        then MakeResult InvalidLimits available
      else if safety_reserve_bytes demand < kMinimumUpdateSafetyReserveBytes
        then MakeResult InvalidReserve available
      else if \<not> ComponentWithinLimit (zip_download_bytes demand) limits
              \<or> \<not> ComponentWithinLimit (staged_files_bytes demand) limits
              \<or> \<not> ComponentWithinLimit (snapshot_bytes demand) limits
              \<or> \<not> ComponentWithinLimit (largest_temporary_file_bytes demand) limits
              \<or> \<not> ComponentWithinLimit (metadata_journal_log_bytes demand) limits
              \<or> \<not> ComponentWithinLimit (safety_reserve_bytes demand) limits
        then MakeResult ComponentLimitExceeded available
      else
        (case add_components 0 (demand_components demand) of
           None \<Rightarrow> MakeResult ArithmeticOverflow available
         | Some calculated \<Rightarrow>
             (let result = (MakeResult Sufficient available)\<lparr>
                    calculated_peak_bytes := calculated,
                    required_peak_bytes :=
                      (if calculated > manifest_required_peak_bytes demand then calculated
                       else manifest_required_peak_bytes demand)\<rparr>
              in if required_peak_bytes result > maximum_peak_bytes limits
                   then result\<lparr>decision := PeakLimitExceeded\<rparr>
                 else if available < required_peak_bytes result
                   then result\<lparr>decision := InsufficientSpace,
                               shortfall_bytes := required_peak_bytes result - available\<rparr>
                 else result)))"

section \<open>Exact arithmetic\<close>

lemma AddWithoutOverflow_iff:
  "AddWithoutOverflow a b = (if unat a + unat b < 2 ^ 64 then Some (of_nat (unat a + unat b)) else None)"
  using word_add_guard [of b a] by (auto simp: AddWithoutOverflow_def not_less not_le)

lemma AddWithoutOverflow_Some:
  "AddWithoutOverflow a b = Some s \<longleftrightarrow> unat s = unat a + unat b"
proof -
  have "unat s < 2 ^ 64" using unsigned_less [of s, where 'a = nat] by simp
  moreover have "unat (of_nat (unat a + unat b) :: u64) = unat a + unat b"
    if "unat a + unat b < 2 ^ 64"
    by (rule unat_of_nat_small) (use that in simp)
  ultimately show ?thesis
    unfolding AddWithoutOverflow_iff
    by (auto simp del: of_nat_add intro!: unsigned_word_eqI [where 'a = nat])
qed

definition round_up :: "nat \<Rightarrow> nat \<Rightarrow> nat" where
  "round_up n u = (n + u - 1) div u * u"

lemma round_up_padding:
  assumes "0 < u"
  shows "round_up n u = n + (if n mod u = 0 then 0 else u - n mod u)"
proof -
  have n: "n = n div u * u + n mod u" by simp
  have r: "n mod u < u" using assms by simp
  show ?thesis
  proof (cases "n mod u = 0")
    case True
    then have "(n + u - 1) div u = n div u + (u - 1) div u"
      using assms by (metis (no_types, lifting) Nat.add_diff_assoc Suc_leI Suc_pred' div_plus_div_distrib_dvd_left mod_0_imp_dvd One_nat_def)
    then have "round_up n u = n div u * u"
      using assms by (simp add: round_up_def)
    also have "\<dots> = n" using n True by linarith
    finally show ?thesis using True by simp
  next
    case False
    have "n + u - 1 = (n div u + 1) * u + (n mod u - 1)"
      using False n by (cases n) (simp_all add: algebra_simps)
    also have "\<dots> div u = n div u + 1 + (n mod u - 1) div u"
      using assms by (intro div_mult_self3) simp
    also have "(n mod u - 1) div u = 0" using r by simp
    finally have "(n + u - 1) div u = n div u + 1" by simp
    then have "round_up n u = n div u * u + u" by (simp add: round_up_def)
    then have "round_up n u + n mod u = n + u" using n by linarith
    then show ?thesis using False r by simp
  qed
qed

lemma RoundUpUpdateAllocation_Some:
  "RoundUpUpdateAllocation n u = Some s \<longleftrightarrow>
     IsSupportedUpdateAllocationUnit u \<and> unat s = round_up (unat n) (unat u)"
proof (cases "IsSupportedUpdateAllocationUnit u")
  case True
  then have u: "0 < unat u" by (simp add: IsSupportedUpdateAllocationUnit_def unat_gt_0)
  have pad: "unat (if n mod u = 0 then 0 else u - n mod u)
             = (if unat n mod unat u = 0 then 0 else unat u - unat n mod unat u)"
  proof -
    have "n mod u \<le> u"
      using u by (simp add: word_le_nat_alt unat_mod_distrib less_imp_le)
    then show ?thesis
      by (auto simp: unat_sub unat_mod_distrib unat_eq_0 [symmetric])
  qed
  have "RoundUpUpdateAllocation n u
        = AddWithoutOverflow n (if n mod u = 0 then 0 else u - n mod u)"
    using True by (simp add: RoundUpUpdateAllocation_def AddWithoutOverflow_def Let_def)
  with True show ?thesis
    by (simp only: AddWithoutOverflow_Some pad round_up_padding [OF u] simp_thms)
qed (simp add: RoundUpUpdateAllocation_def)

lemma add_components_Some:
  "add_components a cs = Some s \<longleftrightarrow> unat s = unat a + sum_list (map unat cs)"
proof (induction cs arbitrary: a)
  case Nil
  then show ?case by (auto intro: unsigned_word_eqI [where 'a = nat])
next
  case (Cons c cs)
  show ?case
  proof (cases "AddWithoutOverflow a c")
    case None
    then have "2 ^ 64 \<le> unat a + unat c"
      by (simp add: AddWithoutOverflow_iff split: if_splits)
    moreover have "unat s < 2 ^ 64" using unsigned_less [of s, where 'a = nat] by simp
    ultimately show ?thesis using None by simp
  next
    case (Some t)
    then have "unat t = unat a + unat c" by (simp add: AddWithoutOverflow_Some)
    with Cons [of t] Some show ?thesis by (simp add: add.assoc)
  qed
qed

lemma exact_None:
  assumes "\<And>s :: u64. f = Some s \<longleftrightarrow> unat s = N"
  shows "f = None \<longleftrightarrow> 2 ^ 64 \<le> N"
proof (cases f)
  case None
  have "2 ^ 64 \<le> N"
  proof (rule ccontr)
    assume "\<not> 2 ^ 64 \<le> N"
    then have "unat (of_nat N :: u64) = N" by (intro unat_of_nat_small) simp
    with assms [of "of_nat N"] None show False by simp
  qed
  with None show ?thesis by simp
next
  case (Some s)
  with assms [of s] have "N = unat s" by simp
  also have "\<dots> < 2 ^ 64" using unsigned_less [of s, where 'a = nat] by simp
  finally show ?thesis using Some by simp
qed

lemma add_components_None:
  "add_components a cs = None \<longleftrightarrow> 2 ^ 64 \<le> unat a + sum_list (map unat cs)"
  by (rule exact_None) (rule add_components_Some)

lemma unat_u64_bound: "unat (x :: u64) < 2 ^ 64"
  using unsigned_less [of x, where 'a = nat] by simp

text \<open>The guard before the multiplication is the condition under which it is exact.\<close>

lemma word_mult_guard:
  fixes a b :: u64
  assumes "a \<noteq> 0"
  shows "b \<le> (- 1) div a \<longleftrightarrow> unat a * unat b < 2 ^ 64"
proof -
  have a: "0 < unat a" using assms by (simp add: unat_gt_0)
  have "unat ((- 1 :: u64) div a) = (2 ^ 64 - 1) div unat a"
    by (simp add: unat_div_distrib unsigned_minus_1_eq_mask mask_eq_exp_minus_1)
  then have "b \<le> (- 1) div a \<longleftrightarrow> unat b \<le> (2 ^ 64 - 1) div unat a"
    by (simp only: word_le_nat_alt)
  also have "\<dots> \<longleftrightarrow> unat b * unat a \<le> 2 ^ 64 - 1"
    by (rule less_eq_div_iff_mult_less_eq [OF a])
  also have "\<dots> \<longleftrightarrow> unat a * unat b < 2 ^ 64" by (simp add: mult.commute less_eq_Suc_le)
  finally show ?thesis .
qed

text \<open>The guarded product of the metadata calculation, as an option.\<close>

lemma guarded_mult_exact:
  fixes e u :: u64
  assumes "\<not> (e \<noteq> 0 \<and> u > (- 1) div e)"
  shows "unat (e * u) = unat e * unat u"
proof (cases "e = 0")
  case False
  with assms have "unat e * unat u < 2 ^ 64" by (simp add: word_mult_guard not_less)
  then show ?thesis by (simp add: unat_word_ariths)
qed simp

section \<open>Properties\<close>

text \<open>
  The rounded allocation of a file is the least multiple of the allocation unit that holds
  it, computed without wrap-around.
\<close>

theorem RoundUpUpdateAllocation_least_multiple:
  assumes "RoundUpUpdateAllocation n u = Some s"
  shows "unat u dvd unat s \<and> unat n \<le> unat s
         \<and> (\<forall>k. unat u dvd k \<longrightarrow> unat n \<le> k \<longrightarrow> unat s \<le> k)"
proof -
  from assms have s: "unat s = round_up (unat n) (unat u)" and u: "0 < unat u"
    by (auto simp: RoundUpUpdateAllocation_Some IsSupportedUpdateAllocationUnit_def unat_gt_0)
  have "unat s \<le> k" if "unat u dvd k" "unat n \<le> k" for k
  proof -
    from that(1) obtain q where q: "k = unat u * q" by (auto elim: dvdE)
    have "(unat n + unat u - 1) div unat u \<le> (k + (unat u - 1)) div unat u"
      using that(2) u by (intro div_le_mono) linarith
    also have "\<dots> = (q * unat u + (unat u - 1)) div unat u" by (simp only: q mult.commute)
    also have "\<dots> = q + (unat u - 1) div unat u" using u by (intro div_mult_self3) simp
    also have "\<dots> = q" using u by simp
    finally show ?thesis by (simp add: s round_up_def q)
  qed
  moreover have "unat n \<le> unat s" by (simp only: s round_up_padding [OF u] le_add1)
  moreover have "unat u dvd unat s" by (simp add: s round_up_def)
  ultimately show ?thesis by blast
qed

theorem RoundUpUpdateAllocation_least_multiple_witness:
  "unat (4096 :: u64) dvd unat (8192 :: u64) \<and> unat (4097 :: u64) \<le> unat (8192 :: u64)"
  using RoundUpUpdateAllocation_least_multiple [of 4097 4096 8192]
  by (simp add: RoundUpUpdateAllocation_def IsSupportedUpdateAllocationUnit_def
      kMaximumSupportedUpdateAllocationUnitBytes_def AddWithoutOverflow_def)

text \<open>
  The metadata allocation is defined exactly when the unit is supported and the exact
  number, one unit per file and directory entry on top of the rounded fixed part, fits 64 bits;
  it is then that number.
\<close>

theorem CalculateUpdateMetadataAllocationBytes_exact:
  "CalculateUpdateMetadataAllocationBytes files directories unit = Some s \<longleftrightarrow>
     IsSupportedUpdateAllocationUnit unit
     \<and> unat s = round_up (unat kUpdateStorageMetadataLogicalBytes) (unat unit)
              + (unat files + unat directories) * unat unit"
proof (cases "IsSupportedUpdateAllocationUnit unit")
  case True
  let ?entries = "unat files + unat directories"
  have u: "1 \<le> unat unit"
    using True by (simp add: IsSupportedUpdateAllocationUnit_def Suc_le_eq unat_gt_0)

  show ?thesis
  proof (cases "RoundUpUpdateAllocation kUpdateStorageMetadataLogicalBytes unit")
    case None
    then have "2 ^ 64 \<le> round_up (unat kUpdateStorageMetadataLogicalBytes) (unat unit)"
      using exact_None [OF RoundUpUpdateAllocation_Some [where u = unit, simplified True simp_thms]]
      by simp
    with None True unat_u64_bound [of s] show ?thesis
      by (simp add: CalculateUpdateMetadataAllocationBytes_def)
  next
    case (Some fixed)
    then have f: "round_up (unat kUpdateStorageMetadataLogicalBytes) (unat unit) = unat fixed"
      by (simp add: RoundUpUpdateAllocation_Some)
    have big: "2 ^ 64 \<le> ?entries * unat unit \<Longrightarrow> unat s \<noteq> unat fixed + ?entries * unat unit"
      using unat_u64_bound [of s] by linarith
    show ?thesis
    proof (cases "files > - 1 - directories")
      case overflow: True
      then have "\<not> files \<le> - 1 - directories" by simp
      then have "2 ^ 64 \<le> ?entries"
        unfolding word_add_guard by simp
      also have "?entries \<le> ?entries * unat unit" using u by simp
      finally show ?thesis
        using big Some True overflow f by (simp add: CalculateUpdateMetadataAllocationBytes_def)
    next
      case fits: False
      then have "files \<le> - 1 - directories" by simp
      then have "unat files + unat directories < 2 ^ LENGTH(64)"
        unfolding word_add_guard by simp
      then have e: "unat (files + directories) = ?entries"
        by (rule unat_add_exact)
      show ?thesis
      proof (cases "files + directories \<noteq> 0 \<and> unit > (- 1) div (files + directories)")
        case overflow: True
        then have "2 ^ 64 \<le> ?entries * unat unit"
          using word_mult_guard [of "files + directories" unit] e by (simp add: not_le [symmetric])
        with big Some True overflow fits f show ?thesis
          by (simp add: CalculateUpdateMetadataAllocationBytes_def Let_def)
      next
        case exact: False
        then have "CalculateUpdateMetadataAllocationBytes files directories unit
                   = AddWithoutOverflow fixed ((files + directories) * unit)"
          using True Some fits by (auto simp: CalculateUpdateMetadataAllocationBytes_def Let_def)
        with True show ?thesis
          by (simp only: AddWithoutOverflow_Some guarded_mult_exact [OF exact] e f simp_thms)
      qed
    qed
  qed
qed (simp add: CalculateUpdateMetadataAllocationBytes_def)


end
