(* ===== verification/Config_Schema.thy ===== *)
theory Config_Schema
  imports Update_Prelude "HOL-Library.Multiset"
begin

text \<open>
  \<open>config_schema.cpp\<close>: may the configuration found on the card be carried over to the target
  release? \<open>ClassifyConfig\<close> judges one area, \<open>ClassifyConfigPlan\<close> combines the areas. A pointer
  with a count is an \<open>array_view\<close>. The theorems show that the plan is the worst verdict over all
  areas, independent of the order of its inputs, and that a plan which needs no confirmation
  loses no configuration.
\<close>

section \<open>The code\<close>

definition kMaximumConfigAreas :: nat where "kMaximumConfigAreas = 16"

definition kMaximumSchemaTransitionsPerArea :: nat where "kMaximumSchemaTransitionsPerArea = 16"

datatype ConfigArea =
    AreaUnknown | Machines | ConfigManagedBlock | CmdlineManagedKeys | Network | Settings
  | UpdateState | AreaOther u8

definition IsKnownConfigArea :: "ConfigArea \<Rightarrow> bool" where
  "IsKnownConfigArea a \<longleftrightarrow>
     a = Machines \<or> a = ConfigManagedBlock \<or> a = CmdlineManagedKeys \<or> a = Network
     \<or> a = Settings \<or> a = UpdateState"

datatype ConfigObservationStatus = Present | Missing | UnknownFormat | Corrupt | ObservationOther u8

record ConfigObservation =
  observed_area :: ConfigArea
  status :: ConfigObservationStatus
  schema_version :: u32

datatype SchemaTransitionKind = Lossless | ResetOrLossy | KindOther u8

record SchemaTransition =
  transition_id :: u32
  from_version :: u32
  to_version :: u32
  kind :: SchemaTransitionKind

record ConfigSchemaTarget =
  target_area :: ConfigArea
  required :: bool
  target_version :: u32
  compatible_minimum_version :: u32
  compatible_maximum_version :: u32
  transitions :: "SchemaTransition array_view"

definition IsKnownObservationStatus :: "ConfigObservationStatus \<Rightarrow> bool" where
  "IsKnownObservationStatus s \<longleftrightarrow>
     s = Present \<or> s = Missing \<or> s = UnknownFormat \<or> s = Corrupt"

definition IsKnownTransitionKind :: "SchemaTransitionKind \<Rightarrow> bool" where
  "IsKnownTransitionKind k \<longleftrightarrow> k = Lossless \<or> k = ResetOrLossy"

definition transition_ok :: "ConfigSchemaTarget \<Rightarrow> SchemaTransition \<Rightarrow> bool" where
  "transition_ok t tr \<longleftrightarrow>
     \<not> (transition_id tr = 0 \<or> from_version tr = 0 \<or> to_version tr \<noteq> target_version t
         \<or> from_version tr \<ge> to_version tr
         \<or> (from_version tr \<ge> compatible_minimum_version t
            \<and> from_version tr \<le> compatible_maximum_version t)
         \<or> \<not> IsKnownTransitionKind (kind tr))"

text \<open>The outer loop over \<open>i\<close>; \<open>seen\<close> is the prefix that the inner loop over \<open>j < i\<close> scans.\<close>

fun transitions_ok :: "ConfigSchemaTarget \<Rightarrow> SchemaTransition list \<Rightarrow> SchemaTransition list \<Rightarrow> bool"
where
  "transitions_ok t seen [] = True"
| "transitions_ok t seen (tr # trs) =
     (if \<not> transition_ok t tr then False
      else if list_ex (\<lambda>p. transition_id p = transition_id tr \<or> from_version p = from_version tr) seen
        then False
      else transitions_ok t (seen @ [tr]) trs)"

definition TargetIsValid :: "ConfigSchemaTarget \<Rightarrow> bool" where
  "TargetIsValid t =
     (if \<not> IsKnownConfigArea (target_area t) \<or> target_version t = 0
         \<or> compatible_minimum_version t = 0 \<or> compatible_maximum_version t = 0
         \<or> compatible_minimum_version t > compatible_maximum_version t
         \<or> target_version t < compatible_minimum_version t
         \<or> target_version t > compatible_maximum_version t
         \<or> array_count (transitions t) > kMaximumSchemaTransitionsPerArea
         \<or> (array_count (transitions t) \<noteq> 0 \<and> transitions t = NullArray (array_count (transitions t)))
        then False
      else transitions_ok t [] (array_items (transitions t)))"

datatype ConfigClassification =
    ClassCompatible | ClassLosslessMigration | ClassResetRequired | ClassUnknownOrCorrupt
  | ClassNewerThanTarget | ClassInvalidRule

record ConfigClassificationResult =
  classification :: ConfigClassification
  result_area :: ConfigArea
  source_version :: u32
  result_target_version :: u32
  result_transition_id :: u32

definition MakeClassification ::
  "ConfigClassification \<Rightarrow> ConfigArea \<Rightarrow> u32 \<Rightarrow> u32 \<Rightarrow> u32 \<Rightarrow> ConfigClassificationResult" where
  "MakeClassification c a src tgt tr =
     \<lparr>classification = c, result_area = a, source_version = src, result_target_version = tgt,
      result_transition_id = tr\<rparr>"

definition ClassifyConfig :: "ConfigObservation \<Rightarrow> ConfigSchemaTarget \<Rightarrow> ConfigClassificationResult"
where
  "ClassifyConfig ob t =
     (if \<not> TargetIsValid t \<or> \<not> IsKnownConfigArea (observed_area ob)
         \<or> observed_area ob \<noteq> target_area t \<or> \<not> IsKnownObservationStatus (status ob)
         \<or> (status ob = Present \<and> schema_version ob = 0)
         \<or> (status ob \<noteq> Present \<and> schema_version ob \<noteq> 0)
        then MakeClassification ClassInvalidRule (observed_area ob) (schema_version ob)
               (target_version t) 0
      else if status ob = Missing
        then MakeClassification (if required t then ClassUnknownOrCorrupt else ClassCompatible)
               (observed_area ob) 0 (target_version t) 0
      else if status ob = UnknownFormat \<or> status ob = Corrupt
        then MakeClassification ClassUnknownOrCorrupt (observed_area ob) 0 (target_version t) 0
      else if schema_version ob > target_version t
        then MakeClassification ClassNewerThanTarget (observed_area ob) (schema_version ob)
               (target_version t) 0
      else if schema_version ob \<ge> compatible_minimum_version t
              \<and> schema_version ob \<le> compatible_maximum_version t
        then MakeClassification ClassCompatible (observed_area ob) (schema_version ob)
               (target_version t) 0
      else
        (case find (\<lambda>tr. from_version tr = schema_version ob) (array_items (transitions t)) of
           Some tr \<Rightarrow>
             MakeClassification
               (if kind tr = Lossless then ClassLosslessMigration else ClassResetRequired)
               (observed_area ob) (schema_version ob) (target_version t) (transition_id tr)
         | None \<Rightarrow>
             MakeClassification ClassUnknownOrCorrupt (observed_area ob) (schema_version ob)
               (target_version t) 0))"

datatype ConfigPlanDecision =
    PlanCompatible | PlanLosslessMigration | PlanResetConfirmationRequired
  | PlanBlockedUnknownOrCorrupt | PlanBlockedNewerThanTarget | PlanInvalidInput

record ConfigPlanResult =
  decision :: ConfigPlanDecision
  compatible_count :: nat
  migration_count :: nat
  reset_count :: nat
  blocked_count :: nat

definition InvalidPlanResult :: ConfigPlanResult where
  "InvalidPlanResult =
     \<lparr>decision = PlanInvalidInput, compatible_count = 0, migration_count = 0, reset_count = 0,
      blocked_count = 0\<rparr>"

definition EmptyPlanResult :: ConfigPlanResult where
  "EmptyPlanResult =
     \<lparr>decision = PlanCompatible, compatible_count = 0, migration_count = 0, reset_count = 0,
      blocked_count = 0\<rparr>"

text \<open>The first loop: known areas, each occurring once; the accumulators are the scanned prefixes.\<close>

fun areas_ok :: "ConfigArea list \<Rightarrow> ConfigArea list \<Rightarrow> ConfigArea list \<Rightarrow> ConfigArea list \<Rightarrow> bool"
where
  "areas_ok so st (a # as) (b # bs) =
     (if \<not> IsKnownConfigArea a \<or> \<not> IsKnownConfigArea b then False
      else if list_ex (\<lambda>p. p = a) so \<or> list_ex (\<lambda>p. p = b) st then False
      else areas_ok (so @ [a]) (st @ [b]) as bs)"
| "areas_ok so st _ _ = True"

text \<open>The \<open>switch\<close> on one classification; \<open>None\<close> is the early \<open>return InvalidPlanResult()\<close>.\<close>

fun plan_step :: "ConfigClassification \<Rightarrow> ConfigPlanResult \<Rightarrow> ConfigPlanResult option" where
  "plan_step ClassCompatible r = Some (r\<lparr>compatible_count := compatible_count r + 1\<rparr>)"
| "plan_step ClassLosslessMigration r =
     Some (r\<lparr>migration_count := migration_count r + 1,
             decision := (if decision r = PlanCompatible then PlanLosslessMigration else decision r)\<rparr>)"
| "plan_step ClassResetRequired r =
     Some (r\<lparr>reset_count := reset_count r + 1,
             decision := (if decision r \<noteq> PlanBlockedUnknownOrCorrupt
                             \<and> decision r \<noteq> PlanBlockedNewerThanTarget
                          then PlanResetConfirmationRequired else decision r)\<rparr>)"
| "plan_step ClassUnknownOrCorrupt r =
     Some (r\<lparr>blocked_count := blocked_count r + 1,
             decision := (if decision r \<noteq> PlanBlockedNewerThanTarget
                          then PlanBlockedUnknownOrCorrupt else decision r)\<rparr>)"
| "plan_step ClassNewerThanTarget r =
     Some (r\<lparr>blocked_count := blocked_count r + 1, decision := PlanBlockedNewerThanTarget\<rparr>)"
| "plan_step ClassInvalidRule r = None"

fun plan_loop ::
  "ConfigObservation list \<Rightarrow> ConfigSchemaTarget list \<Rightarrow> ConfigPlanResult \<Rightarrow> ConfigPlanResult" where
  "plan_loop obs [] r = r"
| "plan_loop obs (t # ts) r =
     (case find (\<lambda>ob. observed_area ob = target_area t) obs of
        None \<Rightarrow> InvalidPlanResult
      | Some ob \<Rightarrow>
          (case plan_step (classification (ClassifyConfig ob t)) r of
             None \<Rightarrow> InvalidPlanResult
           | Some r' \<Rightarrow> plan_loop obs ts r'))"

definition ClassifyConfigPlan ::
  "ConfigObservation array_view \<Rightarrow> ConfigSchemaTarget array_view \<Rightarrow> ConfigPlanResult" where
  "ClassifyConfigPlan observations targets =
     (case (observations, targets) of
        (Array obs, Array ts) \<Rightarrow>
          if length obs = 0 \<or> length obs \<noteq> length ts \<or> length obs > kMaximumConfigAreas
            then InvalidPlanResult
          else if \<not> areas_ok [] [] (map observed_area obs) (map target_area ts)
            then InvalidPlanResult
          else plan_loop obs ts EmptyPlanResult
      | _ \<Rightarrow> InvalidPlanResult)"

section \<open>Decisions are ordered by severity\<close>

instantiation ConfigPlanDecision :: linorder
begin

fun plan_rank :: "ConfigPlanDecision \<Rightarrow> nat" where
  "plan_rank PlanCompatible = 0"
| "plan_rank PlanLosslessMigration = 1"
| "plan_rank PlanResetConfirmationRequired = 2"
| "plan_rank PlanBlockedUnknownOrCorrupt = 3"
| "plan_rank PlanBlockedNewerThanTarget = 4"
| "plan_rank PlanInvalidInput = 5"

definition less_eq_ConfigPlanDecision :: "ConfigPlanDecision \<Rightarrow> ConfigPlanDecision \<Rightarrow> bool" where
  "less_eq_ConfigPlanDecision a b \<longleftrightarrow> plan_rank a \<le> plan_rank b"

definition less_ConfigPlanDecision :: "ConfigPlanDecision \<Rightarrow> ConfigPlanDecision \<Rightarrow> bool" where
  "less_ConfigPlanDecision a b \<longleftrightarrow> plan_rank a < plan_rank b"

instance
proof
  fix a b :: ConfigPlanDecision
  show "a \<le> b \<Longrightarrow> b \<le> a \<Longrightarrow> a = b"
    by (cases a; cases b) (simp_all add: less_eq_ConfigPlanDecision_def)
qed (auto simp: less_eq_ConfigPlanDecision_def less_ConfigPlanDecision_def)

end

text \<open>The verdict on one area as a decision of the plan, and what a list of verdicts adds up to.\<close>

fun severity :: "ConfigClassification \<Rightarrow> ConfigPlanDecision" where
  "severity ClassCompatible = PlanCompatible"
| "severity ClassLosslessMigration = PlanLosslessMigration"
| "severity ClassResetRequired = PlanResetConfirmationRequired"
| "severity ClassUnknownOrCorrupt = PlanBlockedUnknownOrCorrupt"
| "severity ClassNewerThanTarget = PlanBlockedNewerThanTarget"
| "severity ClassInvalidRule = PlanInvalidInput"

definition worst :: "ConfigClassification multiset \<Rightarrow> ConfigPlanDecision" where
  "worst M = Max (insert PlanCompatible (severity ` set_mset M))"

definition plan_spec :: "ConfigClassification multiset \<Rightarrow> ConfigPlanResult" where
  "plan_spec M =
     (if ClassInvalidRule \<in># M then InvalidPlanResult
      else \<lparr>decision = worst M,
            compatible_count = count M ClassCompatible,
            migration_count = count M ClassLosslessMigration,
            reset_count = count M ClassResetRequired,
            blocked_count = count M ClassUnknownOrCorrupt + count M ClassNewerThanTarget\<rparr>)"

lemma worst_empty [simp]: "worst {#} = PlanCompatible"
  by (simp add: worst_def)

lemma worst_add [simp]: "worst (add_mset c M) = max (severity c) (worst M)"
proof -
  have "insert PlanCompatible (severity ` set_mset (add_mset c M))
        = insert (severity c) (insert PlanCompatible (severity ` set_mset M))"
    by (simp add: insert_commute)
  then show ?thesis
    unfolding worst_def by (simp only: Max_insert finite_insert finite_imageI finite_set_mset
        insert_not_empty not_False_eq_True)
qed

lemma worst_not_invalid: "ClassInvalidRule \<notin># M \<Longrightarrow> worst M \<noteq> PlanInvalidInput"
proof (induction M)
  case (add c M)
  then show ?case by (cases c) (auto simp: max_def)
qed simp

lemma plan_step_spec:
  "c \<noteq> ClassInvalidRule \<Longrightarrow> ClassInvalidRule \<notin># M \<Longrightarrow>
   plan_step c (plan_spec M) = Some (plan_spec (add_mset c M))"
  using worst_not_invalid [of M]
  by (cases c; cases "worst M")
    (simp_all add: plan_spec_def max_def less_eq_ConfigPlanDecision_def)

definition verdict :: "ConfigObservation list \<Rightarrow> ConfigSchemaTarget \<Rightarrow> ConfigClassification" where
  "verdict obs t =
     (case find (\<lambda>ob. observed_area ob = target_area t) obs of
        None \<Rightarrow> ClassInvalidRule
      | Some ob \<Rightarrow> classification (ClassifyConfig ob t))"

lemma plan_loop_spec:
  "ClassInvalidRule \<notin># M \<Longrightarrow>
   plan_loop obs ts (plan_spec M) = plan_spec (M + image_mset (verdict obs) (mset ts))"
proof (induction ts arbitrary: M)
  case (Cons t ts)
  show ?case
  proof (cases "verdict obs t = ClassInvalidRule")
    case True
    then have "plan_loop obs (t # ts) (plan_spec M) = InvalidPlanResult"
      by (auto simp: verdict_def split: option.splits)
    with True show ?thesis by (simp add: plan_spec_def)
  next
    case False
    then have "plan_loop obs (t # ts) (plan_spec M)
               = plan_loop obs ts (plan_spec (add_mset (verdict obs t) M))"
      using Cons.prems by (auto simp: verdict_def plan_step_spec split: option.splits)
    with Cons False show ?thesis by simp
  qed
qed simp

lemma EmptyPlanResult_spec: "EmptyPlanResult = plan_spec {#}"
  by (simp add: EmptyPlanResult_def plan_spec_def)

lemma areas_ok_iff:
  "length as = length bs \<Longrightarrow> distinct so \<Longrightarrow> distinct st \<Longrightarrow>
   areas_ok so st as bs \<longleftrightarrow>
     list_all IsKnownConfigArea as \<and> list_all IsKnownConfigArea bs
     \<and> distinct (so @ as) \<and> distinct (st @ bs)"
  by (induction so st as bs rule: areas_ok.induct) (auto simp: list_ex_iff)

definition plan_input_ok :: "ConfigArea list \<Rightarrow> ConfigArea list \<Rightarrow> bool" where
  "plan_input_ok as bs \<longleftrightarrow>
     as \<noteq> [] \<and> length as = length bs \<and> length as \<le> kMaximumConfigAreas
     \<and> list_all IsKnownConfigArea as \<and> list_all IsKnownConfigArea bs
     \<and> distinct as \<and> distinct bs"

lemma ClassifyConfigPlan_spec:
  "ClassifyConfigPlan (Array obs) (Array ts)
   = (if plan_input_ok (map observed_area obs) (map target_area ts)
      then plan_spec (image_mset (verdict obs) (mset ts)) else InvalidPlanResult)"
proof -
  have "plan_loop obs ts EmptyPlanResult = plan_spec (image_mset (verdict obs) (mset ts))"
    using plan_loop_spec [of "{#}" obs ts] by (simp add: EmptyPlanResult_spec)
  then show ?thesis
    by (auto simp: ClassifyConfigPlan_def plan_input_ok_def areas_ok_iff)
qed

text \<open>With distinct areas the search finds the same observation in any order.\<close>

lemma find_unique_perm:
  assumes "mset xs = mset ys" "distinct (map f xs)"
  shows "find (\<lambda>x. f x = a) xs = find (\<lambda>x. f x = a) ys"
proof -
  have unique: "find (\<lambda>x. f x = a) zs = Some z"
    if "distinct (map f zs)" "z \<in> set zs" "f z = a" for zs z
    using that by (induction zs) (auto simp: image_iff)
  have d: "distinct (map f ys)"
    using assms by (metis mset_map mset_eq_imp_distinct_iff)
  show ?thesis
  proof (cases "find (\<lambda>x. f x = a) xs")
    case None
    then have "find (\<lambda>x. f x = a) ys = None"
      using mset_eq_setD [OF assms(1)] by (simp add: find_None_iff)
    with None show ?thesis by simp
  next
    case (Some z)
    then have "z \<in> set xs" "f z = a" by (auto simp: find_Some_iff)
    with d mset_eq_setD [OF assms(1)] have "find (\<lambda>x. f x = a) ys = Some z"
      by (intro unique) auto
    with Some show ?thesis by simp
  qed
qed

lemma plan_input_ok_perm:
  assumes "mset as = mset as'" "mset bs = mset bs'"
  shows "plan_input_ok as bs = plan_input_ok as' bs'"
proof -
  have "length as = length as'" "length bs = length bs'" "set as = set as'" "set bs = set bs'"
    "distinct as = distinct as'" "distinct bs = distinct bs'"
    using assms by (auto dest: mset_eq_length mset_eq_setD mset_eq_imp_distinct_iff)
  then show ?thesis by (auto simp: plan_input_ok_def list_all_iff)
qed

section \<open>Properties\<close>

text \<open>
  (C32) For well-formed input the combined decision is the most severe verdict over all areas,
  and the counters are the numbers of areas with each verdict; one invalid rule or one malformed
  list invalidates the whole plan.
\<close>

theorem ClassifyConfigPlan_is_worst:
  "ClassifyConfigPlan (Array obs) (Array ts)
   = (let verdicts = image_mset (verdict obs) (mset ts)
      in if plan_input_ok (map observed_area obs) (map target_area ts)
            \<and> ClassInvalidRule \<notin># verdicts
         then \<lparr>decision = Max (insert PlanCompatible (severity ` set_mset verdicts)),
               compatible_count = count verdicts ClassCompatible,
               migration_count = count verdicts ClassLosslessMigration,
               reset_count = count verdicts ClassResetRequired,
               blocked_count = count verdicts ClassUnknownOrCorrupt
                               + count verdicts ClassNewerThanTarget\<rparr>
         else InvalidPlanResult)"
  unfolding ClassifyConfigPlan_spec plan_spec_def worst_def Let_def by simp

text \<open>
  The header's promise that observations and targets may come in any order: permuting
  either list changes nothing in the result.
\<close>

theorem ClassifyConfigPlan_order_independent:
  assumes "mset obs = mset obs'" "mset ts = mset ts'"
  shows "ClassifyConfigPlan (Array obs) (Array ts) = ClassifyConfigPlan (Array obs') (Array ts')"
proof -
  have ok: "plan_input_ok (map observed_area obs) (map target_area ts)
            = plan_input_ok (map observed_area obs') (map target_area ts')"
    using assms by (intro plan_input_ok_perm) simp_all
  have "verdict obs t = verdict obs' t" if "distinct (map observed_area obs)" for t
    using find_unique_perm [OF assms(1) that, of "target_area t"] by (simp add: verdict_def)
  then have "verdict obs = verdict obs'" if "plan_input_ok (map observed_area obs) (map target_area ts)"
    using that by (auto simp: plan_input_ok_def)
  with ok show ?thesis by (simp add: ClassifyConfigPlan_spec assms)
qed

text \<open>A closed example with two areas, used by the witnesses.\<close>

definition example_observations :: "ConfigObservation list" where
  "example_observations =
     [\<lparr>observed_area = Machines, status = Present, schema_version = 2\<rparr>,
      \<lparr>observed_area = Settings, status = Present, schema_version = 1\<rparr>]"

definition example_targets :: "ConfigSchemaTarget list" where
  "example_targets =
     [\<lparr>target_area = Settings, required = True, target_version = 3,
       compatible_minimum_version = 2, compatible_maximum_version = 3,
       transitions = Array [\<lparr>transition_id = 9, from_version = 1, to_version = 3, kind = Lossless\<rparr>]\<rparr>,
      \<lparr>target_area = Machines, required = True, target_version = 2,
       compatible_minimum_version = 1, compatible_maximum_version = 2,
       transitions = Array []\<rparr>]"

theorem ClassifyConfigPlan_order_independent_witness:
  "mset example_observations = mset (rev example_observations) \<and>
   ClassifyConfigPlan (Array example_observations) (Array example_targets)
   = ClassifyConfigPlan (Array (rev example_observations)) (Array (rev example_targets))"
  using ClassifyConfigPlan_order_independent
    [of example_observations "rev example_observations" example_targets "rev example_targets"]
  by simp

text \<open>What it means that an area is carried over without loss.\<close>

definition carried_over :: "ConfigObservation \<Rightarrow> ConfigSchemaTarget \<Rightarrow> bool" where
  "carried_over ob t \<longleftrightarrow>
     observed_area ob = target_area t \<and>
     (if status ob = Missing then \<not> required t
      else status ob = Present \<and>
           (compatible_minimum_version t \<le> schema_version ob
              \<and> schema_version ob \<le> target_version t
            \<or> list_ex (\<lambda>tr. from_version tr = schema_version ob \<and> kind tr = Lossless
                            \<and> to_version tr = target_version t)
                (array_items (transitions t))))"

lemma transitions_ok_all:
  "transitions_ok t seen trs \<Longrightarrow> list_all (transition_ok t) trs"
  by (induction t seen trs rule: transitions_ok.induct) (auto split: if_splits)

lemma ClassifyConfig_lossless:
  assumes "classification (ClassifyConfig ob t) \<in> {ClassCompatible, ClassLosslessMigration}"
  shows "carried_over ob t"
proof -
  let ?find = "find (\<lambda>tr. from_version tr = schema_version ob) (array_items (transitions t))"
  have valid: "TargetIsValid t" "observed_area ob = target_area t" "IsKnownObservationStatus (status ob)"
    using assms by (auto simp: ClassifyConfig_def MakeClassification_def split: if_splits)
  then have trs: "list_all (transition_ok t) (array_items (transitions t))"
    by (auto simp: TargetIsValid_def dest: transitions_ok_all split: if_splits)
  have some: "list_ex (\<lambda>tr. from_version tr = schema_version ob \<and> kind tr = Lossless
                            \<and> to_version tr = target_version t) (array_items (transitions t))"
    if "?find = Some tr" "kind tr = Lossless" for tr
  proof -
    from that(1) have "tr \<in> set (array_items (transitions t))" "from_version tr = schema_version ob"
      by (auto simp: find_Some_iff)
    with trs that(2) show ?thesis
      by (auto simp: list_ex_iff list_all_iff transition_ok_def)
  qed
  show ?thesis
    using assms valid some
    by (auto simp: ClassifyConfig_def MakeClassification_def carried_over_def
        IsKnownObservationStatus_def split: if_splits option.splits)
qed

text \<open>
  (C33) A plan that asks for no confirmation keeps every configuration area: each target area is
  present in a version it can read or has a lossless transition from, or is absent and optional.
\<close>

theorem plan_without_confirmation_loses_nothing:
  assumes "decision (ClassifyConfigPlan (Array obs) (Array ts)) \<le> PlanLosslessMigration"
    and "t \<in> set ts"
  shows "\<exists>ob \<in> set obs. carried_over ob t"
proof -
  let ?V = "image_mset (verdict obs) (mset ts)"
  have v: "plan_input_ok (map observed_area obs) (map target_area ts)" "ClassInvalidRule \<notin># ?V"
    and w: "worst ?V \<le> PlanLosslessMigration"
    using assms(1)
    by (auto simp: ClassifyConfigPlan_spec plan_spec_def InvalidPlanResult_def
        less_eq_ConfigPlanDecision_def split: if_splits)
  have "severity (verdict obs t) \<le> worst ?V"
    unfolding worst_def using assms(2) by (intro Max_ge) auto
  with w have "severity (verdict obs t) \<le> PlanLosslessMigration" by (rule order_trans [rotated])
  then have c: "verdict obs t \<in> {ClassCompatible, ClassLosslessMigration}"
    by (cases "verdict obs t") (auto simp: less_eq_ConfigPlanDecision_def)
  then obtain ob where "find (\<lambda>ob. observed_area ob = target_area t) obs = Some ob"
    "classification (ClassifyConfig ob t) \<in> {ClassCompatible, ClassLosslessMigration}"
    by (auto simp: verdict_def split: option.splits)
  then show ?thesis by (intro bexI [of _ ob] ClassifyConfig_lossless) (auto simp: find_Some_iff)
qed

theorem plan_without_confirmation_loses_nothing_witness:
  "decision (ClassifyConfigPlan (Array example_observations) (Array example_targets))
     = PlanLosslessMigration
   \<and> list_ex (\<lambda>ob. carried_over ob (example_targets ! 0)) example_observations"
proof -
  have d: "decision (ClassifyConfigPlan (Array example_observations) (Array example_targets))
           = PlanLosslessMigration"
    by (simp add: ClassifyConfigPlan_def example_observations_def example_targets_def
        kMaximumConfigAreas_def IsKnownConfigArea_def ClassifyConfig_def TargetIsValid_def
        kMaximumSchemaTransitionsPerArea_def transition_ok_def IsKnownTransitionKind_def
        IsKnownObservationStatus_def MakeClassification_def EmptyPlanResult_def word_le_nat_alt)
  have "example_targets ! 0 \<in> set example_targets" by (simp add: example_targets_def)
  with d plan_without_confirmation_loses_nothing
    [of example_observations example_targets "example_targets ! 0"]
  show ?thesis by (simp add: list_ex_iff)
qed

end
