(* ===== verification/Consent_Digest.thy ===== *)
theory Consent_Digest
  imports Update_Journal Config_Schema
begin

text \<open>
  \<open>consent_digest_input.cpp\<close>: the canonical bytes whose SHA-256 the user's consent is bound to.
  The file has its own copies of \<open>WriteU16\<close>, \<open>WriteU32\<close>, \<open>WriteU64\<close> and \<open>BytesAreNonZero\<close>, equal to
  those of the journal; the model uses the journal's. The main result is that the comparison just
  before installation accepts exactly the same decision over the same configuration, in whatever
  order the two lists name the areas.
\<close>

section \<open>The code\<close>

definition kConsentHeaderEncodedBytes :: nat where "kConsentHeaderEncodedBytes = 56"
definition kConsentItemEncodedBytes :: nat where "kConsentItemEncodedBytes = 44"

definition kMaximumConsentEncodedBytes :: nat where
  "kMaximumConsentEncodedBytes =
     kConsentHeaderEncodedBytes + kMaximumConfigAreas * kConsentItemEncodedBytes"

record ConsentConfigItem =
  item_area :: ConfigArea
  item_classification :: ConfigClassification
  item_source_schema_version :: u32
  item_target_schema_version :: u32
  item_source_content_sha256 :: bytes

record ConsentDigestInput =
  consent_board :: BoardFamily
  consent_target_release_sequence :: u64
  consent_manifest_sha256 :: bytes
  consent_items :: "ConsentConfigItem array_view"

datatype ConsentInputStatus = ConsentValid | ConsentInvalidInput | DuplicateConfigArea | ConsentOutputTooSmall

definition kConsentMagic :: bytes where
  "kConsentMagic = ascii ''BMXCNS1'' @ [0]"

fun ConfigArea_byte :: "ConfigArea \<Rightarrow> u8" where
  "ConfigArea_byte AreaUnknown = 0"
| "ConfigArea_byte Machines = 1"
| "ConfigArea_byte ConfigManagedBlock = 2"
| "ConfigArea_byte CmdlineManagedKeys = 3"
| "ConfigArea_byte Network = 4"
| "ConfigArea_byte Settings = 5"
| "ConfigArea_byte UpdateState = 6"
| "ConfigArea_byte (AreaOther b) = b"

fun ConfigClassification_byte :: "ConfigClassification \<Rightarrow> u8" where
  "ConfigClassification_byte ClassCompatible = 0"
| "ConfigClassification_byte ClassLosslessMigration = 1"
| "ConfigClassification_byte ClassResetRequired = 2"
| "ConfigClassification_byte ClassUnknownOrCorrupt = 3"
| "ConfigClassification_byte ClassNewerThanTarget = 4"
| "ConfigClassification_byte ClassInvalidRule = 5"

definition IsConsentClassification :: "ConfigClassification \<Rightarrow> bool" where
  "IsConsentClassification c \<longleftrightarrow>
     c = ClassCompatible \<or> c = ClassLosslessMigration \<or> c = ClassResetRequired"

definition consent_item_rejected :: "ConsentConfigItem \<Rightarrow> bool" where
  "consent_item_rejected x \<longleftrightarrow>
     \<not> IsKnownConfigArea (item_area x) \<or> \<not> IsConsentClassification (item_classification x)
     \<or> item_target_schema_version x = 0
     \<or> (item_source_schema_version x = 0 \<and> item_classification x \<noteq> ClassCompatible)
     \<or> \<not> BytesAreNonZero (item_source_content_sha256 x)"

text \<open>The first loop of \<open>ValidateAndSort\<close>; \<open>seen\<close> holds the areas of the earlier items.\<close>

fun check_items :: "ConfigArea list \<Rightarrow> ConsentConfigItem list \<Rightarrow> ConsentInputStatus" where
  "check_items seen [] = ConsentValid"
| "check_items seen (x # xs) =
     (if consent_item_rejected x then ConsentInvalidInput
      else if item_area x \<in> set seen then DuplicateConfigArea
      else check_items (item_area x # seen) xs)"

text \<open>
  The insertion sort of the index array. \<open>insert_shift key v p idx\<close> is the inner loop at position
  \<open>p\<close> followed by the store of the value.
\<close>

fun insert_shift :: "(nat \<Rightarrow> u8) \<Rightarrow> nat \<Rightarrow> nat \<Rightarrow> nat list \<Rightarrow> nat list" where
  "insert_shift key v 0 idx = idx[0 := v]"
| "insert_shift key v (Suc p) idx =
     (if key (idx ! p) > key v then insert_shift key v p (idx[Suc p := idx ! p])
      else idx[Suc p := v])"

definition sort_indices :: "(nat \<Rightarrow> u8) \<Rightarrow> nat \<Rightarrow> nat list" where
  "sort_indices key n = foldl (\<lambda>idx i. insert_shift key (idx ! i) i idx) [0..<n] [1..<n]"

definition ValidateAndSort :: "ConsentDigestInput \<Rightarrow> ConsentInputStatus \<times> nat list" where
  "ValidateAndSort input =
     (let items = array_items (consent_items input); n = array_count (consent_items input)
      in if \<not> IsKnownBoardFamily (consent_board input) \<or> consent_target_release_sequence input = 0
            \<or> \<not> BytesAreNonZero (consent_manifest_sha256 input)
            \<or> consent_items input = NullArray n \<or> n = 0 \<or> n > kMaximumConfigAreas
         then (ConsentInvalidInput, [])
         else if check_items [] items \<noteq> ConsentValid then (check_items [] items, [])
         else (ConsentValid, sort_indices (\<lambda>i. ConfigArea_byte (item_area (items ! i))) n))"

definition header_writes :: "ConsentDigestInput \<Rightarrow> nat \<Rightarrow> (nat \<times> bytes) list" where
  "header_writes input needed =
     [(0, kConsentMagic),
      (8, WriteU16 1),
      (10, WriteU16 (of_nat needed)),
      (12, [BoardFamily_byte (consent_board input)]),
      (13, [of_nat (array_count (consent_items input))]),
      (16, WriteU64 (consent_target_release_sequence input)),
      (24, consent_manifest_sha256 input)]"

fun item_writes :: "nat \<Rightarrow> ConsentConfigItem list \<Rightarrow> (nat \<times> bytes) list" where
  "item_writes offset [] = []"
| "item_writes offset (x # xs) =
     (offset, [ConfigArea_byte (item_area x)])
     # (offset + 1, [ConfigClassification_byte (item_classification x)])
     # (offset + 4, WriteU32 (item_source_schema_version x))
     # (offset + 8, WriteU32 (item_target_schema_version x))
     # (offset + 12, item_source_content_sha256 x)
     # item_writes (offset + kConsentItemEncodedBytes) xs"

text \<open>
  The status, the output buffer afterwards and \<open>*encoded_size\<close>; \<open>size_given\<close> says that the pointer
  for the latter is not null.
\<close>

definition SerializeConsentDigestInput ::
  "ConsentDigestInput \<Rightarrow> byte_view \<Rightarrow> bool \<Rightarrow> ConsentInputStatus \<times> bytes \<times> nat" where
  "SerializeConsentDigestInput input output size_given =
     (if \<not> size_given then (ConsentInvalidInput, view_bytes output, 0)
      else
        (case ValidateAndSort input of (valid, indices) \<Rightarrow>
           if valid \<noteq> ConsentValid then (valid, view_bytes output, 0)
           else
             (let items = array_items (consent_items input);
                  needed = kConsentHeaderEncodedBytes
                             + array_count (consent_items input) * kConsentItemEncodedBytes
              in if view_null output \<or> view_size output < needed \<or> needed > 65535
                 then (ConsentOutputTooSmall, view_bytes output, 0)
                 else
                   (ConsentValid,
                    write_all (put_bytes (view_bytes output) 0 (replicate needed 0))
                      (header_writes input needed
                       @ item_writes kConsentHeaderEncodedBytes (map (\<lambda>i. items ! i) indices)),
                    needed))))"

text \<open>\<open>left_bytes\<close> and \<open>right_bytes\<close> are the uninitialised buffers on the stack.\<close>

definition ConsentDigestInputsEqual ::
  "bytes \<Rightarrow> bytes \<Rightarrow> ConsentDigestInput \<Rightarrow> ConsentDigestInput \<Rightarrow> bool" where
  "ConsentDigestInputsEqual left_bytes right_bytes left right =
     (case SerializeConsentDigestInput left (Bytes left_bytes) True of (sl, bl, nl) \<Rightarrow>
      case SerializeConsentDigestInput right (Bytes right_bytes) True of (sr, br, nr) \<Rightarrow>
        sl = ConsentValid \<and> sr = ConsentValid \<and> nl = nr \<and> take nl bl = take nl br)"

section \<open>The insertion sort\<close>

lemma insert_shift_facts:
  fixes key :: "nat \<Rightarrow> u8" and v p :: nat and idx :: "nat list"
  assumes "p < length idx" "sorted (map key (take p idx))"
  defines "r \<equiv> insert_shift key v p idx"
  shows "length r = length idx \<and> mset (take (Suc p) r) = add_mset v (mset (take p idx))
    \<and> sorted (map key (take (Suc p) r)) \<and> drop (Suc p) r = drop (Suc p) idx"
  using assms(1,2) unfolding r_def
proof (induction p arbitrary: idx)
  case 0
  then show ?case by (cases idx) simp_all
next
  case (Suc p)
  have tk: "take (Suc p) idx = take p idx @ [idx ! p]"
    using Suc.prems(1) by (simp add: take_Suc_conv_app_nth)
  have s: "sorted (map key (take p idx))" "\<forall>x \<in> set (take p idx). key x \<le> key (idx ! p)"
    using Suc.prems(2) unfolding tk by (auto simp: sorted_append)
  show ?case
  proof (cases "key (idx ! p) > key v")
    case True
    let ?idx = "idx[Suc p := idx ! p]"
    let ?r = "insert_shift key v p ?idx"
    have IH: "length ?r = length idx \<and> mset (take (Suc p) ?r) = add_mset v (mset (take p idx))
        \<and> sorted (map key (take (Suc p) ?r)) \<and> drop (Suc p) ?r = drop (Suc p) ?idx"
      using Suc.IH [of ?idx] Suc.prems(1) s(1) by simp
    have nth: "?r ! Suc p = idx ! p"
      using IH Suc.prems(1) by (metis Cons_nth_drop_Suc length_list_update list.inject nth_list_update_eq)
    have tk2: "take (Suc (Suc p)) ?r = take (Suc p) ?r @ [idx ! p]"
      using IH Suc.prems(1) nth by (simp add: take_Suc_conv_app_nth [of "Suc p"])
    have "set (take (Suc p) ?r) = insert v (set (take p idx))"
      using IH by (metis set_mset_add_mset_insert set_mset_mset)
    then have "sorted (map key (take (Suc (Suc p)) ?r))"
      using IH s(2) True unfolding tk2 by (auto simp: sorted_append)
    moreover have "drop (Suc (Suc p)) ?r = drop (Suc (Suc p)) idx"
      using IH by (metis drop_Suc drop_update_cancel lessI tl_drop)
    ultimately show ?thesis
      using True IH tk2 unfolding tk by simp
  next
    case False
    then show ?thesis
      using Suc.prems s unfolding tk
      by (auto simp: take_Suc_conv_app_nth [of "Suc p"] sorted_append tk intro: order_trans)
  qed
qed

lemma sorted_take_1: "sorted (map key (take (Suc 0) xs))"
  by (cases xs) simp_all

lemma sort_indices_facts:
  "mset (sort_indices key n) = mset [0..<n]" "sorted (map key (sort_indices key n))"
proof -
  have "length r = n \<and> mset r = mset [0..<n] \<and> sorted (map key (take (max 1 m) r))"
    if "r = foldl (\<lambda>idx i. insert_shift key (idx ! i) i idx) [0..<n] [1..<m]" "m \<le> n" for m r
    using that
  proof (induction m arbitrary: r)
    case 0
    then show ?case by (simp add: sorted_take_1 del: upt_Suc)
  next
    case (Suc m)
    show ?case
    proof (cases "m = 0")
      case True
      with Suc.prems show ?thesis using sorted_take_1 [of key r] by simp
    next
      case False
      let ?q = "foldl (\<lambda>idx i. insert_shift key (idx ! i) i idx) [0..<n] [1..<m]"
      have r: "r = insert_shift key (?q ! m) m ?q" using Suc.prems(1) False by simp
      have q: "length ?q = n" "mset ?q = mset [0..<n]" "sorted (map key (take m ?q))"
        using Suc.IH [of ?q] Suc.prems(2) False by (simp_all add: max_def)
      note f = insert_shift_facts [of m ?q key "?q ! m", folded r]
      have "mset r = mset (take (Suc m) r) + mset (drop (Suc m) r)"
        by (metis append_take_drop_id mset_append)
      also have "\<dots> = mset (take (Suc m) ?q) + mset (drop (Suc m) ?q)"
        using f q Suc.prems(2) take_Suc_conv_app_nth [of m ?q] by simp
      also have "\<dots> = mset ?q" by (metis append_take_drop_id mset_append)
      finally show ?thesis using f q Suc.prems(2) by (simp add: max_def)
    qed
  qed
  from this [of "sort_indices key n" n] show
    "mset (sort_indices key n) = mset [0..<n]" "sorted (map key (sort_indices key n))"
    by (cases n, auto simp: sort_indices_def)
qed

section \<open>Valid inputs\<close>

lemma check_items_valid_iff:
  "check_items seen xs = ConsentValid \<longleftrightarrow>
     list_all (\<lambda>x. \<not> consent_item_rejected x) xs \<and> distinct (map item_area xs)
     \<and> set (map item_area xs) \<inter> set seen = {}"
  by (induction xs arbitrary: seen) auto

lemma ConfigArea_byte_inj: "inj_on ConfigArea_byte {a. IsKnownConfigArea a}"
  by (auto simp: inj_on_def IsKnownConfigArea_def)

lemma ConfigClassification_byte_inj: "inj ConfigClassification_byte"
  by (rule injI) (auto elim!: ConfigClassification_byte.elims)

abbreviation area_key :: "ConsentConfigItem \<Rightarrow> u8" where
  "area_key x \<equiv> ConfigArea_byte (item_area x)"

text \<open>Accepted items have pairwise different area bytes.\<close>

lemma area_key_distinct:
  assumes "check_items [] xs = ConsentValid"
  shows "distinct (map area_key xs)" "inj_on area_key (set xs)"
proof -
  have known: "item_area ` set xs \<subseteq> {a. IsKnownConfigArea a}" and d: "distinct (map item_area xs)"
    using assms by (auto simp: check_items_valid_iff list_all_iff consent_item_rejected_def)
  have "inj_on item_area (set xs)" using d by (simp add: distinct_map)
  with known show i: "inj_on area_key (set xs)"
    using comp_inj_on [of item_area "set xs" ConfigArea_byte] inj_on_subset [OF ConfigArea_byte_inj]
    by (simp add: comp_def)
  have "distinct xs" using d by (simp add: distinct_map)
  with i show "distinct (map area_key xs)" by (simp add: distinct_map)
qed

definition consent_valid :: "ConsentDigestInput \<Rightarrow> bool" where
  "consent_valid input \<longleftrightarrow> fst (ValidateAndSort input) = ConsentValid"

text \<open>The order in which the items are written.\<close>

definition canonical_items :: "ConsentDigestInput \<Rightarrow> ConsentConfigItem list" where
  "canonical_items input =
     map (\<lambda>i. array_items (consent_items input) ! i) (snd (ValidateAndSort input))"

lemma consent_validD:
  assumes "consent_valid input"
  shows "check_items [] (array_items (consent_items input)) = ConsentValid"
    "length (array_items (consent_items input)) = array_count (consent_items input)"
    "0 < array_count (consent_items input)" "array_count (consent_items input) \<le> 16"
    "IsKnownBoardFamily (consent_board input)"
  using assms
  by (cases "consent_items input";
      force simp: consent_valid_def ValidateAndSort_def kMaximumConfigAreas_def Let_def split: if_splits)+

lemma canonical_items_facts:
  assumes "consent_valid input"
  shows "mset (canonical_items input) = mset (array_items (consent_items input))"
    "sorted (map area_key (canonical_items input))"
    "length (canonical_items input) = array_count (consent_items input)"
proof -
  let ?items = "array_items (consent_items input)"
  let ?key = "\<lambda>i. area_key (?items ! i)"
  have s: "snd (ValidateAndSort input) = sort_indices ?key (length ?items)"
    using assms consent_validD(2) [OF assms]
    by (auto simp: consent_valid_def ValidateAndSort_def Let_def split: if_splits)
  have "mset (canonical_items input) = image_mset ((!) ?items) (mset [0..<length ?items])"
    by (simp add: canonical_items_def s sort_indices_facts(1))
  also have "\<dots> = mset ?items" by (metis map_nth mset_map)
  finally show m: "mset (canonical_items input) = mset ?items" .
  show "sorted (map area_key (canonical_items input))"
    using sort_indices_facts(2) [of ?key "length ?items"] by (simp add: canonical_items_def s comp_def)
  show "length (canonical_items input) = array_count (consent_items input)"
    using arg_cong [OF m, of size] consent_validD(2) [OF assms] by simp
qed

text \<open>Two valid inputs with the same items, in any order, are written in the same order.\<close>

lemma canonical_items_eq_iff:
  assumes "consent_valid l" "consent_valid r"
  shows "canonical_items l = canonical_items r \<longleftrightarrow>
    mset (array_items (consent_items l)) = mset (array_items (consent_items r))"
proof
  assume "mset (array_items (consent_items l)) = mset (array_items (consent_items r))"
  then have m: "mset (canonical_items l) = mset (canonical_items r)"
    using canonical_items_facts(1) assms by simp
  have st: "set (canonical_items i) = set (array_items (consent_items i))" if "consent_valid i" for i
    using canonical_items_facts(1) [OF that] by (rule mset_eq_setD)
  have dk: "distinct (map area_key (canonical_items i))" if "consent_valid i" for i
    using area_key_distinct(1) [OF consent_validD(1) [OF that]] canonical_items_facts(1) [OF that]
    by (metis mset_map mset_eq_imp_distinct_iff)
  show "canonical_items l = canonical_items r"
  proof (rule map_sorted_distinct_set_unique [where f = area_key])
    show "set (canonical_items l) = set (canonical_items r)" using m by (rule mset_eq_setD)
    then show "inj_on area_key (set (canonical_items l) \<union> set (canonical_items r))"
      using area_key_distinct(2) [OF consent_validD(1) [OF assms(1)]] st [OF assms(1)] by simp
  qed (use assms canonical_items_facts(2) dk in auto)
qed (use assms canonical_items_facts(1) in metis)

section \<open>The encoding\<close>

text \<open>The digest fields are arrays of 32 bytes.\<close>

definition consent_sized :: "ConsentDigestInput \<Rightarrow> bool" where
  "consent_sized input \<longleftrightarrow>
     length (consent_manifest_sha256 input) = 32
     \<and> list_all (\<lambda>x. length (item_source_content_sha256 x) = 32) (array_items (consent_items input))"

lemma layout_append:
  "layout lo m ws \<Longrightarrow> layout m n ws' \<Longrightarrow> layout lo n (ws @ ws')"
proof (induction lo m ws rule: layout.induct)
  case (1 lo m)
  then show ?case by (cases ws') auto
qed simp

lemma item_writes_layout:
  "list_all (\<lambda>x. length (item_source_content_sha256 x) = 32) xs \<Longrightarrow>
   layout off (off + length xs * 44) (item_writes off xs)"
proof (induction xs arbitrary: off)
  case (Cons x xs)
  then have "layout (off + 44) (off + 44 + length xs * 44) (item_writes (off + 44) xs)" by simp
  moreover have "off + 12 + 32 = off + 44" by simp
  ultimately show ?case using Cons.prems by (simp add: kConsentItemEncodedBytes_def add.assoc)
qed simp

lemma item_writes_nth:
  "i < length xs \<Longrightarrow>
   {(off + 44 * i, [area_key (xs ! i)]),
    (off + 44 * i + 1, [ConfigClassification_byte (item_classification (xs ! i))]),
    (off + 44 * i + 4, WriteU32 (item_source_schema_version (xs ! i))),
    (off + 44 * i + 8, WriteU32 (item_target_schema_version (xs ! i))),
    (off + 44 * i + 12, item_source_content_sha256 (xs ! i))}
   \<subseteq> set (item_writes off xs)"
proof (induction xs arbitrary: off i)
  case (Cons x xs)
  show ?case
  proof (cases i)
    case (Suc j)
    with Cons.IH [of j "off + 44"] Cons.prems show ?thesis
      by (simp add: kConsentItemEncodedBytes_def algebra_simps)
  qed simp
qed simp

definition consent_writes :: "ConsentDigestInput \<Rightarrow> (nat \<times> bytes) list" where
  "consent_writes input =
     header_writes input (56 + array_count (consent_items input) * 44)
     @ item_writes 56 (canonical_items input)"

definition consent_encoding :: "ConsentDigestInput \<Rightarrow> bytes" where
  "consent_encoding input =
     write_all (replicate (56 + array_count (consent_items input) * 44) 0) (consent_writes input)"

lemma consent_layout:
  assumes "consent_valid input" "consent_sized input"
  shows "layout 0 (56 + array_count (consent_items input) * 44) (consent_writes input)"
proof -
  have "list_all (\<lambda>x. length (item_source_content_sha256 x) = 32) (canonical_items input)"
    using assms(2) mset_eq_setD [OF canonical_items_facts(1) [OF assms(1)]]
    by (simp add: consent_sized_def list_all_iff)
  from item_writes_layout [OF this, of 56] have
    "layout 56 (56 + array_count (consent_items input) * 44) (item_writes 56 (canonical_items input))"
    using canonical_items_facts(3) [OF assms(1)] by simp
  moreover have "layout 0 56 (header_writes input n)" for n
    using assms(2) by (simp add: header_writes_def consent_sized_def kConsentMagic_def)
  ultimately show ?thesis unfolding consent_writes_def by (blast intro: layout_append)
qed

lemma put_bytes_append:
  "off + length bs \<le> length a \<Longrightarrow> put_bytes (a @ b) off bs = put_bytes a off bs @ b"
  by (simp add: put_bytes_def)

lemma write_all_extend:
  "layout lo n ws \<Longrightarrow> length a = n \<Longrightarrow> write_all (a @ b) ws = write_all a ws @ b"
proof (induction lo n ws arbitrary: a rule: layout.induct)
  case (2 lo n off bs ws)
  then have "off + length bs \<le> n" by (auto dest: layout_le)
  with 2 show ?case by (simp add: put_bytes_append)
qed simp

lemma SerializeConsentDigestInput_valid:
  assumes "consent_valid input" "consent_sized input" "length buf = 760"
  shows "SerializeConsentDigestInput input (Bytes buf) True =
    (ConsentValid, consent_encoding input @ drop (56 + array_count (consent_items input) * 44) buf,
     56 + array_count (consent_items input) * 44)"
proof -
  let ?n = "56 + array_count (consent_items input) * 44"
  have n: "?n \<le> 760" using consent_validD(4) [OF assms(1)] by simp
  then have "put_bytes buf 0 (replicate ?n 0) = replicate ?n 0 @ drop ?n buf"
    by (simp add: put_bytes_def)
  then have "write_all (put_bytes buf 0 (replicate ?n 0)) (consent_writes input)
      = consent_encoding input @ drop ?n buf"
    unfolding consent_encoding_def using write_all_extend [OF consent_layout [OF assms(1,2)]] by simp
  moreover obtain idx where v: "ValidateAndSort input = (ConsentValid, idx)"
    using assms(1) by (cases "ValidateAndSort input") (auto simp: consent_valid_def)
  ultimately show ?thesis
    using n assms(3)
    by (simp add: SerializeConsentDigestInput_def v Let_def kConsentHeaderEncodedBytes_def
        kConsentItemEncodedBytes_def consent_writes_def canonical_items_def)
qed

lemma SerializeConsentDigestInput_invalid:
  "\<not> consent_valid input \<Longrightarrow> fst (SerializeConsentDigestInput input out True) \<noteq> ConsentValid"
  by (auto simp: SerializeConsentDigestInput_def consent_valid_def split: prod.splits)

lemma length_consent_encoding:
  assumes "consent_valid input" "consent_sized input"
  shows "length (consent_encoding input) = 56 + array_count (consent_items input) * 44"
  unfolding consent_encoding_def by (rule length_write_all [OF consent_layout [OF assms]]) simp

lemma consent_encoding_get:
  assumes "consent_valid input" "consent_sized input" "(off, bs) \<in> set (consent_writes input)"
  shows "get_bytes (consent_encoding input) off (length bs) = bs"
  unfolding consent_encoding_def
  by (rule write_all_get [OF consent_layout [OF assms(1,2)]]) (use assms(3) in simp_all)

text \<open>Equal encodings come from equal decisions.\<close>

lemma consent_encoding_field:
  assumes "consent_valid l" "consent_valid r" "consent_sized l" "consent_sized r"
    and "consent_encoding l = consent_encoding r"
    and "(off, bs) \<in> set (consent_writes l)" "(off, bs') \<in> set (consent_writes r)" "length bs = length bs'"
  shows "bs = bs'"
proof -
  have "bs = get_bytes (consent_encoding l) off (length bs)"
    by (rule consent_encoding_get [OF assms(1,3,6), symmetric])
  also have "\<dots> = get_bytes (consent_encoding r) off (length bs')" by (simp only: assms(5,8))
  also have "\<dots> = bs'" by (rule consent_encoding_get [OF assms(2,4,7)])
  finally show ?thesis .
qed

lemma header_writes_members:
  "{(12, [BoardFamily_byte (consent_board input)]), (16, WriteU64 (consent_target_release_sequence input)),
    (24, consent_manifest_sha256 input)} \<subseteq> set (consent_writes input)"
  by (simp add: consent_writes_def header_writes_def)

lemma canonical_items_writes:
  assumes "i < length (canonical_items input)"
  shows "{(56 + 44 * i, [area_key (canonical_items input ! i)]),
    (56 + 44 * i + 1, [ConfigClassification_byte (item_classification (canonical_items input ! i))]),
    (56 + 44 * i + 4, WriteU32 (item_source_schema_version (canonical_items input ! i))),
    (56 + 44 * i + 8, WriteU32 (item_target_schema_version (canonical_items input ! i))),
    (56 + 44 * i + 12, item_source_content_sha256 (canonical_items input ! i))}
   \<subseteq> set (consent_writes input)"
  using item_writes_nth [OF assms, of 56] unfolding consent_writes_def set_append by (rule le_supI2)

lemma canonical_item_ok:
  assumes "consent_valid input" "consent_sized input" "x \<in> set (canonical_items input)"
  shows "IsKnownConfigArea (item_area x)" "length (item_source_content_sha256 x) = 32"
  using assms(2,3) consent_validD(1) [OF assms(1)] mset_eq_setD [OF canonical_items_facts(1) [OF assms(1)]]
  by (auto simp: consent_sized_def list_all_iff check_items_valid_iff consent_item_rejected_def)

lemma consent_item_eqI:
  fixes x y :: ConsentConfigItem
  assumes "area_key x = area_key y" "IsKnownConfigArea (item_area x)" "IsKnownConfigArea (item_area y)"
    and "ConfigClassification_byte (item_classification x) = ConfigClassification_byte (item_classification y)"
    and "WriteU32 (item_source_schema_version x) = WriteU32 (item_source_schema_version y)"
    and "WriteU32 (item_target_schema_version x) = WriteU32 (item_target_schema_version y)"
    and "item_source_content_sha256 x = item_source_content_sha256 y"
  shows "x = y"
proof (rule ConsentConfigItem.equality)
  show "item_area x = item_area y"
    using inj_onD [OF ConfigArea_byte_inj assms(1)] assms(2,3) by simp
  show "item_classification x = item_classification y"
    using injD [OF ConfigClassification_byte_inj assms(4)] .
  show "item_source_schema_version x = item_source_schema_version y"
    "item_target_schema_version x = item_target_schema_version y"
    using arg_cong [OF assms(5), of "le_value :: bytes \<Rightarrow> u32"]
      arg_cong [OF assms(6), of "le_value :: bytes \<Rightarrow> u32"] by simp_all
qed (use assms(7) in simp_all)

lemma consent_encoding_items:
  assumes "consent_valid l" "consent_valid r" "consent_sized l" "consent_sized r"
    and "consent_encoding l = consent_encoding r"
  shows "canonical_items l = canonical_items r"
proof (rule nth_equalityI)
  have "array_count (consent_items l) = array_count (consent_items r)"
    using length_consent_encoding [OF assms(1,3)] length_consent_encoding [OF assms(2,4)] assms(5) by simp
  then show len: "length (canonical_items l) = length (canonical_items r)"
    using canonical_items_facts(3) assms(1,2) by simp
  fix i assume i: "i < length (canonical_items l)"
  let ?x = "canonical_items l ! i" and ?y = "canonical_items r ! i"
  have mx: "?x \<in> set (canonical_items l)" "?y \<in> set (canonical_items r)" using i len by auto
  note eq = consent_encoding_field [OF assms]
  note wl = canonical_items_writes [OF i] and wr = canonical_items_writes [OF i [unfolded len]]
  note ok = canonical_item_ok [OF assms(1,3) mx(1)] canonical_item_ok [OF assms(2,4) mx(2)]
  show "?x = ?y"
  proof (rule consent_item_eqI)
    show "area_key ?x = area_key ?y"
      using eq [of "56 + 44 * i" "[area_key ?x]" "[area_key ?y]"] wl wr by simp
    show "ConfigClassification_byte (item_classification ?x) = ConfigClassification_byte (item_classification ?y)"
      using eq [of "56 + 44 * i + 1" "[ConfigClassification_byte (item_classification ?x)]"
          "[ConfigClassification_byte (item_classification ?y)]"] wl wr by simp
    show "WriteU32 (item_source_schema_version ?x) = WriteU32 (item_source_schema_version ?y)"
      by (rule eq [of "56 + 44 * i + 4"]) (use wl wr in simp_all)
    show "WriteU32 (item_target_schema_version ?x) = WriteU32 (item_target_schema_version ?y)"
      by (rule eq [of "56 + 44 * i + 8"]) (use wl wr in simp_all)
    show "item_source_content_sha256 ?x = item_source_content_sha256 ?y"
      by (rule eq [of "56 + 44 * i + 12"]) (use wl wr ok in simp_all)
  qed (use ok in simp_all)
qed

lemma consent_encoding_eq_iff:
  assumes "consent_valid l" "consent_valid r" "consent_sized l" "consent_sized r"
  shows "consent_encoding l = consent_encoding r \<longleftrightarrow>
    consent_board l = consent_board r
    \<and> consent_target_release_sequence l = consent_target_release_sequence r
    \<and> consent_manifest_sha256 l = consent_manifest_sha256 r
    \<and> mset (array_items (consent_items l)) = mset (array_items (consent_items r))"
proof (intro iffI conjI)
  assume e: "consent_encoding l = consent_encoding r"
  note eq = consent_encoding_field [OF assms e]
  note wl = header_writes_members [of l] and wr = header_writes_members [of r]
  have "BoardFamily_byte (consent_board l) = BoardFamily_byte (consent_board r)"
    using eq [of 12 "[BoardFamily_byte (consent_board l)]" "[BoardFamily_byte (consent_board r)]"] wl wr
    by simp
  then show "consent_board l = consent_board r"
    using consent_validD(5) [OF assms(1)] consent_validD(5) [OF assms(2)] by (auto simp: IsKnownBoardFamily_def)
  have "WriteU64 (consent_target_release_sequence l) = WriteU64 (consent_target_release_sequence r)"
    by (rule eq [of 16]) (use wl wr in simp_all)
  from arg_cong [OF this, of "le_value :: bytes \<Rightarrow> u64"]
  show "consent_target_release_sequence l = consent_target_release_sequence r" by simp
  show "consent_manifest_sha256 l = consent_manifest_sha256 r"
    by (rule eq [of 24]) (use wl wr assms(3,4) in \<open>simp_all add: consent_sized_def\<close>)
  show "mset (array_items (consent_items l)) = mset (array_items (consent_items r))"
    using consent_encoding_items [OF assms e] canonical_items_eq_iff [OF assms(1,2)] by simp
next
  assume a: "consent_board l = consent_board r
    \<and> consent_target_release_sequence l = consent_target_release_sequence r
    \<and> consent_manifest_sha256 l = consent_manifest_sha256 r
    \<and> mset (array_items (consent_items l)) = mset (array_items (consent_items r))"
  then have "canonical_items l = canonical_items r" using canonical_items_eq_iff [OF assms(1,2)] by simp
  moreover have "array_count (consent_items l) = array_count (consent_items r)"
    using a canonical_items_facts(3) assms(1,2) calculation by metis
  ultimately show "consent_encoding l = consent_encoding r"
    using a by (simp add: consent_encoding_def consent_writes_def header_writes_def)
qed

text \<open>
  (C34) The consent check accepts exactly an unchanged decision: both inputs are valid and agree on
  the board, the release, the manifest digest and, in whatever order, on every configuration item.
  The bytes left in the two stack buffers play no role.
\<close>

theorem ConsentDigestInputsEqual_iff:
  assumes "consent_sized l" "consent_sized r"
    and "length left_bytes = kMaximumConsentEncodedBytes" "length right_bytes = kMaximumConsentEncodedBytes"
  shows "ConsentDigestInputsEqual left_bytes right_bytes l r \<longleftrightarrow>
    fst (ValidateAndSort l) = ConsentValid \<and> fst (ValidateAndSort r) = ConsentValid
    \<and> consent_board l = consent_board r
    \<and> consent_target_release_sequence l = consent_target_release_sequence r
    \<and> consent_manifest_sha256 l = consent_manifest_sha256 r
    \<and> mset (array_items (consent_items l)) = mset (array_items (consent_items r))"
proof (cases "consent_valid l \<and> consent_valid r")
  case True
  then have v: "consent_valid l" "consent_valid r" by simp_all
  have b: "length left_bytes = 760" "length right_bytes = 760"
    using assms(3,4) by (simp_all add: kMaximumConsentEncodedBytes_def kConsentHeaderEncodedBytes_def
        kMaximumConfigAreas_def kConsentItemEncodedBytes_def)
  have len: "length (consent_encoding l) = 56 + array_count (consent_items l) * 44"
    "length (consent_encoding r) = 56 + array_count (consent_items r) * 44"
    using length_consent_encoding v assms(1,2) by simp_all
  have "ConsentDigestInputsEqual left_bytes right_bytes l r \<longleftrightarrow> consent_encoding l = consent_encoding r"
    unfolding ConsentDigestInputsEqual_def SerializeConsentDigestInput_valid [OF v(1) assms(1) b(1)]
      SerializeConsentDigestInput_valid [OF v(2) assms(2) b(2)]
    using len by auto
  with consent_encoding_eq_iff [OF v assms(1,2)] v show ?thesis by (simp add: consent_valid_def)
next
  case False
  then have "\<not> ConsentDigestInputsEqual left_bytes right_bytes l r"
    using SerializeConsentDigestInput_invalid [of l "Bytes left_bytes"]
      SerializeConsentDigestInput_invalid [of r "Bytes right_bytes"]
    by (auto simp: ConsentDigestInputsEqual_def split: prod.splits)
  with False show ?thesis by (auto simp: consent_valid_def)
qed

definition sample_item :: "ConfigArea \<Rightarrow> ConsentConfigItem" where
  "sample_item a =
     \<lparr>item_area = a, item_classification = ClassResetRequired, item_source_schema_version = 1,
      item_target_schema_version = 2, item_source_content_sha256 = replicate 32 7\<rparr>"

definition sample_consent :: "ConfigArea list \<Rightarrow> ConsentDigestInput" where
  "sample_consent as =
     \<lparr>consent_board = Pi4Pi400, consent_target_release_sequence = 9,
      consent_manifest_sha256 = replicate 32 5, consent_items = Array (map sample_item as)\<rparr>"

lemma replicate_eq: "replicate 32 x = [x, x, x, x, x, x, x, x, x, x, x, x, x, x, x, x,
    x, x, x, x, x, x, x, x, x, x, x, x, x, x, x, x]"
  by (simp add: numeral_eq_Suc)

theorem ConsentDigestInputsEqual_iff_witness:
  "ConsentDigestInputsEqual (replicate 760 1) (replicate 760 2)
     (sample_consent [Network, Machines]) (sample_consent [Machines, Network])"
proof -
  have s: "consent_sized (sample_consent as)" for as
    by (simp add: consent_sized_def sample_consent_def list_all_iff sample_item_def)
  have nz: "BytesAreNonZero (replicate 32 5)" "BytesAreNonZero (replicate 32 7)"
    by (simp_all add: BytesAreNonZero_def BytesAreZero_def replicate_eq)
  have "fst (ValidateAndSort (sample_consent [Network, Machines])) = ConsentValid"
    "fst (ValidateAndSort (sample_consent [Machines, Network])) = ConsentValid"
    by (simp_all add: ValidateAndSort_def sample_consent_def sample_item_def Let_def nz
        IsKnownBoardFamily_def kMaximumConfigAreas_def consent_item_rejected_def IsKnownConfigArea_def
        IsConsentClassification_def)
  then show ?thesis
    using ConsentDigestInputsEqual_iff [OF s s, of "replicate 760 1" "replicate 760 2"
        "[Network, Machines]" "[Machines, Network]"]
    by (simp add: kMaximumConsentEncodedBytes_def kConsentHeaderEncodedBytes_def
        kMaximumConfigAreas_def kConsentItemEncodedBytes_def sample_consent_def)
qed

end
