(* ===== verification/Candidate_Health.thy ===== *)
theory Candidate_Health
  imports Update_Policy
begin

text \<open>
  \<open>update_health.cpp\<close>: the verdict on a candidate boot from the evidence that the probe has
  collected, and the texts of the two status enumerations.
\<close>

section \<open>The code\<close>

datatype CandidateHealthStatus =
    Healthy | NotCandidateBoot | BoardMismatch | ReleaseSequenceMismatch | UpdaterAbiMismatch
  | ManifestUntrusted | CandidateSelectorInvalid | CriticalFileInvalid | ConfigurationInvalid
  | JournalUnavailable | CoreSubsystemUnavailable | WatchdogUnavailable | HealthOther u8

datatype CandidateHealthProbeStatus =
    ProbeUnknown | ProbeOk | ProbeInvalidArgument | ProbeRuntimeUnavailable
  | ProbeManifestBindingInvalid | ProbeActiveSelectorInvalid | ProbeCandidateSelectorInvalid
  | ProbeCriticalFileInvalid | ProbeConfigurationUnavailable | ProbeConfigurationInvalid
  | ProbeJournalInvalid | ProbeRecoveryProgressFailed | ProbeOther u8

record CandidateHealthEvidence =
  probe_status :: CandidateHealthProbeStatus
  candidate_boot_expected :: bool
  firmware_reports_tryboot :: bool
  running_board :: BoardFamily
  manifest_board :: BoardFamily
  target_release_sequence :: u64
  running_updater_abi :: u32
  minimum_updater_abi :: u32
  maximum_updater_abi :: u32
  local_manifest_trusted :: bool
  candidate_selector_valid :: bool
  critical_file_hashes_valid :: bool
  configuration_valid :: bool
  journal_read_write_verified :: bool
  filesystem_ready :: bool
  menu_core_ready :: bool
  safe_reboot_ready :: bool
  hardware_watchdog_ready :: bool

definition EvaluateCandidateHealth :: "CandidateHealthEvidence \<Rightarrow> CandidateHealthStatus" where
  "EvaluateCandidateHealth e =
     (if \<not> candidate_boot_expected e \<or> \<not> firmware_reports_tryboot e then NotCandidateBoot
      else if \<not> IsKnownBoardFamily (running_board e) \<or> running_board e \<noteq> manifest_board e
        then BoardMismatch
      else if target_release_sequence e = 0 then ReleaseSequenceMismatch
      else if running_updater_abi e = 0 \<or> minimum_updater_abi e = 0
              \<or> maximum_updater_abi e < minimum_updater_abi e
              \<or> running_updater_abi e < minimum_updater_abi e
              \<or> running_updater_abi e > maximum_updater_abi e
        then UpdaterAbiMismatch
      else if \<not> local_manifest_trusted e then ManifestUntrusted
      else if \<not> candidate_selector_valid e then CandidateSelectorInvalid
      else if \<not> critical_file_hashes_valid e then CriticalFileInvalid
      else if \<not> configuration_valid e then ConfigurationInvalid
      else if \<not> journal_read_write_verified e then JournalUnavailable
      else if \<not> filesystem_ready e \<or> \<not> menu_core_ready e \<or> \<not> safe_reboot_ready e
        then CoreSubsystemUnavailable
      else if \<not> hardware_watchdog_ready e then WatchdogUnavailable
      else Healthy)"

fun CandidateHealthStatusString :: "CandidateHealthStatus \<Rightarrow> string" where
  "CandidateHealthStatusString Healthy = ''candidate healthy''"
| "CandidateHealthStatusString NotCandidateBoot = ''not a candidate tryboot''"
| "CandidateHealthStatusString BoardMismatch = ''candidate board mismatch''"
| "CandidateHealthStatusString ReleaseSequenceMismatch = ''candidate release sequence mismatch''"
| "CandidateHealthStatusString UpdaterAbiMismatch = ''candidate updater ABI mismatch''"
| "CandidateHealthStatusString ManifestUntrusted = ''local candidate manifest untrusted''"
| "CandidateHealthStatusString CandidateSelectorInvalid = ''candidate kernel selector invalid''"
| "CandidateHealthStatusString CriticalFileInvalid = ''candidate critical file invalid''"
| "CandidateHealthStatusString ConfigurationInvalid = ''candidate configuration invalid''"
| "CandidateHealthStatusString JournalUnavailable = ''candidate journal unavailable''"
| "CandidateHealthStatusString CoreSubsystemUnavailable = ''candidate core subsystem unavailable''"
| "CandidateHealthStatusString WatchdogUnavailable = ''candidate watchdog unavailable''"
| "CandidateHealthStatusString (HealthOther _) = ''unknown candidate health error''"

fun CandidateHealthProbeStatusString :: "CandidateHealthProbeStatus \<Rightarrow> string" where
  "CandidateHealthProbeStatusString ProbeUnknown = ''unknown''"
| "CandidateHealthProbeStatusString ProbeOk = ''ok''"
| "CandidateHealthProbeStatusString ProbeInvalidArgument = ''invalid-argument''"
| "CandidateHealthProbeStatusString ProbeRuntimeUnavailable = ''runtime-unavailable''"
| "CandidateHealthProbeStatusString ProbeManifestBindingInvalid = ''manifest-binding-invalid''"
| "CandidateHealthProbeStatusString ProbeActiveSelectorInvalid = ''active-selector-invalid''"
| "CandidateHealthProbeStatusString ProbeCandidateSelectorInvalid = ''candidate-selector-invalid''"
| "CandidateHealthProbeStatusString ProbeCriticalFileInvalid = ''critical-file-invalid''"
| "CandidateHealthProbeStatusString ProbeConfigurationUnavailable = ''configuration-unavailable''"
| "CandidateHealthProbeStatusString ProbeConfigurationInvalid = ''configuration-invalid''"
| "CandidateHealthProbeStatusString ProbeJournalInvalid = ''journal-invalid''"
| "CandidateHealthProbeStatusString ProbeRecoveryProgressFailed = ''recovery-progress-failed''"
| "CandidateHealthProbeStatusString (ProbeOther _) = ''unknown''"

section \<open>Properties\<close>

text \<open>
  A candidate is healthy exactly when every piece of evidence is in order; no single check
  can be skipped and no order of the checks matters for the positive verdict.
\<close>

theorem EvaluateCandidateHealth_healthy_iff:
  "EvaluateCandidateHealth e = Healthy \<longleftrightarrow>
     candidate_boot_expected e \<and> firmware_reports_tryboot e
     \<and> running_board e \<in> {Pi4Pi400, Pi5Pi500} \<and> manifest_board e = running_board e
     \<and> 0 < target_release_sequence e
     \<and> 0 < minimum_updater_abi e
     \<and> minimum_updater_abi e \<le> running_updater_abi e
     \<and> running_updater_abi e \<le> maximum_updater_abi e
     \<and> local_manifest_trusted e \<and> candidate_selector_valid e \<and> critical_file_hashes_valid e
     \<and> configuration_valid e \<and> journal_read_write_verified e \<and> filesystem_ready e
     \<and> menu_core_ready e \<and> safe_reboot_ready e \<and> hardware_watchdog_ready e"
  by (auto simp: EvaluateCandidateHealth_def IsKnownBoardFamily_def not_less word_gt_0
      split: if_splits BoardFamily.splits)

lemma CandidateHealthStatusString_inj:
  "CandidateHealthStatusString s = CandidateHealthStatusString t \<Longrightarrow>
   s = t \<or> (\<exists>a b. s = HealthOther a \<and> t = HealthOther b)"
  by (cases s; cases t) simp_all

end
