(* ===== verification/Candidate_Watchdog.thy ===== *)
theory Candidate_Watchdog
  imports Update_Prelude
begin

text \<open>
  \<open>update_watchdog.cpp\<close>: the single-owner wrapper around the hardware watchdog that guards a
  candidate boot. The driver (Circle's \<open>CBcmWatchdog\<close>, or the injected test driver) is not part
  of the sources: its three operations are a parameter of the model, as are the two build macros
  that open the hardware gate. The theorems say that the wrapper never touches a watchdog it does
  not own and that an owned one keeps running until \<open>StopAfterCommit\<close>.
\<close>

section \<open>The code\<close>

record 'd watchdog_driver =
  drv_IsRunning :: "'d \<Rightarrow> bool"
  drv_StartMaximumTimeout :: "'d \<Rightarrow> 'd"
  drv_Stop :: "'d \<Rightarrow> 'd"

datatype CandidateUpdateWatchdogStartResult = Owned | ForeignRunning | StartFailed

text \<open>The object: an optional injected driver with its state, the built-in driver's state, the flag.\<close>

record ('t, 'c) CandidateUpdateWatchdog =
  test_driver :: "('t watchdog_driver \<times> 't) option"
  implementation :: 'c
  owned :: bool

definition UpdateWatchdogHardwareGateEnabled :: "bool \<Rightarrow> bool \<Rightarrow> bool" where
  "UpdateWatchdogHardwareGateEnabled raspi_compile enable_watchdog \<longleftrightarrow>
     raspi_compile \<and> enable_watchdog"

definition make_watchdog ::
  "('t watchdog_driver \<times> 't) option \<Rightarrow> 'c \<Rightarrow> ('t, 'c) CandidateUpdateWatchdog" where
  "make_watchdog td impl = \<lparr>test_driver = td, implementation = impl, owned = False\<rparr>"

text \<open>The bodies are written twice in the code, once per driver; here once, for any driver.\<close>

definition start_body ::
  "'d watchdog_driver \<Rightarrow> bool \<Rightarrow> 'd \<Rightarrow> CandidateUpdateWatchdogStartResult \<times> bool \<times> 'd" where
  "start_body drv own d =
     (if own then ((if drv_IsRunning drv d then Owned else StartFailed), own, d)
      else if drv_IsRunning drv d then (ForeignRunning, own, d)
      else
        (let d' = drv_StartMaximumTimeout drv d; own' = drv_IsRunning drv d'
         in ((if own' then Owned else StartFailed), own', d')))"

definition refresh_body :: "'d watchdog_driver \<Rightarrow> bool \<Rightarrow> 'd \<Rightarrow> bool \<times> 'd" where
  "refresh_body drv own d =
     (if \<not> own \<or> \<not> drv_IsRunning drv d then (False, d)
      else (let d' = drv_StartMaximumTimeout drv d in (drv_IsRunning drv d', d')))"

definition stop_body :: "'d watchdog_driver \<Rightarrow> bool \<Rightarrow> 'd \<Rightarrow> bool \<times> bool \<times> 'd" where
  "stop_body drv own d =
     (if \<not> own then (False, own, d)
      else
        (let d' = drv_Stop drv d
         in if drv_IsRunning drv d' then (False, own, d') else (True, False, d')))"

definition StartForRecovery ::
  "bool \<Rightarrow> 'c watchdog_driver \<Rightarrow> ('t, 'c) CandidateUpdateWatchdog
   \<Rightarrow> CandidateUpdateWatchdogStartResult \<times> ('t, 'c) CandidateUpdateWatchdog" where
  "StartForRecovery gate circle w =
     (case test_driver w of
        Some (td, d) \<Rightarrow>
          (case start_body td (owned w) d of
             (r, own, d') \<Rightarrow> (r, w\<lparr>test_driver := Some (td, d'), owned := own\<rparr>))
      | None \<Rightarrow>
          if gate then
            (case start_body circle (owned w) (implementation w) of
               (r, own, d') \<Rightarrow> (r, w\<lparr>implementation := d', owned := own\<rparr>))
          else (StartFailed, w))"

definition RefreshForRecovery ::
  "bool \<Rightarrow> 'c watchdog_driver \<Rightarrow> ('t, 'c) CandidateUpdateWatchdog
   \<Rightarrow> bool \<times> ('t, 'c) CandidateUpdateWatchdog" where
  "RefreshForRecovery gate circle w =
     (case test_driver w of
        Some (td, d) \<Rightarrow>
          (case refresh_body td (owned w) d of (r, d') \<Rightarrow> (r, w\<lparr>test_driver := Some (td, d')\<rparr>))
      | None \<Rightarrow>
          if gate then
            (case refresh_body circle (owned w) (implementation w) of
               (r, d') \<Rightarrow> (r, w\<lparr>implementation := d'\<rparr>))
          else (False, w))"

definition watchdog_IsRunning ::
  "bool \<Rightarrow> 'c watchdog_driver \<Rightarrow> ('t, 'c) CandidateUpdateWatchdog \<Rightarrow> bool" where
  "watchdog_IsRunning gate circle w =
     (case test_driver w of
        Some (td, d) \<Rightarrow> owned w \<and> drv_IsRunning td d
      | None \<Rightarrow> if gate then owned w \<and> drv_IsRunning circle (implementation w) else False)"

definition StopAfterCommit ::
  "bool \<Rightarrow> 'c watchdog_driver \<Rightarrow> ('t, 'c) CandidateUpdateWatchdog
   \<Rightarrow> bool \<times> ('t, 'c) CandidateUpdateWatchdog" where
  "StopAfterCommit gate circle w =
     (case test_driver w of
        Some (td, d) \<Rightarrow>
          (case stop_body td (owned w) d of
             (r, own, d') \<Rightarrow> (r, w\<lparr>test_driver := Some (td, d'), owned := own\<rparr>))
      | None \<Rightarrow>
          if gate then
            (case stop_body circle (owned w) (implementation w) of
               (r, own, d') \<Rightarrow> (r, w\<lparr>implementation := d', owned := own\<rparr>))
          else (False, w))"

fun CandidateUpdateWatchdogStartResultString :: "CandidateUpdateWatchdogStartResult \<Rightarrow> string" where
  "CandidateUpdateWatchdogStartResultString Owned = ''owned''"
| "CandidateUpdateWatchdogStartResultString ForeignRunning = ''foreign-running''"
| "CandidateUpdateWatchdogStartResultString StartFailed = ''failed''"

section \<open>Sequences of calls\<close>

datatype watchdog_op = CallStart | CallRefresh | CallStop

fun watchdog_call ::
  "bool \<Rightarrow> 'c watchdog_driver \<Rightarrow> watchdog_op \<Rightarrow> ('t, 'c) CandidateUpdateWatchdog
   \<Rightarrow> ('t, 'c) CandidateUpdateWatchdog" where
  "watchdog_call gate circle CallStart w = snd (StartForRecovery gate circle w)"
| "watchdog_call gate circle CallRefresh w = snd (RefreshForRecovery gate circle w)"
| "watchdog_call gate circle CallStop w = snd (StopAfterCommit gate circle w)"

definition watchdog_calls ::
  "bool \<Rightarrow> 'c watchdog_driver \<Rightarrow> watchdog_op list \<Rightarrow> ('t, 'c) CandidateUpdateWatchdog
   \<Rightarrow> ('t, 'c) CandidateUpdateWatchdog" where
  "watchdog_calls gate circle = fold (watchdog_call gate circle)"

text \<open>Is the timer behind the wrapper running, whoever owns it?\<close>

definition timer_running ::
  "bool \<Rightarrow> 'c watchdog_driver \<Rightarrow> ('t, 'c) CandidateUpdateWatchdog \<Rightarrow> bool" where
  "timer_running gate circle w =
     (case test_driver w of
        Some (td, d) \<Rightarrow> drv_IsRunning td d
      | None \<Rightarrow> gate \<and> drv_IsRunning circle (implementation w))"

lemmas body_defs = start_body_def refresh_body_def stop_body_def Let_def

lemmas call_defs =
  StartForRecovery_def RefreshForRecovery_def StopAfterCommit_def watchdog_IsRunning_def
  timer_running_def body_defs

lemma IsRunning_iff:
  "watchdog_IsRunning gate circle w \<longleftrightarrow> owned w \<and> timer_running gate circle w"
  by (auto simp: watchdog_IsRunning_def timer_running_def split: option.splits)

lemma call_foreign:
  assumes "\<not> owned w" "timer_running gate circle w"
  shows "watchdog_call gate circle c w = w"
  using assms by (cases c) (auto simp: call_defs split: option.splits)

definition start_law :: "'d watchdog_driver \<Rightarrow> bool" where
  "start_law drv \<longleftrightarrow> (\<forall>d. drv_IsRunning drv (drv_StartMaximumTimeout drv d))"

definition driver_laws :: "'c watchdog_driver \<Rightarrow> ('t, 'c) CandidateUpdateWatchdog \<Rightarrow> bool" where
  "driver_laws circle w \<longleftrightarrow>
     (case test_driver w of Some (td, d) \<Rightarrow> start_law td | None \<Rightarrow> start_law circle)"

lemma call_keeps_running:
  assumes "driver_laws circle w" "owned w" "timer_running gate circle w" "c \<noteq> CallStop"
  shows "driver_laws circle (watchdog_call gate circle c w)
         \<and> owned (watchdog_call gate circle c w)
         \<and> timer_running gate circle (watchdog_call gate circle c w)"
  using assms
  by (cases c) (auto simp: call_defs driver_laws_def start_law_def split: option.splits)

section \<open>Properties\<close>

text \<open>
  (C31) A watchdog that somebody else has started is neither fed nor stopped nor adopted: no
  sequence of calls on the wrapper changes anything.
\<close>

theorem foreign_watchdog_untouched:
  assumes "\<not> owned w" "timer_running gate circle w"
  shows "watchdog_calls gate circle cs w = w \<and> fst (StartForRecovery gate circle w) = ForeignRunning"
proof
  show "watchdog_calls gate circle cs w = w"
    using call_foreign [OF assms] by (induction cs) (simp_all add: watchdog_calls_def)
  show "fst (StartForRecovery gate circle w) = ForeignRunning"
    using assms by (auto simp: call_defs split: option.splits)
qed

text \<open>A driver whose whole state is whether the timer runs.\<close>

definition bool_driver :: "bool watchdog_driver" where
  "bool_driver =
     \<lparr>drv_IsRunning = (\<lambda>b. b), drv_StartMaximumTimeout = (\<lambda>_. True), drv_Stop = (\<lambda>_. False)\<rparr>"

theorem foreign_watchdog_untouched_witness:
  "watchdog_calls True bool_driver [CallStart, CallStop]
     (make_watchdog (None :: (bool watchdog_driver \<times> bool) option) True)
   = make_watchdog None True"
  using foreign_watchdog_untouched
    [of "make_watchdog (None :: (bool watchdog_driver \<times> bool) option) True" True bool_driver
        "[CallStart, CallStop]"]
  by (simp add: make_watchdog_def timer_running_def bool_driver_def)

text \<open>
  Once owned, the timer keeps running through every sequence of starts and refreshes; the
  only call that can stop it is \<open>StopAfterCommit\<close>. The driver's documented contract, that starting
  it makes it run, is the hypothesis.
\<close>

theorem owned_watchdog_runs_until_commit:
  assumes "driver_laws circle w" "owned w" "timer_running gate circle w" "CallStop \<notin> set cs"
  shows "watchdog_IsRunning gate circle (watchdog_calls gate circle cs w)"
proof -
  have "owned (watchdog_calls gate circle cs w)
        \<and> timer_running gate circle (watchdog_calls gate circle cs w)"
    using assms
  proof (induction cs arbitrary: w)
    case (Cons c cs)
    then have "c \<noteq> CallStop" by auto
    with Cons call_keeps_running [of circle w gate c] show ?case
      by (simp add: watchdog_calls_def)
  qed (simp add: watchdog_calls_def)
  then show ?thesis by (simp add: IsRunning_iff)
qed

theorem owned_watchdog_runs_until_commit_witness:
  "watchdog_IsRunning True bool_driver
     (watchdog_calls True bool_driver [CallRefresh, CallStart]
        \<lparr>test_driver = (None :: (bool watchdog_driver \<times> bool) option), implementation = True,
         owned = True\<rparr>)"
  using owned_watchdog_runs_until_commit
    [of bool_driver "\<lparr>test_driver = (None :: (bool watchdog_driver \<times> bool) option),
                      implementation = True, owned = True\<rparr>" True "[CallRefresh, CallStart]"]
  by (simp add: driver_laws_def start_law_def bool_driver_def timer_running_def)

text \<open>
  Starting the watchdog reports ownership exactly when the object owns a running timer
  afterwards, and a successful stop leaves it neither owned nor running.
\<close>

theorem watchdog_results_honest:
  "(fst (StartForRecovery gate circle w) = Owned
      \<longleftrightarrow> watchdog_IsRunning gate circle (snd (StartForRecovery gate circle w)))
   \<and> (fst (StopAfterCommit gate circle w)
      = (owned w \<and> \<not> owned (snd (StopAfterCommit gate circle w))))
   \<and> \<not> (fst (StopAfterCommit gate circle w)
        \<and> timer_running gate circle (snd (StopAfterCommit gate circle w)))"
  by (auto simp: call_defs split: option.splits)

end
