(* ===== verification/Tryboot_Control.thy ===== *)
theory Tryboot_Control
  imports Update_Policy
begin

text \<open>
  \<open>tryboot_control.cpp\<close> and \<open>tryboot_reboot_control.cpp\<close>: arming and clearing the firmware's
  one-shot tryboot flag and the reboot control built on it. The firmware mailbox (Circle's
  \<open>CBcmPropertyTags\<close>), the device tree and the shutdown hooks are not part of the sources and
  are parameters. Calls go through an explicit machine state \<open>'w\<close>. The fault-injection
  checkpoints expand to nothing in production builds and are left out. \<open>reboot()\<close> is a state
  change after which the caller's result is still delivered, as on a host build.
\<close>

section \<open>The firmware mailbox\<close>

datatype TrybootStatus =
    Armed | Cleared | TrybootInvalidArgument | HardwareGateClosed | ReadFlagsFailed | SetFlagsFailed
  | ReadbackFailed | NotifyFailed

definition kGetRebootFlags :: u32 where "kGetRebootFlags = 0x00030064"
definition kSetRebootFlags :: u32 where "kSetRebootFlags = 0x00038064"
definition kNotifyReboot :: u32 where "kNotifyReboot = 0x00030048"
definition kTrybootFlag :: u32 where "kTrybootFlag = 1"

text \<open>
  \<open>GetTag (id, value, request length)\<close> answers with the returned value, or fails; \<open>GetTags\<close> sends
  a prepared tag and only reports success.
\<close>

record 'w property_tags =
  GetTag :: "u32 \<Rightarrow> u32 \<Rightarrow> nat \<Rightarrow> 'w \<Rightarrow> u32 option \<times> 'w"
  GetTags :: "u32 \<Rightarrow> u32 \<Rightarrow> nat \<Rightarrow> 'w \<Rightarrow> bool \<times> 'w"

definition ReadFlags :: "'w property_tags \<Rightarrow> 'w \<Rightarrow> u32 option \<times> 'w" where
  "ReadFlags tags w = GetTag tags kGetRebootFlags 0 0 w"

definition SetFlags :: "'w property_tags \<Rightarrow> u32 \<Rightarrow> 'w \<Rightarrow> bool \<times> 'w" where
  "SetFlags tags flags w =
     (case GetTag tags kSetRebootFlags flags 4 w of (r, w') \<Rightarrow> (r \<noteq> None, w'))"

definition NotifyReboot :: "'w property_tags \<Rightarrow> 'w \<Rightarrow> bool \<times> 'w" where
  "NotifyReboot tags w = GetTags tags kNotifyReboot 0 0 w"

text \<open>The build macros: target build, tryboot enabled, tryboot observation enabled.\<close>

record build_options =
  raspi_compile :: bool
  enable_tryboot :: bool
  enable_tryboot_observation :: bool

definition TrybootHardwareGateEnabled :: "build_options \<Rightarrow> bool" where
  "TrybootHardwareGateEnabled b \<longleftrightarrow> raspi_compile b \<and> enable_tryboot b"

definition TrybootObservationHardwareGateEnabled :: "build_options \<Rightarrow> bool" where
  "TrybootObservationHardwareGateEnabled b \<longleftrightarrow> raspi_compile b \<and> enable_tryboot_observation b"

text \<open>
  The device tree: \<open>None\<close> without a tree; a lookup of node and property that yields the
  property's big-endian words with its byte length.
\<close>

definition RunningBootWasOneShotTryboot ::
  "build_options \<Rightarrow> (string \<Rightarrow> (string \<Rightarrow> (nat \<times> (nat \<Rightarrow> u32)) option) option) option \<Rightarrow> bool" where
  "RunningBootWasOneShotTryboot b dtb =
     (if \<not> TrybootObservationHardwareGateEnabled b then False
      else
        (case dtb of
           None \<Rightarrow> False
         | Some find_node \<Rightarrow>
             (case find_node ''/chosen/bootloader'' of
                None \<Rightarrow> False
              | Some find_property \<Rightarrow>
                  (case find_property ''tryboot'' of
                     None \<Rightarrow> False
                   | Some (len, word_at) \<Rightarrow> len = 4 \<and> word_at 0 = 1))))"

definition ArmOneShotTryboot ::
  "build_options \<Rightarrow> 'w property_tags \<Rightarrow> 'w \<Rightarrow> TrybootStatus \<times> 'w" where
  "ArmOneShotTryboot b tags w =
     (if \<not> TrybootHardwareGateEnabled b then (HardwareGateClosed, w)
      else
        (case ReadFlags tags w of
           (None, w1) \<Rightarrow> (ReadFlagsFailed, w1)
         | (Some flags, w1) \<Rightarrow>
             (case SetFlags tags (flags OR kTrybootFlag) w1 of
                (False, w2) \<Rightarrow> (SetFlagsFailed, w2)
              | (True, w2) \<Rightarrow>
                  (case ReadFlags tags w2 of
                     (None, w3) \<Rightarrow> (ReadbackFailed, w3)
                   | (Some readback, w3) \<Rightarrow>
                       if readback AND kTrybootFlag = 0 then (ReadbackFailed, w3)
                       else
                         (case NotifyReboot tags w3 of
                            (False, w4) \<Rightarrow> (NotifyFailed, w4)
                          | (True, w4) \<Rightarrow> (Armed, w4))))))"

definition ClearOneShotTryboot ::
  "build_options \<Rightarrow> 'w property_tags \<Rightarrow> 'w \<Rightarrow> TrybootStatus \<times> 'w" where
  "ClearOneShotTryboot b tags w =
     (if \<not> TrybootHardwareGateEnabled b then (HardwareGateClosed, w)
      else
        (case ReadFlags tags w of
           (None, w1) \<Rightarrow> (ReadFlagsFailed, w1)
         | (Some flags, w1) \<Rightarrow>
             (case SetFlags tags (flags AND NOT kTrybootFlag) w1 of
                (False, w2) \<Rightarrow> (SetFlagsFailed, w2)
              | (True, w2) \<Rightarrow>
                  (case ReadFlags tags w2 of
                     (None, w3) \<Rightarrow> (ReadbackFailed, w3)
                   | (Some readback, w3) \<Rightarrow>
                       if readback AND kTrybootFlag \<noteq> 0 then (ReadbackFailed, w3)
                       else
                         (case NotifyReboot tags w3 of
                            (False, w4) \<Rightarrow> (NotifyFailed, w4)
                          | (True, w4) \<Rightarrow> (Cleared, w4))))))"

fun TrybootStatusString :: "TrybootStatus \<Rightarrow> string" where
  "TrybootStatusString Armed = ''tryboot armed''"
| "TrybootStatusString Cleared = ''tryboot cleared''"
| "TrybootStatusString TrybootInvalidArgument = ''invalid argument''"
| "TrybootStatusString HardwareGateClosed = ''tryboot hardware validation gate is closed''"
| "TrybootStatusString ReadFlagsFailed = ''cannot read reboot flags''"
| "TrybootStatusString SetFlagsFailed = ''cannot set tryboot flag''"
| "TrybootStatusString ReadbackFailed = ''tryboot flag readback failed''"
| "TrybootStatusString NotifyFailed = ''firmware reboot notification failed''"

section \<open>The reboot control\<close>

datatype UpdateRebootTarget = OneShotCandidate | PreviousInstallation

record AuthenticatedUpdateBinding =
  bound_archive_url :: "cstring option"
  bound_archive_filename :: "cstring option"
  bound_transaction_root :: "cstring option"
  bound_board :: BoardFamily
  bound_source_release_sequence :: u64
  bound_target_release_sequence :: u64
  bound_old_boot_generation :: u64
  bound_new_boot_generation :: u64
  bound_archive_size :: u64
  bound_transaction_id :: bytes
  bound_archive_sha256 :: bytes
  bound_manifest_sha256 :: bytes
  bound_consent_sha256 :: bytes
  bound_reset_required :: bool
  bound_reset_approved :: bool

text \<open>The table of function pointers; a null pointer is \<open>None\<close>.\<close>

record 'w TrybootRebootOperations =
  supported :: "('w \<Rightarrow> bool \<times> 'w) option"
  arm_one_shot :: "('w \<Rightarrow> TrybootStatus \<times> 'w) option"
  clear_one_shot :: "('w \<Rightarrow> TrybootStatus \<times> 'w) option"
  prepare_shutdown :: "('w \<Rightarrow> bool \<times> 'w) option"
  reboot :: "('w \<Rightarrow> 'w) option"

datatype TrybootRebootControlStatus =
    RebootOk | InvalidOperations | GateClosed | PrepareFailed | ArmFailed | ClearFailed

record 'w TrybootUpdateRebootControl =
  operations :: "'w TrybootRebootOperations"
  last_status :: TrybootRebootControlStatus
  last_tryboot_status :: TrybootStatus

definition make_reboot_control :: "'w TrybootRebootOperations \<Rightarrow> 'w TrybootUpdateRebootControl" where
  "make_reboot_control ops =
     \<lparr>operations = ops, last_status = InvalidOperations,
      last_tryboot_status = TrybootInvalidArgument\<rparr>"

definition OperationsValid :: "'w TrybootUpdateRebootControl \<Rightarrow> bool" where
  "OperationsValid c \<longleftrightarrow>
     supported (operations c) \<noteq> None \<and> arm_one_shot (operations c) \<noteq> None
     \<and> clear_one_shot (operations c) \<noteq> None \<and> prepare_shutdown (operations c) \<noteq> None
     \<and> reboot (operations c) \<noteq> None"

definition OneShotRecoverySupported :: "'w TrybootUpdateRebootControl \<Rightarrow> 'w \<Rightarrow> bool \<times> 'w" where
  "OneShotRecoverySupported c w =
     (if OperationsValid c then the (supported (operations c)) w else (False, w))"

definition RequestPrevious ::
  "'w TrybootUpdateRebootControl \<Rightarrow> 'w \<Rightarrow> bool \<times> 'w TrybootUpdateRebootControl \<times> 'w" where
  "RequestPrevious c w =
     (case the (prepare_shutdown (operations c)) w of
        (False, w1) \<Rightarrow> (False, c\<lparr>last_status := PrepareFailed\<rparr>, w1)
      | (True, w1) \<Rightarrow>
          (case the (clear_one_shot (operations c)) w1 of
             (st, w2) \<Rightarrow>
               let c1 = c\<lparr>last_tryboot_status := st\<rparr>
               in if st \<noteq> Cleared then (False, c1\<lparr>last_status := ClearFailed\<rparr>, w2)
                  else (True, c1\<lparr>last_status := RebootOk\<rparr>, the (reboot (operations c)) w2)))"

text \<open>The loop that folds the transaction bytes into \<open>transaction_nonzero\<close>.\<close>

fun transaction_nonzero :: "bytes \<Rightarrow> bool \<Rightarrow> bool" where
  "transaction_nonzero [] acc = acc"
| "transaction_nonzero (b # bs) acc = transaction_nonzero bs (acc \<or> b \<noteq> 0)"

definition RequestReboot ::
  "'w TrybootUpdateRebootControl \<Rightarrow> UpdateRebootTarget \<Rightarrow> AuthenticatedUpdateBinding \<Rightarrow> 'w
   \<Rightarrow> bool \<times> 'w TrybootUpdateRebootControl \<times> 'w" where
  "RequestReboot c target binding w =
     (if \<not> OperationsValid c then (False, c\<lparr>last_status := InvalidOperations\<rparr>, w)
      else
        (case OneShotRecoverySupported c w of
           (False, w0) \<Rightarrow> (False, c\<lparr>last_status := GateClosed\<rparr>, w0)
         | (True, w0) \<Rightarrow>
             if target = PreviousInstallation then RequestPrevious c w0
             else if \<not> transaction_nonzero (bound_transaction_id binding) False
                  \<or> bound_target_release_sequence binding = 0
                  \<or> bound_source_release_sequence binding = 0
                  \<or> bound_target_release_sequence binding \<le> bound_source_release_sequence binding
               then (False, c\<lparr>last_status := InvalidOperations\<rparr>, w0)
             else
               (case the (prepare_shutdown (operations c)) w0 of
                  (False, w1) \<Rightarrow> (False, c\<lparr>last_status := PrepareFailed\<rparr>, w1)
                | (True, w1) \<Rightarrow>
                    (case the (arm_one_shot (operations c)) w1 of
                       (st, w2) \<Rightarrow>
                         let c1 = c\<lparr>last_tryboot_status := st\<rparr>
                         in if st \<noteq> Armed then (False, c1\<lparr>last_status := ArmFailed\<rparr>, w2)
                            else (True, c1\<lparr>last_status := RebootOk\<rparr>,
                                  the (reboot (operations c)) w2)))))"

definition RequestPreviousBootFailSafe ::
  "'w TrybootUpdateRebootControl \<Rightarrow> 'w \<Rightarrow> bool \<times> 'w TrybootUpdateRebootControl \<times> 'w" where
  "RequestPreviousBootFailSafe c w =
     (if \<not> OperationsValid c then (False, c\<lparr>last_status := InvalidOperations\<rparr>, w)
      else
        (case OneShotRecoverySupported c w of
           (False, w0) \<Rightarrow> (False, c\<lparr>last_status := GateClosed\<rparr>, w0)
         | (True, w0) \<Rightarrow> RequestPrevious c w0))"

text \<open>
  The production table. \<open>emux_prepare_shutdown\<close>, \<open>circle_prepare_system_shutdown\<close> and \<open>reboot\<close>
  are external functions: parameters.
\<close>

definition ProductionPrepare ::
  "build_options \<Rightarrow> ('w \<Rightarrow> int \<times> 'w) \<Rightarrow> ('w \<Rightarrow> int \<times> 'w) \<Rightarrow> 'w \<Rightarrow> bool \<times> 'w" where
  "ProductionPrepare b emux_prepare circle_prepare w =
     (if raspi_compile b then
        (case emux_prepare w of
           (r, w1) \<Rightarrow> if r = 0 then (case circle_prepare w1 of (r', w2) \<Rightarrow> (r' = 0, w2)) else (False, w1))
      else (False, w))"

definition ProductionTrybootRebootOperations ::
  "build_options \<Rightarrow> 'w property_tags \<Rightarrow> ('w \<Rightarrow> int \<times> 'w) \<Rightarrow> ('w \<Rightarrow> int \<times> 'w) \<Rightarrow> ('w \<Rightarrow> 'w)
   \<Rightarrow> 'w TrybootRebootOperations" where
  "ProductionTrybootRebootOperations b tags emux_prepare circle_prepare do_reboot =
     \<lparr>supported = Some (\<lambda>w. (TrybootHardwareGateEnabled b, w)),
      arm_one_shot = Some (ArmOneShotTryboot b tags),
      clear_one_shot = Some (ClearOneShotTryboot b tags),
      prepare_shutdown = Some (ProductionPrepare b emux_prepare circle_prepare),
      reboot = Some (\<lambda>w. if raspi_compile b then do_reboot w else w)\<rparr>"

fun TrybootRebootControlStatusString :: "TrybootRebootControlStatus \<Rightarrow> string" where
  "TrybootRebootControlStatusString RebootOk = ''ok''"
| "TrybootRebootControlStatusString InvalidOperations = ''invalid reboot operations''"
| "TrybootRebootControlStatusString GateClosed = ''tryboot/recovery hardware gate closed''"
| "TrybootRebootControlStatusString PrepareFailed = ''shutdown preparation failed''"
| "TrybootRebootControlStatusString ArmFailed = ''one-shot tryboot arm failed''"
| "TrybootRebootControlStatusString ClearFailed = ''one-shot tryboot clear failed''"

section \<open>The interface \<open>UpdateRebootControl\<close>\<close>

text \<open>
  What the orchestrator and the recovery executor rely on: going back to the previous
  installation does not depend on any caller-provided binding, and without one-shot support every
  request is refused after nothing but the query of the gate.
\<close>

locale reboot_control =
  fixes request :: "'c \<Rightarrow> UpdateRebootTarget \<Rightarrow> AuthenticatedUpdateBinding \<Rightarrow> 'w \<Rightarrow> bool \<times> 'c \<times> 'w"
    and failsafe :: "'c \<Rightarrow> 'w \<Rightarrow> bool \<times> 'c \<times> 'w"
    and available :: "'c \<Rightarrow> 'w \<Rightarrow> bool \<times> 'w"
  assumes previous_is_failsafe: "request c PreviousInstallation b w = failsafe c w"
    and refused: "available c w = (False, w0) \<Longrightarrow>
      fst (request c t b w) = False \<and> snd (snd (request c t b w)) = w0"
begin

lemma previous_ignores_binding:
  "request c PreviousInstallation b w = request c PreviousInstallation b' w"
  by (simp add: previous_is_failsafe)

lemma failsafe_refused:
  assumes "available c w = (False, w0)"
  shows "\<exists>c'. failsafe c w = (False, c', w0)"
  using refused [OF assms, of PreviousInstallation] previous_is_failsafe [of c _ w]
  by (metis prod.collapse)

end

interpretation tryboot: reboot_control RequestReboot RequestPreviousBootFailSafe OneShotRecoverySupported
proof
  fix c :: "'w TrybootUpdateRebootControl" and b w
  show "RequestReboot c PreviousInstallation b w = RequestPreviousBootFailSafe c w"
    by (auto simp: RequestReboot_def RequestPreviousBootFailSafe_def split: prod.split bool.split)
next
  fix c :: "'w TrybootUpdateRebootControl" and t b w w0
  assume "OneShotRecoverySupported c w = (False, w0)"
  then show "fst (RequestReboot c t b w) = False \<and> snd (snd (RequestReboot c t b w)) = w0"
    by (auto simp: RequestReboot_def OneShotRecoverySupported_def)
qed

section \<open>The order of the calls\<close>

datatype reboot_event = EvGate | EvPrepare | EvArm | EvClear | EvReboot

text \<open>The same operations, each also recording that it was called.\<close>

definition logged :: "'e \<Rightarrow> ('w \<Rightarrow> 'r \<times> 'w) \<Rightarrow> 'w \<times> 'e list \<Rightarrow> 'r \<times> 'w \<times> 'e list" where
  "logged e f = (\<lambda>(w, l). case f w of (r, w') \<Rightarrow> (r, w', l @ [e]))"

definition logged_operations ::
  "'w TrybootRebootOperations \<Rightarrow> ('w \<times> reboot_event list) TrybootRebootOperations" where
  "logged_operations ops =
     \<lparr>supported = map_option (logged EvGate) (supported ops),
      arm_one_shot = map_option (logged EvArm) (arm_one_shot ops),
      clear_one_shot = map_option (logged EvClear) (clear_one_shot ops),
      prepare_shutdown = map_option (logged EvPrepare) (prepare_shutdown ops),
      reboot = map_option (\<lambda>f (w, l). (f w, l @ [EvReboot])) (reboot ops)\<rparr>"

definition bound_candidate :: "AuthenticatedUpdateBinding \<Rightarrow> bool" where
  "bound_candidate b \<longleftrightarrow>
     list_ex (\<lambda>x. x \<noteq> 0) (bound_transaction_id b)
     \<and> 0 < bound_source_release_sequence b
     \<and> bound_source_release_sequence b < bound_target_release_sequence b"

lemma transaction_nonzero_iff: "transaction_nonzero bs acc \<longleftrightarrow> acc \<or> list_ex (\<lambda>x. x \<noteq> 0) bs"
  by (induction bs acc rule: transaction_nonzero.induct) auto

lemma candidate_guard:
  "\<not> (\<not> transaction_nonzero (bound_transaction_id b) False
      \<or> bound_target_release_sequence b = 0 \<or> bound_source_release_sequence b = 0
      \<or> bound_target_release_sequence b \<le> bound_source_release_sequence b)
   \<longleftrightarrow> bound_candidate b"
  by (auto simp: bound_candidate_def transaction_nonzero_iff word_gt_0 not_le)

fun reboot_protocol :: "UpdateRebootTarget \<Rightarrow> reboot_event list" where
  "reboot_protocol OneShotCandidate = [EvGate, EvPrepare, EvArm, EvReboot]"
| "reboot_protocol PreviousInstallation = [EvGate, EvPrepare, EvClear, EvReboot]"

text \<open>
  The calls made by a reboot request are a prefix of gate, shutdown preparation, arming (for
  the candidate) or clearing (for the previous installation), reboot; the whole sequence is made
  exactly when the request reports success, and preparation starts for a candidate only when the
  binding carries a non-zero transaction and an increasing release sequence.
\<close>

theorem RequestReboot_call_order:
  "case RequestReboot (make_reboot_control (logged_operations ops)) target binding (w, []) of
     (ok, c', w', calls) \<Rightarrow>
       take (length calls) (reboot_protocol target) = calls
       \<and> (ok = (calls = reboot_protocol target))
       \<and> (length calls \<le> 1 \<or> (target = PreviousInstallation \<or> bound_candidate binding))"
proof -
  let ?c = "make_reboot_control (logged_operations ops)"
  show ?thesis
  proof (cases "OperationsValid ?c")
    case False
    then show ?thesis by (cases target) (simp_all add: RequestReboot_def)
  next
    case True
    then obtain g a cl p r where ops: "supported ops = Some g" "arm_one_shot ops = Some a"
      "clear_one_shot ops = Some cl" "prepare_shutdown ops = Some p" "reboot ops = Some r"
      by (auto simp: OperationsValid_def make_reboot_control_def logged_operations_def)
    show ?thesis
      using True candidate_guard [of binding]
      by (cases target)
        (auto simp: RequestReboot_def OneShotRecoverySupported_def RequestPrevious_def Let_def
          make_reboot_control_def logged_operations_def logged_def ops
          split: prod.splits bool.splits)
  qed
qed

text \<open>
  (C29) With the production operations on a firmware whose flag tag reads back the stored flags and
  whose notification leaves them alone, a successful request reboots in a state whose one-shot
  tryboot flag is set for the candidate and clear for the previous installation.
\<close>

theorem reboot_flag_matches_target:
  assumes read: "\<And>w v w'. GetTag tags kGetRebootFlags 0 0 w = (Some v, w') \<Longrightarrow> flags w' = v"
    and notify: "\<And>w r w'. GetTags tags kNotifyReboot 0 0 w = (r, w') \<Longrightarrow> flags w' = flags w"
    and ok: "RequestReboot
       (make_reboot_control (ProductionTrybootRebootOperations b tags emux circle do_reboot))
       target binding w = (True, c', w')"
  shows "\<exists>w2. w' = do_reboot w2 \<and> (flags w2 AND kTrybootFlag \<noteq> 0 \<longleftrightarrow> target = OneShotCandidate)"
proof -
  have arm: "flags w2 AND kTrybootFlag \<noteq> 0" if "ArmOneShotTryboot b tags w1 = (Armed, w2)" for w1 w2
    using that
    by (auto simp: ArmOneShotTryboot_def ReadFlags_def NotifyReboot_def
        dest!: read notify split: if_splits prod.splits option.splits bool.splits)
  have clear: "flags w2 AND kTrybootFlag = 0" if "ClearOneShotTryboot b tags w1 = (Cleared, w2)" for w1 w2
    using that
    by (auto simp: ClearOneShotTryboot_def ReadFlags_def NotifyReboot_def
        dest!: read notify split: if_splits prod.splits option.splits bool.splits)
  have gate: "raspi_compile b"
    using ok by (auto simp: RequestReboot_def OneShotRecoverySupported_def make_reboot_control_def
        ProductionTrybootRebootOperations_def OperationsValid_def TrybootHardwareGateEnabled_def
        split: bool.splits)
  show ?thesis
  proof (cases target)
    case OneShotCandidate
    then obtain w1 w2 where "ArmOneShotTryboot b tags w1 = (Armed, w2)" "w' = do_reboot w2"
      using ok gate
      by (auto simp: RequestReboot_def OneShotRecoverySupported_def make_reboot_control_def
          ProductionTrybootRebootOperations_def OperationsValid_def Let_def
          split: if_splits prod.splits bool.splits)
    with arm OneShotCandidate show ?thesis by auto
  next
    case PreviousInstallation
    then obtain w1 w2 where "ClearOneShotTryboot b tags w1 = (Cleared, w2)" "w' = do_reboot w2"
      using ok gate
      by (auto simp: RequestReboot_def RequestPrevious_def OneShotRecoverySupported_def
          make_reboot_control_def ProductionTrybootRebootOperations_def OperationsValid_def Let_def
          split: if_splits prod.splits bool.splits)
    with clear PreviousInstallation show ?thesis by auto
  qed
qed

text \<open>A firmware that holds the flag word, and a machine that counts reboots.\<close>

definition flag_firmware :: "(u32 \<times> nat) property_tags" where
  "flag_firmware =
     \<lparr>GetTag = (\<lambda>tag v n (f, k).
        if tag = kSetRebootFlags then (Some v, v, k) else (Some f, f, k)),
      GetTags = (\<lambda>tag v n w. (True, w))\<rparr>"

definition sample_binding :: AuthenticatedUpdateBinding where
  "sample_binding =
     \<lparr>bound_archive_url = None, bound_archive_filename = None, bound_transaction_root = None,
      bound_board = Pi5Pi500, bound_source_release_sequence = 3, bound_target_release_sequence = 4,
      bound_old_boot_generation = 1, bound_new_boot_generation = 2, bound_archive_size = 9,
      bound_transaction_id = [7], bound_archive_sha256 = [], bound_manifest_sha256 = [],
      bound_consent_sha256 = [], bound_reset_required = False, bound_reset_approved = False\<rparr>"

definition sample_control :: "(u32 \<times> nat) TrybootUpdateRebootControl" where
  "sample_control =
     make_reboot_control
       (ProductionTrybootRebootOperations
          \<lparr>raspi_compile = True, enable_tryboot = True, enable_tryboot_observation = True\<rparr>
          flag_firmware (Pair 0) (Pair 0) (\<lambda>(f, k). (f, Suc k)))"

lemma sample_control_ok:
  "RequestReboot sample_control OneShotCandidate sample_binding (6, 0)
   = (True, sample_control\<lparr>last_status := RebootOk, last_tryboot_status := Armed\<rparr>, (7, 1))"
  by (simp add: RequestReboot_def sample_control_def make_reboot_control_def
      ProductionTrybootRebootOperations_def OperationsValid_def OneShotRecoverySupported_def
      TrybootHardwareGateEnabled_def sample_binding_def ProductionPrepare_def ArmOneShotTryboot_def
      ReadFlags_def SetFlags_def NotifyReboot_def flag_firmware_def kGetRebootFlags_def
      kSetRebootFlags_def kTrybootFlag_def Let_def)

theorem reboot_flag_matches_target_witness:
  "\<exists>w2. ((7 :: u32), (1 :: nat)) = (case w2 of (f, k) \<Rightarrow> (f, Suc k))
        \<and> (fst w2 AND kTrybootFlag \<noteq> 0 \<longleftrightarrow> OneShotCandidate = OneShotCandidate)"
proof (rule reboot_flag_matches_target [where flags = fst and tags = flag_firmware])
  fix w v and w' :: "u32 \<times> nat"
  assume "GetTag flag_firmware kGetRebootFlags 0 0 w = (Some v, w')"
  then show "fst w' = v"
    by (auto simp: flag_firmware_def kGetRebootFlags_def kSetRebootFlags_def split: prod.splits)
next
  fix w r and w' :: "u32 \<times> nat"
  assume "GetTags flag_firmware kNotifyReboot 0 0 w = (r, w')"
  then show "fst w' = fst w" by (auto simp: flag_firmware_def)
qed (rule sample_control_ok [unfolded sample_control_def])

end
