(* ===== verification/Json_Parser.thy ===== *)
theory Json_Parser
  imports Update_Prelude
begin

text \<open>
  \<open>json_parser.cpp\<close>: the allocation-free JSON tokenizer and the accessors on its tokens. The
  class \<open>Parser\<close> is a record that every method takes and returns; a failing method returns \<open>False\<close>
  (or \<open>None\<close> for an index) and leaves its error in the record. \<open>tokens\<close> is the used part of the
  token array, so \<open>count_\<close> is its length. Offsets are 32-bit in the tokens, but inputs above 1 MiB
  are refused first, so naturals do not differ.

  The mutual recursion of \<open>ParseValue\<close> with \<open>ParseObject\<close> and \<open>ParseArray\<close> is bounded by the nesting
  limit: the model recurses on the levels that are left (\<open>max_depth - depth\<close>) and hands the parser
  for the next level to the container methods. The member loops count down the input that is
  left, which is enough because every turn consumes at least one byte.
\<close>

section \<open>The parser\<close>

definition kMaximumJsonBytes :: nat where "kMaximumJsonBytes = 1024 * 1024"

datatype JsonTokenType =
    JSON_TOKEN_INVALID | JSON_TOKEN_OBJECT | JSON_TOKEN_ARRAY | JSON_TOKEN_STRING
  | JSON_TOKEN_NUMBER | JSON_TOKEN_TRUE | JSON_TOKEN_FALSE | JSON_TOKEN_NULL

record JsonToken =
  tok_type :: JsonTokenType
  tok_start :: nat
  tok_end :: nat
  tok_parent :: int
  tok_child_count :: nat

datatype JsonError =
    JSON_OK | JSON_ERROR_ARGUMENT | JSON_ERROR_TOO_LARGE | JSON_ERROR_TOO_DEEP
  | JSON_ERROR_TOKEN_LIMIT | JSON_ERROR_SYNTAX | JSON_ERROR_STRING | JSON_ERROR_NUMBER
  | JSON_ERROR_DUPLICATE_KEY | JSON_ERROR_TRAILING_DATA | JSON_ERROR_NOT_FOUND | JSON_ERROR_TYPE
  | JSON_ERROR_RANGE | JSON_ERROR_OUTPUT_TOO_SMALL

record JsonParseResult =
  result_error :: JsonError
  result_token_count :: nat
  result_error_offset :: nat

record Parser =
  json :: bytes
  tokens :: "JsonToken list"
  capacity :: nat
  position :: nat
  error :: JsonError
  error_offset :: nat

definition json_Fail :: "JsonError \<Rightarrow> nat \<Rightarrow> Parser \<Rightarrow> Parser" where
  "json_Fail e off p = (if error p = JSON_OK then p\<lparr>error := e, error_offset := off\<rparr> else p)"

definition advance :: "nat \<Rightarrow> Parser \<Rightarrow> Parser" where
  "advance n p = p\<lparr>position := position p + n\<rparr>"

definition at_end :: "Parser \<Rightarrow> bool" where
  "at_end p \<longleftrightarrow> position p \<ge> length (json p)"

definition current :: "Parser \<Rightarrow> byte" where
  "current p = json p ! position p"

definition is_whitespace :: "byte \<Rightarrow> bool" where
  "is_whitespace c \<longleftrightarrow> \<not> (c \<noteq> 0x20 \<and> c \<noteq> 0x09 \<and> c \<noteq> 0x0d \<and> c \<noteq> 0x0a)"

text \<open>A loop \<open>while (position_ < length_ && P (json_[position_])) ++position_\<close>.\<close>

definition skip_while :: "(byte \<Rightarrow> bool) \<Rightarrow> Parser \<Rightarrow> Parser" where
  "skip_while P p = advance (length (takeWhile P (drop (position p) (json p)))) p"

definition SkipWhitespace :: "Parser \<Rightarrow> Parser" where
  "SkipWhitespace p = skip_while is_whitespace p"

definition bump_children :: "int \<Rightarrow> JsonToken list \<Rightarrow> JsonToken list" where
  "bump_children parent ts =
     (if parent \<ge> 0
      then ts[nat parent := (ts ! nat parent)\<lparr>tok_child_count := tok_child_count (ts ! nat parent) + 1\<rparr>]
      else ts)"

definition AddToken :: "JsonTokenType \<Rightarrow> nat \<Rightarrow> int \<Rightarrow> Parser \<Rightarrow> nat option \<times> Parser" where
  "AddToken ty start parent p =
     (if length (tokens p) \<ge> capacity p then (None, json_Fail JSON_ERROR_TOKEN_LIMIT (position p) p)
      else
        (let token = \<lparr>tok_type = ty, tok_start = start, tok_end = start, tok_parent = parent,
                      tok_child_count = 0\<rparr>
         in (Some (length (tokens p)), p\<lparr>tokens := bump_children parent (tokens p @ [token])\<rparr>)))"

definition set_end :: "nat \<Rightarrow> nat \<Rightarrow> Parser \<Rightarrow> Parser" where
  "set_end i e p = p\<lparr>tokens := (tokens p)[i := (tokens p ! i)\<lparr>tok_end := e\<rparr>]\<rparr>"

definition JsonHexDigit :: "byte \<Rightarrow> u32 option" where
  "JsonHexDigit c =
     (if ch CHR ''0'' \<le> c \<and> c \<le> ch CHR ''9'' then Some (ucast (c - ch CHR ''0''))
      else if ch CHR ''a'' \<le> c \<and> c \<le> ch CHR ''f'' then Some (ucast (c - ch CHR ''a'') + 10)
      else if ch CHR ''A'' \<le> c \<and> c \<le> ch CHR ''F'' then Some (ucast (c - ch CHR ''A'') + 10)
      else None)"

fun hex_loop :: "bytes \<Rightarrow> u32 \<Rightarrow> u32 option" where
  "hex_loop [] result = Some result"
| "hex_loop (c # cs) result =
     (case JsonHexDigit c of None \<Rightarrow> None | Some digit \<Rightarrow> hex_loop cs (push_bit 4 result OR digit))"

definition ParseHex4 :: "bytes \<Rightarrow> nat \<Rightarrow> u32 option" where
  "ParseHex4 text offset = hex_loop (take 4 (drop offset text)) 0"

text \<open>
  \<open>strchr\<close> finds the terminating NUL of its set as well, so that a backslash followed by NUL is
  accepted as an escape.
\<close>

definition is_simple_escape :: "byte \<Rightarrow> bool" where
  "is_simple_escape c \<longleftrightarrow> c \<in> set ([0x22, 0x5c] @ ascii ''/bfnrt'') \<or> c = 0"

definition ParseEscape :: "Parser \<Rightarrow> bool \<times> Parser" where
  "ParseEscape p0 =
     (let slash = position p0; p = advance 1 p0
      in if at_end p then (False, json_Fail JSON_ERROR_STRING slash p)
         else
           (let escaped = current p; p1 = advance 1 p
            in if is_simple_escape escaped then (True, p1)
               else if escaped \<noteq> ch CHR ''u'' \<or> position p1 + 4 > length (json p1)
                 then (False, json_Fail JSON_ERROR_STRING slash p1)
               else
                 (case ParseHex4 (json p1) (position p1) of
                    None \<Rightarrow> (False, json_Fail JSON_ERROR_STRING (position p1) p1)
                  | Some codepoint \<Rightarrow>
                      (let p2 = advance 4 p1
                       in if codepoint \<ge> 0xd800 \<and> codepoint \<le> 0xdbff then
                            (if position p2 + 6 > length (json p2)
                                \<or> json p2 ! position p2 \<noteq> 0x5c
                                \<or> json p2 ! (position p2 + 1) \<noteq> ch CHR ''u''
                             then (False, json_Fail JSON_ERROR_STRING (position p2) p2)
                             else
                               (case ParseHex4 (json p2) (position p2 + 2) of
                                  None \<Rightarrow> (False, json_Fail JSON_ERROR_STRING (position p2 + 2) p2)
                                | Some low \<Rightarrow>
                                    if low < 0xdc00 \<or> low > 0xdfff
                                    then (False, json_Fail JSON_ERROR_STRING (position p2 + 2) p2)
                                    else (True, advance 6 p2)))
                          else if codepoint \<ge> 0xdc00 \<and> codepoint \<le> 0xdfff
                            then (False, json_Fail JSON_ERROR_STRING (position p2 - 4) p2)
                          else (True, p2)))))"

text \<open>The continuation bytes; \<open>Inl\<close> is the index of the first one that is not.\<close>

fun utf8_continuation :: "bytes \<Rightarrow> nat \<Rightarrow> u32 \<Rightarrow> nat + u32" where
  "utf8_continuation [] i codepoint = Inr codepoint"
| "utf8_continuation (c # cs) i codepoint =
     (if c AND 0xc0 \<noteq> 0x80 then Inl i
      else utf8_continuation cs (Suc i) (push_bit 6 codepoint OR ucast (c AND 0x3f)))"

definition utf8_first :: "byte \<Rightarrow> (nat \<times> u32) option" where
  "utf8_first first =
     (if 0xc2 \<le> first \<and> first \<le> 0xdf then Some (2, ucast (first AND 0x1f))
      else if 0xe0 \<le> first \<and> first \<le> 0xef then Some (3, ucast (first AND 0x0f))
      else if 0xf0 \<le> first \<and> first \<le> 0xf4 then Some (4, ucast (first AND 0x07))
      else None)"

definition ConsumeUtf8 :: "Parser \<Rightarrow> bool \<times> Parser" where
  "ConsumeUtf8 p =
     (case utf8_first (current p) of
        None \<Rightarrow> (False, json_Fail JSON_ERROR_STRING (position p) p)
      | Some (count, lead) \<Rightarrow>
          if position p + count > length (json p)
            then (False, json_Fail JSON_ERROR_STRING (position p) p)
          else
            (case utf8_continuation (take (count - 1) (drop (position p + 1) (json p))) 1 lead of
               Inl i \<Rightarrow> (False, json_Fail JSON_ERROR_STRING (position p + i) p)
             | Inr codepoint \<Rightarrow>
                 if (count = 3 \<and> codepoint < 0x800) \<or> (count = 4 \<and> codepoint < 0x10000)
                    \<or> (codepoint \<ge> 0xd800 \<and> codepoint \<le> 0xdfff) \<or> codepoint > 0x10ffff
                 then (False, json_Fail JSON_ERROR_STRING (position p) p)
                 else (True, advance (count - 1) p)))"

text \<open>The closing quote of a string.\<close>

definition string_close :: "int \<Rightarrow> bool \<Rightarrow> nat \<Rightarrow> bool \<Rightarrow> Parser \<Rightarrow> nat option \<times> Parser" where
  "string_close parent object_key start escaped p =
     (let e = position p; p1 = advance 1 p
      in if object_key \<and> escaped then (None, json_Fail JSON_ERROR_STRING start p1)
         else
           (case AddToken JSON_TOKEN_STRING start parent p1 of
              (None, p2) \<Rightarrow> (None, p2)
            | (Some token, p2) \<Rightarrow> (Some token, set_end token e p2)))"

text \<open>One character inside a string: \<open>Some p\<close> continues the loop behind it.\<close>

definition string_character :: "bool \<Rightarrow> Parser \<Rightarrow> bool \<times> Parser" where
  "string_character object_key p =
     (let c = current p
      in if object_key \<and> (c < 0x21 \<or> c > 0x7e) then (False, json_Fail JSON_ERROR_STRING (position p) p)
         else if c \<ge> 0x80 then
           (case ConsumeUtf8 p of (False, p1) \<Rightarrow> (False, p1) | (True, p1) \<Rightarrow> (True, advance 1 p1))
         else (True, advance 1 p))"

lemma position_ConsumeUtf8:
  "ConsumeUtf8 p = (True, p') \<Longrightarrow> position p \<le> position p' \<and> json p' = json p"
  by (auto simp: ConsumeUtf8_def advance_def split: option.splits sum.splits if_splits)

lemma position_string_character:
  "string_character k p = (True, p') \<Longrightarrow> position p < position p' \<and> json p' = json p"
  by (auto simp: string_character_def advance_def Let_def dest: position_ConsumeUtf8
      split: if_splits prod.splits bool.splits)

lemma position_ParseEscape:
  "ParseEscape p = (True, p') \<Longrightarrow> position p < position p' \<and> json p' = json p"
  by (auto simp: ParseEscape_def advance_def Let_def split: if_splits option.splits)

lemma escape_progress:
  "(True, p') = ParseEscape p \<Longrightarrow>
   position p < position (snd (ParseEscape p)) \<and> json (snd (ParseEscape p)) = json p"
  by (metis position_ParseEscape snd_conv)

function string_loop :: "int \<Rightarrow> bool \<Rightarrow> nat \<Rightarrow> bool \<Rightarrow> Parser \<Rightarrow> nat option \<times> Parser" where
  "string_loop parent object_key start escaped p =
     (if at_end p then (None, json_Fail JSON_ERROR_STRING (position p) p)
      else
        (let c = current p
         in if c = 0x22 then string_close parent object_key start escaped p
            else if c < 0x20 then (None, json_Fail JSON_ERROR_STRING (position p) p)
            else if c = 0x5c then
              (case ParseEscape p of
                 (False, p1) \<Rightarrow> (None, p1)
               | (True, p1) \<Rightarrow> string_loop parent object_key start True p1)
            else
              (case string_character object_key p of
                 (False, p1) \<Rightarrow> (None, p1)
               | (True, p1) \<Rightarrow> string_loop parent object_key start escaped p1)))"
  by pat_completeness auto
termination
  by (relation "measure (\<lambda>(a, b, c, d, p). length (json p) - position p)")
    (auto simp: at_end_def case_prod_beta dest: escape_progress position_string_character [OF sym])

declare string_loop.simps [simp del]

definition ParseString :: "int \<Rightarrow> bool \<Rightarrow> Parser \<Rightarrow> nat option \<times> Parser" where
  "ParseString parent object_key p0 =
     (let p = advance 1 p0 in string_loop parent object_key (position p) False p)"

text \<open>The shared tail of the scalar methods: add the token, then set its end.\<close>

definition finish_token :: "JsonTokenType \<Rightarrow> nat \<Rightarrow> int \<Rightarrow> Parser \<Rightarrow> bool \<times> Parser" where
  "finish_token ty start parent p =
     (case AddToken ty start parent p of
        (None, p1) \<Rightarrow> (False, p1)
      | (Some token, p1) \<Rightarrow> (True, set_end token (position p1) p1))"

definition ParseLiteral :: "int \<Rightarrow> bytes \<Rightarrow> JsonTokenType \<Rightarrow> Parser \<Rightarrow> bool \<times> Parser" where
  "ParseLiteral parent literal ty p =
     (if position p + length literal > length (json p)
         \<or> take (length literal) (drop (position p) (json p)) \<noteq> literal
      then (False, json_Fail JSON_ERROR_SYNTAX (position p) p)
      else finish_token ty (position p) parent (advance (length literal) p))"

definition digit_here :: "Parser \<Rightarrow> bool" where
  "digit_here p \<longleftrightarrow> \<not> at_end p \<and> is_digit (current p)"

definition number_sign :: "Parser \<Rightarrow> bool \<times> Parser" where
  "number_sign p =
     (if current p = ch CHR ''-'' then
        (let p1 = advance 1 p
         in if at_end p1 then (False, json_Fail JSON_ERROR_NUMBER (position p) p1) else (True, p1))
      else (True, p))"

definition number_integer :: "Parser \<Rightarrow> bool \<times> Parser" where
  "number_integer p =
     (if current p = ch CHR ''0'' then
        (let p1 = advance 1 p
         in if digit_here p1 then (False, json_Fail JSON_ERROR_NUMBER (position p1) p1) else (True, p1))
      else if ch CHR ''1'' \<le> current p \<and> current p \<le> ch CHR ''9''
        then (True, skip_while is_digit (advance 1 p))
      else (False, json_Fail JSON_ERROR_NUMBER (position p) p))"

definition number_fraction :: "Parser \<Rightarrow> bool \<times> Parser" where
  "number_fraction p =
     (if \<not> at_end p \<and> current p = ch CHR ''.'' then
        (let p1 = advance 1 p
         in if \<not> digit_here p1 then (False, json_Fail JSON_ERROR_NUMBER (position p1) p1)
            else (True, skip_while is_digit p1))
      else (True, p))"

definition number_exponent :: "Parser \<Rightarrow> bool \<times> Parser" where
  "number_exponent p =
     (if \<not> at_end p \<and> (current p = ch CHR ''e'' \<or> current p = ch CHR ''E'') then
        (let p1 = advance 1 p;
             p2 = (if \<not> at_end p1 \<and> (current p1 = ch CHR ''+'' \<or> current p1 = ch CHR ''-'')
                   then advance 1 p1 else p1)
         in if \<not> digit_here p2 then (False, json_Fail JSON_ERROR_NUMBER (position p2) p2)
            else (True, skip_while is_digit p2))
      else (True, p))"

definition and_then :: "bool \<times> Parser \<Rightarrow> (Parser \<Rightarrow> bool \<times> Parser) \<Rightarrow> bool \<times> Parser" where
  "and_then r f = (case r of (False, p) \<Rightarrow> (False, p) | (True, p) \<Rightarrow> f p)"

definition ParseNumber :: "int \<Rightarrow> Parser \<Rightarrow> bool \<times> Parser" where
  "ParseNumber parent p =
     and_then (number_sign p) (\<lambda>p1.
     and_then (number_integer p1) (\<lambda>p2.
     and_then (number_fraction p2) (\<lambda>p3.
     and_then (number_exponent p3) (\<lambda>p4.
       finish_token JSON_TOKEN_NUMBER (position p) parent p4))))"

text \<open>The ordinal of token \<open>i\<close> among the direct children of \<open>object\<close>, counted from one.\<close>

definition ordinal :: "JsonToken list \<Rightarrow> nat \<Rightarrow> nat \<Rightarrow> nat" where
  "ordinal ts object i = length (filter (\<lambda>j. tok_parent (ts ! j) = int object) [object + 1 ..< i + 1])"

definition token_text :: "bytes \<Rightarrow> JsonToken \<Rightarrow> bytes" where
  "token_text text t = take (tok_end t - tok_start t) (drop (tok_start t) text)"

definition HasDuplicateObjectKey :: "Parser \<Rightarrow> nat \<Rightarrow> nat \<Rightarrow> bool" where
  "HasDuplicateObjectKey p object newest_key =
     list_ex (\<lambda>i.
       let candidate = tokens p ! i; newest = tokens p ! newest_key
       in tok_parent candidate = int object \<and> tok_type candidate = JSON_TOKEN_STRING
          \<and> odd (ordinal (tokens p) object i)
          \<and> tok_end candidate - tok_start candidate = tok_end newest - tok_start newest
          \<and> token_text (json p) candidate = token_text (json p) newest)
       [object + 1 ..< newest_key]"

text \<open>
  One turn of the member loop. \<open>Inl\<close> returns from the method; \<open>Inr\<close> goes on with the next member.
\<close>

definition close_container :: "nat \<Rightarrow> Parser \<Rightarrow> Parser" where
  "close_container i p = (let p1 = advance 1 p in set_end i (position p1) p1)"

text \<open>Behind a value: the closing bracket, a comma, or an error.\<close>

definition after_value :: "byte \<Rightarrow> nat \<Rightarrow> Parser \<Rightarrow> (bool \<times> Parser) + Parser" where
  "after_value closing i p0 =
     (let p = SkipWhitespace p0
      in if at_end p then Inl (False, json_Fail JSON_ERROR_SYNTAX (position p) p)
         else if current p = closing then Inl (True, close_container i p)
         else if current p \<noteq> ch CHR '','' then Inl (False, json_Fail JSON_ERROR_SYNTAX (position p) p)
         else Inr (SkipWhitespace (advance 1 p)))"

definition object_member ::
  "(int \<Rightarrow> Parser \<Rightarrow> bool \<times> Parser) \<Rightarrow> nat \<Rightarrow> Parser \<Rightarrow> (bool \<times> Parser) + Parser" where
  "object_member parse_value object p =
     (if current p \<noteq> 0x22 then Inl (False, json_Fail JSON_ERROR_SYNTAX (position p) p)
      else
        (case ParseString (int object) True p of
           (None, p1) \<Rightarrow> Inl (False, p1)
         | (Some key, p1) \<Rightarrow>
             if HasDuplicateObjectKey p1 object key
               then Inl (False, json_Fail JSON_ERROR_DUPLICATE_KEY (tok_start (tokens p1 ! key)) p1)
             else
               (let p2 = SkipWhitespace p1
                in if at_end p2 \<or> current p2 \<noteq> ch CHR '':''
                     then Inl (False, json_Fail JSON_ERROR_SYNTAX (position p2) p2)
                   else
                     (case parse_value (int object) (advance 1 p2) of
                        (False, p3) \<Rightarrow> Inl (False, p3)
                      | (True, p3) \<Rightarrow> after_value (ch CHR ''}'') object p3))))"

definition array_element ::
  "(int \<Rightarrow> Parser \<Rightarrow> bool \<times> Parser) \<Rightarrow> nat \<Rightarrow> Parser \<Rightarrow> (bool \<times> Parser) + Parser" where
  "array_element parse_value array p =
     (case parse_value (int array) p of
        (False, p1) \<Rightarrow> Inl (False, p1)
      | (True, p1) \<Rightarrow> after_value (ch CHR '']'') array p1)"

text \<open>\<open>while (position_ < length_) ...; Fail (JSON_ERROR_SYNTAX)\<close>, counting down the input left.\<close>

fun container_loop :: "(Parser \<Rightarrow> (bool \<times> Parser) + Parser) \<Rightarrow> nat \<Rightarrow> Parser \<Rightarrow> bool \<times> Parser" where
  "container_loop turn 0 p = (False, json_Fail JSON_ERROR_SYNTAX (position p) p)"
| "container_loop turn (Suc n) p =
     (if at_end p then (False, json_Fail JSON_ERROR_SYNTAX (position p) p)
      else (case turn p of Inl r \<Rightarrow> r | Inr p' \<Rightarrow> container_loop turn n p'))"

definition ParseContainer ::
  "JsonTokenType \<Rightarrow> byte \<Rightarrow> (nat \<Rightarrow> Parser \<Rightarrow> (bool \<times> Parser) + Parser) \<Rightarrow> int \<Rightarrow> Parser
   \<Rightarrow> bool \<times> Parser" where
  "ParseContainer ty closing turn parent p0 =
     (case AddToken ty (position p0) parent (advance 1 p0) of
        (None, p1) \<Rightarrow> (False, p1)
      | (Some i, p1) \<Rightarrow>
          (let p2 = SkipWhitespace p1
           in if \<not> at_end p2 \<and> current p2 = closing then (True, close_container i p2)
              else container_loop (turn i) (length (json p2) - position p2) p2))"

definition ParseObject ::
  "(int \<Rightarrow> Parser \<Rightarrow> bool \<times> Parser) \<Rightarrow> int \<Rightarrow> Parser \<Rightarrow> bool \<times> Parser" where
  "ParseObject parse_value = ParseContainer JSON_TOKEN_OBJECT (ch CHR ''}'') (object_member parse_value)"

definition ParseArray ::
  "(int \<Rightarrow> Parser \<Rightarrow> bool \<times> Parser) \<Rightarrow> int \<Rightarrow> Parser \<Rightarrow> bool \<times> Parser" where
  "ParseArray parse_value = ParseContainer JSON_TOKEN_ARRAY (ch CHR '']'') (array_element parse_value)"

definition value_here ::
  "(int \<Rightarrow> Parser \<Rightarrow> bool \<times> Parser) \<Rightarrow> int \<Rightarrow> Parser \<Rightarrow> bool \<times> Parser" where
  "value_here parse_value parent p =
     (let c = current p
      in if c = ch CHR ''{'' then ParseObject parse_value parent p
         else if c = ch CHR ''['' then ParseArray parse_value parent p
         else if c = 0x22 then
           (case ParseString parent False p of (None, p1) \<Rightarrow> (False, p1) | (Some _, p1) \<Rightarrow> (True, p1))
         else if c = ch CHR ''t'' then ParseLiteral parent (ascii ''true'') JSON_TOKEN_TRUE p
         else if c = ch CHR ''f'' then ParseLiteral parent (ascii ''false'') JSON_TOKEN_FALSE p
         else if c = ch CHR ''n'' then ParseLiteral parent (ascii ''null'') JSON_TOKEN_NULL p
         else if c = ch CHR ''-'' \<or> is_digit c then ParseNumber parent p
         else (False, json_Fail JSON_ERROR_SYNTAX (position p) p))"

fun ParseValue :: "nat \<Rightarrow> int \<Rightarrow> Parser \<Rightarrow> bool \<times> Parser" where
  "ParseValue 0 parent p = (False, json_Fail JSON_ERROR_TOO_DEEP (position p) p)"
| "ParseValue (Suc levels) parent p =
     (let p1 = SkipWhitespace p
      in if at_end p1 then (False, json_Fail JSON_ERROR_SYNTAX (position p1) p1)
         else value_here (ParseValue levels) parent p1)"

definition json_Result :: "Parser \<Rightarrow> JsonError \<Rightarrow> nat \<Rightarrow> JsonParseResult" where
  "json_Result p e off =
     \<lparr>result_error = e, result_token_count = length (tokens p), result_error_offset = off\<rparr>"

text \<open>\<open>ParseJson\<close>: the result and the filled part of the token array.\<close>

definition ParseJson ::
  "byte_view \<Rightarrow> bool \<Rightarrow> nat \<Rightarrow> nat \<Rightarrow> JsonParseResult \<times> JsonToken list" where
  "ParseJson text tokens_given token_capacity max_depth =
     (let p = \<lparr>json = view_bytes text, tokens = [], capacity = token_capacity, position = 0,
               error = JSON_OK, error_offset = 0\<rparr>
      in if view_null text \<or> \<not> tokens_given \<or> token_capacity = 0 \<or> max_depth = 0
           then (json_Result p JSON_ERROR_ARGUMENT 0, [])
         else if view_size text > kMaximumJsonBytes
           then (json_Result p JSON_ERROR_TOO_LARGE 0, [])
         else
           (case ParseValue max_depth (- 1) (SkipWhitespace p) of
              (False, p1) \<Rightarrow> (json_Result p1 (error p1) (error_offset p1), tokens p1)
            | (True, p1) \<Rightarrow>
                (let p2 = SkipWhitespace p1
                 in if position p2 \<noteq> length (json p2)
                      then (json_Result p2 JSON_ERROR_TRAILING_DATA (position p2), tokens p2)
                    else (json_Result p2 JSON_OK (position p2), tokens p2))))"

section \<open>The accessors\<close>

definition JsonStringEquals :: "bytes option \<Rightarrow> JsonToken \<Rightarrow> cstring option \<Rightarrow> bool" where
  "JsonStringEquals text t expected =
     (case (text, expected) of
        (Some j, Some e) \<Rightarrow>
          tok_type t = JSON_TOKEN_STRING \<and> tok_end t - tok_start t = length e \<and> token_text j t = e
      | _ \<Rightarrow> False)"

fun find_member_loop ::
  "bytes \<Rightarrow> JsonToken list \<Rightarrow> nat \<Rightarrow> cstring \<Rightarrow> bool \<Rightarrow> bool \<Rightarrow> nat list \<Rightarrow> nat option" where
  "find_member_loop text ts object name expect_key key_matches [] = None"
| "find_member_loop text ts object name expect_key key_matches (i # is) =
     (if tok_start (ts ! i) \<ge> tok_end (ts ! object) then None
      else if tok_parent (ts ! i) \<noteq> int object
        then find_member_loop text ts object name expect_key key_matches is
      else if expect_key then
        (if tok_type (ts ! i) \<noteq> JSON_TOKEN_STRING then None
         else find_member_loop text ts object name False
                (JsonStringEquals (Some text) (ts ! i) (Some name)) is)
      else if key_matches then Some i
      else find_member_loop text ts object name True key_matches is)"

text \<open>\<open>-1\<close> is \<open>None\<close>.\<close>

definition JsonFindObjectMember ::
  "bytes option \<Rightarrow> JsonToken list option \<Rightarrow> int \<Rightarrow> cstring option \<Rightarrow> nat option" where
  "JsonFindObjectMember text ts object_index name =
     (case (text, ts, name) of
        (Some j, Some l, Some n) \<Rightarrow>
          if object_index < 0 \<or> nat object_index \<ge> length l
             \<or> tok_type (l ! nat object_index) \<noteq> JSON_TOKEN_OBJECT
          then None
          else find_member_loop j l (nat object_index) n True False
                 [nat object_index + 1 ..< length l]
      | _ \<Rightarrow> None)"

fun uint64_loop :: "bytes \<Rightarrow> u64 \<Rightarrow> JsonError + u64" where
  "uint64_loop [] result = Inr result"
| "uint64_loop (c # cs) result =
     (if c < ch CHR ''0'' \<or> c > ch CHR ''9'' then Inl JSON_ERROR_TYPE
      else
        (let digit = ucast (c - ch CHR ''0'')
         in if result > (- 1 - digit) div 10 then Inl JSON_ERROR_RANGE
            else uint64_loop cs (result * 10 + digit)))"

definition JsonGetUint64 :: "bytes option \<Rightarrow> JsonToken \<Rightarrow> bool \<Rightarrow> JsonError + u64" where
  "JsonGetUint64 text t value_given =
     (case text of
        None \<Rightarrow> Inl JSON_ERROR_ARGUMENT
      | Some j \<Rightarrow>
          if \<not> value_given then Inl JSON_ERROR_ARGUMENT
          else if tok_type t \<noteq> JSON_TOKEN_NUMBER \<or> tok_start t \<ge> tok_end t then Inl JSON_ERROR_TYPE
          else uint64_loop (token_text j t) 0)"

definition JsonGetBool :: "JsonToken \<Rightarrow> bool \<Rightarrow> JsonError + bool" where
  "JsonGetBool t value_given =
     (if \<not> value_given then Inl JSON_ERROR_ARGUMENT
      else if tok_type t = JSON_TOKEN_TRUE then Inr True
      else if tok_type t = JSON_TOKEN_FALSE then Inr False
      else Inl JSON_ERROR_TYPE)"

definition utf8_size :: "u32 \<Rightarrow> nat" where
  "utf8_size c = (if c \<le> 0x7f then 1 else if c \<le> 0x7ff then 2 else if c \<le> 0xffff then 3 else 4)"

definition utf8_bytes :: "u32 \<Rightarrow> bytes" where
  "utf8_bytes c =
     (if utf8_size c = 1 then [ucast c]
      else if utf8_size c = 2 then [ucast (0xc0 OR drop_bit 6 c), ucast (0x80 OR (c AND 0x3f))]
      else if utf8_size c = 3 then
        [ucast (0xe0 OR drop_bit 12 c), ucast (0x80 OR (drop_bit 6 c AND 0x3f)),
         ucast (0x80 OR (c AND 0x3f))]
      else
        [ucast (0xf0 OR drop_bit 18 c), ucast (0x80 OR (drop_bit 12 c AND 0x3f)),
         ucast (0x80 OR (drop_bit 6 c AND 0x3f)), ucast (0x80 OR (c AND 0x3f))])"

text \<open>The output buffer is the bytes written so far; \<open>None\<close> when they would not leave room for NUL.\<close>

definition AppendUtf8 :: "u32 \<Rightarrow> nat \<Rightarrow> bytes \<Rightarrow> bytes option" where
  "AppendUtf8 c output_size out =
     (if length out + utf8_size c \<ge> output_size then None else Some (out @ utf8_bytes c))"

definition simple_unescape :: "byte \<Rightarrow> byte option" where
  "simple_unescape c =
     (if c = 0x22 then Some 0x22 else if c = 0x5c then Some 0x5c
      else if c = ch CHR ''/'' then Some (ch CHR ''/'')
      else if c = ch CHR ''b'' then Some 8 else if c = ch CHR ''f'' then Some 12
      else if c = ch CHR ''n'' then Some 10 else if c = ch CHR ''r'' then Some 13
      else if c = ch CHR ''t'' then Some 9 else None)"

text \<open>\<open>\\u\<close> escapes: the code point and what follows, from the four digits behind the \<open>u\<close>.\<close>

definition unicode_escape :: "bytes \<Rightarrow> (u32 \<times> bytes) option" where
  "unicode_escape rest =
     (if length rest < 4 then None
      else
        (case hex_loop (take 4 rest) 0 of
           None \<Rightarrow> None
         | Some high \<Rightarrow>
             (let r = drop 4 rest
              in if high \<ge> 0xd800 \<and> high \<le> 0xdbff then
                   (if length r < 6 \<or> r ! 0 \<noteq> 0x5c \<or> r ! 1 \<noteq> ch CHR ''u'' then None
                    else
                      (case hex_loop (take 4 (drop 2 r)) 0 of
                         None \<Rightarrow> None
                       | Some low \<Rightarrow>
                           if low < 0xdc00 \<or> low > 0xdfff then None
                           else Some (0x10000 + push_bit 10 (high - 0xd800) + (low - 0xdc00), drop 6 r)))
                 else Some (high, r))))"

lemma unicode_escape_shorter: "unicode_escape rest = Some (c, r) \<Longrightarrow> length r < length rest"
  by (auto simp: unicode_escape_def Let_def split: if_splits option.splits)

function copy_loop :: "nat \<Rightarrow> bytes \<Rightarrow> bytes \<Rightarrow> JsonError + bytes" where
  "copy_loop output_size [] out = Inr out"
| "copy_loop output_size (c # rest) out =
     (if c \<noteq> 0x5c then
        (if length out + 1 \<ge> output_size then Inl JSON_ERROR_OUTPUT_TOO_SMALL
         else copy_loop output_size rest (out @ [c]))
      else
        (case rest of
           [] \<Rightarrow> Inl JSON_ERROR_STRING
         | e # rest' \<Rightarrow>
             if e = ch CHR ''u'' then
               (case unicode_escape rest' of
                  None \<Rightarrow> Inl JSON_ERROR_STRING
                | Some (codepoint, r) \<Rightarrow>
                    (case AppendUtf8 codepoint output_size out of
                       None \<Rightarrow> Inl JSON_ERROR_OUTPUT_TOO_SMALL
                     | Some out' \<Rightarrow> copy_loop output_size r out'))
             else
               (case simple_unescape e of
                  None \<Rightarrow> Inl JSON_ERROR_STRING
                | Some decoded \<Rightarrow>
                    if length out + 1 \<ge> output_size then Inl JSON_ERROR_OUTPUT_TOO_SMALL
                    else copy_loop output_size rest' (out @ [decoded]))))"
  by pat_completeness auto
termination
  by (relation "measure (\<lambda>(n, text, out). length text)") (auto dest: unicode_escape_shorter)

text \<open>\<open>Inr\<close> is the content of the output buffer up to and including the final NUL.\<close>

definition JsonCopyString :: "bytes option \<Rightarrow> JsonToken \<Rightarrow> bool \<Rightarrow> nat \<Rightarrow> JsonError + bytes" where
  "JsonCopyString text t output_given output_size =
     (case text of
        None \<Rightarrow> Inl JSON_ERROR_ARGUMENT
      | Some j \<Rightarrow>
          if \<not> output_given \<or> output_size = 0 then Inl JSON_ERROR_ARGUMENT
          else if tok_type t \<noteq> JSON_TOKEN_STRING then Inl JSON_ERROR_TYPE
          else (case copy_loop output_size (token_text j t) [] of
                  Inl e \<Rightarrow> Inl e | Inr out \<Rightarrow> Inr (out @ [0])))"

fun JsonErrorString :: "JsonError \<Rightarrow> string" where
  "JsonErrorString JSON_OK = ''ok''"
| "JsonErrorString JSON_ERROR_ARGUMENT = ''invalid argument''"
| "JsonErrorString JSON_ERROR_TOO_LARGE = ''JSON too large''"
| "JsonErrorString JSON_ERROR_TOO_DEEP = ''JSON nesting too deep''"
| "JsonErrorString JSON_ERROR_TOKEN_LIMIT = ''JSON token limit exceeded''"
| "JsonErrorString JSON_ERROR_SYNTAX = ''invalid JSON syntax''"
| "JsonErrorString JSON_ERROR_STRING = ''invalid JSON string''"
| "JsonErrorString JSON_ERROR_NUMBER = ''invalid JSON number''"
| "JsonErrorString JSON_ERROR_DUPLICATE_KEY = ''duplicate JSON object key''"
| "JsonErrorString JSON_ERROR_TRAILING_DATA = ''trailing JSON data''"
| "JsonErrorString JSON_ERROR_NOT_FOUND = ''JSON member not found''"
| "JsonErrorString JSON_ERROR_TYPE = ''unexpected JSON type''"
| "JsonErrorString JSON_ERROR_RANGE = ''JSON number out of range''"
| "JsonErrorString JSON_ERROR_OUTPUT_TOO_SMALL = ''output buffer too small''"

end
