(* ===== verification/Json_Tokens.thy ===== *)
theory Json_Tokens
  imports Json_Parser
begin

text \<open>
  What the tokens of a successful parse satisfy. The proofs work on the tokens without their child
  counters (\<open>bare\<close>), because a counter is the only part of a token that later calls change from
  outside. \<open>parsed_value\<close> says what one call of \<open>ParseValue\<close> adds; it is shown for the scalars, is
  carried through the member loops by \<open>in_container\<close>, and the nesting levels are an induction.
\<close>

section \<open>Tokens without counters\<close>

definition bare :: "JsonToken \<Rightarrow> JsonToken" where
  "bare t = t\<lparr>tok_child_count := 0\<rparr>"

lemma bare_fields [simp]:
  "tok_type (bare t) = tok_type t" "tok_start (bare t) = tok_start t"
  "tok_end (bare t) = tok_end t" "tok_parent (bare t) = tok_parent t"
  by (simp_all add: bare_def)

definition shape :: "Parser \<Rightarrow> JsonToken list" where
  "shape p = map bare (tokens p)"

lemma length_shape [simp]: "length (shape p) = length (tokens p)"
  by (simp add: shape_def)

lemma shape_bump: "map bare (bump_children parent ts) = map bare ts"
  by (cases "nat parent < length ts")
    (auto simp: bump_children_def bare_def map_update intro!: nth_equalityI simp: nth_list_update)

lemma shape_advance [simp]: "shape (advance n p) = shape p"
  by (simp add: shape_def advance_def)

lemma advance_fields [simp]:
  "position (advance n p) = position p + n" "json (advance n p) = json p"
  "capacity (advance n p) = capacity p" "tokens (advance n p) = tokens p"
  by (simp_all add: advance_def)

lemma shape_Fail [simp]: "shape (json_Fail e off p) = shape p"
  by (simp add: shape_def json_Fail_def)

definition count_children :: "nat \<Rightarrow> JsonToken list \<Rightarrow> nat" where
  "count_children i ts = length (filter (\<lambda>t. tok_parent t = int i) ts)"

lemma count_children_simps [simp]:
  "count_children i [] = 0"
  "count_children i (t # ts) = (if tok_parent t = int i then 1 else 0) + count_children i ts"
  "count_children i (ts @ us) = count_children i ts + count_children i us"
  by (simp_all add: count_children_def)

lemma count_children_none: "(\<And>t. t \<in> set ts \<Longrightarrow> int i < tok_parent t) \<Longrightarrow> count_children i ts = 0"
  by (induction ts) fastforce+

lemma ordinal_alt:
  assumes "object \<le> i" "i < length ts"
  shows "ordinal ts object i = count_children object (drop (Suc object) (take (Suc i) ts))"
proof -
  have "map ((!) ts) [Suc object ..< Suc i] = drop (Suc object) (take (Suc i) ts)"
    using assms by (intro nth_equalityI) (auto simp del: upt_Suc)
  then have "count_children object (drop (Suc object) (take (Suc i) ts))
    = length (filter (\<lambda>t. tok_parent t = int object) (map ((!) ts) [Suc object ..< Suc i]))"
    by (simp add: count_children_def)
  also have "\<dots> = ordinal ts object i"
    by (simp add: ordinal_def filter_map comp_def)
  finally show ?thesis by simp
qed

lemma ordinal_append: "i < length V \<Longrightarrow> ordinal (V @ W) object i = ordinal V object i"
  by (auto simp: ordinal_def nth_append intro!: arg_cong [of _ _ length] filter_cong)

lemma ordinal_bare: "i < length ts \<Longrightarrow> ordinal (map bare ts) object i = ordinal ts object i"
  by (auto simp: ordinal_def intro!: arg_cong [of _ _ length] filter_cong)

lemma token_text_bare [simp]: "token_text text (bare t) = token_text text t"
  by (simp add: token_text_def)

section \<open>Keys\<close>

definition is_key :: "JsonToken list \<Rightarrow> nat \<Rightarrow> nat \<Rightarrow> bool" where
  "is_key V object j \<longleftrightarrow>
     tok_parent (V ! j) = int object \<and> tok_type (V ! j) = JSON_TOKEN_STRING
     \<and> odd (ordinal V object j)"

definition keys_distinct :: "bytes \<Rightarrow> JsonToken list \<Rightarrow> nat \<Rightarrow> bool" where
  "keys_distinct text V object \<longleftrightarrow>
     (\<forall>j k. object < j \<longrightarrow> j < k \<longrightarrow> k < length V \<longrightarrow> is_key V object j \<longrightarrow> is_key V object k \<longrightarrow>
        token_text text (V ! j) \<noteq> token_text text (V ! k))"

lemma is_key_append: "j < length V \<Longrightarrow> is_key (V @ W) object j = is_key V object j"
  by (simp add: is_key_def nth_append ordinal_append)

text \<open>Tokens below another parent do not matter for an object.\<close>

lemma keys_distinct_other:
  assumes "keys_distinct text V object" "\<And>t. t \<in> set W \<Longrightarrow> tok_parent t \<noteq> int object"
  shows "keys_distinct text (V @ W) object"
  unfolding keys_distinct_def
proof (intro allI impI)
  fix j k
  assume jk: "object < j" "j < k" "k < length (V @ W)" "is_key (V @ W) object j" "is_key (V @ W) object k"
  have "k < length V"
  proof (rule ccontr)
    assume "\<not> k < length V"
    then have "(V @ W) ! k \<in> set W" using jk(3) by (auto simp: nth_append)
    with assms(2) jk(5) show False by (auto simp: is_key_def)
  qed
  with jk assms(1) show "token_text text ((V @ W) ! j) \<noteq> token_text text ((V @ W) ! k)"
    by (auto simp: keys_distinct_def is_key_append nth_append)
qed

text \<open>One more child: it is harmless when it is not a key, or a key that differs from the others.\<close>

lemma keys_distinct_snoc:
  assumes "keys_distinct text V object"
    and "is_key (V @ [t]) object (length V) \<Longrightarrow>
      (\<forall>j. object < j \<longrightarrow> j < length V \<longrightarrow> is_key V object j \<longrightarrow> token_text text (V ! j) \<noteq> token_text text t)"
  shows "keys_distinct text (V @ [t]) object"
  unfolding keys_distinct_def
proof (intro allI impI)
  fix j k
  assume jk: "object < j" "j < k" "k < length (V @ [t])" "is_key (V @ [t]) object j"
    "is_key (V @ [t]) object k"
  show "token_text text ((V @ [t]) ! j) \<noteq> token_text text ((V @ [t]) ! k)"
  proof (cases "k = length V")
    case True
    with jk assms(2) show ?thesis by (auto simp: is_key_append nth_append)
  next
    case False
    with jk assms(1) show ?thesis by (auto simp: keys_distinct_def is_key_append nth_append)
  qed
qed

section \<open>Well-formed parser states\<close>

definition token_ok :: "nat \<Rightarrow> nat \<Rightarrow> JsonToken \<Rightarrow> bool" where
  "token_ok limit j t \<longleftrightarrow>
     tok_start t \<le> tok_end t \<and> tok_end t \<le> limit \<and> - 1 \<le> tok_parent t \<and> tok_parent t < int j"

definition good :: "Parser \<Rightarrow> bool" where
  "good p \<longleftrightarrow>
     position p \<le> length (json p) \<and> length (tokens p) \<le> capacity p
     \<and> (\<forall>j < length (shape p). token_ok (position p) j (shape p ! j))"

definition nested :: "JsonToken list \<Rightarrow> nat \<Rightarrow> bool" where
  "nested V j \<longleftrightarrow>
     tok_start (V ! nat (tok_parent (V ! j))) \<le> tok_start (V ! j)
     \<and> tok_end (V ! j) \<le> tok_end (V ! nat (tok_parent (V ! j)))"

text \<open>The tokens from index \<open>n\<close> on form one value.\<close>

definition subtree :: "bytes \<Rightarrow> nat \<Rightarrow> JsonToken list \<Rightarrow> bool" where
  "subtree text n V \<longleftrightarrow>
     (\<forall>j. n < j \<longrightarrow> j < length V \<longrightarrow>
        int n \<le> tok_parent (V ! j) \<and> tok_start (V ! n) \<le> tok_start (V ! j) \<and> nested V j)
     \<and> (\<forall>object. n \<le> object \<longrightarrow> object < length V \<longrightarrow> tok_type (V ! object) = JSON_TOKEN_OBJECT \<longrightarrow>
          keys_distinct text V object)"

definition moved :: "Parser \<Rightarrow> Parser \<Rightarrow> bool" where
  "moved p p' \<longleftrightarrow> json p' = json p \<and> capacity p' = capacity p \<and> position p \<le> position p'"

definition parsed_value :: "int \<Rightarrow> Parser \<Rightarrow> Parser \<Rightarrow> bool" where
  "parsed_value parent p p' \<longleftrightarrow>
     moved p p' \<and> position p < position p' \<and> good p'
     \<and> (\<exists>t new. shape p' = shape p @ t # new \<and> tok_parent t = parent \<and> position p \<le> tok_start t
                \<and> subtree (json p) (length (shape p)) (shape p'))"

text \<open>Container \<open>i\<close> is open; the tokens behind it are complete values below it.\<close>

definition in_container :: "bytes \<Rightarrow> nat \<Rightarrow> JsonToken list \<Rightarrow> bool" where
  "in_container text i V \<longleftrightarrow>
     i < length V
     \<and> (\<forall>j. i < j \<longrightarrow> j < length V \<longrightarrow>
          int i \<le> tok_parent (V ! j) \<and> tok_start (V ! i) \<le> tok_start (V ! j)
          \<and> (int i < tok_parent (V ! j) \<longrightarrow> nested V j))
     \<and> (\<forall>object. i \<le> object \<longrightarrow> object < length V \<longrightarrow> tok_type (V ! object) = JSON_TOKEN_OBJECT \<longrightarrow>
          keys_distinct text V object)"

lemma moved_refl [simp]: "moved p p"
  by (simp add: moved_def)

lemma moved_trans [trans]: "moved p q \<Longrightarrow> moved q r \<Longrightarrow> moved p r"
  by (auto simp: moved_def)

lemma moved_advance [simp]: "moved p (advance n p)"
  by (simp add: moved_def advance_def)

lemma token_ok_mono: "token_ok a j t \<Longrightarrow> a \<le> b \<Longrightarrow> token_ok b j t"
  by (auto simp: token_ok_def)

lemma good_advance:
  "good p \<Longrightarrow> position p + n \<le> length (json p) \<Longrightarrow> good (advance n p)"
  by (auto simp: good_def advance_def shape_def intro: token_ok_mono)

lemma skip_while_bound:
  "position p \<le> length (json p) \<Longrightarrow> position (skip_while P p) \<le> length (json p)"
proof -
  assume "position p \<le> length (json p)"
  moreover have "length (takeWhile P (drop (position p) (json p))) \<le> length (json p) - position p"
    using length_takeWhile_le [of P "drop (position p) (json p)"] by simp
  ultimately show ?thesis by (simp add: skip_while_def advance_def)
qed

lemma skip_while_facts [simp]:
  "shape (skip_while P p) = shape p" "moved p (skip_while P p)"
  "json (skip_while P p) = json p"
  by (simp_all add: skip_while_def)

lemma good_skip_while: "good p \<Longrightarrow> good (skip_while P p)"
  using skip_while_bound [of p P]
  by (auto simp: skip_while_def good_def advance_def shape_def intro: token_ok_mono)

lemma good_SkipWhitespace: "good p \<Longrightarrow> good (SkipWhitespace p)"
  by (simp add: SkipWhitespace_def good_skip_while)

lemma SkipWhitespace_facts [simp]:
  "shape (SkipWhitespace p) = shape p" "moved p (SkipWhitespace p)"
  "json (SkipWhitespace p) = json p"
  by (simp_all add: SkipWhitespace_def)

lemma length_tokens_SkipWhitespace [simp]: "length (tokens (SkipWhitespace p)) = length (tokens p)"
  by (metis SkipWhitespace_facts(1) length_shape)

text \<open>Adding one finished token.\<close>

lemma add_token:
  assumes "AddToken ty start parent p = (Some i, p1)"
  shows "i = length (tokens p)" "length (tokens p) < capacity p"
    "shape p1 = shape p @ [\<lparr>tok_type = ty, tok_start = start, tok_end = start, tok_parent = parent,
                            tok_child_count = 0\<rparr>]"
    "json p1 = json p" "position p1 = position p" "capacity p1 = capacity p"
  using assms
  by (auto simp: AddToken_def Let_def shape_def shape_bump bare_def split: if_splits)

lemma shape_set_end:
  "i < length (tokens p) \<Longrightarrow> shape (set_end i e p) = (shape p)[i := (shape p ! i)\<lparr>tok_end := e\<rparr>]"
  by (cases "tokens p ! i") (simp add: shape_def set_end_def map_update bare_def)

lemma set_end_fields [simp]:
  "json (set_end i e p) = json p" "position (set_end i e p) = position p"
  "capacity (set_end i e p) = capacity p" "length (tokens (set_end i e p)) = length (tokens p)"
  by (simp_all add: set_end_def)

lemma add_scalar:
  assumes "AddToken ty start parent p = (Some i, p1)"
  shows "shape (set_end i e p1) = shape p @ [\<lparr>tok_type = ty, tok_start = start, tok_end = e,
           tok_parent = parent, tok_child_count = 0\<rparr>]"
proof -
  note a = add_token [OF assms]
  have "length (tokens p1) = Suc (length (tokens p))"
    using a(3) length_shape [of p1] by simp
  then show ?thesis by (simp add: shape_set_end a(1,3) list_update_append nth_append)
qed

lemma good_snoc:
  assumes "good p" "shape p' = shape p @ [t]" "json p' = json p" "capacity p' = capacity p"
    and "position p \<le> position p'" "position p' \<le> length (json p)" "length (tokens p) < capacity p"
    and "token_ok (position p') (length (tokens p)) t"
  shows "good p'"
proof -
  have "length (tokens p') = Suc (length (tokens p))"
    using assms(2) length_shape [of p'] by simp
  moreover have "token_ok (position p') j (shape p' ! j)" if "j < length (shape p')" for j
  proof (cases "j = length (tokens p)")
    case False
    with that assms(2) have "j < length (shape p)" by simp
    with assms(1,2,5) show ?thesis by (auto simp: nth_append good_def intro: token_ok_mono)
  qed (use assms(2,8) in \<open>simp add: nth_append\<close>)
  ultimately show ?thesis using assms by (auto simp: good_def)
qed

lemma subtree_leaf:
  assumes "tok_type t \<noteq> JSON_TOKEN_OBJECT"
  shows "subtree text (length V) (V @ [t])"
  using assms by (auto simp: subtree_def nth_append)

lemma scalar_value:
  assumes "good p" "- 1 \<le> parent" "parent < int (length (tokens p))"
    and "moved p q" "shape q = shape p" "position p < position q" "position q \<le> length (json q)"
    and "AddToken ty start parent q = (Some i, q1)" "ty \<noteq> JSON_TOKEN_OBJECT"
    and "position p \<le> start" "start \<le> e" "e \<le> position q"
  shows "parsed_value parent p (set_end i e q1)"
proof -
  note a = add_token [OF assms(8)]
  note s = add_scalar [OF assms(8), of e]
  have l: "length (tokens q) = length (tokens p)" using assms(5) length_shape by metis
  have gq: "good q"
    using assms(1,4-7) l by (auto simp: good_def moved_def intro: token_ok_mono)
  have "good (set_end i e q1)"
    by (rule good_snoc [OF gq s]) (use a assms l in \<open>auto simp: token_ok_def\<close>)
  moreover have "moved p (set_end i e q1)" "position p < position (set_end i e q1)"
    using assms(4,6) a by (auto simp: moved_def)
  ultimately show ?thesis
    using s assms(5,9,10) subtree_leaf [of _ "json p" "shape p"]
    by (simp add: parsed_value_def)
qed

section \<open>The scalar methods\<close>

lemma string_character_facts:
  assumes "string_character k p = (True, p')" "\<not> at_end p"
  shows "moved p p' \<and> shape p' = shape p \<and> position p < position p' \<and> position p' \<le> length (json p)"
proof -
  have u: "moved p q \<and> shape q = shape p \<and> position q < length (json p)" if "ConsumeUtf8 p = (True, q)" for q
    using that assms(2)
    by (auto simp: ConsumeUtf8_def utf8_first_def moved_def advance_def shape_def at_end_def
        split: option.splits sum.splits if_splits)
  show ?thesis
    using assms position_string_character [OF assms(1)]
    by (auto simp: string_character_def Let_def at_end_def advance_def moved_def shape_def
        dest!: u split: if_splits prod.splits bool.splits)
qed

lemma ParseEscape_facts:
  assumes "ParseEscape p = (True, p')"
  shows "moved p p' \<and> shape p' = shape p \<and> position p < position p' \<and> position p' \<le> length (json p)"
  using assms
  by (auto simp: ParseEscape_def Let_def moved_def advance_def shape_def at_end_def
      split: if_splits option.splits)

lemma string_loop_value:
  assumes "good p0" "- 1 \<le> parent" "parent < int (length (tokens p0))"
    and "moved p0 p" "shape p = shape p0" "position p0 < start" "start \<le> position p"
    and "string_loop parent key start esc p = (Some i, p')"
  shows "parsed_value parent p0 p' \<and> i = length (tokens p0)
         \<and> shape p' = shape p0 @ [shape p' ! i] \<and> tok_type (shape p' ! i) = JSON_TOKEN_STRING"
  using assms(4-8)
proof (induction "length (json p) - position p" arbitrary: esc p rule: less_induct)
  case less
  have ne: "\<not> at_end p"
    using less.prems(5) by (subst (asm) string_loop.simps) (auto split: if_splits)
  note unfold = less.prems(5) [unfolded string_loop.simps [of parent key start esc p] Let_def]
  have step: ?case if q: "moved p q" "shape q = shape p" "position p < position q" "position q \<le> length (json p)"
      "string_loop parent key start e q = (Some i, p')" for q e
  proof (rule less.hyps [OF _ _ _ less.prems(3) _ q(5)])
    show "length (json q) - position q < length (json p) - position p"
      using q ne by (auto simp: moved_def at_end_def)
    show "moved p0 q" using less.prems(1) q(1) by (rule moved_trans)
    show "shape q = shape p0" using less.prems(2) q(2) by simp
    show "start \<le> position q" using less.prems(4) q(3) by simp
  qed
  show ?case
  proof (cases "current p = 0x22")
    case True
    with unfold ne have "string_close parent key start esc p = (Some i, p')" by simp
    then obtain q1 where q1: "AddToken JSON_TOKEN_STRING start parent (advance 1 p) = (Some i, q1)"
      "p' = set_end i (position p) q1"
      by (auto simp: string_close_def Let_def split: if_splits option.splits prod.splits)
    have mv: "moved p0 (advance 1 p)" using less.prems(1) moved_advance by (rule moved_trans)
    have "parsed_value parent p0 p'"
      unfolding q1(2)
      by (rule scalar_value [OF assms(1-3) mv _ _ _ q1(1)])
        (use less.prems ne in \<open>auto simp: at_end_def moved_def\<close>)
    moreover have "i = length (tokens p0)"
      using add_token(1) [OF q1(1)] less.prems(2) length_shape [of "advance 1 p"] length_shape [of p0] by simp
    ultimately show ?thesis
      using add_scalar [OF q1(1), of "position p"] less.prems(2) q1(2) by (simp add: nth_append)
  next
    case False
    show ?thesis
    proof (cases "current p = 0x5c")
      case True
      with unfold ne obtain q where "ParseEscape p = (True, q)" "string_loop parent key start True q = (Some i, p')"
        by (auto split: prod.splits bool.splits)
      with step ParseEscape_facts show ?thesis by blast
    next
      case other: False
      with unfold ne False obtain q where "string_character key p = (True, q)"
        "string_loop parent key start esc q = (Some i, p')"
        by (auto split: prod.splits bool.splits if_splits)
      with step string_character_facts [OF _ ne] show ?thesis by blast
    qed
  qed
qed

lemma ParseString_value:
  assumes "good p" "- 1 \<le> parent" "parent < int (length (tokens p))"
    and "ParseString parent key p = (Some i, p')"
  shows "parsed_value parent p p' \<and> i = length (tokens p)
         \<and> shape p' = shape p @ [shape p' ! i] \<and> tok_type (shape p' ! i) = JSON_TOKEN_STRING"
proof (rule string_loop_value [OF assms(1-3)])
  show "string_loop parent key (position (advance 1 p)) False (advance 1 p) = (Some i, p')"
    using assms(4) by (simp add: ParseString_def Let_def)
qed (simp_all add: advance_def moved_def shape_def)

lemma finish_token_value:
  assumes "good p" "- 1 \<le> parent" "parent < int (length (tokens p))"
    and "moved p q" "shape q = shape p" "position p < position q" "position q \<le> length (json q)"
    and "finish_token ty (position p) parent q = (True, p')" "ty \<noteq> JSON_TOKEN_OBJECT"
  shows "parsed_value parent p p'"
proof -
  from assms(8) obtain i q1 where q: "AddToken ty (position p) parent q = (Some i, q1)"
    "p' = set_end i (position q1) q1"
    by (auto simp: finish_token_def split: prod.splits option.splits)
  show ?thesis
    unfolding q(2) by (rule scalar_value [OF assms(1-7) q(1) assms(9)])
      (use assms(6) add_token(5) [OF q(1)] in auto)
qed

lemma ParseLiteral_value:
  assumes "good p" "- 1 \<le> parent" "parent < int (length (tokens p))"
    and "ParseLiteral parent literal ty p = (True, p')" "ty \<noteq> JSON_TOKEN_OBJECT" "literal \<noteq> []"
  shows "parsed_value parent p p'"
proof -
  from assms(4) have f: "finish_token ty (position p) parent (advance (length literal) p) = (True, p')"
    and l: "position p + length literal \<le> length (json p)"
    by (auto simp: ParseLiteral_def split: if_splits)
  show ?thesis
    by (rule finish_token_value [OF assms(1-3) _ _ _ _ f assms(5)])
      (use l assms(6) in \<open>simp_all add: advance_def shape_def moved_def\<close>)
qed

text \<open>The parts of a number only move forward within the input.\<close>

definition forward :: "Parser \<Rightarrow> Parser \<Rightarrow> bool" where
  "forward p q \<longleftrightarrow> moved p q \<and> shape q = shape p \<and> position q \<le> length (json q)"

lemma forward_trans: "forward p q \<Longrightarrow> forward q r \<Longrightarrow> forward p r"
  by (auto simp: forward_def intro: moved_trans)

lemma forward_skip: "position p \<le> length (json p) \<Longrightarrow> forward p (skip_while P p)"
  using skip_while_bound [of p P] by (simp add: forward_def)

lemma forward_advance: "position p + n \<le> length (json p) \<Longrightarrow> forward p (advance n p)"
  by (simp add: forward_def advance_def moved_def shape_def)

lemma number_sign_forward:
  "number_sign p = (True, q) \<Longrightarrow> \<not> at_end p \<Longrightarrow> forward p q \<and> \<not> at_end q"
  by (auto simp: number_sign_def Let_def at_end_def forward_def moved_def advance_def shape_def
      split: if_splits)

lemma number_integer_forward:
  assumes "number_integer p = (True, q)" "\<not> at_end p"
  shows "forward p q \<and> position p < position q"
proof -
  have a: "forward p (advance 1 p)" "position p < position (advance 1 p)"
    using assms(2) by (auto intro: forward_advance simp: at_end_def)
  have b: "forward p (skip_while is_digit (advance 1 p))"
    "position p < position (skip_while is_digit (advance 1 p))"
    using forward_trans [OF a(1) forward_skip] a by (auto simp: forward_def skip_while_def advance_def)
  show ?thesis
    using assms(1) a b by (auto simp: number_integer_def Let_def split: if_splits)
qed

lemma number_fraction_forward:
  assumes "number_fraction p = (True, q)" "position p \<le> length (json p)"
  shows "forward p q"
proof (cases "\<not> at_end p \<and> current p = ch CHR ''.''")
  case True
  then have a: "forward p (advance 1 p)" by (auto intro: forward_advance simp: at_end_def)
  from True assms(1) have "q = skip_while is_digit (advance 1 p)"
    by (auto simp: number_fraction_def Let_def split: if_splits)
  with forward_trans [OF a forward_skip] a show ?thesis by (simp add: forward_def)
qed (use assms in \<open>auto simp: number_fraction_def forward_def\<close>)

lemma number_exponent_forward:
  assumes "number_exponent p = (True, q)" "position p \<le> length (json p)"
  shows "forward p q"
proof (cases "\<not> at_end p \<and> (current p = ch CHR ''e'' \<or> current p = ch CHR ''E'')")
  case True
  define p2 where "p2 = (if \<not> at_end (advance 1 p) \<and> (current (advance 1 p) = ch CHR ''+''
    \<or> current (advance 1 p) = ch CHR ''-'') then advance 1 (advance 1 p) else advance 1 p)"
  have a: "forward p (advance 1 p)" using True by (auto intro: forward_advance simp: at_end_def)
  then have a2: "forward p p2"
    by (auto simp: p2_def at_end_def forward_def moved_def)
  from True assms(1) have "q = skip_while is_digit p2"
    by (auto simp: number_exponent_def Let_def p2_def split: if_splits)
  with forward_trans [OF a2 forward_skip] a2 show ?thesis by (simp add: forward_def)
qed (use assms in \<open>auto simp: number_exponent_def forward_def\<close>)

lemma and_then_True: "and_then r f = (True, q) \<longleftrightarrow> (\<exists>p. r = (True, p) \<and> f p = (True, q))"
  by (auto simp: and_then_def split: prod.splits bool.splits)

lemma ParseNumber_value:
  assumes "good p" "- 1 \<le> parent" "parent < int (length (tokens p))" "\<not> at_end p"
    and "ParseNumber parent p = (True, p')"
  shows "parsed_value parent p p'"
proof -
  from assms(5) obtain p1 p2 p3 p4 where n: "number_sign p = (True, p1)" "number_integer p1 = (True, p2)"
    "number_fraction p2 = (True, p3)" "number_exponent p3 = (True, p4)"
    and f: "finish_token JSON_TOKEN_NUMBER (position p) parent p4 = (True, p')"
    by (auto simp: ParseNumber_def and_then_True)
  have f1: "forward p p1 \<and> \<not> at_end p1" by (rule number_sign_forward [OF n(1) assms(4)])
  then have f2: "forward p1 p2 \<and> position p1 < position p2" using number_integer_forward [OF n(2)] by simp
  then have f3: "forward p2 p3" by (intro number_fraction_forward [OF n(3)]) (simp add: forward_def)
  then have f4: "forward p3 p4" by (intro number_exponent_forward [OF n(4)]) (simp add: forward_def)
  have "forward p p4" using f1 f2 f3 f4 forward_trans by blast
  moreover have "position p < position p4"
    using f1 f2 f3 f4 by (auto simp: forward_def moved_def)
  ultimately show ?thesis
    by (intro finish_token_value [OF assms(1-3) _ _ _ _ f]) (simp_all add: forward_def)
qed

section \<open>The containers\<close>

text \<open>A finished value extends an open container.\<close>

lemma nested_append: "j < length V \<Longrightarrow> tok_parent (V ! j) < int j \<Longrightarrow> nested (V @ W) j = nested V j"
  by (auto simp: nested_def nth_append)

lemma join_value:
  assumes c: "in_container text i V"
    and ok: "\<And>j. j < length V \<Longrightarrow> tok_parent (V ! j) < int j"
    and t: "tok_parent t = int i" "tok_start (V ! i) \<le> tok_start t"
    and sub: "subtree text (length V) (V @ t # new)"
    and keys: "tok_type (V ! i) = JSON_TOKEN_OBJECT \<Longrightarrow> keys_distinct text (V @ [t]) i"
  shows "in_container text i (V @ t # new)"
proof -
  let ?V = "V @ t # new"
  have i: "i < length V" using c by (simp add: in_container_def)
  have new: "int (length V) \<le> tok_parent u" if "u \<in> set new" for u
  proof -
    from that obtain k where "k < length new" "u = new ! k" by (auto simp: in_set_conv_nth)
    then have "?V ! (Suc (length V + k)) = u" "Suc (length V + k) < length ?V"
      by (simp_all add: nth_append)
    with sub show ?thesis unfolding subtree_def by (metis less_add_Suc1 add_Suc)
  qed
  have A: "int i \<le> tok_parent (?V ! j) \<and> tok_start (?V ! i) \<le> tok_start (?V ! j)
        \<and> (int i < tok_parent (?V ! j) \<longrightarrow> nested ?V j)" if "i < j" "j < length ?V" for j
  proof -
    consider "j < length V" | "j = length V" | "length V < j" by linarith
    then show ?thesis
    proof cases
      case 1
      with c that ok [of j] i show ?thesis
        by (auto simp: in_container_def nested_append) (auto simp: nth_append)
    next
      case 2
      with t i show ?thesis by (simp add: nth_append)
    next
      case 3
      with sub that have s: "int (length V) \<le> tok_parent (?V ! j)" "tok_start (?V ! length V) \<le> tok_start (?V ! j)"
        "nested ?V j" by (auto simp: subtree_def)
      with i t show ?thesis by (auto simp: nth_append)
    qed
  qed
  have B: "keys_distinct text ?V object"
    if "i \<le> object" "object < length ?V" "tok_type (?V ! object) = JSON_TOKEN_OBJECT" for object
  proof (cases "object < length V")
    case True
    show ?thesis
    proof (cases "object = i")
      case True
      have "keys_distinct text ((V @ [t]) @ new) i"
        by (rule keys_distinct_other) (use keys that(3) True i new in \<open>fastforce simp: nth_append\<close>)+
      with True show ?thesis by simp
    next
      case False
      have "keys_distinct text V object"
        using c that True by (auto simp: in_container_def nth_append)
      then show ?thesis
        by (rule keys_distinct_other) (use t(1) False new True in fastforce)
    qed
  next
    case False
    with sub that show ?thesis by (auto simp: subtree_def)
  qed
  show ?thesis unfolding in_container_def using A B i by auto
qed

definition open_container :: "nat \<Rightarrow> Parser \<Rightarrow> bool" where
  "open_container i p \<longleftrightarrow> good p \<and> in_container (json p) i (shape p)"

text \<open>How many children an open container has.\<close>

definition children :: "nat \<Rightarrow> Parser \<Rightarrow> nat" where
  "children i p = count_children i (drop (Suc i) (shape p))"

lemma good_parent: "good p \<Longrightarrow> j < length (shape p) \<Longrightarrow> tok_parent (shape p ! j) < int j"
  by (auto simp: good_def token_ok_def)

lemma good_start: "good p \<Longrightarrow> j < length (shape p) \<Longrightarrow> tok_start (shape p ! j) \<le> position p"
  by (auto simp: good_def token_ok_def intro: le_trans)

lemma subtree_new:
  assumes "subtree text (length V) (V @ t # new)" "u \<in> set new"
  shows "int (length V) \<le> tok_parent u"
proof -
  from assms(2) obtain k where "k < length new" "u = new ! k" by (auto simp: in_set_conv_nth)
  then have "(V @ t # new) ! (Suc (length V + k)) = u" "Suc (length V + k) < length (V @ t # new)"
    by (simp_all add: nth_append)
  with assms(1) show ?thesis unfolding subtree_def by (metis less_add_Suc1 add_Suc)
qed

text \<open>The ordinal a new child gets.\<close>

lemma ordinal_new_child:
  assumes "i < length V" "tok_parent t = int i"
  shows "ordinal (V @ [t]) i (length V) = Suc (count_children i (drop (Suc i) V))"
  using assms by (subst ordinal_alt) simp_all

lemma container_value:
  assumes c: "open_container i p" and v: "parsed_value (int i) p p'"
    and keys: "tok_type (shape p ! i) = JSON_TOKEN_OBJECT \<Longrightarrow>
      odd (children i p) \<or>
      (\<forall>j. i < j \<longrightarrow> j < length (shape p) \<longrightarrow> is_key (shape p) i j \<longrightarrow>
         token_text (json p) (shape p ! j) \<noteq> token_text (json p) (shape p' ! length (shape p)))"
  shows "open_container i p' \<and> children i p' = Suc (children i p)
         \<and> tok_type (shape p' ! i) = tok_type (shape p ! i)"
proof -
  from v obtain t new where s: "shape p' = shape p @ t # new" "tok_parent t = int i"
    "position p \<le> tok_start t" "subtree (json p) (length (shape p)) (shape p @ t # new)"
    and g: "good p'" "json p' = json p" by (auto simp: parsed_value_def moved_def)
  have ic: "in_container (json p) i (shape p)" "good p" using c by (simp_all add: open_container_def)
  then have i: "i < length (shape p)" by (simp add: in_container_def)
  have "in_container (json p) i (shape p @ t # new)"
  proof (rule join_value [OF ic(1) good_parent [OF ic(2)] s(2) _ s(4)])
    show "tok_start (shape p ! i) \<le> tok_start t" using good_start [OF ic(2) i] s(3) by linarith
    assume ob: "tok_type (shape p ! i) = JSON_TOKEN_OBJECT"
    show "keys_distinct (json p) (shape p @ [t]) i"
    proof (rule keys_distinct_snoc)
      show "keys_distinct (json p) (shape p) i" using ic(1) ob i by (simp add: in_container_def)
      assume k: "is_key (shape p @ [t]) i (length (shape p))"
      have "ordinal (shape p @ [t]) i (length (shape p)) = Suc (children i p)"
        using ordinal_new_child [OF i s(2)] by (simp add: children_def)
      with k have "even (children i p)" by (simp add: is_key_def)
      with keys ob s(1) show "\<forall>j. i < j \<longrightarrow> j < length (shape p) \<longrightarrow> is_key (shape p) i j \<longrightarrow>
          token_text (json p) (shape p ! j) \<noteq> token_text (json p) t"
        by (auto simp: nth_append)
    qed
  qed
  moreover have "count_children i new = 0"
    using subtree_new [OF s(4)] i by (intro count_children_none) fastforce
  then have "children i p' = Suc (children i p)"
    using i s(1,2) by (simp add: children_def)
  ultimately show ?thesis using g s(1) i by (simp add: open_container_def nth_append)
qed

text \<open>Moving on without new tokens keeps a container open.\<close>

lemma open_container_forward:
  assumes "open_container i p" "forward p q"
  shows "open_container i q \<and> children i q = children i p"
proof -
  have "good q"
    using assms by (auto simp: open_container_def forward_def moved_def good_def intro: token_ok_mono
        simp flip: length_shape)
  with assms show ?thesis
    by (simp add: open_container_def forward_def moved_def children_def)
qed

lemma forward_SkipWhitespace: "good p \<Longrightarrow> forward p (SkipWhitespace p)"
  by (simp add: SkipWhitespace_def forward_skip good_def)

text \<open>Closing a container makes a complete value of it.\<close>

lemma keys_distinct_update:
  assumes "i \<le> object" "keys_distinct text V object"
  shows "keys_distinct text (V[i := x]) object"
proof -
  have o: "ordinal (V[i := x]) object j = ordinal V object j" for j
    using assms(1) by (auto simp: ordinal_def intro!: arg_cong [of _ _ length] filter_cong)
  show ?thesis
    using assms by (auto simp: keys_distinct_def is_key_def o)
qed

lemma close_container_value:
  assumes c: "open_container i q" and ne: "\<not> at_end q"
  shows "good (close_container i q)" "subtree (json q) i (shape (close_container i q))"
    "shape (close_container i q) = (shape q)[i := (shape q ! i)\<lparr>tok_end := position q + 1\<rparr>]"
    "position (close_container i q) = position q + 1" "moved q (close_container i q)"
proof -
  let ?V = "shape q" and ?q = "close_container i q"
  let ?W = "?V[i := (?V ! i)\<lparr>tok_end := position q + 1\<rparr>]"
  have g: "good q" and ic: "in_container (json q) i ?V" using c by (simp_all add: open_container_def)
  then have i: "i < length ?V" by (simp add: in_container_def)
  show sh: "shape ?q = ?W"
    using i by (simp add: close_container_def Let_def shape_set_end)
  show pos: "position ?q = position q + 1" and mv: "moved q ?q"
    by (simp_all add: close_container_def Let_def moved_def)
  have tok: "token_ok (position q + 1) j (?W ! j)" if "j < length ?V" for j
  proof -
    from g that have "token_ok (position q) j (?V ! j)" by (simp add: good_def)
    with i show ?thesis by (cases "j = i") (auto simp: token_ok_def)
  qed
  have len: "length (tokens ?q) = length (tokens q)" using sh length_shape by (metis length_list_update)
  show "good ?q"
    unfolding good_def sh pos using g tok ne len mv by (auto simp: good_def at_end_def moved_def)
  have "nested ?W j" if j: "i < j" "j < length ?V" for j
  proof (cases "tok_parent (?V ! j) = int i")
    case True
    have "tok_end (?V ! j) \<le> position q" using g j(2) by (auto simp: good_def token_ok_def)
    moreover have "tok_start (?V ! i) \<le> tok_start (?V ! j)" using ic j by (auto simp: in_container_def)
    ultimately show ?thesis using True i j by (simp add: nested_def)
  next
    case False
    with ic j have "int i < tok_parent (?V ! j)" "nested ?V j" by (auto simp: in_container_def)
    then show ?thesis using j by (auto simp: nested_def nth_list_update)
  qed
  moreover have "keys_distinct (json q) ?W object"
    if "i \<le> object" "object < length ?V" "tok_type (?W ! object) = JSON_TOKEN_OBJECT" for object
    using that ic i
    by (intro keys_distinct_update) (auto simp: in_container_def nth_list_update split: if_splits)
  ultimately show "subtree (json q) i (shape ?q)"
    unfolding sh subtree_def using ic i by (auto simp: in_container_def)
qed

definition loop_state :: "JsonTokenType \<Rightarrow> nat \<Rightarrow> Parser \<Rightarrow> bool" where
  "loop_state ty i q \<longleftrightarrow>
     open_container i q \<and> tok_type (shape q ! i) = ty \<and> (ty = JSON_TOKEN_OBJECT \<longrightarrow> even (children i q))"

definition longer :: "Parser \<Rightarrow> Parser \<Rightarrow> bool" where
  "longer p q \<longleftrightarrow> moved p q \<and> (\<exists>W. shape q = shape p @ W)"

lemma longer_trans: "longer p q \<Longrightarrow> longer q r \<Longrightarrow> longer p r"
  by (auto simp: longer_def intro: moved_trans)

lemma longer_position: "longer p q \<Longrightarrow> position p \<le> position q"
  by (simp add: longer_def moved_def)

lemma longer_forward: "forward p q \<Longrightarrow> longer p q"
  by (auto simp: forward_def longer_def)

lemma longer_value: "parsed_value parent p q \<Longrightarrow> longer p q"
  by (auto simp: parsed_value_def longer_def)

text \<open>What a turn of a member loop must do for the loop to be right.\<close>

definition turn_ok :: "JsonTokenType \<Rightarrow> (nat \<Rightarrow> Parser \<Rightarrow> (bool \<times> Parser) + Parser) \<Rightarrow> bool" where
  "turn_ok ty turn \<longleftrightarrow>
     (\<forall>i q. loop_state ty i q \<longrightarrow> \<not> at_end q \<longrightarrow>
        (\<forall>q'. turn i q = Inr q' \<longrightarrow> loop_state ty i q' \<and> longer q q' \<and> position q < position q')
        \<and> (\<forall>q'. turn i q = Inl (True, q') \<longrightarrow>
             (\<exists>q1. loop_state ty i q1 \<and> longer q q1 \<and> \<not> at_end q1 \<and> q' = close_container i q1)))"

lemma container_loop_closes:
  assumes "turn_ok ty turn" "loop_state ty i q" "container_loop (turn i) n q = (True, q')"
  shows "\<exists>q1. loop_state ty i q1 \<and> longer q q1 \<and> \<not> at_end q1 \<and> q' = close_container i q1"
  using assms(2,3)
proof (induction n arbitrary: q)
  case (Suc n)
  have ne: "\<not> at_end q" using Suc.prems(2) by (auto split: if_splits)
  show ?case
  proof (cases "turn i q")
    case (Inl r)
    with Suc.prems ne have "turn i q = Inl (True, q')" by simp
    with assms(1) Suc.prems(1) ne show ?thesis unfolding turn_ok_def by blast
  next
    case (Inr q2)
    with assms(1) Suc.prems(1) ne have "loop_state ty i q2" "longer q q2"
      unfolding turn_ok_def by blast+
    with Suc.IH [of q2] Suc.prems(2) Inr ne show ?thesis by (auto intro: longer_trans)
  qed
qed simp

text \<open>
  The loop needs no more turns than there are bytes left: a larger count gives the same result, so
  the count never ends the loop of the source.
\<close>

lemma container_loop_fuel:
  assumes "turn_ok ty turn" "loop_state ty i q" "length (json q) - position q \<le> n"
  shows "container_loop (turn i) (n + m) q = container_loop (turn i) n q"
  using assms(2,3)
proof (induction n arbitrary: q)
  case 0
  then have "at_end q" by (simp add: at_end_def)
  then show ?case by (cases m) simp_all
next
  case (Suc n)
  show ?case
  proof (cases "at_end q")
    case False
    have "container_loop (turn i) (n + m) q2 = container_loop (turn i) n q2" if "turn i q = Inr q2" for q2
    proof (rule Suc.IH)
      from assms(1) Suc.prems(1) False that
      have q2: "loop_state ty i q2" "longer q q2" "position q < position q2"
        unfolding turn_ok_def by blast+
      then show "loop_state ty i q2" by simp
      show "length (json q2) - position q2 \<le> n"
        using q2(2,3) Suc.prems(2) by (auto simp: longer_def moved_def)
    qed
    then show ?thesis by (simp split: sum.split)
  qed simp
qed

lemma ParseContainer_value:
  assumes "good p" "- 1 \<le> parent" "parent < int (length (tokens p))" "\<not> at_end p"
    and "turn_ok ty turn" "ParseContainer ty closing turn parent p = (True, p')"
  shows "parsed_value parent p p'"
proof -
  from assms(6) obtain i p1 where a: "AddToken ty (position p) parent (advance 1 p) = (Some i, p1)"
    by (auto simp: ParseContainer_def split: prod.splits option.splits)
  note t = add_token [OF a]
  let ?t = "\<lparr>tok_type = ty, tok_start = position p, tok_end = position p, tok_parent = parent,
             tok_child_count = 0\<rparr>"
  have i: "i = length (shape p)" "shape p1 = shape p @ [?t]" using t by simp_all
  have "good (advance 1 p)" using assms(1,4) by (intro good_advance) (simp_all add: at_end_def)
  then have g1: "good p1"
    by (rule good_snoc [OF _ t(3)]) (use t assms(2-4) in \<open>auto simp: token_ok_def at_end_def\<close>)
  have "loop_state ty i p1"
    using g1 i by (auto simp: loop_state_def open_container_def in_container_def children_def nth_append
        keys_distinct_def)
  then have ls: "loop_state ty i (SkipWhitespace p1)"
    using open_container_forward [OF _ forward_SkipWhitespace [OF g1]]
    by (auto simp: loop_state_def)
  have "\<exists>q1. loop_state ty i q1 \<and> longer (SkipWhitespace p1) q1 \<and> \<not> at_end q1 \<and> p' = close_container i q1"
  proof (cases "\<not> at_end (SkipWhitespace p1) \<and> current (SkipWhitespace p1) = closing")
    case True
    with assms(6) a have "p' = close_container i (SkipWhitespace p1)"
      by (simp add: ParseContainer_def Let_def)
    with True ls show ?thesis by (auto simp: longer_def)
  next
    case False
    with assms(6) a have "container_loop (turn i)
        (length (json (SkipWhitespace p1)) - position (SkipWhitespace p1)) (SkipWhitespace p1) = (True, p')"
      by (auto simp: ParseContainer_def Let_def)
    with container_loop_closes [OF assms(5) ls] show ?thesis by blast
  qed
  then obtain q1 where q1: "loop_state ty i q1" "longer (SkipWhitespace p1) q1" "\<not> at_end q1"
    "p' = close_container i q1" by blast
  note c = close_container_value [of i q1]
  have oc: "open_container i q1" using q1(1) by (simp add: loop_state_def)
  from q1(2) obtain W where W: "shape q1 = shape p @ ?t # W" and mv: "moved (SkipWhitespace p1) q1"
    using i(2) by (auto simp: longer_def)
  have "moved p q1"
    using mv t(4-6) SkipWhitespace_facts(2) [of p1] by (auto simp: moved_def)
  moreover have "position p < position q1"
    using mv t(5) SkipWhitespace_facts(2) [of p1] by (auto simp: moved_def)
  ultimately show ?thesis
    unfolding parsed_value_def q1(4)
    using c [OF oc q1(3)] W i(1)
    by (auto simp: moved_def list_update_append nth_append)
qed

section \<open>The member loops\<close>

definition value_parser_ok :: "(int \<Rightarrow> Parser \<Rightarrow> bool \<times> Parser) \<Rightarrow> bool" where
  "value_parser_ok pv \<longleftrightarrow>
     (\<forall>parent p p'. good p \<longrightarrow> - 1 \<le> parent \<longrightarrow> parent < int (length (tokens p)) \<longrightarrow>
        pv parent p = (True, p') \<longrightarrow> parsed_value parent p p')"

lemma value_parser_okD:
  "value_parser_ok pv \<Longrightarrow> good p \<Longrightarrow> - 1 \<le> parent \<Longrightarrow> parent < int (length (tokens p)) \<Longrightarrow>
   pv parent p = (True, p') \<Longrightarrow> parsed_value parent p p'"
  unfolding value_parser_ok_def by blast

lemma loop_state_forward: "loop_state ty i p \<Longrightarrow> forward p q \<Longrightarrow> loop_state ty i q"
  using open_container_forward [of i p q] by (auto simp: loop_state_def forward_def)

lemma after_value_turn:
  assumes "loop_state ty i p"
  shows "after_value closing i p = Inr q \<Longrightarrow> loop_state ty i q \<and> longer p q \<and> position p < position q"
    and "after_value closing i p = Inl (True, q) \<Longrightarrow>
      \<exists>q1. loop_state ty i q1 \<and> longer p q1 \<and> \<not> at_end q1 \<and> q = close_container i q1"
proof -
  have g: "good p" using assms by (simp add: loop_state_def open_container_def)
  let ?p = "SkipWhitespace p"
  have f: "forward p ?p" "good ?p" using g by (simp_all add: forward_SkipWhitespace good_SkipWhitespace)
  {
    assume "after_value closing i p = Inr q"
    then have q: "q = SkipWhitespace (advance 1 ?p)" "\<not> at_end ?p"
      by (auto simp: after_value_def Let_def split: if_splits)
    moreover from this f have "forward ?p (advance 1 ?p)" "good (advance 1 ?p)"
      by (auto intro!: forward_advance good_advance simp: at_end_def)
    moreover have "position ?p < position q"
      unfolding q(1) using SkipWhitespace_facts(2) [of "advance 1 ?p"] by (auto simp: moved_def)
    ultimately have "forward p q" "position p < position q"
      using f forward_trans forward_SkipWhitespace by (blast, auto simp: forward_def moved_def)
    with assms show "loop_state ty i q \<and> longer p q \<and> position p < position q"
      by (auto intro: loop_state_forward longer_forward)
  next
    assume "after_value closing i p = Inl (True, q)"
    then have "q = close_container i ?p" "\<not> at_end ?p"
      by (auto simp: after_value_def Let_def split: if_splits)
    with assms f show "\<exists>q1. loop_state ty i q1 \<and> longer p q1 \<and> \<not> at_end q1 \<and> q = close_container i q1"
      by (auto intro: loop_state_forward longer_forward)
  }
qed

lemma loop_state_index: "loop_state ty i p \<Longrightarrow> good p \<and> i < length (tokens p)"
  by (auto simp: loop_state_def open_container_def in_container_def)

lemma array_turn_ok:
  assumes "value_parser_ok pv"
  shows "turn_ok JSON_TOKEN_ARRAY (array_element pv)"
  unfolding turn_ok_def
proof (intro allI impI)
  fix i q
  assume ls: "loop_state JSON_TOKEN_ARRAY i q"
  have v: "parsed_value (int i) q q1" if "pv (int i) q = (True, q1)" for q1
    using value_parser_okD [OF assms _ _ _ that] loop_state_index [OF ls] by simp
  have l: "loop_state JSON_TOKEN_ARRAY i q1 \<and> longer q q1" if "pv (int i) q = (True, q1)" for q1
    using container_value [OF _ v [OF that]] longer_value [OF v [OF that]] ls
    by (auto simp: loop_state_def)
  show "(\<forall>q'. array_element pv i q = Inr q' \<longrightarrow>
           loop_state JSON_TOKEN_ARRAY i q' \<and> longer q q' \<and> position q < position q')
      \<and> (\<forall>q'. array_element pv i q = Inl (True, q') \<longrightarrow>
           (\<exists>q1. loop_state JSON_TOKEN_ARRAY i q1 \<and> longer q q1 \<and> \<not> at_end q1 \<and> q' = close_container i q1))"
  proof (intro conjI allI impI)
    fix q' assume "array_element pv i q = Inr q'"
    with l obtain q1 where "loop_state JSON_TOKEN_ARRAY i q1" "longer q q1"
      "after_value (ch CHR '']'') i q1 = Inr q'"
      by (auto simp: array_element_def split: prod.splits bool.splits)
    with after_value_turn(1) [of _ i q1] show "loop_state JSON_TOKEN_ARRAY i q'" "longer q q'" "position q < position q'"
      by (blast intro: longer_trans order.strict_trans1 longer_position)+
  next
    fix q' assume "array_element pv i q = Inl (True, q')"
    with l obtain q1 where "loop_state JSON_TOKEN_ARRAY i q1" "longer q q1"
      "after_value (ch CHR '']'') i q1 = Inl (True, q')"
      by (auto simp: array_element_def split: prod.splits bool.splits)
    with after_value_turn(2) [of _ i q1] show "\<exists>q1. loop_state JSON_TOKEN_ARRAY i q1 \<and> longer q q1
        \<and> \<not> at_end q1 \<and> q' = close_container i q1"
      by (blast intro: longer_trans)
  qed
qed

text \<open>The duplicate check compares the new key with every earlier key of the object.\<close>

lemma no_duplicate:
  assumes g: "good p" and new: "shape p = V @ [k]" "length V = key" "i < length V"
    and no: "\<not> HasDuplicateObjectKey p i key"
    and j: "i < j" "j < length V" "is_key V i j"
  shows "token_text (json p) (V ! j) \<noteq> token_text (json p) k"
proof
  assume eq: "token_text (json p) (V ! j) = token_text (json p) k"
  have len: "length (tokens p) = Suc (length V)" using new(1) length_shape [of p] by simp
  have tj: "bare (tokens p ! j) = V ! j" "bare (tokens p ! key) = k"
    using new len j(2) by (simp_all add: shape_def nth_append flip: nth_map [of _ _ bare])
  have ok: "tok_end (shape p ! m) \<le> length (json p)" if "m < length (shape p)" for m
    using g that by (auto simp: good_def token_ok_def intro: le_trans)
  have tl: "length (token_text (json p) (shape p ! m)) = tok_end (shape p ! m) - tok_start (shape p ! m)"
    if "m < length (shape p)" for m
    using ok [OF that] by (auto simp: token_text_def)
  have "tok_end (V ! j) - tok_start (V ! j) = tok_end k - tok_start k"
    using tl [of j] tl [of key] new len j(2) eq by (simp add: nth_append)
  moreover have "odd (ordinal (tokens p) i j)"
    using j(3) ordinal_bare [of j "tokens p" i] ordinal_append [OF j(2), of "[k]" i] new(1) len j(2)
    by (simp add: is_key_def shape_def)
  moreover have "tok_parent (tokens p ! j) = int i" "tok_type (tokens p ! j) = JSON_TOKEN_STRING"
    using j(3) tj(1) by (metis bare_fields is_key_def)+
  ultimately have "HasDuplicateObjectKey p i key"
    using eq j new(2) tj
    by (auto simp: HasDuplicateObjectKey_def list_ex_iff Let_def intro!: bexI [of _ j])
      (metis bare_fields token_text_bare)+
  with no show False ..
qed

lemma object_turn_ok:
  assumes "value_parser_ok pv"
  shows "turn_ok JSON_TOKEN_OBJECT (object_member pv)"
  unfolding turn_ok_def
proof (intro allI impI)
  fix i q
  assume ls: "loop_state JSON_TOKEN_OBJECT i q"
  note q = loop_state_index [OF ls]
  have member: "loop_state JSON_TOKEN_OBJECT i q3 \<and> longer q q3"
    if s: "ParseString (int i) True q = (Some key, q1)" "\<not> HasDuplicateObjectKey q1 i key"
      "\<not> at_end (SkipWhitespace q1)" "pv (int i) (advance 1 (SkipWhitespace q1)) = (True, q3)" for key q1 q3
  proof -
    from ParseString_value [OF _ _ _ s(1)] q have
      v1: "parsed_value (int i) q q1" "key = length (tokens q)" "shape q1 = shape q @ [shape q1 ! key]"
      by auto
    have g1: "good q1" "json q1 = json q" using v1(1) by (auto simp: parsed_value_def moved_def)
    have "open_container i q1 \<and> children i q1 = Suc (children i q)
          \<and> tok_type (shape q1 ! i) = tok_type (shape q ! i)"
    proof (rule container_value [OF _ v1(1)])
      show "open_container i q" using ls by (simp add: loop_state_def)
      show "odd (children i q) \<or>
        (\<forall>j. i < j \<longrightarrow> j < length (shape q) \<longrightarrow> is_key (shape q) i j \<longrightarrow>
          token_text (json q) (shape q ! j) \<noteq> token_text (json q) (shape q1 ! length (shape q)))"
        using no_duplicate [OF g1(1) v1(3) _ _ s(2)] v1(2) q g1(2) by auto
    qed
    then have o1: "open_container i q1" "odd (children i q1)" "tok_type (shape q1 ! i) = JSON_TOKEN_OBJECT"
      using ls by (auto simp: loop_state_def)
    let ?q2 = "advance 1 (SkipWhitespace q1)"
    have f: "forward q1 ?q2"
      using s(3) forward_trans [OF forward_SkipWhitespace [OF g1(1)] forward_advance] by (simp add: at_end_def)
    with o1 open_container_forward [OF o1(1) f] have
      o2: "open_container i ?q2" "odd (children i ?q2)" "tok_type (shape ?q2 ! i) = JSON_TOKEN_OBJECT"
      by (auto simp: forward_def)
    have v3: "parsed_value (int i) ?q2 q3"
      by (rule value_parser_okD [OF assms _ _ _ s(4)])
        (use o2(1) in \<open>auto simp: open_container_def in_container_def\<close>)
    have "longer q q3"
      using longer_trans [OF longer_value [OF v1(1)] longer_trans [OF longer_forward [OF f] longer_value [OF v3]]] .
    with container_value [OF o2(1) v3] o2 show ?thesis by (auto simp: loop_state_def)
  qed
  have split: "\<exists>key q1 q3. ParseString (int i) True q = (Some key, q1) \<and> \<not> HasDuplicateObjectKey q1 i key
      \<and> \<not> at_end (SkipWhitespace q1) \<and> pv (int i) (advance 1 (SkipWhitespace q1)) = (True, q3)
      \<and> after_value (ch CHR ''}'') i q3 = r"
    if "object_member pv i q = r" "\<forall>x. r \<noteq> Inl (False, x)" for r
    using that by (auto simp: object_member_def Let_def split: if_splits prod.splits option.splits bool.splits)
  show "(\<forall>q'. object_member pv i q = Inr q' \<longrightarrow>
           loop_state JSON_TOKEN_OBJECT i q' \<and> longer q q' \<and> position q < position q')
      \<and> (\<forall>q'. object_member pv i q = Inl (True, q') \<longrightarrow>
           (\<exists>q1. loop_state JSON_TOKEN_OBJECT i q1 \<and> longer q q1 \<and> \<not> at_end q1 \<and> q' = close_container i q1))"
  proof (intro conjI allI impI)
    fix q' assume "object_member pv i q = Inr q'"
    from split [OF this] member obtain q3 where "loop_state JSON_TOKEN_OBJECT i q3" "longer q q3"
      "after_value (ch CHR ''}'') i q3 = Inr q'" by blast
    with after_value_turn(1) [of _ i q3] show "loop_state JSON_TOKEN_OBJECT i q'" "longer q q'" "position q < position q'"
      by (blast intro: longer_trans order.strict_trans1 longer_position)+
  next
    fix q' assume "object_member pv i q = Inl (True, q')"
    from split [OF this] member obtain q3 where "loop_state JSON_TOKEN_OBJECT i q3" "longer q q3"
      "after_value (ch CHR ''}'') i q3 = Inl (True, q')" by blast
    with after_value_turn(2) [of _ i q3] show "\<exists>q1. loop_state JSON_TOKEN_OBJECT i q1 \<and> longer q q1
        \<and> \<not> at_end q1 \<and> q' = close_container i q1"
      by (blast intro: longer_trans)
  qed
qed

section \<open>All nesting levels\<close>

lemma value_here_ok:
  assumes "value_parser_ok pv" "good p" "- 1 \<le> parent" "parent < int (length (tokens p))" "\<not> at_end p"
    and "value_here pv parent p = (True, p')"
  shows "parsed_value parent p p'"
  using assms(6)
  by (auto simp: value_here_def Let_def ParseObject_def ParseArray_def
      intro: ParseContainer_value [OF assms(2-5) object_turn_ok [OF assms(1)]]
        ParseContainer_value [OF assms(2-5) array_turn_ok [OF assms(1)]]
        ParseLiteral_value [OF assms(2-4)] ParseNumber_value [OF assms(2-5)]
      dest: ParseString_value [OF assms(2-4)]
      split: if_splits prod.splits option.splits)

lemma parsed_value_forward:
  assumes "forward p q" "parsed_value parent q p'"
  shows "parsed_value parent p p'"
proof -
  have "shape q = shape p" "position p \<le> position q" "json q = json p" "moved p q"
    using assms(1) by (auto simp: forward_def moved_def)
  moreover from this have "moved p p'" using assms(2) by (auto simp: parsed_value_def moved_def)
  ultimately show ?thesis using assms(2) by (auto simp: parsed_value_def intro: le_trans)
qed

lemma ParseValue_ok: "value_parser_ok (ParseValue levels)"
proof (induction levels)
  case 0
  then show ?case by (simp add: value_parser_ok_def)
next
  case (Suc levels)
  show ?case
    unfolding value_parser_ok_def
  proof (intro allI impI)
    fix parent p p'
    assume a: "good p" "- 1 \<le> parent" "parent < int (length (tokens p))" "ParseValue (Suc levels) parent p = (True, p')"
    let ?p = "SkipWhitespace p"
    have f: "forward p ?p" "good ?p" using a(1) by (simp_all add: forward_SkipWhitespace good_SkipWhitespace)
    have "length (tokens ?p) = length (tokens p)" by (metis SkipWhitespace_facts(1) length_shape)
    then have "parsed_value parent ?p p'"
      using a(2-4) by (intro value_here_ok [OF Suc f(2)]) (auto simp: Let_def split: if_splits)
    with f(1) show "parsed_value parent p p'" by (rule parsed_value_forward)
  qed
qed

section \<open>Failing is recorded\<close>

text \<open>A method that returns \<open>False\<close> (or no index) has left an error in the record.\<close>

lemma error_json_Fail: "e \<noteq> JSON_OK \<Longrightarrow> error (json_Fail e off p) \<noteq> JSON_OK"
  by (simp add: json_Fail_def)

lemma error_AddToken: "AddToken ty start parent p = (None, p') \<Longrightarrow> error p' \<noteq> JSON_OK"
  by (auto simp: AddToken_def Let_def error_json_Fail split: if_splits)

lemma error_ParseEscape: "ParseEscape p = (False, p') \<Longrightarrow> error p' \<noteq> JSON_OK"
  by (auto simp: ParseEscape_def Let_def error_json_Fail split: if_splits option.splits)

lemma error_string_character: "string_character k p = (False, p') \<Longrightarrow> error p' \<noteq> JSON_OK"
  by (auto simp: string_character_def ConsumeUtf8_def Let_def error_json_Fail
      split: if_splits option.splits sum.splits)

lemma error_string_close: "string_close parent k start e p = (None, p') \<Longrightarrow> error p' \<noteq> JSON_OK"
  by (auto simp: string_close_def Let_def error_json_Fail error_AddToken
      split: if_splits option.splits prod.splits)

lemma error_string_loop: "string_loop parent k start e p = (None, p') \<Longrightarrow> error p' \<noteq> JSON_OK"
proof (induction parent k start e p rule: string_loop.induct)
  case (1 parent k start e p)
  from "1.prems" show ?case
    by (subst (asm) string_loop.simps)
      (auto simp: Let_def error_json_Fail dest: error_string_close error_ParseEscape
        error_string_character "1.IH" [OF _ refl] split: if_splits prod.splits bool.splits)
qed

lemma error_ParseString: "ParseString parent k p = (None, p') \<Longrightarrow> error p' \<noteq> JSON_OK"
  by (simp add: ParseString_def Let_def error_string_loop)

lemma error_finish_token: "finish_token ty start parent p = (False, p') \<Longrightarrow> error p' \<noteq> JSON_OK"
  by (auto simp: finish_token_def error_AddToken split: option.splits prod.splits)

lemma error_ParseLiteral: "ParseLiteral parent literal ty p = (False, p') \<Longrightarrow> error p' \<noteq> JSON_OK"
  by (auto simp: ParseLiteral_def error_json_Fail error_finish_token split: if_splits)

lemma error_number:
  "number_sign p = (False, p') \<Longrightarrow> error p' \<noteq> JSON_OK"
  "number_integer p = (False, p') \<Longrightarrow> error p' \<noteq> JSON_OK"
  "number_fraction p = (False, p') \<Longrightarrow> error p' \<noteq> JSON_OK"
  "number_exponent p = (False, p') \<Longrightarrow> error p' \<noteq> JSON_OK"
  by (auto simp: number_sign_def number_integer_def number_fraction_def number_exponent_def Let_def
      error_json_Fail split: if_splits)

lemma error_ParseNumber: "ParseNumber parent p = (False, p') \<Longrightarrow> error p' \<noteq> JSON_OK"
  by (auto simp: ParseNumber_def and_then_def error_number error_finish_token split: prod.splits bool.splits)

definition failing_recorded :: "(int \<Rightarrow> Parser \<Rightarrow> bool \<times> Parser) \<Rightarrow> bool" where
  "failing_recorded pv \<longleftrightarrow> (\<forall>parent p p'. pv parent p = (False, p') \<longrightarrow> error p' \<noteq> JSON_OK)"

lemma error_after_value: "after_value closing i p = Inl (False, p') \<Longrightarrow> error p' \<noteq> JSON_OK"
  by (auto simp: after_value_def Let_def error_json_Fail split: if_splits)

lemma error_turns:
  assumes "failing_recorded pv"
  shows "object_member pv i p = Inl (False, p') \<Longrightarrow> error p' \<noteq> JSON_OK"
    and "array_element pv i p = Inl (False, p') \<Longrightarrow> error p' \<noteq> JSON_OK"
  using assms
  by (auto simp: object_member_def array_element_def Let_def error_json_Fail failing_recorded_def
      dest: error_after_value error_ParseString split: if_splits option.splits prod.splits bool.splits)

lemma error_container_loop:
  assumes "\<And>p p'. turn p = Inl (False, p') \<Longrightarrow> error p' \<noteq> JSON_OK"
  shows "container_loop turn n p = (False, p') \<Longrightarrow> error p' \<noteq> JSON_OK"
  by (induction n arbitrary: p) (auto simp: error_json_Fail dest: assms split: if_splits sum.splits)

lemma error_ParseContainer:
  assumes "\<And>i p p'. turn i p = Inl (False, p') \<Longrightarrow> error p' \<noteq> JSON_OK"
    and "ParseContainer ty closing turn parent p = (False, p')"
  shows "error p' \<noteq> JSON_OK"
proof -
  have "error q' \<noteq> JSON_OK" if "container_loop (turn i) n q = (False, q')" for i n q q'
    using error_container_loop [of "turn i"] assms(1) that by blast
  with assms(2) show ?thesis
    by (auto simp: ParseContainer_def Let_def dest: error_AddToken split: if_splits option.splits prod.splits)
qed

lemma ParseValue_failing_recorded: "failing_recorded (ParseValue levels)"
proof (induction levels)
  case (Suc levels)
  have c1: "error p' \<noteq> JSON_OK" if "ParseObject (ParseValue levels) parent p = (False, p')" for parent p p'
    by (rule error_ParseContainer [OF error_turns(1) [OF Suc] that [unfolded ParseObject_def]])
  have c2: "error p' \<noteq> JSON_OK" if "ParseArray (ParseValue levels) parent p = (False, p')" for parent p p'
    by (rule error_ParseContainer [OF error_turns(2) [OF Suc] that [unfolded ParseArray_def]])
  show ?case
    unfolding failing_recorded_def
    by (auto simp: Let_def value_here_def error_json_Fail
        dest: c1 c2 error_ParseString error_ParseLiteral error_ParseNumber
        split: if_splits option.splits prod.splits)
qed (simp add: failing_recorded_def error_json_Fail)

section \<open>Whole documents\<close>

lemma ParseJson_success:
  assumes "ParseJson text given n depth = (r, ts)" "result_error r = JSON_OK"
  obtains p where "tokens p = ts" "result_token_count r = length ts" "capacity p = n"
    "json p = view_bytes text" "good p" "position p = view_size text" "ts \<noteq> []"
    "tok_parent (ts ! 0) = - 1" "subtree (view_bytes text) 0 (shape p)"
proof -
  let ?p = "SkipWhitespace \<lparr>json = view_bytes text, tokens = [], capacity = n, position = 0,
    error = JSON_OK, error_offset = 0\<rparr>"
  have g: "good ?p" by (rule good_SkipWhitespace) (simp add: good_def shape_def)
  from assms obtain p1 where p1: "ParseValue depth (- 1) ?p = (True, p1)"
    "\<not> view_null text" "tokens (SkipWhitespace p1) = ts" "result_token_count r = length ts"
    "position (SkipWhitespace p1) = length (json (SkipWhitespace p1))"
    using ParseValue_failing_recorded [of depth]
    by (auto simp: ParseJson_def json_Result_def Let_def failing_recorded_def
        split: if_splits prod.splits bool.splits)
  have pv: "parsed_value (- 1) ?p p1"
    using value_parser_okD [OF ParseValue_ok g _ _ p1(1)] by simp
  have sp: "shape ?p = []" "json ?p = view_bytes text" "capacity ?p = n"
    by (simp_all add: shape_def SkipWhitespace_def skip_while_def advance_def)
  from pv sp have q: "good p1" "json p1 = view_bytes text" "capacity p1 = n" "shape p1 \<noteq> []"
    "tok_parent (shape p1 ! 0) = - 1" "subtree (view_bytes text) 0 (shape p1)"
    by (auto simp: parsed_value_def moved_def)
  have "shape (SkipWhitespace p1) = map bare ts" using p1(3) by (simp add: shape_def)
  then have ts: "shape p1 = map bare ts" by simp
  show ?thesis
  proof (rule that [of "SkipWhitespace p1"])
    show "position (SkipWhitespace p1) = view_size text"
      using p1(2,5) q(2) by (cases "text") simp_all
    show "tok_parent (ts ! 0) = - 1" using q(4,5) ts by (cases ts) simp_all
    show "ts \<noteq> []" using q(4) ts by auto
    show "capacity (SkipWhitespace p1) = n"
      using q(3) by (simp add: SkipWhitespace_def skip_while_def advance_def)
  qed (simp_all add: p1 q good_SkipWhitespace)
qed

text \<open>
  (C25) When \<open>ParseJson\<close> reports success, the token array is a tree over the text: it is not empty
  and within the caller's capacity, the first token is the only root, every other token has an
  earlier token as its parent and its text lies inside its parent's text, and every range is
  inside the input.
\<close>

theorem ParseJson_tree:
  assumes "ParseJson text given n depth = (r, ts)" "result_error r = JSON_OK"
  shows "ts \<noteq> [] \<and> length ts \<le> n \<and> result_token_count r = length ts \<and> tok_parent (ts ! 0) = - 1
    \<and> (\<forall>j < length ts. tok_start (ts ! j) \<le> tok_end (ts ! j) \<and> tok_end (ts ! j) \<le> view_size text)
    \<and> (\<forall>j. 0 < j \<longrightarrow> j < length ts \<longrightarrow>
         0 \<le> tok_parent (ts ! j) \<and> tok_parent (ts ! j) < int j
         \<and> tok_start (ts ! nat (tok_parent (ts ! j))) \<le> tok_start (ts ! j)
         \<and> tok_end (ts ! j) \<le> tok_end (ts ! nat (tok_parent (ts ! j))))"
proof (rule ParseJson_success [OF assms])
  fix p
  assume p: "tokens p = ts" "good p" "position p = view_size text" "capacity p = n"
    "result_token_count r = length ts" "ts \<noteq> []" "tok_parent (ts ! 0) = - 1"
    and st: "subtree (view_bytes text) 0 (shape p)"
  have sh: "shape p ! j = bare (ts ! j)" if "j < length ts" for j
    using p(1) that by (simp add: shape_def)
  have tok: "token_ok (view_size text) j (ts ! j)" if "j < length ts" for j
    using p(1-3) sh [OF that] that by (auto simp: good_def token_ok_def)
  have inner: "0 \<le> tok_parent (ts ! j) \<and> nested (shape p) j" if "0 < j" "j < length ts" for j
  proof -
    have "0 \<le> tok_parent (shape p ! j)" "nested (shape p) j"
      using st p(1) that by (auto simp: subtree_def)
    then show ?thesis using sh [OF that(2)] by simp
  qed
  have par: "nat (tok_parent (ts ! j)) < length ts" if "0 < j" "j < length ts" for j
    using tok [OF that(2)] inner [OF that] that by (simp add: token_ok_def nat_less_iff)
  show ?thesis
    using p tok inner sh par by (simp add: nested_def token_ok_def good_def)
qed

text \<open>
  (C26) When \<open>ParseJson\<close> reports success, no object holds the same key twice: the key strings of an
  object (its children with an odd ordinal) have pairwise different texts.
\<close>

theorem ParseJson_keys_distinct:
  assumes "ParseJson text given n depth = (r, ts)" "result_error r = JSON_OK"
    and "object < length ts" "tok_type (ts ! object) = JSON_TOKEN_OBJECT"
    and "object < j" "j < k" "k < length ts"
    and "tok_parent (ts ! j) = int object" "tok_type (ts ! j) = JSON_TOKEN_STRING" "odd (ordinal ts object j)"
    and "tok_parent (ts ! k) = int object" "tok_type (ts ! k) = JSON_TOKEN_STRING" "odd (ordinal ts object k)"
  shows "token_text (view_bytes text) (ts ! j) \<noteq> token_text (view_bytes text) (ts ! k)"
proof (rule ParseJson_success [OF assms(1,2)])
  fix p
  assume p: "tokens p = ts" and st: "subtree (view_bytes text) 0 (shape p)"
  have sh: "shape p ! m = bare (ts ! m)" if "m < length ts" for m
    using p that by (simp add: shape_def)
  have key: "is_key (shape p) object m"
    if "object < m" "m < length ts" "tok_parent (ts ! m) = int object" "tok_type (ts ! m) = JSON_TOKEN_STRING"
      "odd (ordinal ts object m)" for m
    using that sh [of m] ordinal_bare [of m ts object] p by (simp add: is_key_def shape_def)
  have "keys_distinct (view_bytes text) (shape p) object"
    using st assms(3,4) sh [of object] p by (auto simp: subtree_def)
  then have "token_text (view_bytes text) (shape p ! j) \<noteq> token_text (view_bytes text) (shape p ! k)"
    using assms key p unfolding keys_distinct_def by simp
  then show ?thesis using sh assms(6,7) by (simp add: token_text_bare)
qed

end
