(* ===== verification/Json_Access.thy ===== *)
theory Json_Access
  imports Json_Tokens
begin

text \<open>
  What the accessors of \<open>json_parser.cpp\<close> return on the tokens of a document, stated against
  definitions that know no buffer and no word width, and concrete documents on which the theorems
  on \<open>ParseJson\<close> are applied.
\<close>

lemma ParseValue_numeral:
  "ParseValue (numeral k) parent p =
     (let p1 = SkipWhitespace p
      in if at_end p1 then (False, json_Fail JSON_ERROR_SYNTAX (position p1) p1)
         else value_here (ParseValue (pred_numeral k)) parent p1)"
  by (simp add: numeral_eq_Suc)

section \<open>Unsigned numbers\<close>

lemma uint64_loop_Cons:
  "uint64_loop (c # cs) v =
     (if \<not> is_digit c then Inl JSON_ERROR_TYPE
      else if 2 ^ 64 \<le> unat v * 10 + digit_value c then Inl JSON_ERROR_RANGE
      else uint64_loop cs (v * 10 + ucast (c - ch CHR ''0'')))"
  by (simp only: uint64_loop.simps Let_def is_digit_guard decimal_step(1))

lemma uint64_loop_iff:
  "uint64_loop ds v = Inr n \<longleftrightarrow> list_all is_digit ds \<and> unat n = decimal_value ds (unat v)"
proof (induction ds arbitrary: v)
  case Nil
  then show ?case by (auto intro: unsigned_word_eqI [where 'a = nat])
next
  case (Cons c cs)
  show ?case
  proof (cases "2 ^ 64 \<le> unat v * 10 + digit_value c")
    case True
    with decimal_value_too_big [OF True] show ?thesis
      by (simp add: uint64_loop_Cons del: uint64_loop.simps decimal_value.simps)
  next
    case False
    with Cons decimal_step(2) [of v c] show ?thesis
      by (simp add: uint64_loop_Cons linorder_not_le del: uint64_loop.simps)
  qed
qed

text \<open>
  \<open>JsonGetUint64\<close> is exact: it succeeds precisely on a number token that consists of digits
  only and whose value fits 64 bits, and then returns that value; signs, fractions, exponents and
  overflowing numbers are all refused.
\<close>

theorem JsonGetUint64_exact:
  "JsonGetUint64 (Some j) t True = Inr n \<longleftrightarrow>
     tok_type t = JSON_TOKEN_NUMBER \<and> tok_start t < tok_end t \<and> list_all is_digit (token_text j t)
     \<and> unat n = decimal_value (token_text j t) 0"
  by (auto simp: JsonGetUint64_def uint64_loop_iff)

section \<open>Strings\<close>

text \<open>The decoded bytes of a string, without an output buffer.\<close>

function json_unescape :: "bytes \<Rightarrow> bytes option" where
  "json_unescape [] = Some []"
| "json_unescape (c # rest) =
     (if c \<noteq> 0x5c then map_option (Cons c) (json_unescape rest)
      else
        (case rest of
           [] \<Rightarrow> None
         | e # rest' \<Rightarrow>
             if e = ch CHR ''u'' then
               (case unicode_escape rest' of
                  None \<Rightarrow> None
                | Some (codepoint, r) \<Rightarrow> map_option (append (utf8_bytes codepoint)) (json_unescape r))
             else
               (case simple_unescape e of
                  None \<Rightarrow> None
                | Some decoded \<Rightarrow> map_option (Cons decoded) (json_unescape rest'))))"
  by pat_completeness auto
termination
  by (relation "measure length") (auto dest: unicode_escape_shorter)

lemma length_utf8_bytes [simp]: "length (utf8_bytes c) = utf8_size c"
  by (simp add: utf8_bytes_def utf8_size_def)

lemma AppendUtf8_iff: "AppendUtf8 c n out = Some r \<longleftrightarrow> r = out @ utf8_bytes c \<and> length r < n"
  by (auto simp: AppendUtf8_def)

lemma copy_loop_iff:
  "length out < n \<Longrightarrow>
   copy_loop n s out = Inr r \<longleftrightarrow> (\<exists>d. json_unescape s = Some d \<and> r = out @ d \<and> length r < n)"
proof (induction n s out arbitrary: r rule: copy_loop.induct)
  case (1 n out)
  then show ?case by auto
next
  case (2 n c rest out)
  show ?case
  proof (cases "c = 0x5c")
    case False
    then show ?thesis
      using "2.IH"(1) "2.prems" by (auto simp: not_le)
  next
    case esc: True
    show ?thesis
    proof (cases rest)
      case Nil
      with esc show ?thesis by simp
    next
      case (Cons e rest')
      show ?thesis
      proof (cases "e = ch CHR ''u''")
        case True
        show ?thesis
        proof (cases "unicode_escape rest'")
          case None
          with esc Cons True show ?thesis by simp
        next
          case (Some x)
          obtain cp r' where x: "x = (cp, r')" by (cases x)
          have IH: "length out + utf8_size cp < n \<Longrightarrow> copy_loop n r' (out @ utf8_bytes cp) = Inr r \<longleftrightarrow>
              (\<exists>d. json_unescape r' = Some d \<and> r = (out @ utf8_bytes cp) @ d \<and> length r < n)"
            by (rule "2.IH"(2) [of e rest' x cp r']) (use esc Cons True Some x in \<open>simp_all add: AppendUtf8_def\<close>)
          show ?thesis
          proof (cases "length out + utf8_size cp < n")
            case small: True
            then have "copy_loop n (c # rest) out = copy_loop n r' (out @ utf8_bytes cp)"
              using esc Cons True Some x by (simp add: AppendUtf8_def)
            then show ?thesis using IH [OF small] esc Cons True Some x by auto
          next
            case big: False
            then have "copy_loop n (c # rest) out = Inl JSON_ERROR_OUTPUT_TOO_SMALL"
              using esc Cons True Some x by (simp add: AppendUtf8_def)
            then show ?thesis using big esc Cons True Some x by auto
          qed
        qed
      next
        case False
        show ?thesis
        proof (cases "simple_unescape e")
          case None
          with esc Cons False show ?thesis by simp
        next
          case (Some decoded)
          have IH: "length out + 1 < n \<Longrightarrow> copy_loop n rest' (out @ [decoded]) = Inr r \<longleftrightarrow>
              (\<exists>d. json_unescape rest' = Some d \<and> r = (out @ [decoded]) @ d \<and> length r < n)"
            using "2.IH"(3) [of e rest' decoded r] esc Cons False Some by simp
          show ?thesis
            using IH esc Cons False Some by (cases "length out + 1 < n") auto
        qed
      qed
    qed
  qed
qed

text \<open>
  \<open>JsonCopyString\<close> writes the decoded string and its NUL exactly when both fit the output
  buffer: the loop with its many size checks agrees with the decoder that has no buffer.
\<close>

theorem JsonCopyString_decodes:
  "JsonCopyString (Some j) t True n = Inr out \<longleftrightarrow>
     tok_type t = JSON_TOKEN_STRING \<and> length out \<le> n
     \<and> (\<exists>d. json_unescape (token_text j t) = Some d \<and> out = d @ [0])"
proof (cases "n = 0")
  case False
  then have c: "copy_loop n (token_text j t) [] = Inr d \<longleftrightarrow> json_unescape (token_text j t) = Some d \<and> length d < n"
    for d using copy_loop_iff [of "[]" n "token_text j t" d] by simp
  have "JsonCopyString (Some j) t True n = Inr out \<longleftrightarrow>
      tok_type t = JSON_TOKEN_STRING \<and> (\<exists>d. copy_loop n (token_text j t) [] = Inr d \<and> out = d @ [0])"
    using False by (auto simp: JsonCopyString_def split: sum.splits)
  then show ?thesis unfolding c by auto
qed (auto simp: JsonCopyString_def)

text \<open>
  A \<open>\u0000\<close> escape is decoded into a NUL byte in the middle of the output, so the C string
  the caller reads ends there.
\<close>

theorem JsonCopyString_embeds_nul:
  "JsonCopyString (Some (0x22 # 0x5c # ascii ''u0000x'' @ [0x22]))
     \<lparr>tok_type = JSON_TOKEN_STRING, tok_start = 1, tok_end = 8, tok_parent = - 1, tok_child_count = 0\<rparr>
     True 16 = Inr [0, ch CHR ''x'', 0]"
  by (simp add: JsonCopyString_def token_text_def unicode_escape_def JsonHexDigit_def AppendUtf8_def
      utf8_size_def utf8_bytes_def Let_def)


section \<open>A concrete document\<close>

text \<open>\<open>{"a":1,"b":[]}\<close>\<close>

definition sample_document :: bytes where
  "sample_document = [0x7b, 0x22, 0x61, 0x22, 0x3a, 0x31, 0x2c, 0x22, 0x62, 0x22, 0x3a, 0x5b, 0x5d, 0x7d]"

definition sample_tokens :: "JsonToken list" where
  "sample_tokens =
     [\<lparr>tok_type = JSON_TOKEN_OBJECT, tok_start = 0, tok_end = 14, tok_parent = - 1, tok_child_count = 4\<rparr>,
      \<lparr>tok_type = JSON_TOKEN_STRING, tok_start = 2, tok_end = 3, tok_parent = 0, tok_child_count = 0\<rparr>,
      \<lparr>tok_type = JSON_TOKEN_NUMBER, tok_start = 5, tok_end = 6, tok_parent = 0, tok_child_count = 0\<rparr>,
      \<lparr>tok_type = JSON_TOKEN_STRING, tok_start = 8, tok_end = 9, tok_parent = 0, tok_child_count = 0\<rparr>,
      \<lparr>tok_type = JSON_TOKEN_ARRAY, tok_start = 11, tok_end = 13, tok_parent = 0, tok_child_count = 0\<rparr>]"

lemma container_loop_numeral:
  "container_loop turn (numeral k) p =
     (if at_end p then (False, json_Fail JSON_ERROR_SYNTAX (position p) p)
      else (case turn p of Inl r \<Rightarrow> r | Inr p' \<Rightarrow> container_loop turn (pred_numeral k) p'))"
  by (simp add: numeral_eq_Suc)

text \<open>The equations that evaluate the parser on a concrete document.\<close>

lemmas json_evaluation =
  ParseJson_def ParseValue_numeral container_loop_numeral kMaximumJsonBytes_def SkipWhitespace_def
  skip_while_def advance_def is_whitespace_def value_here_def ParseObject_def ParseArray_def
  ParseContainer_def object_member_def after_value_def close_container_def ParseString_def
  string_loop.simps at_end_def current_def string_character_def string_close_def AddToken_def
  bump_children_def set_end_def HasDuplicateObjectKey_def token_text_def ParseNumber_def
  and_then_def number_sign_def number_integer_def number_fraction_def number_exponent_def
  digit_here_def is_digit_def finish_token_def json_Result_def Let_def

lemma sample_document_ok:
  "ParseJson (Bytes sample_document) True 8 4
   = (\<lparr>result_error = JSON_OK, result_token_count = 5, result_error_offset = 14\<rparr>, sample_tokens)"
  unfolding sample_document_def sample_tokens_def
  by (simp add: json_evaluation)

theorem ParseJson_tree_witness:
  "tok_parent (sample_tokens ! 0) = - 1 \<and> length sample_tokens \<le> 8
   \<and> tok_end (sample_tokens ! 4) \<le> tok_end (sample_tokens ! nat (tok_parent (sample_tokens ! 4)))"
  using ParseJson_tree [OF sample_document_ok] by (simp add: sample_tokens_def)

theorem ParseJson_keys_distinct_witness:
  "token_text sample_document (sample_tokens ! 1) \<noteq> token_text sample_document (sample_tokens ! 3)"
  using ParseJson_keys_distinct [OF sample_document_ok, of 0 1 3]
  by (simp add: sample_tokens_def ordinal_def upt_rec)

end
