(* ===== verification/Url_Policy.thy ===== *)
theory Url_Policy
  imports Update_Prelude
begin

text \<open>
  \<open>url_policy.cpp\<close> and the compile-time repository paths of \<open>github_repository_policy.h\<close>: which
  URLs the updater may contact for which purpose. Strings are C strings; the search functions
  return indices. The repository (owner and name) is fixed at build time, hence a parameter of
  the model with the production value \<open>production_repository\<close>. The main theorem is an exact
  grammar of the accepted URLs.
\<close>

section \<open>The code\<close>

definition kMaximumUpdateUrlBytes :: nat where "kMaximumUpdateUrlBytes = 2048"
definition kMaximumUpdateHostBytes :: nat where "kMaximumUpdateHostBytes = 96"
definition kMaximumUpdatePathBytes :: nat where "kMaximumUpdatePathBytes = 1856"

datatype UpdateUrlPurpose =
    Discovery | ReleaseAsset | Redirect | PreparedDraftDiscovery | AuthenticatedReleaseAsset
  | GitHubDeviceAuthorization

datatype UrlPolicyStatus =
    UrlOk | UrlInvalidArgument | TooLong | HttpsRequired | UserInfoForbidden | InvalidHost
  | InvalidPort | InvalidPath | QueryForbidden | FragmentForbidden | HostNotAllowed | PathNotAllowed

record ParsedUpdateUrl =
  host :: cstring
  path_and_query :: cstring
  port :: u16

record repository =
  repository_owner :: cstring
  repository_name :: cstring

definition production_repository :: repository where
  "production_repository = \<lparr>repository_owner = ascii ''kdre'', repository_name = ascii ''bmx''\<rparr>"

definition kGitHubLatestReleasePath :: "repository \<Rightarrow> cstring" where
  "kGitHubLatestReleasePath r =
     ascii ''/repos/'' @ repository_owner r @ ascii ''/'' @ repository_name r @ ascii ''/releases/latest''"

definition kGitHubReleaseDownloadPathPrefix :: "repository \<Rightarrow> cstring" where
  "kGitHubReleaseDownloadPathPrefix r =
     ascii ''/'' @ repository_owner r @ ascii ''/'' @ repository_name r @ ascii ''/releases/download/''"

definition kGitHubReleaseApiPathPrefix :: "repository \<Rightarrow> cstring" where
  "kGitHubReleaseApiPathPrefix r =
     ascii ''/repos/'' @ repository_owner r @ ascii ''/'' @ repository_name r @ ascii ''/releases/''"

definition kGitHubReleaseAssetApiPathPrefix :: "repository \<Rightarrow> cstring" where
  "kGitHubReleaseAssetApiPathPrefix r =
     ascii ''/repos/'' @ repository_owner r @ ascii ''/'' @ repository_name r @ ascii ''/releases/assets/''"

definition IsAsciiHostCharacter :: "byte \<Rightarrow> bool" where
  "IsAsciiHostCharacter c \<longleftrightarrow>
     (ch CHR ''a'' \<le> c \<and> c \<le> ch CHR ''z'') \<or> (ch CHR ''0'' \<le> c \<and> c \<le> ch CHR ''9'')
     \<or> c = ch CHR ''.'' \<or> c = ch CHR ''-''"

definition IsForbiddenRequestCharacter :: "byte \<Rightarrow> bool" where
  "IsForbiddenRequestCharacter c \<longleftrightarrow> c \<le> 0x20 \<or> c = 0x7f \<or> c = 0x5c"

definition IsGithubReleasePath :: "repository \<Rightarrow> cstring \<Rightarrow> bool" where
  "IsGithubReleasePath r path =
     (if \<not> starts_with path (kGitHubReleaseDownloadPathPrefix r) then False
      else
        (let tag = drop (length (kGitHubReleaseDownloadPathPrefix r)) path
         in case memchr (ch CHR ''/'') tag of
              None \<Rightarrow> False
            | Some slash \<Rightarrow>
                if slash = 0 \<or> drop (slash + 1) tag = [] then False
                else memchr (ch CHR ''/'') (drop (slash + 1) tag) = None))"

definition IsRedirectPath :: "cstring \<Rightarrow> bool" where
  "IsRedirectPath path =
     (case path of c # rest \<Rightarrow> c = ch CHR ''/'' \<and> rest \<noteq> [] | [] \<Rightarrow> False)"

definition IsDecimalDigit :: "byte \<Rightarrow> bool" where
  "IsDecimalDigit c \<longleftrightarrow> \<not> (c < ch CHR ''0'' \<or> c > ch CHR ''9'')"

definition IsPositiveDecimalSuffix :: "cstring \<Rightarrow> cstring \<Rightarrow> bool" where
  "IsPositiveDecimalSuffix path prefix =
     (if \<not> starts_with path prefix then False
      else
        (case drop (length prefix) path of
           [] \<Rightarrow> False
         | c # rest \<Rightarrow>
             if c < ch CHR ''1'' \<or> c > ch CHR ''9'' then False else list_all IsDecimalDigit rest))"

definition IsAuthorizedRedirectHost :: "cstring option \<Rightarrow> bool" where
  "IsAuthorizedRedirectHost h =
     (case h of
        None \<Rightarrow> False
      | Some s \<Rightarrow>
          s = ascii ''github.com'' \<or> s = ascii ''release-assets.githubusercontent.com''
          \<or> s = ascii ''objects.githubusercontent.com''
          \<or> s = ascii ''github-releases.githubusercontent.com'')"

text \<open>The purpose-specific tail of \<open>ParseAndAuthorizeUpdateUrl\<close>.\<close>

definition authorize :: "repository \<Rightarrow> UpdateUrlPurpose \<Rightarrow> cstring \<Rightarrow> cstring \<Rightarrow> UrlPolicyStatus" where
  "authorize r purpose h p =
     (if purpose = Discovery then
        (if h \<noteq> ascii ''api.github.com'' then HostNotAllowed
         else if p \<noteq> kGitHubLatestReleasePath r then PathNotAllowed
         else UrlOk)
      else if purpose = ReleaseAsset then
        (if h \<noteq> ascii ''github.com'' then HostNotAllowed
         else if \<not> IsGithubReleasePath r p then PathNotAllowed
         else UrlOk)
      else if purpose = PreparedDraftDiscovery then
        (if h \<noteq> ascii ''api.github.com'' then HostNotAllowed
         else if IsPositiveDecimalSuffix p (kGitHubReleaseApiPathPrefix r) then UrlOk
         else PathNotAllowed)
      else if purpose = AuthenticatedReleaseAsset then
        (if h \<noteq> ascii ''api.github.com'' then HostNotAllowed
         else if IsPositiveDecimalSuffix p (kGitHubReleaseAssetApiPathPrefix r) then UrlOk
         else PathNotAllowed)
      else if purpose = GitHubDeviceAuthorization then
        (if h \<noteq> ascii ''github.com'' then HostNotAllowed
         else if p = ascii ''/login/device/code'' \<or> p = ascii ''/login/oauth/access_token''
           then UrlOk
         else PathNotAllowed)
      else if \<not> IsAuthorizedRedirectHost (Some h) then HostNotAllowed
      else if \<not> IsRedirectPath p then PathNotAllowed
      else UrlOk)"

definition kScheme :: cstring where "kScheme = ascii ''https://''"

text \<open>
  The part behind the authority split: \<open>authority\<close> is what follows the scheme, \<open>path\<close> the index
  of its first slash. The output structure is threaded, as the code writes it field by field.
\<close>

definition parse_authority ::
  "repository \<Rightarrow> UpdateUrlPurpose \<Rightarrow> cstring \<Rightarrow> nat \<Rightarrow> ParsedUpdateUrl
   \<Rightarrow> UrlPolicyStatus \<times> ParsedUpdateUrl" where
  "parse_authority r purpose authority path parsed =
     (let before = take path authority; path_text = drop path authority
      in if memchr (ch CHR ''@'') before \<noteq> None then (UserInfoForbidden, parsed)
         else
           (let port_separator = memchr (ch CHR '':'') before;
                host_length = (case port_separator of Some i \<Rightarrow> i | None \<Rightarrow> path);
                host_text = take host_length authority
            in if host_length = 0 \<or> host_length \<ge> kMaximumUpdateHostBytes
                 then (InvalidHost, parsed)
               else if \<not> list_all IsAsciiHostCharacter host_text then (InvalidHost, parsed)
               else
                 (let parsed1 = parsed\<lparr>host := host_text, port := 443\<rparr>
                  in if (case port_separator of
                           None \<Rightarrow> False
                         | Some i \<Rightarrow> drop (i + 1) before \<noteq> ascii ''443'')
                       then (InvalidPort, parsed1)
                     else if length path_text = 0 \<or> length path_text \<ge> kMaximumUpdatePathBytes
                       then (InvalidPath, parsed1)
                     else if list_ex IsForbiddenRequestCharacter path_text then (InvalidPath, parsed1)
                     else
                       (let parsed2 = parsed1\<lparr>path_and_query := path_text\<rparr>
                        in if purpose \<noteq> Redirect \<and> memchr (ch CHR ''?'') path_text \<noteq> None
                             then (QueryForbidden, parsed2)
                           else (authorize r purpose host_text path_text, parsed2)))))"

definition ParseAndAuthorizeUpdateUrl ::
  "repository \<Rightarrow> cstring option \<Rightarrow> UpdateUrlPurpose \<Rightarrow> ParsedUpdateUrl option
   \<Rightarrow> UrlPolicyStatus \<times> ParsedUpdateUrl option" where
  "ParseAndAuthorizeUpdateUrl r url purpose parsed =
     (case (url, parsed) of
        (Some u, Some p) \<Rightarrow>
          if length u = 0 \<or> length u \<ge> kMaximumUpdateUrlBytes then (TooLong, parsed)
          else if \<not> starts_with u kScheme then (HttpsRequired, parsed)
          else
            (let authority = drop (length kScheme) u;
                 path = memchr (ch CHR ''/'') authority;
                 query_without_path = memchr (ch CHR ''?'') authority
             in if memchr (ch CHR ''#'') authority \<noteq> None then (FragmentForbidden, parsed)
                else
                  (case path of
                     None \<Rightarrow> (InvalidPath, parsed)
                   | Some i \<Rightarrow>
                       if (case query_without_path of Some q \<Rightarrow> q < i | None \<Rightarrow> False)
                         then (InvalidPath, parsed)
                       else if i = 0 then (InvalidPath, parsed)
                       else
                         (case parse_authority r purpose authority i p of
                            (st, p') \<Rightarrow> (st, Some p'))))
      | _ \<Rightarrow> (UrlInvalidArgument, parsed))"

fun UrlPolicyStatusString :: "UrlPolicyStatus \<Rightarrow> string" where
  "UrlPolicyStatusString UrlOk = ''ok''"
| "UrlPolicyStatusString UrlInvalidArgument = ''invalid argument''"
| "UrlPolicyStatusString TooLong = ''URL too long''"
| "UrlPolicyStatusString HttpsRequired = ''HTTPS required''"
| "UrlPolicyStatusString UserInfoForbidden = ''URL user-info forbidden''"
| "UrlPolicyStatusString InvalidHost = ''invalid URL host''"
| "UrlPolicyStatusString InvalidPort = ''only HTTPS port 443 allowed''"
| "UrlPolicyStatusString InvalidPath = ''invalid URL path''"
| "UrlPolicyStatusString QueryForbidden = ''URL query forbidden''"
| "UrlPolicyStatusString FragmentForbidden = ''URL fragment forbidden''"
| "UrlPolicyStatusString HostNotAllowed = ''URL host not allowed''"
| "UrlPolicyStatusString PathNotAllowed = ''URL path not allowed''"

section \<open>The grammar of accepted URLs\<close>

definition host_grammar :: "cstring \<Rightarrow> bool" where
  "host_grammar h \<longleftrightarrow> h \<noteq> [] \<and> length h < kMaximumUpdateHostBytes \<and> list_all IsAsciiHostCharacter h"

definition path_grammar :: "UpdateUrlPurpose \<Rightarrow> cstring \<Rightarrow> bool" where
  "path_grammar purpose p \<longleftrightarrow>
     (\<exists>rest. p = ch CHR ''/'' # rest) \<and> length p < kMaximumUpdatePathBytes
     \<and> \<not> list_ex IsForbiddenRequestCharacter p \<and> ch CHR ''#'' \<notin> set p
     \<and> (purpose = Redirect \<or> ch CHR ''?'' \<notin> set p)"

fun destination_allowed :: "repository \<Rightarrow> UpdateUrlPurpose \<Rightarrow> cstring \<Rightarrow> cstring \<Rightarrow> bool" where
  "destination_allowed r Discovery h p \<longleftrightarrow>
     h = ascii ''api.github.com'' \<and> p = kGitHubLatestReleasePath r"
| "destination_allowed r ReleaseAsset h p \<longleftrightarrow>
     h = ascii ''github.com''
     \<and> (\<exists>tag asset. p = kGitHubReleaseDownloadPathPrefix r @ tag @ [ch CHR ''/''] @ asset
          \<and> tag \<noteq> [] \<and> asset \<noteq> [] \<and> ch CHR ''/'' \<notin> set tag \<and> ch CHR ''/'' \<notin> set asset)"
| "destination_allowed r Redirect h p \<longleftrightarrow>
     h \<in> {ascii ''github.com'', ascii ''release-assets.githubusercontent.com'',
          ascii ''objects.githubusercontent.com'', ascii ''github-releases.githubusercontent.com''}
     \<and> 1 < length p"
| "destination_allowed r PreparedDraftDiscovery h p \<longleftrightarrow>
     h = ascii ''api.github.com''
     \<and> (\<exists>d ds. p = kGitHubReleaseApiPathPrefix r @ d # ds \<and> d \<noteq> ch CHR ''0''
          \<and> list_all IsDecimalDigit (d # ds))"
| "destination_allowed r AuthenticatedReleaseAsset h p \<longleftrightarrow>
     h = ascii ''api.github.com''
     \<and> (\<exists>d ds. p = kGitHubReleaseAssetApiPathPrefix r @ d # ds \<and> d \<noteq> ch CHR ''0''
          \<and> list_all IsDecimalDigit (d # ds))"
| "destination_allowed r GitHubDeviceAuthorization h p \<longleftrightarrow>
     h = ascii ''github.com''
     \<and> p \<in> {ascii ''/login/device/code'', ascii ''/login/oauth/access_token''}"

lemma IsGithubReleasePath_iff:
  "IsGithubReleasePath r p \<longleftrightarrow>
     (\<exists>tag asset. p = kGitHubReleaseDownloadPathPrefix r @ tag @ [ch CHR ''/''] @ asset
        \<and> tag \<noteq> [] \<and> asset \<noteq> [] \<and> ch CHR ''/'' \<notin> set tag \<and> ch CHR ''/'' \<notin> set asset)"
proof
  assume a: "IsGithubReleasePath r p"
  then obtain t where t: "p = kGitHubReleaseDownloadPathPrefix r @ t"
    by (auto simp: IsGithubReleasePath_def starts_with_iff split: if_splits)
  with a obtain i where i: "memchr (ch CHR ''/'') t = Some i" "i \<noteq> 0" "drop (i + 1) t \<noteq> []"
    "memchr (ch CHR ''/'') (drop (i + 1) t) = None"
    by (auto simp: IsGithubReleasePath_def Let_def split: if_splits option.splits)
  then obtain xs ys where "t = xs @ ch CHR ''/'' # ys" "ch CHR ''/'' \<notin> set xs" "i = length xs"
    by (auto simp: memchr_Some)
  with i t show "\<exists>tag asset. p = kGitHubReleaseDownloadPathPrefix r @ tag @ [ch CHR ''/''] @ asset
        \<and> tag \<noteq> [] \<and> asset \<noteq> [] \<and> ch CHR ''/'' \<notin> set tag \<and> ch CHR ''/'' \<notin> set asset"
    by (intro exI [of _ xs] exI [of _ ys]) (auto simp: memchr_None)
next
  assume "\<exists>tag asset. p = kGitHubReleaseDownloadPathPrefix r @ tag @ [ch CHR ''/''] @ asset
        \<and> tag \<noteq> [] \<and> asset \<noteq> [] \<and> ch CHR ''/'' \<notin> set tag \<and> ch CHR ''/'' \<notin> set asset"
  then obtain tag asset where p: "p = kGitHubReleaseDownloadPathPrefix r @ tag @ ch CHR ''/'' # asset"
    and "tag \<noteq> []" "asset \<noteq> []" "ch CHR ''/'' \<notin> set tag" "ch CHR ''/'' \<notin> set asset" by auto
  then show "IsGithubReleasePath r p"
    by (simp add: IsGithubReleasePath_def starts_with_def Let_def memchr_append memchr_None)
qed

lemma first_digit:
  "\<not> (c < ch CHR ''1'' \<or> c > ch CHR ''9'') \<longleftrightarrow> c \<noteq> ch CHR ''0'' \<and> IsDecimalDigit c"
proof -
  have "c < 49 \<longleftrightarrow> c < 48 \<or> c = (48 :: byte)"
    by (simp add: word_less_nat_alt word_unat_eq_iff) (auto simp: less_Suc_eq)
  then show ?thesis by (auto simp: IsDecimalDigit_def)
qed

lemma IsPositiveDecimalSuffix_iff:
  "IsPositiveDecimalSuffix p prefix \<longleftrightarrow>
     (\<exists>d ds. p = prefix @ d # ds \<and> d \<noteq> ch CHR ''0'' \<and> list_all IsDecimalDigit (d # ds))"
proof (cases "starts_with p prefix")
  case True
  then obtain t where t: "p = prefix @ t" by (auto simp: starts_with_iff)
  then show ?thesis
    using True first_digit
    by (cases t) (auto simp: IsPositiveDecimalSuffix_def)
next
  case False
  then show ?thesis by (auto simp: IsPositiveDecimalSuffix_def starts_with_iff)
qed

lemma authorize_ok_iff:
  assumes "\<exists>rest. p = ch CHR ''/'' # rest"
  shows "authorize r purpose h p = UrlOk \<longleftrightarrow> destination_allowed r purpose h p"
  using assms
  by (cases purpose)
    (auto simp: authorize_def IsGithubReleasePath_iff IsPositiveDecimalSuffix_iff
      IsAuthorizedRedirectHost_def IsRedirectPath_def)

text \<open>No separator of the URL syntax is a host character.\<close>

lemma host_separators:
  "\<not> IsAsciiHostCharacter (ch CHR ''/'')" "\<not> IsAsciiHostCharacter (ch CHR ''?'')"
  "\<not> IsAsciiHostCharacter (ch CHR ''#'')" "\<not> IsAsciiHostCharacter (ch CHR ''@'')"
  "\<not> IsAsciiHostCharacter (ch CHR '':'')"
  by (simp_all add: IsAsciiHostCharacter_def)

lemma host_no_separator:
  "list_all IsAsciiHostCharacter h \<Longrightarrow> \<not> IsAsciiHostCharacter c \<Longrightarrow> c \<notin> set h"
  by (auto simp: list_all_iff)

definition port_suffixes :: "cstring list" where
  "port_suffixes = [[], ascii '':443'']"

text \<open>\<open>parse_authority\<close> on an authority that is split into host, optional port and path.\<close>

lemma parse_authority_split:
  assumes host: "list_all IsAsciiHostCharacter h" and suffix: "s \<in> set port_suffixes"
    and path: "path = ch CHR ''/'' # ys"
  shows "parse_authority r purpose (h @ s @ path) (length h + length s) p0 = (UrlOk, p) \<longleftrightarrow>
         p = p0\<lparr>host := h, port := 443, path_and_query := path\<rparr>
         \<and> h \<noteq> [] \<and> length h < kMaximumUpdateHostBytes
         \<and> length path < kMaximumUpdatePathBytes \<and> \<not> list_ex IsForbiddenRequestCharacter path
         \<and> (purpose = Redirect \<or> ch CHR ''?'' \<notin> set path)
         \<and> destination_allowed r purpose h path"
proof -
  have h: "ch CHR ''@'' \<notin> set h" "ch CHR '':'' \<notin> set h"
    by (rule host_no_separator [OF host host_separators(4)])
      (rule host_no_separator [OF host host_separators(5)])
  have at: "memchr (ch CHR ''@'') (h @ s) = None"
    using h suffix by (auto simp: memchr_None port_suffixes_def)
  have hl: "(case memchr (ch CHR '':'') (h @ s) of None \<Rightarrow> length h + length s | Some i \<Rightarrow> i) = length h"
    and ps: "(case memchr (ch CHR '':'') (h @ s) of None \<Rightarrow> False
              | Some i \<Rightarrow> drop (i + 1) (h @ s) \<noteq> ascii ''443'') = False"
    using h suffix memchr_append [of "ch CHR '':''" h "ascii ''443''"] memchr_None [of "ch CHR '':''" h]
    by (auto simp: port_suffixes_def)
  have auth: "authorize r purpose h path = UrlOk \<longleftrightarrow> destination_allowed r purpose h path"
    using path by (intro authorize_ok_iff) auto
  have q: "memchr (ch CHR ''?'') path \<noteq> None \<longleftrightarrow> ch CHR ''?'' \<in> set path"
    by (simp add: memchr_None)
  have pre: "take (length h + length s) (h @ s @ path) = h @ s"
    "drop (length h + length s) (h @ s @ path) = path" "take (length h) (h @ s @ path) = h"
    by simp_all
  have "path \<noteq> []" by (simp add: path)
  then show ?thesis
    unfolding parse_authority_def Let_def pre at hl ps q auth [symmetric]
    using host by auto
qed

lemma parse_authority_suffix:
  assumes xs: "xs \<noteq> []" "ch CHR ''/'' \<notin> set xs"
    and ok: "parse_authority r purpose (xs @ ch CHR ''/'' # ys) (length xs) p0 = (UrlOk, p)"
  shows "\<exists>h s. xs = h @ s \<and> s \<in> set port_suffixes \<and> list_all IsAsciiHostCharacter h"
proof (cases "memchr (ch CHR '':'') xs")
  case None
  with ok have "list_all IsAsciiHostCharacter xs"
    by (auto simp: parse_authority_def Let_def split: if_splits)
  then show ?thesis by (intro exI [of _ xs] exI [of _ "[]"]) (simp add: port_suffixes_def)
next
  case (Some i)
  then obtain h q where q: "xs = h @ ch CHR '':'' # q" "i = length h"
    by (auto simp: memchr_Some)
  from ok Some have "list_all IsAsciiHostCharacter (take i xs)" "drop (i + 1) xs = ascii ''443''"
    by (auto simp: parse_authority_def Let_def q(2) split: if_splits)
  with q show ?thesis
    by (intro exI [of _ h] exI [of _ "ch CHR '':'' # q"]) (simp add: port_suffixes_def)
qed

lemma ParseAndAuthorizeUpdateUrl_ok_grammar:
  "ParseAndAuthorizeUpdateUrl r (Some url) purpose (Some p0) = (UrlOk, Some p) \<longleftrightarrow>
     length url < kMaximumUpdateUrlBytes
     \<and> (\<exists>h s path. s \<in> set port_suffixes \<and> url = kScheme @ h @ s @ path
          \<and> host_grammar h \<and> path_grammar purpose path \<and> destination_allowed r purpose h path
          \<and> p = p0\<lparr>host := h, port := 443, path_and_query := path\<rparr>)"
  (is "?L \<longleftrightarrow> ?R")
proof
  assume ?L
  then obtain A where A: "url = kScheme @ A" "length url < kMaximumUpdateUrlBytes" "ch CHR ''#'' \<notin> set A"
    by (auto simp: ParseAndAuthorizeUpdateUrl_def Let_def starts_with_iff memchr_None split: if_splits)
  with \<open>?L\<close> obtain i where i: "memchr (ch CHR ''/'') A = Some i" "i \<noteq> 0"
    and ok: "parse_authority r purpose A i p0 = (UrlOk, p)"
    by (auto simp: ParseAndAuthorizeUpdateUrl_def Let_def split: if_splits option.splits prod.splits)
  then obtain xs ys where xs: "A = xs @ ch CHR ''/'' # ys" "ch CHR ''/'' \<notin> set xs" "i = length xs"
    by (auto simp: memchr_Some)
  with i ok obtain h s where h: "xs = h @ s" "s \<in> set port_suffixes" "list_all IsAsciiHostCharacter h"
    using parse_authority_suffix [of xs r purpose ys p0 p] by auto
  with ok xs have "parse_authority r purpose (h @ s @ ch CHR ''/'' # ys) (length h + length s) p0 = (UrlOk, p)"
    by simp
  from this [unfolded parse_authority_split [OF h(3,2) refl]]
  have "host_grammar h \<and> path_grammar purpose (ch CHR ''/'' # ys)
        \<and> destination_allowed r purpose h (ch CHR ''/'' # ys)
        \<and> p = p0\<lparr>host := h, port := 443, path_and_query := ch CHR ''/'' # ys\<rparr>"
    using A(3) h(3) xs(1) by (simp add: host_grammar_def path_grammar_def)
  moreover have "url = kScheme @ h @ s @ (ch CHR ''/'' # ys)" using A(1) xs(1) h(1) by simp
  ultimately show ?R using A(2) h(2) by blast
next
  assume ?R
  then obtain h s path where u: "length url < kMaximumUpdateUrlBytes" "s \<in> set port_suffixes"
    "url = kScheme @ h @ s @ path" "host_grammar h" "path_grammar purpose path"
    "destination_allowed r purpose h path" "p = p0\<lparr>host := h, port := 443, path_and_query := path\<rparr>"
    by blast
  then obtain ys where ys: "path = ch CHR ''/'' # ys" by (auto simp: path_grammar_def)
  have hg: "list_all IsAsciiHostCharacter h" "h \<noteq> []" using u by (simp_all add: host_grammar_def)
  have no: "ch CHR ''/'' \<notin> set (h @ s)" "ch CHR ''?'' \<notin> set (h @ s)" "ch CHR ''#'' \<notin> set (h @ s)"
    using host_no_separator [OF hg(1) host_separators(1)] host_no_separator [OF hg(1) host_separators(2)]
      host_no_separator [OF hg(1) host_separators(3)] u(2)
    by (auto simp: port_suffixes_def)
  have slash: "memchr (ch CHR ''/'') (h @ s @ path) = Some (length h + length s)"
    using memchr_append [OF no(1), of ys] by (simp add: ys)
  have frag: "memchr (ch CHR ''#'') (h @ s @ path) = None"
    using no(3) u(5) by (auto simp: memchr_None path_grammar_def)
  have query: "\<not> q < length h + length s" if "memchr (ch CHR ''?'') (h @ s @ path) = Some q" for q
  proof -
    from that obtain as bs where "h @ s @ path = as @ ch CHR ''?'' # bs" "q = length as"
      by (auto simp: memchr_Some)
    then have "q < length h + length s \<Longrightarrow> (h @ s) ! q = ch CHR ''?''"
      by (metis append_assoc length_append nth_append nth_append_length)
    with no(2) show ?thesis by (metis length_append nth_mem)
  qed
  have "parse_authority r purpose (h @ s @ path) (length h + length s) p0 = (UrlOk, p)"
    unfolding parse_authority_split [OF hg(1) u(2) ys]
    using u by (auto simp: host_grammar_def path_grammar_def)
  with u slash frag query hg show ?L
    by (auto simp: ParseAndAuthorizeUpdateUrl_def Let_def starts_with_def kScheme_def
        split: option.splits)
qed

section \<open>Properties\<close>

text \<open>
  (C27) A URL is accepted exactly when it is \<open>https://\<close>, a host, nothing or \<open>:443\<close>, and a path,
  within the length limits, without user-info, fragment, control characters or backslash, with a
  query only in a redirect, and host and path are on the list for the purpose; the parsed
  structure then holds that host, that path and port 443.
\<close>

theorem ParseAndAuthorizeUpdateUrl_ok_iff:
  "ParseAndAuthorizeUpdateUrl r (Some url) purpose (Some p0) = (UrlOk, Some p) \<longleftrightarrow>
     length url < kMaximumUpdateUrlBytes
     \<and> (\<exists>h s path. s \<in> set port_suffixes \<and> url = kScheme @ h @ s @ path
          \<and> host_grammar h \<and> path_grammar purpose path \<and> destination_allowed r purpose h path
          \<and> p = p0\<lparr>host := h, port := 443, path_and_query := path\<rparr>)"
  by (rule ParseAndAuthorizeUpdateUrl_ok_grammar)

text \<open>
  (C28) Whatever the purpose, an accepted URL leads to one of five GitHub-owned hosts. For every
  purpose but a redirect its path is fixed by the build: a path under the releases of the pinned
  repository, on the host or on the interface, or, for the device authorization, one of the two
  login endpoints of \<open>github.com\<close>.
\<close>

theorem accepted_url_stays_in_repository:
  assumes "ParseAndAuthorizeUpdateUrl r (Some url) purpose (Some p0) = (UrlOk, Some p)"
  shows "host p \<in> {ascii ''api.github.com'', ascii ''github.com'',
                   ascii ''release-assets.githubusercontent.com'',
                   ascii ''objects.githubusercontent.com'',
                   ascii ''github-releases.githubusercontent.com''}
         \<and> (case purpose of
               Redirect \<Rightarrow> True
             | GitHubDeviceAuthorization \<Rightarrow>
                 host p = ascii ''github.com''
                 \<and> path_and_query p \<in> {ascii ''/login/device/code'', ascii ''/login/oauth/access_token''}
             | ReleaseAsset \<Rightarrow>
                 host p = ascii ''github.com''
                 \<and> (\<exists>t. path_and_query p = ascii ''/'' @ repository_owner r @ ascii ''/''
                            @ repository_name r @ ascii ''/releases/'' @ t)
             | _ \<Rightarrow>
                 host p = ascii ''api.github.com''
                 \<and> (\<exists>t. path_and_query p = ascii ''/repos/'' @ repository_owner r @ ascii ''/''
                            @ repository_name r @ ascii ''/releases/'' @ t))"
proof -
  from assms have "destination_allowed r purpose (host p) (path_and_query p)"
    by (auto simp: ParseAndAuthorizeUpdateUrl_ok_grammar)
  then show ?thesis
    by (cases purpose)
      (auto simp: kGitHubLatestReleasePath_def kGitHubReleaseDownloadPathPrefix_def
        kGitHubReleaseApiPathPrefix_def kGitHubReleaseAssetApiPathPrefix_def)
qed

definition sample_url :: cstring where
  "sample_url = ascii ''https://api.github.com:443/repos/kdre/bmx/releases/latest''"

definition sample_parsed :: ParsedUpdateUrl where
  "sample_parsed =
     \<lparr>host = ascii ''api.github.com'', path_and_query = ascii ''/repos/kdre/bmx/releases/latest'',
      port = 443\<rparr>"

lemma sample_url_ok:
  "ParseAndAuthorizeUpdateUrl production_repository (Some sample_url) Discovery
     (Some \<lparr>host = [], path_and_query = [], port = 0\<rparr>) = (UrlOk, Some sample_parsed)"
  by (simp add: ParseAndAuthorizeUpdateUrl_def sample_url_def sample_parsed_def kScheme_def
      starts_with_def kMaximumUpdateUrlBytes_def memchr_def parse_authority_def
      kMaximumUpdateHostBytes_def kMaximumUpdatePathBytes_def IsAsciiHostCharacter_def
      IsForbiddenRequestCharacter_def authorize_def kGitHubLatestReleasePath_def
      production_repository_def Let_def)

theorem accepted_url_stays_in_repository_witness:
  "host sample_parsed = ascii ''api.github.com'' \<and>
   (\<exists>t. path_and_query sample_parsed = ascii ''/repos/kdre/bmx/releases/'' @ t)"
  using accepted_url_stays_in_repository [OF sample_url_ok]
  by (simp add: sample_parsed_def production_repository_def)

end
