(* ===== verification/Github_Release.thy ===== *)
theory Github_Release
  imports Json_Access Url_Policy
begin

text \<open>
  \<open>github_release_parser.cpp\<close>: the parser of GitHub's release description and the selection of the
  release files. A character array is modelled by its bytes before the first NUL, or all its bytes
  when there is none, so it is terminated exactly when it is shorter than the array. A pointer to an
  element of \<open>assets\<close> is the index of the element. The theorems say what an accepted release and
  an accepted selection guarantee about names and download addresses.
\<close>

section \<open>The code\<close>

definition kMaximumGitHubReleaseResponseBytes :: nat where
  "kMaximumGitHubReleaseResponseBytes = 128 * 1024"
definition kMaximumGitHubReleaseAssets :: nat where "kMaximumGitHubReleaseAssets = 64"
definition kMaximumGitHubReleaseTagBytes :: nat where "kMaximumGitHubReleaseTagBytes = 128"
definition kMaximumGitHubAssetNameBytes :: nat where "kMaximumGitHubAssetNameBytes = 160"

record GitHubReleaseAsset =
  asset_id :: u64
  asset_name :: cstring
  asset_size :: u64
  browser_download_url :: cstring
  api_download_url :: cstring

record GitHubLatestRelease =
  release_id :: u64
  tag_name :: cstring
  draft :: bool
  prerelease :: bool
  assets :: "GitHubReleaseAsset array_view"

datatype GitHubReleaseKind = PublishedStable | PreparedDraft

record GitHubReleaseParseStorage =
  storage_tokens_given :: bool
  storage_token_capacity :: nat
  storage_assets_given :: bool
  storage_asset_capacity :: nat

datatype GitHubReleaseParseStatus =
    GitHubOk | GitHubInvalidArgument | ResponseTooLarge | GitHubStorageTooSmall | GitHubJsonInvalid
  | WrongRootType | GitHubMissingField | GitHubWrongType | GitHubInvalidValue | GitHubTooManyAssets
  | GitHubDuplicateAssetName | GitHubUrlRejected | GitHubUrlBindingMismatch | DraftForbidden
  | PrereleaseForbidden

record RequiredGitHubReleaseAssets =
  required_manifest :: "nat option"
  required_signature :: "nat option"
  required_board_zip :: "nat option"

record GitHubReleaseMetadataAssets =
  metadata_manifest :: "nat option"
  metadata_signature :: "nat option"

datatype RequiredGitHubAssetsStatus =
    AssetsOk | AssetsInvalidArgument | IneligibleRelease | InvalidSignedTag | InvalidBoardZipName
  | SignedTagMismatch | TooManyAssets | DuplicateAssetName | AssetUrlRejected
  | AssetUrlBindingMismatch | MissingManifest | MissingSignature | MissingBoardZip

definition kManifestAssetName :: cstring where "kManifestAssetName = ascii ''BMX-RELEASE.json''"
definition kSignatureAssetName :: cstring where "kSignatureAssetName = ascii ''BMX-RELEASE.sig''"

datatype CopyStringStatus = CopyOk | CopyWrongType | CopyEmpty | CopyTooLong | CopyUnsafeCharacter

definition unsafe_character :: "byte \<Rightarrow> bool" where
  "unsafe_character c \<longleftrightarrow> c < 0x21 \<or> c > 0x7e \<or> c = 0x5c"

text \<open>\<open>output_size\<close> is the size of the array; a failing copy leaves the array alone.\<close>

definition CopyUnescapedAsciiString :: "bytes \<Rightarrow> JsonToken \<Rightarrow> nat \<Rightarrow> CopyStringStatus + cstring" where
  "CopyUnescapedAsciiString text t output_size =
     (let len = tok_end t - tok_start t
      in if tok_type t \<noteq> JSON_TOKEN_STRING then Inl CopyWrongType
         else if len = 0 then Inl CopyEmpty
         else if len \<ge> output_size then Inl CopyTooLong
         else if list_ex unsafe_character (token_text text t) then Inl CopyUnsafeCharacter
         else Inr (token_text text t))"

definition IsSafeIdentifierCharacter :: "byte \<Rightarrow> bool" where
  "IsSafeIdentifierCharacter c \<longleftrightarrow>
     (c \<ge> ch CHR ''a'' \<and> c \<le> ch CHR ''z'') \<or> (c \<ge> ch CHR ''A'' \<and> c \<le> ch CHR ''Z'')
     \<or> (c \<ge> ch CHR ''0'' \<and> c \<le> ch CHR ''9'') \<or> c = ch CHR ''.'' \<or> c = ch CHR ''_'' \<or> c = ch CHR ''-''"

definition BoundedLength :: "cstring \<Rightarrow> nat \<Rightarrow> nat" where
  "BoundedLength v maximum = (if length v \<le> maximum then length v else maximum + 1)"

definition IsSafeIdentifier :: "cstring \<Rightarrow> nat \<Rightarrow> bool" where
  "IsSafeIdentifier v maximum =
     (let len = BoundedLength v maximum
      in if len = 0 \<or> len > maximum then False
         else list_all IsSafeIdentifierCharacter (take len v))"

definition IsSafeTag :: "cstring \<Rightarrow> bool" where
  "IsSafeTag tag = IsSafeIdentifier tag kMaximumGitHubReleaseTagBytes"

definition IsSafeAssetName :: "cstring \<Rightarrow> bool" where
  "IsSafeAssetName name \<longleftrightarrow>
     IsSafeIdentifier name kMaximumGitHubAssetNameBytes \<and> name \<noteq> ascii ''.'' \<and> name \<noteq> ascii ''..''"

definition IsNullTerminatedUrl :: "cstring \<Rightarrow> bool" where
  "IsNullTerminatedUrl url =
     (let len = BoundedLength url (kMaximumUpdateUrlBytes - 1)
      in len > 0 \<and> len < kMaximumUpdateUrlBytes)"

datatype AssetUrlStatus = AssetUrlOk | Rejected | BindingMismatch

definition blank_url :: ParsedUpdateUrl where
  "blank_url = \<lparr>host = [], path_and_query = [], port = 0\<rparr>"

definition ValidateAssetUrl :: "repository \<Rightarrow> GitHubReleaseAsset \<Rightarrow> cstring \<Rightarrow> AssetUrlStatus" where
  "ValidateAssetUrl r asset tag =
     (if \<not> IsSafeTag tag \<or> \<not> IsSafeAssetName (asset_name asset)
         \<or> \<not> IsNullTerminatedUrl (browser_download_url asset)
      then BindingMismatch
      else
        (case ParseAndAuthorizeUpdateUrl r (Some (browser_download_url asset)) ReleaseAsset (Some blank_url) of
           (st, parsed) \<Rightarrow>
             if st \<noteq> UrlOk then Rejected
             else
               (let path = path_and_query (the parsed)
                in if \<not> starts_with path (kGitHubReleaseDownloadPathPrefix r) then BindingMismatch
                   else
                     (let url_tag = drop (length (kGitHubReleaseDownloadPathPrefix r)) path
                      in case memchr (ch CHR ''/'') url_tag of
                           None \<Rightarrow> BindingMismatch
                         | Some url_tag_length \<Rightarrow>
                             if url_tag_length \<noteq> length tag \<or> take (length tag) url_tag \<noteq> tag
                                \<or> drop (url_tag_length + 1) url_tag \<noteq> asset_name asset
                             then BindingMismatch else AssetUrlOk))))"

definition MapCopyStatus :: "CopyStringStatus \<Rightarrow> GitHubReleaseParseStatus" where
  "MapCopyStatus st = (if st = CopyWrongType then GitHubWrongType else GitHubInvalidValue)"

definition RequiredMember :: "bytes \<Rightarrow> JsonToken list \<Rightarrow> nat \<Rightarrow> string \<Rightarrow> nat option" where
  "RequiredMember text ts object name =
     JsonFindObjectMember (Some text) (Some ts) (int object) (Some (ascii name))"

definition SameName :: "GitHubReleaseAsset \<Rightarrow> GitHubReleaseAsset \<Rightarrow> bool" where
  "SameName left right \<longleftrightarrow> asset_name left = asset_name right"

definition ResetRelease :: GitHubLatestRelease where
  "ResetRelease =
     \<lparr>release_id = 0, tag_name = [], draft = True, prerelease = True, assets = Array []\<rparr>"

definition EligibleKind :: "GitHubLatestRelease \<Rightarrow> GitHubReleaseKind \<Rightarrow> bool" where
  "EligibleKind release kind =
     (if kind = PreparedDraft then draft release \<and> \<not> prerelease release
      else \<not> draft release \<and> \<not> prerelease release)"

definition ValidateApiAssetUrl :: "repository \<Rightarrow> GitHubReleaseAsset \<Rightarrow> bool" where
  "ValidateApiAssetUrl r asset \<longleftrightarrow>
     asset_id asset \<noteq> 0 \<and> api_download_url asset \<noteq> []
     \<and> fst (ParseAndAuthorizeUpdateUrl r (Some (api_download_url asset)) AuthenticatedReleaseAsset
              (Some blank_url)) = UrlOk"

definition ResetRequired :: RequiredGitHubReleaseAssets where
  "ResetRequired =
     \<lparr>required_manifest = None, required_signature = None, required_board_zip = None\<rparr>"

text \<open>The checks both selections make on every asset; \<open>earlier\<close> are the assets before it.\<close>

definition asset_refused ::
  "repository \<Rightarrow> GitHubReleaseKind \<Rightarrow> cstring \<Rightarrow> GitHubReleaseAsset list \<Rightarrow> GitHubReleaseAsset
   \<Rightarrow> RequiredGitHubAssetsStatus option" where
  "asset_refused r kind tag earlier asset =
     (if \<not> IsSafeAssetName (asset_name asset) \<or> \<not> IsNullTerminatedUrl (browser_download_url asset)
         \<or> (kind = PreparedDraft \<and> \<not> ValidateApiAssetUrl r asset)
        then Some AssetUrlBindingMismatch
      else if list_ex (\<lambda>e. asset_name e = asset_name asset) earlier then Some DuplicateAssetName
      else
        (case ValidateAssetUrl r asset tag of
           Rejected \<Rightarrow> Some AssetUrlRejected
         | BindingMismatch \<Rightarrow> Some AssetUrlBindingMismatch
         | AssetUrlOk \<Rightarrow> None))"

fun metadata_loop ::
  "repository \<Rightarrow> GitHubReleaseKind \<Rightarrow> cstring \<Rightarrow> GitHubReleaseAsset list \<Rightarrow> GitHubReleaseAsset list
   \<Rightarrow> GitHubReleaseMetadataAssets \<Rightarrow> RequiredGitHubAssetsStatus \<times> GitHubReleaseMetadataAssets" where
  "metadata_loop r kind tag earlier [] m =
     ((if metadata_manifest m = None then MissingManifest
       else if metadata_signature m = None then MissingSignature else AssetsOk), m)"
| "metadata_loop r kind tag earlier (asset # later) m =
     (case asset_refused r kind tag earlier asset of
        Some e \<Rightarrow> (e, m)
      | None \<Rightarrow>
          metadata_loop r kind tag (earlier @ [asset]) later
            (if asset_name asset = kManifestAssetName then m\<lparr>metadata_manifest := Some (length earlier)\<rparr>
             else if asset_name asset = kSignatureAssetName
               then m\<lparr>metadata_signature := Some (length earlier)\<rparr>
             else m))"

text \<open>The output structure is present; a null pointer to it is refused first.\<close>

definition FindReleaseMetadataAssetsForKind ::
  "repository \<Rightarrow> GitHubLatestRelease \<Rightarrow> GitHubReleaseKind
   \<Rightarrow> RequiredGitHubAssetsStatus \<times> GitHubReleaseMetadataAssets" where
  "FindReleaseMetadataAssetsForKind r release kind =
     (let m = \<lparr>metadata_manifest = None, metadata_signature = None\<rparr>
      in case assets release of
           NullArray n \<Rightarrow> (AssetsInvalidArgument, m)
         | Array as \<Rightarrow>
             if \<not> EligibleKind release kind then (IneligibleRelease, m)
             else if \<not> IsSafeTag (tag_name release) then (InvalidSignedTag, m)
             else if length as > kMaximumGitHubReleaseAssets then (TooManyAssets, m)
             else metadata_loop r kind (tag_name release) [] as m)"

definition FindReleaseMetadataAssets ::
  "repository \<Rightarrow> GitHubLatestRelease \<Rightarrow> RequiredGitHubAssetsStatus \<times> GitHubReleaseMetadataAssets" where
  "FindReleaseMetadataAssets r release = FindReleaseMetadataAssetsForKind r release PublishedStable"

fun required_loop ::
  "repository \<Rightarrow> GitHubReleaseKind \<Rightarrow> cstring \<Rightarrow> cstring \<Rightarrow> GitHubReleaseAsset list
   \<Rightarrow> GitHubReleaseAsset list \<Rightarrow> RequiredGitHubReleaseAssets
   \<Rightarrow> RequiredGitHubAssetsStatus \<times> RequiredGitHubReleaseAssets" where
  "required_loop r kind tag zip_name earlier [] q =
     ((if required_manifest q = None then MissingManifest
       else if required_signature q = None then MissingSignature
       else if required_board_zip q = None then MissingBoardZip else AssetsOk), q)"
| "required_loop r kind tag zip_name earlier (asset # later) q =
     (case asset_refused r kind tag earlier asset of
        Some e \<Rightarrow> (e, q)
      | None \<Rightarrow>
          required_loop r kind tag zip_name (earlier @ [asset]) later
            (if asset_name asset = kManifestAssetName then q\<lparr>required_manifest := Some (length earlier)\<rparr>
             else if asset_name asset = kSignatureAssetName
               then q\<lparr>required_signature := Some (length earlier)\<rparr>
             else if asset_name asset = zip_name then q\<lparr>required_board_zip := Some (length earlier)\<rparr>
             else q))"

definition FindRequiredAssetsForKind ::
  "repository \<Rightarrow> GitHubLatestRelease \<Rightarrow> GitHubReleaseKind \<Rightarrow> cstring option \<Rightarrow> cstring option
   \<Rightarrow> RequiredGitHubAssetsStatus \<times> RequiredGitHubReleaseAssets" where
  "FindRequiredAssetsForKind r release kind signed_manifest_tag signed_board_zip_name =
     (case (assets release, signed_manifest_tag, signed_board_zip_name) of
        (Array as, Some tag, Some zip_name) \<Rightarrow>
          if \<not> EligibleKind release kind then (IneligibleRelease, ResetRequired)
          else if \<not> IsSafeTag tag then (InvalidSignedTag, ResetRequired)
          else if \<not> IsSafeAssetName zip_name \<or> zip_name = kManifestAssetName \<or> zip_name = kSignatureAssetName
            then (InvalidBoardZipName, ResetRequired)
          else if \<not> IsSafeTag (tag_name release) \<or> tag_name release \<noteq> tag
            then (SignedTagMismatch, ResetRequired)
          else if length as > kMaximumGitHubReleaseAssets then (TooManyAssets, ResetRequired)
          else required_loop r kind tag zip_name [] as ResetRequired
      | _ \<Rightarrow> (AssetsInvalidArgument, ResetRequired))"

definition FindRequiredAssets ::
  "repository \<Rightarrow> GitHubLatestRelease \<Rightarrow> cstring option \<Rightarrow> cstring option
   \<Rightarrow> RequiredGitHubAssetsStatus \<times> RequiredGitHubReleaseAssets" where
  "FindRequiredAssets r release signed_manifest_tag signed_board_zip_name =
     FindRequiredAssetsForKind r release PublishedStable signed_manifest_tag signed_board_zip_name"

definition GitHubAssetDownloadUrl :: "GitHubReleaseAsset \<Rightarrow> GitHubReleaseKind \<Rightarrow> cstring" where
  "GitHubAssetDownloadUrl asset kind =
     (if kind = PreparedDraft then api_download_url asset else browser_download_url asset)"

text \<open>\<open>printf ("%llu")\<close>.\<close>

fun decimal_text :: "nat \<Rightarrow> cstring" where
  "decimal_text n =
     (if n < 10 then [ch CHR ''0'' + of_nat n]
      else decimal_text (n div 10) @ [ch CHR ''0'' + of_nat (n mod 10)])"

declare decimal_text.simps [simp del]

definition api_url :: "repository \<Rightarrow> u64 \<Rightarrow> cstring" where
  "api_url r i =
     ascii ''https://api.github.com'' @ kGitHubReleaseAssetApiPathPrefix r @ decimal_text (unat i)"

text \<open>An optional identifier: absent it stays 0, present it is a positive number.\<close>

definition read_id :: "bytes \<Rightarrow> JsonToken list \<Rightarrow> nat option \<Rightarrow> GitHubReleaseParseStatus + u64" where
  "read_id text ts i =
     (case i of
        None \<Rightarrow> Inr 0
      | Some k \<Rightarrow>
          (case JsonGetUint64 (Some text) (ts ! k) True of
             Inr v \<Rightarrow> if v = 0 then Inl (if tok_type (ts ! k) = JSON_TOKEN_NUMBER then GitHubInvalidValue
                                        else GitHubWrongType)
                      else Inr v
           | Inl e \<Rightarrow> Inl (if tok_type (ts ! k) = JSON_TOKEN_NUMBER then GitHubInvalidValue
                          else GitHubWrongType)))"

text \<open>The checks on an asset whose fields have been read, in the order of the code.\<close>

definition admit_asset ::
  "repository \<Rightarrow> cstring \<Rightarrow> GitHubReleaseAsset list \<Rightarrow> GitHubReleaseAsset
   \<Rightarrow> GitHubReleaseParseStatus + GitHubReleaseAsset" where
  "admit_asset r tag earlier a =
     (let a1 = (if asset_id a \<noteq> 0 then a\<lparr>api_download_url := api_url r (asset_id a)\<rparr> else a)
      in if asset_id a \<noteq> 0 \<and> (length (api_url r (asset_id a)) \<ge> kMaximumUpdateUrlBytes
                              \<or> \<not> ValidateApiAssetUrl r a1)
           then Inl GitHubUrlBindingMismatch
         else if list_ex (\<lambda>e. SameName e a1) earlier then Inl GitHubDuplicateAssetName
         else
           (case ValidateAssetUrl r a1 tag of
              Rejected \<Rightarrow> Inl GitHubUrlRejected
            | BindingMismatch \<Rightarrow> Inl GitHubUrlBindingMismatch
            | AssetUrlOk \<Rightarrow> Inr a1))"

definition parse_asset ::
  "repository \<Rightarrow> bytes \<Rightarrow> JsonToken list \<Rightarrow> GitHubReleaseKind \<Rightarrow> cstring \<Rightarrow> GitHubReleaseAsset list
   \<Rightarrow> nat \<Rightarrow> GitHubReleaseParseStatus + GitHubReleaseAsset" where
  "parse_asset r text ts kind tag earlier asset_object =
     (let name = RequiredMember text ts asset_object ''name'';
          i = RequiredMember text ts asset_object ''id'';
          size = RequiredMember text ts asset_object ''size'';
          url = RequiredMember text ts asset_object ''browser_download_url''
      in if name = None \<or> size = None \<or> url = None \<or> (kind = PreparedDraft \<and> i = None)
           then Inl GitHubMissingField
         else
           (case read_id text ts i of Inl e \<Rightarrow> Inl e | Inr v \<Rightarrow>
            case CopyUnescapedAsciiString text (ts ! the name) (kMaximumGitHubAssetNameBytes + 1) of
              Inl e \<Rightarrow> Inl (MapCopyStatus e)
            | Inr n \<Rightarrow>
                if \<not> IsSafeAssetName n then Inl GitHubInvalidValue
                else
                  (case JsonGetUint64 (Some text) (ts ! the size) True of
                     Inl e \<Rightarrow> Inl (if tok_type (ts ! the size) = JSON_TOKEN_NUMBER
                                  then GitHubInvalidValue else GitHubWrongType)
                   | Inr s \<Rightarrow>
                       (case CopyUnescapedAsciiString text (ts ! the url) kMaximumUpdateUrlBytes of
                          Inl e \<Rightarrow> Inl (MapCopyStatus e)
                        | Inr u \<Rightarrow>
                            admit_asset r tag earlier
                              \<lparr>asset_id = v, asset_name = n, asset_size = s,
                               browser_download_url = u, api_download_url = []\<rparr>))))"

fun assets_loop ::
  "repository \<Rightarrow> bytes \<Rightarrow> JsonToken list \<Rightarrow> GitHubReleaseKind \<Rightarrow> cstring \<Rightarrow> nat \<Rightarrow> nat
   \<Rightarrow> GitHubReleaseAsset list \<Rightarrow> nat list \<Rightarrow> GitHubReleaseParseStatus + GitHubReleaseAsset list" where
  "assets_loop r text ts kind tag array asset_count out [] = Inr out"
| "assets_loop r text ts kind tag array asset_count out (i # is) =
     (if \<not> length out < asset_count then Inr out
      else if tok_parent (ts ! i) \<noteq> int array
        then assets_loop r text ts kind tag array asset_count out is
      else if tok_type (ts ! i) \<noteq> JSON_TOKEN_OBJECT then Inl GitHubWrongType
      else
        (case parse_asset r text ts kind tag out i of
           Inl e \<Rightarrow> Inl e
         | Inr a \<Rightarrow> assets_loop r text ts kind tag array asset_count (out @ [a]) is))"

text \<open>The part behind the header fields: \<open>array\<close> is the token of the assets.\<close>

definition parse_assets ::
  "repository \<Rightarrow> bytes \<Rightarrow> JsonToken list \<Rightarrow> GitHubReleaseParseStorage \<Rightarrow> GitHubReleaseKind
   \<Rightarrow> nat \<Rightarrow> GitHubLatestRelease \<Rightarrow> GitHubReleaseParseStatus \<times> GitHubLatestRelease" where
  "parse_assets r text ts store kind array release =
     (let asset_count = tok_child_count (ts ! array)
      in if asset_count > kMaximumGitHubReleaseAssets then (GitHubTooManyAssets, release)
         else if asset_count > storage_asset_capacity store then (GitHubStorageTooSmall, release)
         else
           (case assets_loop r text ts kind (tag_name release) array asset_count []
                   [array + 1 ..< length ts] of
              Inl e \<Rightarrow> (e, release)
            | Inr out \<Rightarrow>
                if length out \<noteq> asset_count then (GitHubJsonInvalid, release)
                else (GitHubOk, release\<lparr>assets := Array out\<rparr>)))"

text \<open>The flags, in the order in which the code writes and tests them.\<close>

definition parse_flags ::
  "repository \<Rightarrow> bytes \<Rightarrow> JsonToken list \<Rightarrow> GitHubReleaseParseStorage \<Rightarrow> GitHubReleaseKind
   \<Rightarrow> nat \<Rightarrow> nat \<Rightarrow> nat \<Rightarrow> GitHubLatestRelease \<Rightarrow> GitHubReleaseParseStatus \<times> GitHubLatestRelease" where
  "parse_flags r text ts store kind draft_tok prerelease_tok array release =
     (case JsonGetBool (ts ! draft_tok) True of
        Inl e \<Rightarrow> (GitHubWrongType, release)
      | Inr d \<Rightarrow>
          (let release1 = release\<lparr>draft := d\<rparr>
           in case JsonGetBool (ts ! prerelease_tok) True of
                Inl e \<Rightarrow> (GitHubWrongType, release1)
              | Inr p \<Rightarrow>
                  (let release2 = release1\<lparr>prerelease := p\<rparr>
                   in if tok_type (ts ! array) \<noteq> JSON_TOKEN_ARRAY then (GitHubWrongType, release2)
                      else if draft release2 \<and> kind \<noteq> PreparedDraft then (DraftForbidden, release2)
                      else if prerelease release2 then (PrereleaseForbidden, release2)
                      else if kind = PreparedDraft \<and> \<not> draft release2 then (DraftForbidden, release2)
                      else parse_assets r text ts store kind array release2)))"

definition parse_release ::
  "repository \<Rightarrow> bytes \<Rightarrow> JsonToken list \<Rightarrow> GitHubReleaseParseStorage \<Rightarrow> GitHubReleaseKind
   \<Rightarrow> GitHubReleaseParseStatus \<times> GitHubLatestRelease" where
  "parse_release r text ts store kind =
     (let i = RequiredMember text ts 0 ''id'';
          tag = RequiredMember text ts 0 ''tag_name'';
          draft_tok = RequiredMember text ts 0 ''draft'';
          prerelease_tok = RequiredMember text ts 0 ''prerelease'';
          array = RequiredMember text ts 0 ''assets'';
          release = ResetRelease
      in if tag = None \<or> draft_tok = None \<or> prerelease_tok = None \<or> array = None
            \<or> (kind = PreparedDraft \<and> i = None)
           then (GitHubMissingField, release)
         else
           (case read_id text ts i of Inl e \<Rightarrow> (e, release) | Inr v \<Rightarrow>
            (let release1 = release\<lparr>release_id := v\<rparr>
             in case CopyUnescapedAsciiString text (ts ! the tag) (kMaximumGitHubReleaseTagBytes + 1) of
                  Inl e \<Rightarrow> (MapCopyStatus e, release1)
                | Inr t \<Rightarrow>
                    (let release2 = release1\<lparr>tag_name := t\<rparr>
                     in if \<not> IsSafeTag t then (GitHubInvalidValue, release2)
                        else parse_flags r text ts store kind (the draft_tok) (the prerelease_tok)
                               (the array) release2))))"

text \<open>\<open>None\<close> for the release when the structure is not touched.\<close>

definition ParseGitHubRelease ::
  "repository \<Rightarrow> byte_view \<Rightarrow> GitHubReleaseParseStorage \<Rightarrow> GitHubReleaseKind \<Rightarrow> bool
   \<Rightarrow> (GitHubReleaseParseStatus \<times> GitHubLatestRelease option) \<times> JsonParseResult" where
  "ParseGitHubRelease r encoded store kind release_given =
     (let none = \<lparr>result_error = JSON_ERROR_ARGUMENT, result_token_count = 0, result_error_offset = 0\<rparr>
      in if \<not> release_given \<or> view_null encoded \<or> view_size encoded = 0
            \<or> \<not> storage_tokens_given store \<or> \<not> storage_assets_given store
           then ((GitHubInvalidArgument, None), none)
         else if view_size encoded > kMaximumGitHubReleaseResponseBytes
           then ((ResponseTooLarge, Some ResetRelease), none)
         else if storage_token_capacity store = 0 \<or> storage_asset_capacity store = 0
           then ((GitHubStorageTooSmall, Some ResetRelease), none)
         else
           (case ParseJson encoded True (storage_token_capacity store) 32 of
              (parsed, ts) \<Rightarrow>
                ((if result_error parsed = JSON_ERROR_TOKEN_LIMIT
                    then (GitHubStorageTooSmall, Some ResetRelease)
                  else if result_error parsed \<noteq> JSON_OK then (GitHubJsonInvalid, Some ResetRelease)
                  else if result_token_count parsed = 0 \<or> tok_type (ts ! 0) \<noteq> JSON_TOKEN_OBJECT
                    then (WrongRootType, Some ResetRelease)
                  else map_prod id Some (parse_release r (view_bytes encoded) ts store kind)), parsed)))"

definition ParseGitHubLatestRelease ::
  "repository \<Rightarrow> byte_view \<Rightarrow> GitHubReleaseParseStorage \<Rightarrow> bool
   \<Rightarrow> (GitHubReleaseParseStatus \<times> GitHubLatestRelease option) \<times> JsonParseResult" where
  "ParseGitHubLatestRelease r encoded store release_given =
     ParseGitHubRelease r encoded store PublishedStable release_given"

fun GitHubReleaseParseStatusString :: "GitHubReleaseParseStatus \<Rightarrow> string" where
  "GitHubReleaseParseStatusString GitHubOk = ''ok''"
| "GitHubReleaseParseStatusString GitHubInvalidArgument = ''invalid argument''"
| "GitHubReleaseParseStatusString ResponseTooLarge = ''GitHub response too large''"
| "GitHubReleaseParseStatusString GitHubStorageTooSmall = ''GitHub parser storage too small''"
| "GitHubReleaseParseStatusString GitHubJsonInvalid = ''invalid GitHub JSON''"
| "GitHubReleaseParseStatusString WrongRootType = ''GitHub response root is not an object''"
| "GitHubReleaseParseStatusString GitHubMissingField = ''required GitHub field missing''"
| "GitHubReleaseParseStatusString GitHubWrongType = ''wrong GitHub field type''"
| "GitHubReleaseParseStatusString GitHubInvalidValue = ''invalid GitHub field value''"
| "GitHubReleaseParseStatusString GitHubTooManyAssets = ''too many GitHub release assets''"
| "GitHubReleaseParseStatusString GitHubDuplicateAssetName = ''duplicate GitHub release asset name''"
| "GitHubReleaseParseStatusString GitHubUrlRejected = ''GitHub release asset URL rejected''"
| "GitHubReleaseParseStatusString GitHubUrlBindingMismatch =
     ''GitHub asset URL does not match tag and asset name''"
| "GitHubReleaseParseStatusString DraftForbidden = ''GitHub draft release forbidden''"
| "GitHubReleaseParseStatusString PrereleaseForbidden = ''GitHub prerelease forbidden''"

fun RequiredGitHubAssetsStatusString :: "RequiredGitHubAssetsStatus \<Rightarrow> string" where
  "RequiredGitHubAssetsStatusString AssetsOk = ''ok''"
| "RequiredGitHubAssetsStatusString AssetsInvalidArgument = ''invalid argument''"
| "RequiredGitHubAssetsStatusString IneligibleRelease = ''GitHub release is a draft or prerelease''"
| "RequiredGitHubAssetsStatusString InvalidSignedTag = ''invalid signed release tag''"
| "RequiredGitHubAssetsStatusString InvalidBoardZipName = ''invalid signed board ZIP name''"
| "RequiredGitHubAssetsStatusString SignedTagMismatch = ''GitHub and signed manifest tags differ''"
| "RequiredGitHubAssetsStatusString TooManyAssets = ''too many GitHub release assets''"
| "RequiredGitHubAssetsStatusString DuplicateAssetName = ''duplicate GitHub release asset name''"
| "RequiredGitHubAssetsStatusString AssetUrlRejected = ''GitHub release asset URL rejected''"
| "RequiredGitHubAssetsStatusString AssetUrlBindingMismatch =
     ''GitHub asset URL does not match signed tag and name''"
| "RequiredGitHubAssetsStatusString MissingManifest = ''BMX-RELEASE.json missing''"
| "RequiredGitHubAssetsStatusString MissingSignature = ''BMX-RELEASE.sig missing''"
| "RequiredGitHubAssetsStatusString MissingBoardZip = ''signed board ZIP missing''"

section \<open>Download addresses\<close>

text \<open>The download address of a file of a release: nothing in it is free but an explicit port 443.\<close>

definition download_address :: "repository \<Rightarrow> cstring \<Rightarrow> cstring \<Rightarrow> cstring \<Rightarrow> bool" where
  "download_address r tag name url \<longleftrightarrow>
     length url < kMaximumUpdateUrlBytes
     \<and> (\<exists>s \<in> set port_suffixes. \<exists>path. url = kScheme @ ascii ''github.com'' @ s @ path
          \<and> path = kGitHubReleaseDownloadPathPrefix r @ tag @ [ch CHR ''/''] @ name
          \<and> path_grammar ReleaseAsset path)"

lemma parsed_given:
  "ParseAndAuthorizeUpdateUrl r u purpose (Some p0) = (st, q) \<Longrightarrow> \<exists>p. q = Some p"
  by (auto simp: ParseAndAuthorizeUpdateUrl_def Let_def split: option.splits if_splits prod.splits)

lemma IsSafeIdentifier_iff:
  "IsSafeIdentifier v n \<longleftrightarrow> v \<noteq> [] \<and> length v \<le> n \<and> list_all IsSafeIdentifierCharacter v"
  by (simp add: IsSafeIdentifier_def BoundedLength_def Let_def)

lemma IsSafeIdentifier_no_slash: "IsSafeIdentifier v n \<Longrightarrow> ch CHR ''/'' \<notin> set v"
  by (auto simp: IsSafeIdentifier_iff list_all_iff IsSafeIdentifierCharacter_def)

lemma IsNullTerminatedUrl_iff:
  "IsNullTerminatedUrl url \<longleftrightarrow> url \<noteq> [] \<and> length url < kMaximumUpdateUrlBytes"
  by (auto simp: IsNullTerminatedUrl_def BoundedLength_def Let_def kMaximumUpdateUrlBytes_def)

lemma github_host: "host_grammar (ascii ''github.com'')"
  by (simp add: host_grammar_def kMaximumUpdateHostBytes_def IsAsciiHostCharacter_def)

lemma ValidateAssetUrl_ok_iff:
  "ValidateAssetUrl r a tag = AssetUrlOk \<longleftrightarrow>
     IsSafeTag tag \<and> IsSafeAssetName (asset_name a)
     \<and> download_address r tag (asset_name a) (browser_download_url a)"
  (is "?L \<longleftrightarrow> ?R")
proof (cases "IsSafeTag tag \<and> IsSafeAssetName (asset_name a)")
  case True
  then have tag: "tag \<noteq> []" "ch CHR ''/'' \<notin> set tag"
    and name: "asset_name a \<noteq> []" "ch CHR ''/'' \<notin> set (asset_name a)"
    using IsSafeIdentifier_no_slash [of tag kMaximumGitHubReleaseTagBytes]
      IsSafeIdentifier_no_slash [of "asset_name a" kMaximumGitHubAssetNameBytes]
    by (auto simp: IsSafeTag_def IsSafeAssetName_def IsSafeIdentifier_iff)
  let ?u = "browser_download_url a" and ?pre = "kGitHubReleaseDownloadPathPrefix r"
  obtain st q where pq: "ParseAndAuthorizeUpdateUrl r (Some ?u) ReleaseAsset (Some blank_url) = (st, q)"
    by (cases "ParseAndAuthorizeUpdateUrl r (Some ?u) ReleaseAsset (Some blank_url)")
  obtain p where q: "q = Some p" using parsed_given [OF pq] by blast
  show ?thesis
  proof
    assume L: ?L
    then have st: "st = UrlOk" and nt: "IsNullTerminatedUrl ?u"
      using pq q by (auto simp: ValidateAssetUrl_def Let_def split: if_splits)
    have "ParseAndAuthorizeUpdateUrl r (Some ?u) ReleaseAsset (Some blank_url) = (UrlOk, Some p)"
      using pq q st by simp
    then obtain h s path where u: "s \<in> set port_suffixes" "?u = kScheme @ h @ s @ path"
      "path_grammar ReleaseAsset path" "destination_allowed r ReleaseAsset h path"
      "p = blank_url\<lparr>host := h, port := 443, path_and_query := path\<rparr>" "length ?u < kMaximumUpdateUrlBytes"
      unfolding ParseAndAuthorizeUpdateUrl_ok_grammar by blast
    have h: "h = ascii ''github.com''" using u(4) unfolding destination_allowed.simps by blast
    have "path = ?pre @ tag @ [ch CHR ''/''] @ asset_name a"
      using L pq q st
      by (auto simp: ValidateAssetUrl_def Let_def starts_with_iff memchr_Some u(5) split: if_splits option.splits)
    with u h show ?R unfolding download_address_def using True by blast
  next
    assume R: ?R
    then obtain s where s: "s \<in> set port_suffixes"
      and u: "?u = kScheme @ ascii ''github.com'' @ s @ ?pre @ tag @ [ch CHR ''/''] @ asset_name a"
      and pg: "path_grammar ReleaseAsset (?pre @ tag @ [ch CHR ''/''] @ asset_name a)"
      and len: "length ?u < kMaximumUpdateUrlBytes"
      by (auto simp: download_address_def)
    have d: "destination_allowed r ReleaseAsset (ascii ''github.com'') (?pre @ tag @ [ch CHR ''/''] @ asset_name a)"
      unfolding destination_allowed.simps using tag name by blast
    have "ParseAndAuthorizeUpdateUrl r (Some ?u) ReleaseAsset (Some blank_url) =
       (UrlOk, Some (blank_url\<lparr>host := ascii ''github.com'', port := 443,
          path_and_query := ?pre @ tag @ [ch CHR ''/''] @ asset_name a\<rparr>))"
      unfolding ParseAndAuthorizeUpdateUrl_ok_grammar using len s u pg d github_host by blast
    moreover have "IsNullTerminatedUrl ?u"
      using len u by (simp add: IsNullTerminatedUrl_iff kScheme_def)
    ultimately show ?L
      using True tag by (simp add: ValidateAssetUrl_def starts_with_def memchr_append Let_def)
  qed
qed (auto simp: ValidateAssetUrl_def)

section \<open>The selection of the release files\<close>

definition asset_admissible :: "repository \<Rightarrow> GitHubReleaseKind \<Rightarrow> cstring \<Rightarrow> GitHubReleaseAsset \<Rightarrow> bool" where
  "asset_admissible r kind tag a \<longleftrightarrow>
     IsSafeAssetName (asset_name a) \<and> download_address r tag (asset_name a) (browser_download_url a)
     \<and> (kind = PreparedDraft \<longrightarrow> ValidateApiAssetUrl r a)"

text \<open>The index of the asset with a given name.\<close>

definition asset_index :: "GitHubReleaseAsset list \<Rightarrow> cstring \<Rightarrow> nat option" where
  "asset_index as name = find (\<lambda>i. asset_name (as ! i) = name) [0..<length as]"

definition selected :: "cstring \<Rightarrow> GitHubReleaseAsset list \<Rightarrow> RequiredGitHubReleaseAssets" where
  "selected zip_name as =
     \<lparr>required_manifest = asset_index as kManifestAssetName,
      required_signature = asset_index as kSignatureAssetName,
      required_board_zip = asset_index as zip_name\<rparr>"

lemma asset_index_Nil [simp]: "asset_index [] name = None"
  by (simp add: asset_index_def)

lemma find_append: "find P (xs @ ys) = (case find P xs of None \<Rightarrow> find P ys | Some x \<Rightarrow> Some x)"
  by (induction xs) auto

lemma asset_index_snoc:
  "asset_index (as @ [a]) name =
     (case asset_index as name of
        Some i \<Rightarrow> Some i
      | None \<Rightarrow> if asset_name a = name then Some (length as) else None)"
proof -
  have "find (\<lambda>i. asset_name ((as @ [a]) ! i) = name) [0..<length as]
      = find (\<lambda>i. asset_name (as ! i) = name) [0..<length as]"
    by (rule find_cong) (auto simp: nth_append)
  then show ?thesis by (simp add: asset_index_def find_append split: option.split)
qed

lemma asset_index_None: "asset_index as name = None \<longleftrightarrow> name \<notin> asset_name ` set as"
  by (auto simp: asset_index_def find_None_iff set_conv_nth image_iff)

lemma asset_index_Some: "asset_index as name = Some i \<Longrightarrow> i < length as \<and> asset_name (as ! i) = name"
  by (auto simp: asset_index_def find_Some_iff)

lemma name_used: "list_ex (\<lambda>e. asset_name e = name) as \<longleftrightarrow> name \<in> asset_name ` set as"
  by (induction as) auto

lemma asset_refused_None:
  assumes "IsSafeTag tag"
  shows "asset_refused r kind tag earlier a = None \<longleftrightarrow>
    asset_admissible r kind tag a \<and> asset_name a \<notin> asset_name ` set earlier"
proof -
  have "download_address r tag (asset_name a) (browser_download_url a) \<Longrightarrow>
      IsNullTerminatedUrl (browser_download_url a)"
    by (auto simp: download_address_def IsNullTerminatedUrl_iff kScheme_def)
  then show ?thesis
    using assms ValidateAssetUrl_ok_iff [of r a tag]
    by (cases "ValidateAssetUrl r a tag")
      (auto simp: asset_refused_def asset_admissible_def name_used)
qed

lemma selected_snoc:
  assumes "asset_name a \<notin> asset_name ` set as" "zip_name \<noteq> kManifestAssetName" "zip_name \<noteq> kSignatureAssetName"
  shows "selected zip_name (as @ [a]) =
    (let q = selected zip_name as
     in if asset_name a = kManifestAssetName then q\<lparr>required_manifest := Some (length as)\<rparr>
        else if asset_name a = kSignatureAssetName then q\<lparr>required_signature := Some (length as)\<rparr>
        else if asset_name a = zip_name then q\<lparr>required_board_zip := Some (length as)\<rparr> else q)"
proof -
  have n: "asset_index as (asset_name a) = None" using assms(1) by (simp add: asset_index_None)
  have "kManifestAssetName \<noteq> kSignatureAssetName"
    by (simp add: kManifestAssetName_def kSignatureAssetName_def)
  then show ?thesis
    using n assms(2,3) by (auto simp: selected_def asset_index_snoc Let_def split: option.split)
qed

lemma required_loop_ok_iff:
  assumes "IsSafeTag tag" "zip_name \<noteq> kManifestAssetName" "zip_name \<noteq> kSignatureAssetName"
    "distinct (map asset_name earlier)" "q = selected zip_name earlier"
  shows "required_loop r kind tag zip_name earlier later q = (AssetsOk, q') \<longleftrightarrow>
     list_all (asset_admissible r kind tag) later \<and> distinct (map asset_name (earlier @ later))
     \<and> q' = selected zip_name (earlier @ later)
     \<and> {kManifestAssetName, kSignatureAssetName, zip_name} \<subseteq> asset_name ` set (earlier @ later)"
  using assms(4,5)
proof (induction later arbitrary: earlier q)
  case Nil
  then show ?case
    by (auto simp: selected_def asset_index_None)
next
  case (Cons a later)
  show ?case
  proof (cases "asset_admissible r kind tag a \<and> asset_name a \<notin> asset_name ` set earlier")
    case True
    then have n: "asset_refused r kind tag earlier a = None"
      using asset_refused_None [OF assms(1)] by blast
    have "required_loop r kind tag zip_name earlier (a # later) q =
        required_loop r kind tag zip_name (earlier @ [a]) later (selected zip_name (earlier @ [a]))"
      using n selected_snoc [OF conjunct2 [OF True] assms(2,3)] Cons.prems(2) by (simp add: Let_def)
    then show ?thesis
      using Cons.IH [of "earlier @ [a]" "selected zip_name (earlier @ [a])"] Cons.prems(1) True by simp
  next
    case False
    then obtain e where "asset_refused r kind tag earlier a = Some e"
      using asset_refused_None [OF assms(1)] by blast
    moreover from this have "e \<noteq> AssetsOk"
      by (auto simp: asset_refused_def split: if_splits AssetUrlStatus.splits)
    ultimately show ?thesis using False by auto
  qed
qed

lemma required_assets_ok_iff:
  "FindRequiredAssetsForKind r release kind (Some tag) (Some zip_name) = (AssetsOk, q) \<longleftrightarrow>
     (\<exists>as. assets release = Array as \<and> length as \<le> kMaximumGitHubReleaseAssets
        \<and> EligibleKind release kind \<and> IsSafeTag tag \<and> tag_name release = tag
        \<and> IsSafeAssetName zip_name \<and> zip_name \<notin> {kManifestAssetName, kSignatureAssetName}
        \<and> list_all (asset_admissible r kind tag) as \<and> distinct (map asset_name as)
        \<and> {kManifestAssetName, kSignatureAssetName, zip_name} \<subseteq> asset_name ` set as
        \<and> q = selected zip_name as)"
  (is "?L \<longleftrightarrow> ?R")
proof -
  have e: "ResetRequired = selected zip_name []" by (simp add: ResetRequired_def selected_def)
  show ?thesis
  proof (cases "assets release")
    case (Array as)
    show ?thesis
      using required_loop_ok_iff [OF _ _ _ _ e, of tag r kind as q] Array
      by (auto simp: FindRequiredAssetsForKind_def not_less)
  qed (simp add: FindRequiredAssetsForKind_def)
qed

text \<open>
  (C38) The selection succeeds exactly for an eligible release whose tag is the signed one, with at most
  64 assets of distinct safe names whose addresses are all the download addresses of that tag and
  that name, and which include the manifest, the signature and the signed archive; it then selects
  these three.
\<close>

theorem FindRequiredAssetsForKind_ok_iff:
  "FindRequiredAssetsForKind r release kind (Some tag) (Some zip_name) = (AssetsOk, q) \<longleftrightarrow>
     (\<exists>as. assets release = Array as \<and> length as \<le> kMaximumGitHubReleaseAssets
        \<and> EligibleKind release kind \<and> IsSafeTag tag \<and> tag_name release = tag
        \<and> IsSafeAssetName zip_name \<and> zip_name \<notin> {kManifestAssetName, kSignatureAssetName}
        \<and> list_all (asset_admissible r kind tag) as \<and> distinct (map asset_name as)
        \<and> {kManifestAssetName, kSignatureAssetName, zip_name} \<subseteq> asset_name ` set as
        \<and> q = selected zip_name as)"
  by (rule required_assets_ok_iff)

section \<open>The parser\<close>

lemma admit_asset_ok:
  assumes "admit_asset r tag earlier a = Inr b"
  shows "asset_name b \<notin> asset_name ` set earlier \<and> ValidateAssetUrl r b tag = AssetUrlOk
    \<and> asset_id b = asset_id a \<and> (asset_id b \<noteq> 0 \<longrightarrow> ValidateApiAssetUrl r b)"
  using assms
  by (auto simp: admit_asset_def Let_def SameName_def name_used split: if_splits AssetUrlStatus.splits)

lemma read_id_nonzero: "read_id text ts (Some i) = Inr v \<Longrightarrow> v \<noteq> 0"
  by (auto simp: read_id_def split: sum.splits if_splits)

lemma parse_asset_ok:
  assumes "parse_asset r text ts kind tag earlier i = Inr b"
  shows "asset_admissible r kind tag b \<and> asset_name b \<notin> asset_name ` set earlier"
proof -
  let ?i = "RequiredMember text ts i ''id''"
  obtain a where a: "admit_asset r tag earlier a = Inr b" "read_id text ts ?i = Inr (asset_id a)"
    and i: "kind = PreparedDraft \<longrightarrow> ?i \<noteq> None"
    using assms by (auto simp: parse_asset_def Let_def split: if_splits sum.splits)
  have "kind = PreparedDraft \<longrightarrow> asset_id a \<noteq> 0"
    using i a(2) by (auto dest: read_id_nonzero)
  then show ?thesis
    using admit_asset_ok [OF a(1)] by (auto simp: ValidateAssetUrl_ok_iff asset_admissible_def)
qed

lemma parse_asset_error: "parse_asset r text ts kind tag earlier i = Inl e \<Longrightarrow> e \<noteq> GitHubOk"
  by (auto simp: parse_asset_def admit_asset_def read_id_def MapCopyStatus_def Let_def
      split: if_splits sum.splits option.splits AssetUrlStatus.splits)

lemma assets_loop_error: "assets_loop r text ts kind tag array n out is = Inl e \<Longrightarrow> e \<noteq> GitHubOk"
  by (induction "is" arbitrary: out) (auto dest: parse_asset_error split: if_splits sum.splits)

lemma assets_loop_ok:
  assumes "assets_loop r text ts kind tag array n out is = Inr out'"
    "list_all (asset_admissible r kind tag) out" "distinct (map asset_name out)" "length out \<le> n"
  shows "list_all (asset_admissible r kind tag) out' \<and> distinct (map asset_name out') \<and> length out' \<le> n"
  using assms
proof (induction "is" arbitrary: out)
  case (Cons i "is")
  show ?case
  proof (cases "length out < n \<and> tok_parent (ts ! i) = int array")
    case True
    with Cons.prems(1) obtain b where b: "parse_asset r text ts kind tag out i = Inr b"
      "assets_loop r text ts kind tag array n (out @ [b]) is = Inr out'"
      by (auto split: if_splits sum.splits)
    from parse_asset_ok [OF b(1)] show ?thesis
      using Cons.IH [OF b(2)] Cons.prems True by simp
  next
    case False
    then show ?thesis using Cons by (auto split: if_splits)
  qed
qed simp

text \<open>
  (C39) An accepted release is eligible for its kind, has a safe tag, at most as many assets as the caller
  has room for and never more than 64, of pairwise different safe names, and every asset's address
  is exactly the download address of this tag and this name in the pinned repository.
\<close>

theorem ParseGitHubRelease_ok:
  assumes "ParseGitHubRelease r encoded store kind given = ((GitHubOk, Some release), j)"
  shows "EligibleKind release kind \<and> IsSafeTag (tag_name release)
    \<and> (\<exists>as. assets release = Array as \<and> length as \<le> kMaximumGitHubReleaseAssets
         \<and> length as \<le> storage_asset_capacity store
         \<and> list_all (asset_admissible r kind (tag_name release)) as \<and> distinct (map asset_name as))"
proof -
  obtain ts where p: "parse_release r (view_bytes encoded) ts store kind = (GitHubOk, release)"
    using assms by (auto simp: ParseGitHubRelease_def Let_def map_prod_def split: if_splits prod.splits)
  then obtain d p a rel where f: "parse_flags r (view_bytes encoded) ts store kind d p a rel = (GitHubOk, release)"
    and t: "IsSafeTag (tag_name rel)"
    by (auto simp: parse_release_def Let_def read_id_def MapCopyStatus_def split: if_splits sum.splits option.splits)
  then obtain rel' where q: "parse_assets r (view_bytes encoded) ts store kind a rel' = (GitHubOk, release)"
    and e: "EligibleKind rel' kind" "tag_name rel' = tag_name rel"
    by (auto simp: parse_flags_def Let_def EligibleKind_def split: if_splits sum.splits)
  then obtain as where as: "assets_loop r (view_bytes encoded) ts kind (tag_name rel') a (tok_child_count (ts ! a)) []
      [a + 1 ..< length ts] = Inr as" "length as = tok_child_count (ts ! a)"
    "tok_child_count (ts ! a) \<le> kMaximumGitHubReleaseAssets" "tok_child_count (ts ! a) \<le> storage_asset_capacity store"
    "release = rel'\<lparr>assets := Array as\<rparr>"
    by (auto simp: parse_assets_def Let_def dest: assets_loop_error split: if_splits sum.splits)
  from assets_loop_ok [OF as(1)] show ?thesis
    using as(2-5) e t by (simp add: EligibleKind_def)
qed

section \<open>A concrete release\<close>

definition sample_release_text :: bytes where
  "sample_release_text =
     ascii ''{\"tag_name\":\"v1\",\"draft\":false,\"prerelease\":false,\"assets\":[]}''"


definition sample_release_tokens :: "JsonToken list" where
  "sample_release_tokens =
     [\<lparr>tok_type = JSON_TOKEN_OBJECT, tok_start = 0, tok_end = 62, tok_parent = - 1, tok_child_count = 8\<rparr>,
      \<lparr>tok_type = JSON_TOKEN_STRING, tok_start = 2, tok_end = 10, tok_parent = 0, tok_child_count = 0\<rparr>,
      \<lparr>tok_type = JSON_TOKEN_STRING, tok_start = 13, tok_end = 15, tok_parent = 0, tok_child_count = 0\<rparr>,
      \<lparr>tok_type = JSON_TOKEN_STRING, tok_start = 18, tok_end = 23, tok_parent = 0, tok_child_count = 0\<rparr>,
      \<lparr>tok_type = JSON_TOKEN_FALSE, tok_start = 25, tok_end = 30, tok_parent = 0, tok_child_count = 0\<rparr>,
      \<lparr>tok_type = JSON_TOKEN_STRING, tok_start = 32, tok_end = 42, tok_parent = 0, tok_child_count = 0\<rparr>,
      \<lparr>tok_type = JSON_TOKEN_FALSE, tok_start = 44, tok_end = 49, tok_parent = 0, tok_child_count = 0\<rparr>,
      \<lparr>tok_type = JSON_TOKEN_STRING, tok_start = 51, tok_end = 57, tok_parent = 0, tok_child_count = 0\<rparr>,
      \<lparr>tok_type = JSON_TOKEN_ARRAY, tok_start = 59, tok_end = 61, tok_parent = 0, tok_child_count = 0\<rparr>]"

lemma sample_release_tokens_ok:
  "ParseJson (Bytes sample_release_text) True 16 32
   = (\<lparr>result_error = JSON_OK, result_token_count = 9, result_error_offset = 62\<rparr>, sample_release_tokens)"
  unfolding sample_release_text_def sample_release_tokens_def
  by (simp add: json_evaluation ParseLiteral_def)


definition sample_storage :: GitHubReleaseParseStorage where
  "sample_storage =
     \<lparr>storage_tokens_given = True, storage_token_capacity = 16, storage_assets_given = True,
      storage_asset_capacity = 4\<rparr>"

definition sample_release :: GitHubLatestRelease where
  "sample_release =
     \<lparr>release_id = 0, tag_name = ascii ''v1'', draft = False, prerelease = False, assets = Array []\<rparr>"

lemma sample_release_members:
  "RequiredMember sample_release_text sample_release_tokens 0 ''id'' = None"
  "RequiredMember sample_release_text sample_release_tokens 0 ''tag_name'' = Some 2"
  "RequiredMember sample_release_text sample_release_tokens 0 ''draft'' = Some 4"
  "RequiredMember sample_release_text sample_release_tokens 0 ''prerelease'' = Some 6"
  "RequiredMember sample_release_text sample_release_tokens 0 ''assets'' = Some 8"
  by (simp_all add: RequiredMember_def JsonFindObjectMember_def sample_release_text_def
      sample_release_tokens_def upt_rec JsonStringEquals_def token_text_def)

lemma sample_release_parsed:
  "ParseGitHubRelease production_repository (Bytes sample_release_text) sample_storage PublishedStable True =
     ((GitHubOk, Some sample_release),
      \<lparr>result_error = JSON_OK, result_token_count = 9, result_error_offset = 62\<rparr>)"
proof -
  have "view_size (Bytes sample_release_text) = 62" by (simp add: sample_release_text_def)
  moreover have "parse_release production_repository sample_release_text sample_release_tokens sample_storage
      PublishedStable = (GitHubOk, sample_release)"
    unfolding parse_release_def sample_release_members Let_def
    by (simp add: read_id_def CopyUnescapedAsciiString_def Let_def
        sample_release_tokens_def sample_release_text_def token_text_def unsafe_character_def
        kMaximumGitHubReleaseTagBytes_def IsSafeTag_def IsSafeIdentifier_iff IsSafeIdentifierCharacter_def
        parse_flags_def JsonGetBool_def parse_assets_def sample_release_def ResetRelease_def)
  ultimately show ?thesis
    by (simp add: ParseGitHubRelease_def sample_release_tokens_ok sample_storage_def
        kMaximumGitHubReleaseResponseBytes_def sample_release_tokens_def)
qed

theorem ParseGitHubRelease_ok_witness:
  "EligibleKind sample_release PublishedStable \<and> IsSafeTag (tag_name sample_release)"
  using ParseGitHubRelease_ok [OF sample_release_parsed] by blast

end
