(* ===== verification/Signature_Envelope.thy ===== *)
theory Signature_Envelope
  imports Update_Prelude
begin

text \<open>
  \<open>signature_envelope.cpp\<close>: the text envelope with the release signatures, its base64 decoder and
  the check that a signature is a DER-encoded P-256 signature. What a failing call leaves in the
  caller's array is not modelled: the count stays zero, so it is not read.
\<close>

section \<open>The code\<close>

definition kMaximumSignatureEnvelopeBytes :: nat where "kMaximumSignatureEnvelopeBytes = 4096"
definition kMaximumReleaseSignatures :: nat where "kMaximumReleaseSignatures = 4"
definition kMaximumSigningKeyIdBytes :: nat where "kMaximumSigningKeyIdBytes = 64"
definition kMaximumEcdsaDerBytes :: nat where "kMaximumEcdsaDerBytes = 80"

text \<open>\<open>der\<close> is the used part of the array, so \<open>der_size\<close> is its length.\<close>

record ReleaseSignature =
  key_id :: cstring
  der :: bytes

datatype SignatureEnvelopeStatus =
    EnvelopeOk | EnvelopeInvalidArgument | InvalidSize | NonAscii | InvalidLineEnding
  | UnsupportedVersion | IncompleteRecord | SignatureCount | InvalidKeyId | KeyOrder
  | UnsupportedAlgorithm | InvalidBase64 | InvalidDer

definition kEnvelopeHeader :: cstring where "kEnvelopeHeader = ascii ''BMX-SIGNATURE-V1''"
definition kKeyPrefix :: cstring where "kKeyPrefix = ascii ''key-id: ''"
definition kAlgorithmLine :: cstring where "kAlgorithmLine = ascii ''algorithm: ECDSA-P256-SHA256''"
definition kSignaturePrefix :: cstring where "kSignaturePrefix = ascii ''signature: ''"

definition is_alphanumeric :: "byte \<Rightarrow> bool" where
  "is_alphanumeric c \<longleftrightarrow>
     (c \<ge> ch CHR ''0'' \<and> c \<le> ch CHR ''9'') \<or> (c \<ge> ch CHR ''A'' \<and> c \<le> ch CHR ''Z'')
     \<or> (c \<ge> ch CHR ''a'' \<and> c \<le> ch CHR ''z'')"

definition is_identifier_byte :: "byte \<Rightarrow> bool" where
  "is_identifier_byte c \<longleftrightarrow>
     is_alphanumeric c \<or> c = ch CHR ''.'' \<or> c = ch CHR ''_'' \<or> c = ch CHR ''-''"

definition IsIdentifier :: "bytes \<Rightarrow> bool" where
  "IsIdentifier v =
     (if length v = 0 \<or> length v > kMaximumSigningKeyIdBytes then False
      else is_alphanumeric (hd v) \<and> list_all is_identifier_byte (tl v))"

definition Base64Value :: "byte \<Rightarrow> u32 option" where
  "Base64Value c =
     (if c \<ge> ch CHR ''A'' \<and> c \<le> ch CHR ''Z'' then Some (ucast (c - ch CHR ''A''))
      else if c \<ge> ch CHR ''a'' \<and> c \<le> ch CHR ''z'' then Some (ucast (c - ch CHR ''a'') + 26)
      else if c \<ge> ch CHR ''0'' \<and> c \<le> ch CHR ''9'' then Some (ucast (c - ch CHR ''0'') + 52)
      else if c = ch CHR ''+'' then Some 62
      else if c = ch CHR ''/'' then Some 63
      else None)"

definition padded_value :: "byte \<Rightarrow> u32 option" where
  "padded_value c = (if c = ch CHR ''='' then Some 0 else Base64Value c)"

text \<open>
  One group of four characters: the bytes it adds to the output, of which there are \<open>n\<close> so far and
  at most \<open>decoded_size\<close> in the end.
\<close>

definition group_block :: "u32 \<Rightarrow> u32 \<Rightarrow> u32 \<Rightarrow> u32 \<Rightarrow> u32" where
  "group_block v0 v1 v2 v3 = push_bit 18 v0 OR push_bit 12 v1 OR push_bit 6 v2 OR v3"

definition block_bytes :: "u32 \<Rightarrow> bytes" where
  "block_bytes block = [ucast (drop_bit 16 block), ucast (drop_bit 8 block), ucast block]"

definition decode_group ::
  "bool \<Rightarrow> nat \<Rightarrow> nat \<Rightarrow> byte \<Rightarrow> byte \<Rightarrow> byte \<Rightarrow> byte \<Rightarrow> bytes \<Rightarrow> bytes option" where
  "decode_group final_group padding decoded_size a b c d out =
     (case (Base64Value a, Base64Value b, padded_value c, padded_value d) of
        (Some v0, Some v1, Some v2, Some v3) \<Rightarrow>
          if \<not> final_group \<and> (c = ch CHR ''='' \<or> d = ch CHR ''='') then None
          else if c = ch CHR ''='' \<and> d \<noteq> ch CHR ''='' then None
          else
            (let out' = out @ take (decoded_size - length out) (block_bytes (group_block v0 v1 v2 v3))
             in if final_group \<and> padding = 1 \<and> v2 AND 0x03 \<noteq> 0 then None
                else if final_group \<and> padding = 2 \<and> v1 AND 0x0f \<noteq> 0 then None
                else Some out')
      | _ \<Rightarrow> None)"

text \<open>The loop over the groups; the size is a multiple of four, so the last equation is not reached.\<close>

fun base64_loop :: "nat \<Rightarrow> nat \<Rightarrow> bytes \<Rightarrow> bytes \<Rightarrow> bytes option" where
  "base64_loop padding decoded_size [] out = Some out"
| "base64_loop padding decoded_size (a # b # c # d # rest) out =
     (case decode_group (rest = []) padding decoded_size a b c d out of
        None \<Rightarrow> None
      | Some out' \<Rightarrow> base64_loop padding decoded_size rest out')"
| "base64_loop padding decoded_size _ out = None"

definition base64_padding :: "bytes \<Rightarrow> nat" where
  "base64_padding e =
     (if e ! (length e - 1) = ch CHR ''='' then 1 else 0)
     + (if length e \<ge> 2 \<and> e ! (length e - 2) = ch CHR ''='' then 1 else 0)"

definition DecodeCanonicalBase64 :: "bytes \<Rightarrow> nat \<Rightarrow> bytes option" where
  "DecodeCanonicalBase64 e output_capacity =
     (if length e = 0 \<or> length e mod 4 \<noteq> 0 then None
      else
        (let padding = base64_padding e; decoded_size = length e div 4 * 3 - padding
         in if decoded_size > output_capacity then None
            else
              (case base64_loop padding decoded_size e [] of
                 None \<Rightarrow> None
               | Some out \<Rightarrow> if length out = decoded_size then Some out else None)))"

definition kP256Order :: bytes where
  "kP256Order =
     [0xff, 0xff, 0xff, 0xff, 0x00, 0x00, 0x00, 0x00,
      0xff, 0xff, 0xff, 0xff, 0xff, 0xff, 0xff, 0xff,
      0xbc, 0xe6, 0xfa, 0xad, 0xa7, 0x17, 0x9e, 0x84,
      0xf3, 0xb9, 0xca, 0xc2, 0xfc, 0x63, 0x25, 0x51]"

text \<open>\<open>memcmp (xs, ys, n) < 0\<close> for equally long byte strings, and \<open>strcmp\<close> for C strings.\<close>

fun bytes_less :: "bytes \<Rightarrow> bytes \<Rightarrow> bool" where
  "bytes_less [] [] = False"
| "bytes_less [] (y # ys) = True"
| "bytes_less (x # xs) [] = False"
| "bytes_less (x # xs) (y # ys) = (x < y \<or> x = y \<and> bytes_less xs ys)"

definition ScalarInP256Range :: "bytes \<Rightarrow> bool" where
  "ScalarInP256Range encoded =
     (if length encoded = 0 \<or> length encoded > 33 \<or> encoded ! 0 AND 0x80 \<noteq> 0 then False
      else if length encoded > 1 \<and> encoded ! 0 = 0 \<and> encoded ! 1 AND 0x80 = 0 then False
      else if length encoded = 33 \<and> encoded ! 0 \<noteq> 0 then False
      else
        (let v = dropWhile (\<lambda>b. b = 0) (if length encoded = 33 then tl encoded else encoded)
         in if v = [] then False
            else if length v < length kP256Order then True
            else if length v > length kP256Order then False
            else bytes_less v kP256Order))"

text \<open>One turn of the loop over the two integers: the bytes behind the integer.\<close>

definition der_scalar :: "bytes \<Rightarrow> bytes option" where
  "der_scalar s =
     (if 2 > length s \<or> s ! 0 \<noteq> 0x02 then None
      else
        (let size = unat (s ! 1); r = drop 2 s
         in if size = 0 \<or> size > 33 \<or> size > length r \<or> \<not> ScalarInP256Range (take size r) then None
            else Some (drop size r)))"

definition IsValidP256EcdsaDer :: "byte_view \<Rightarrow> bool" where
  "IsValidP256EcdsaDer signature =
     (let s = view_bytes signature
      in if view_null signature \<or> view_size signature < 8 \<or> view_size signature > kMaximumEcdsaDerBytes
            \<or> s ! 0 \<noteq> 0x30 \<or> s ! 1 \<ge> 0x80 \<or> unat (s ! 1) \<noteq> view_size signature - 2
         then False
         else
           (case der_scalar (drop 2 s) of
              None \<Rightarrow> False
            | Some r \<Rightarrow> (case der_scalar r of None \<Rightarrow> False | Some r' \<Rightarrow> r' = [])))"

text \<open>The line at the cursor and what follows its line feed.\<close>

definition NextLine :: "bytes \<Rightarrow> (bytes \<times> bytes) option" where
  "NextLine s =
     (let line = takeWhile (\<lambda>c. c \<noteq> 10) s
      in if length line \<ge> length s then None else Some (line, drop (length line + 1) s))"

definition LineEquals :: "bytes \<Rightarrow> cstring \<Rightarrow> bool" where
  "LineEquals line expected \<longleftrightarrow> length line = length expected \<and> line = expected"

definition LineStartsWith :: "bytes \<Rightarrow> cstring \<Rightarrow> bytes option" where
  "LineStartsWith line prefix =
     (if length line \<le> length prefix \<or> take (length prefix) line \<noteq> prefix then None
      else Some (drop (length prefix) line))"

text \<open>One record of the envelope: the signature and the bytes behind it.\<close>

definition parse_record ::
  "cstring option \<Rightarrow> bytes \<Rightarrow> SignatureEnvelopeStatus + ReleaseSignature \<times> bytes" where
  "parse_record previous_key s =
     (case NextLine s of None \<Rightarrow> Inl IncompleteRecord | Some (key_line, s1) \<Rightarrow>
      case NextLine s1 of None \<Rightarrow> Inl IncompleteRecord | Some (algorithm_line, s2) \<Rightarrow>
      case NextLine s2 of None \<Rightarrow> Inl IncompleteRecord | Some (signature_line, s3) \<Rightarrow>
      case LineStartsWith key_line kKeyPrefix of None \<Rightarrow> Inl InvalidKeyId | Some key \<Rightarrow>
        if \<not> IsIdentifier key then Inl InvalidKeyId
        else if (case previous_key of None \<Rightarrow> False | Some p \<Rightarrow> \<not> bytes_less p key) then Inl KeyOrder
        else if \<not> LineEquals algorithm_line kAlgorithmLine then Inl UnsupportedAlgorithm
        else
          (case LineStartsWith signature_line kSignaturePrefix of
             None \<Rightarrow> Inl InvalidBase64
           | Some encoded \<Rightarrow>
               (case DecodeCanonicalBase64 encoded kMaximumEcdsaDerBytes of
                  None \<Rightarrow> Inl InvalidBase64
                | Some d \<Rightarrow>
                    if \<not> IsValidP256EcdsaDer (Bytes d) then Inl InvalidDer
                    else Inr (\<lparr>key_id = key, der = d\<rparr>, s3))))"

lemma NextLine_shorter: "NextLine s = Some (line, r) \<Longrightarrow> length r < length s"
  by (auto simp: NextLine_def Let_def split: if_splits)

lemma parse_record_shorter: "parse_record k s = Inr (sig, r) \<Longrightarrow> length r < length s"
  by (auto simp: parse_record_def dest!: NextLine_shorter split: option.splits if_splits)

text \<open>The loop over the records; \<open>sigs\<close> are the signatures stored so far.\<close>

function records_loop ::
  "nat \<Rightarrow> ReleaseSignature list \<Rightarrow> bytes \<Rightarrow> SignatureEnvelopeStatus + ReleaseSignature list" where
  "records_loop signature_capacity sigs s =
     (if s = [] then Inr sigs
      else if length sigs \<ge> kMaximumReleaseSignatures \<or> length sigs \<ge> signature_capacity
        then Inl SignatureCount
      else
        (case parse_record (if sigs = [] then None else Some (key_id (last sigs))) s of
           Inl e \<Rightarrow> Inl e
         | Inr (sig, r) \<Rightarrow> records_loop signature_capacity (sigs @ [sig]) r))"
  by pat_completeness auto
termination
  by (relation "measure (\<lambda>(c, sigs, s). length s)") (auto dest: parse_record_shorter)

declare records_loop.simps [simp del]

fun first_bad_byte :: "bytes \<Rightarrow> SignatureEnvelopeStatus option" where
  "first_bad_byte [] = None"
| "first_bad_byte (c # cs) =
     (if c = 13 then Some InvalidLineEnding else if c > 0x7f then Some NonAscii else first_bad_byte cs)"

definition ParseSignatureEnvelope ::
  "byte_view \<Rightarrow> bool \<Rightarrow> nat \<Rightarrow> bool \<Rightarrow> SignatureEnvelopeStatus + ReleaseSignature list" where
  "ParseSignatureEnvelope envelope signatures_given signature_capacity count_given =
     (let s = view_bytes envelope
      in if view_null envelope \<or> \<not> signatures_given \<or> \<not> count_given then Inl EnvelopeInvalidArgument
         else if view_size envelope = 0 \<or> view_size envelope > kMaximumSignatureEnvelopeBytes
           then Inl InvalidSize
         else if last s \<noteq> 10 then Inl InvalidLineEnding
         else
           (case first_bad_byte s of
              Some e \<Rightarrow> Inl e
            | None \<Rightarrow>
                (case NextLine s of
                   None \<Rightarrow> Inl UnsupportedVersion
                 | Some (line, r) \<Rightarrow>
                     if \<not> LineEquals line kEnvelopeHeader then Inl UnsupportedVersion
                     else
                       (case records_loop signature_capacity [] r of
                          Inl e \<Rightarrow> Inl e
                        | Inr sigs \<Rightarrow> if length sigs = 0 then Inl SignatureCount else Inr sigs))))"

fun SignatureEnvelopeStatusString :: "SignatureEnvelopeStatus \<Rightarrow> string" where
  "SignatureEnvelopeStatusString EnvelopeOk = ''ok''"
| "SignatureEnvelopeStatusString EnvelopeInvalidArgument = ''invalid argument''"
| "SignatureEnvelopeStatusString InvalidSize = ''signature envelope size invalid''"
| "SignatureEnvelopeStatusString NonAscii = ''signature envelope is not ASCII''"
| "SignatureEnvelopeStatusString InvalidLineEnding = ''signature envelope line ending invalid''"
| "SignatureEnvelopeStatusString UnsupportedVersion = ''unsupported signature envelope''"
| "SignatureEnvelopeStatusString IncompleteRecord = ''incomplete signature record''"
| "SignatureEnvelopeStatusString SignatureCount = ''signature count invalid''"
| "SignatureEnvelopeStatusString InvalidKeyId = ''invalid signature key ID''"
| "SignatureEnvelopeStatusString KeyOrder = ''signature key IDs not sorted and unique''"
| "SignatureEnvelopeStatusString UnsupportedAlgorithm = ''unsupported signature algorithm''"
| "SignatureEnvelopeStatusString InvalidBase64 = ''invalid signature Base64''"
| "SignatureEnvelopeStatusString InvalidDer = ''invalid P-256 ECDSA DER''"

end
