(* ===== verification/Update_Structures.thy ===== *)
theory Update_Structures
  imports Sha256 Github_Release Config_Schema Fat_Path_Policy Signature_Envelope Storage_Preflight
    Journal_Protocol Tryboot_Control
begin

text \<open>
  The structures that the release parsers fill and the orchestrator works on (\<open>release_manifest.h\<close>,
  \<open>build_info.h\<close>, \<open>release_offer.h\<close>, \<open>github_release_client.h\<close>, \<open>update_installer.h\<close>,
  \<open>update_orchestrator.h\<close>). Character arrays are modelled as in the theory of the release parser; an
  enumeration whose code tests for unknown values has a constructor for them.
\<close>

section \<open>Structures\<close>

definition kMaximumReleaseManifestBytes :: nat where "kMaximumReleaseManifestBytes = 128 * 1024"
definition kMaximumManifestFiles :: nat where "kMaximumManifestFiles = 2048"
definition kMaximumManifestDirectories :: nat where "kMaximumManifestDirectories = 2048"
definition kMaximumManifestPathBytes :: nat where "kMaximumManifestPathBytes = 240"
definition kMaximumBuildInfoBytes :: nat where "kMaximumBuildInfoBytes = 64 * 1024"
definition kInstallerMaximumPathBytes :: nat where "kInstallerMaximumPathBytes = 512"

datatype ManifestFilePolicy = Kernel | ManagedReplace | ConfigTemplate | Preserve | Metadata

datatype ManifestCompression = CompressionStore | CompressionDeflate

record ManifestFile =
  file_path :: cstring
  file_size :: u64
  file_sha256 :: bytes
  file_policy :: ManifestFilePolicy
  file_compression :: ManifestCompression

record ManifestConfigSchema =
  schema_area :: ConfigArea
  schema_target_version :: u32
  schema_accepted_versions :: "u32 list"

record ManifestMigration =
  migration_id :: cstring
  migration_area :: ConfigArea
  migration_from :: u32
  migration_to :: u32
  migration_lossy :: bool

record ManifestLossyChange =
  lossy_area :: ConfigArea
  lossy_description :: cstring

record ManifestAsset =
  archive_board :: BoardFamily
  archive_filename :: cstring
  archive_download_size :: u64
  archive_sha256 :: bytes
  archive_installed_size :: u64
  archive_required_peak_bytes :: u64
  archive_files :: "ManifestFile array_view"
  archive_directories :: "cstring array_view"

record ReleaseManifest =
  manifest_version :: cstring
  manifest_tag :: cstring
  manifest_source_commit :: cstring
  manifest_release_sequence :: u64
  manifest_release_epoch :: u64
  manifest_minimum_abi :: u32
  manifest_maximum_abi :: u32
  manifest_signing_key_ids :: "cstring list"
  manifest_schemas :: "ManifestConfigSchema list"
  manifest_migrations :: "ManifestMigration list"
  manifest_lossy_changes :: "ManifestLossyChange list"
  manifest_asset :: ManifestAsset

record InstalledBuildInfo =
  build_version :: cstring
  build_release_sequence :: u64
  build_release_epoch :: u64
  build_board :: BoardFamily
  build_source_commit :: cstring
  build_updater_abi :: u32
  build_schemas :: "(ConfigArea \<times> u32) list"

datatype ReleaseAcquisitionMode = ModePublishedStable | ModePreparedDraft | ModeOther u8

datatype OfferConfigurationStatus =
    Compatible | ResetConfirmationRequired | BlockedIncompatible | ConfigurationStatusOther u8

record ReleaseOffer =
  offer_installed :: InstalledBuildInfo
  offer_github :: GitHubLatestRelease
  offer_manifest :: ReleaseManifest
  offer_assets :: RequiredGitHubReleaseAssets
  offer_decision :: ReleaseDecision
  offer_configuration_status :: OfferConfigurationStatus
  offer_reset_areas :: "ConfigArea list"
  offer_reset_area_count :: nat

record ValidatedReleaseDownload =
  download_build_info :: byte_view
  download_mode :: ReleaseAcquisitionMode
  download_offer :: ReleaseOffer
  download_github_response :: byte_view
  download_manifest :: byte_view
  download_signature :: byte_view

record AuthenticatedUpdateRequest =
  request_release :: "ValidatedReleaseDownload option"
  request_board :: BoardFamily
  request_transaction_root :: "cstring option"
  request_transaction_id :: bytes
  request_old_boot_generation :: u64
  request_new_boot_generation :: u64
  request_consent_sha256 :: bytes
  request_reset_required :: bool
  request_reset_approved :: bool
  request_authorization_token :: u64

record SealedUpdateAuthorization =
  sealed_consent_sha256 :: bytes
  sealed_reset_required :: bool
  sealed_reset_approved :: bool

text \<open>A source object is known by its address.\<close>

type_synonym zip_source = nat

record PreparedConfigTemplate =
  entry_path :: "cstring option"
  entry_content :: "zip_source option"
  entry_original_existed :: bool
  entry_original_size :: u64
  entry_original_sha256 :: bytes
  entry_prepared_size :: u64
  entry_prepared_sha256 :: bytes

record PreparedConfigSet =
  prepared_entries :: "PreparedConfigTemplate array_view"
  prepared_manifest_sha256 :: bytes
  prepared_consent_sha256 :: bytes
  prepared_reset_required :: bool
  prepared_reset_approved :: bool

record InstallerIdentity =
  identity_transaction_id :: bytes
  identity_source_release_sequence :: u64
  identity_source_version :: cstring
  identity_old_boot_generation :: u64
  identity_new_boot_generation :: u64
  identity_manifest_sha256 :: bytes
  identity_consent_sha256 :: bytes
  identity_reset_required :: bool
  identity_reset_approved :: bool

text \<open>Of the progress object the installer is handed only whether there is one.\<close>

record InstallerRequest =
  installer_manifest :: ReleaseManifest
  installer_zip :: "zip_source option"
  installer_transaction_root :: "cstring option"
  installer_identity :: InstallerIdentity
  installer_prepared_configs :: "PreparedConfigSet option"
  installer_progress :: bool

record InstallerWorkspace =
  zip_entries_given :: bool
  zip_entry_capacity :: nat
  expected_files_given :: bool
  expected_file_capacity :: nat
  expected_directories_given :: bool
  expected_directory_capacity :: nat
  zip_workspace_given :: bool
  io_buffer :: byte_view

text \<open>The kind of release a mode asks for; the draft mode is the only one that is not the stable one.\<close>

definition ReleaseKind :: "ReleaseAcquisitionMode \<Rightarrow> GitHubReleaseKind" where
  "ReleaseKind mode = (if mode = ModePreparedDraft then PreparedDraft else PublishedStable)"

end
