(* ===== verification/Update_Request.thy ===== *)
theory Update_Request
  imports Update_Structures
begin

text \<open>
  The validation of an update request in \<open>update_orchestrator.cpp\<close>: which freshly authenticated
  release and which identity and consent it accepts, and the binding every later step receives.
\<close>

section \<open>Validation of a request\<close>

definition BytesNonZero :: "bytes \<Rightarrow> bool" where
  "BytesNonZero bs \<longleftrightarrow> foldl (\<lambda>combined b. combined OR b) 0 bs \<noteq> 0"

definition TerminatedWithin :: "cstring option \<Rightarrow> nat \<Rightarrow> bool" where
  "TerminatedWithin s cap =
     (case s of None \<Rightarrow> False | Some t \<Rightarrow> cap \<noteq> 0 \<and> length t < cap)"

definition NonEmptyTerminatedWithin :: "cstring option \<Rightarrow> nat \<Rightarrow> bool" where
  "NonEmptyTerminatedWithin s cap \<longleftrightarrow> TerminatedWithin s cap \<and> the s \<noteq> []"

definition EqualTextBounded :: "cstring option \<Rightarrow> cstring option \<Rightarrow> nat \<Rightarrow> bool" where
  "EqualTextBounded left right cap =
     (if \<not> TerminatedWithin left cap \<or> \<not> TerminatedWithin right cap then False
      else the left = the right)"

definition AssetBelongsToRelease :: "GitHubLatestRelease \<Rightarrow> nat option \<Rightarrow> nat option" where
  "AssetBelongsToRelease release candidate =
     (case (assets release, candidate) of
        (Array as, Some i) \<Rightarrow>
          if length as = 0 \<or> length as > kMaximumGitHubReleaseAssets then None
          else if i < length as then Some i else None
      | _ \<Rightarrow> None)"

definition AcquisitionModeValid :: "ReleaseAcquisitionMode \<Rightarrow> bool" where
  "AcquisitionModeValid mode \<longleftrightarrow> mode = ModePublishedStable \<or> mode = ModePreparedDraft"

definition AssetStringsValid ::
  "repository \<Rightarrow> GitHubReleaseAsset \<Rightarrow> ReleaseAcquisitionMode \<Rightarrow> bool" where
  "AssetStringsValid r asset mode =
     (let download_url = GitHubAssetDownloadUrl asset (ReleaseKind mode)
      in if \<not> NonEmptyTerminatedWithin (Some (asset_name asset)) (kMaximumGitHubAssetNameBytes + 1)
            \<or> download_url = [] \<or> asset_size asset = 0
         then False
         else fst (ParseAndAuthorizeUpdateUrl r (Some download_url)
                     (if mode = ModePreparedDraft then AuthenticatedReleaseAsset else ReleaseAsset)
                     (Some blank_url)) = UrlOk)"

fun areas_known_distinct :: "ConfigArea list \<Rightarrow> ConfigArea list \<Rightarrow> bool" where
  "areas_known_distinct prior [] = True"
| "areas_known_distinct prior (a # as) =
     (if \<not> IsKnownConfigArea a then False
      else if list_ex (\<lambda>p. a = p) prior then False
      else areas_known_distinct (prior @ [a]) as)"

definition OfferConfigurationAdvisoryValid :: "ReleaseOffer \<Rightarrow> bool" where
  "OfferConfigurationAdvisoryValid offer =
     (if offer_reset_area_count offer > kMaximumConfigAreas then False
      else if offer_configuration_status offer = Compatible then offer_reset_area_count offer = 0
      else if offer_configuration_status offer \<noteq> ResetConfirmationRequired
              \<and> offer_configuration_status offer \<noteq> BlockedIncompatible then False
      else if offer_configuration_status offer = ResetConfirmationRequired
              \<and> offer_reset_area_count offer = 0 then False
      else areas_known_distinct [] (take (offer_reset_area_count offer) (offer_reset_areas offer)))"

text \<open>The outcome \<open>Ok\<close> is \<open>Inr\<close> with the digest of the manifest.\<close>

datatype RequestValidation =
    RequestInvalidArgument | RequestOfferInvalid | RequestIdentityInvalid | RequestConsentInvalid

text \<open>The raw inputs that come with the request.\<close>

definition download_rejected :: "ValidatedReleaseDownload \<Rightarrow> bool" where
  "download_rejected d \<longleftrightarrow>
     \<not> AcquisitionModeValid (download_mode d)
     \<or> view_null (download_build_info d) \<or> view_size (download_build_info d) = 0
     \<or> view_size (download_build_info d) > kMaximumBuildInfoBytes
     \<or> view_null (download_github_response d) \<or> view_size (download_github_response d) = 0
     \<or> view_size (download_github_response d) > kMaximumGitHubReleaseResponseBytes
     \<or> view_null (download_manifest d) \<or> view_size (download_manifest d) = 0
     \<or> view_size (download_manifest d) > kMaximumReleaseManifestBytes
     \<or> view_null (download_signature d) \<or> view_size (download_signature d) = 0
     \<or> view_size (download_signature d) > kMaximumSignatureEnvelopeBytes"

text \<open>The fields of the offer against each other and against the running board.\<close>

definition offer_rejected :: "BoardFamily \<Rightarrow> bool \<Rightarrow> ReleaseOffer \<Rightarrow> bool" where
  "offer_rejected running expected_draft offer \<longleftrightarrow>
     (let g = offer_github offer; m = offer_manifest offer; i = offer_installed offer; a = manifest_asset m
      in offer_decision offer \<noteq> UpdateAvailable \<or> draft g \<noteq> expected_draft \<or> prerelease g
         \<or> \<not> NonEmptyTerminatedWithin (Some (tag_name g)) (kMaximumGitHubReleaseTagBytes + 1)
         \<or> \<not> NonEmptyTerminatedWithin (Some (manifest_tag m)) 129
         \<or> \<not> NonEmptyTerminatedWithin (Some (manifest_version m)) 65
         \<or> \<not> NonEmptyTerminatedWithin (Some (archive_filename a)) 161
         \<or> tag_name g \<noteq> manifest_tag m
         \<or> build_board i \<noteq> running \<or> archive_board a \<noteq> running
         \<or> build_release_sequence i = 0 \<or> manifest_release_sequence m \<le> build_release_sequence i
         \<or> build_updater_abi i = 0 \<or> manifest_minimum_abi m = 0
         \<or> manifest_maximum_abi m < manifest_minimum_abi m
         \<or> build_updater_abi i < manifest_minimum_abi m \<or> build_updater_abi i > manifest_maximum_abi m
         \<or> manifest_release_epoch m < build_release_epoch i
         \<or> archive_download_size a = 0 \<or> \<not> BytesNonZero (archive_sha256 a)
         \<or> (case archive_files a of NullArray n \<Rightarrow> True | Array fs \<Rightarrow> fs = [])
         \<or> array_count (archive_files a) > kMaximumManifestFiles
         \<or> array_count (archive_directories a) > kMaximumManifestDirectories
         \<or> (array_count (archive_directories a) \<noteq> 0
            \<and> (case archive_directories a of NullArray n \<Rightarrow> True | Array ds \<Rightarrow> False)))"

text \<open>The three files of the release, each an element of its asset array.\<close>

definition assets_rejected :: "repository \<Rightarrow> ValidatedReleaseDownload \<Rightarrow> ReleaseOffer \<Rightarrow> bool" where
  "assets_rejected r d offer =
     (let g = offer_github offer; m = offer_manifest offer; q = offer_assets offer;
          as = array_items (assets g); mode = download_mode d
      in case (AssetBelongsToRelease g (required_manifest q), AssetBelongsToRelease g (required_signature q),
               AssetBelongsToRelease g (required_board_zip q)) of
           (Some mi, Some si, Some ai) \<Rightarrow>
             mi = si \<or> mi = ai \<or> si = ai
             \<or> \<not> AssetStringsValid r (as ! mi) mode \<or> \<not> AssetStringsValid r (as ! si) mode
             \<or> \<not> AssetStringsValid r (as ! ai) mode
             \<or> asset_name (as ! mi) \<noteq> ascii ''BMX-RELEASE.json''
             \<or> asset_name (as ! si) \<noteq> ascii ''BMX-RELEASE.sig''
             \<or> unat (asset_size (as ! mi)) \<noteq> view_size (download_manifest d)
             \<or> unat (asset_size (as ! si)) \<noteq> view_size (download_signature d)
             \<or> asset_size (as ! ai) \<noteq> archive_download_size (manifest_asset m)
             \<or> asset_name (as ! ai) \<noteq> archive_filename (manifest_asset m)
             \<or> FindRequiredAssetsForKind r g (ReleaseKind mode) (Some (manifest_tag m))
                 (Some (archive_filename (manifest_asset m))) \<noteq>
               (AssetsOk, \<lparr>required_manifest = Some mi, required_signature = Some si,
                          required_board_zip = Some ai\<rparr>)
         | _ \<Rightarrow> True)"

definition identity_rejected :: "AuthenticatedUpdateRequest \<Rightarrow> bool" where
  "identity_rejected request \<longleftrightarrow>
     \<not> NonEmptyTerminatedWithin (request_transaction_root request) (kInstallerMaximumPathBytes + 1)
     \<or> ValidateFatRelativePath (request_transaction_root request) kInstallerMaximumPathBytes \<noteq> FatPathOk
     \<or> length (the (request_transaction_root request)) + 1 + length ''metadata-old'' + 1
         + kMaximumManifestPathBytes > kInstallerMaximumPathBytes
     \<or> \<not> BytesNonZero (request_transaction_id request)
     \<or> request_old_boot_generation request = 0
     \<or> request_new_boot_generation request \<le> request_old_boot_generation request"

definition ValidateAuthenticatedRequest ::
  "repository \<Rightarrow> AuthenticatedUpdateRequest \<Rightarrow> ReleaseOffer \<Rightarrow> RequestValidation + bytes" where
  "ValidateAuthenticatedRequest r request offer =
     (case request_release request of
        None \<Rightarrow> Inl RequestInvalidArgument
      | Some d \<Rightarrow>
          if \<not> IsKnownBoardFamily (request_board request) \<or> request_transaction_root request = None
            then Inl RequestInvalidArgument
          else if download_rejected d then Inl RequestOfferInvalid
          else
            (case Sha256Digest (download_manifest d) of
               None \<Rightarrow> Inl RequestOfferInvalid
             | Some manifest_digest \<Rightarrow>
                 if offer_rejected (request_board request) (download_mode d = ModePreparedDraft) offer
                   then Inl RequestOfferInvalid
                 else if assets_rejected r d offer then Inl RequestOfferInvalid
                 else if identity_rejected request then Inl RequestIdentityInvalid
                 else if \<not> BytesNonZero (request_consent_sha256 request) then Inl RequestConsentInvalid
                 else if \<not> OfferConfigurationAdvisoryValid offer then Inl RequestOfferInvalid
                 else if request_reset_required request \<noteq> request_reset_approved request
                   then Inl RequestConsentInvalid
                 else Inr manifest_digest))"

section \<open>What later steps receive\<close>

definition BuildBinding ::
  "AuthenticatedUpdateRequest \<Rightarrow> ReleaseOffer \<Rightarrow> bytes \<Rightarrow> SealedUpdateAuthorization
   \<Rightarrow> AuthenticatedUpdateBinding" where
  "BuildBinding request offer manifest_digest authorization =
     \<lparr>bound_archive_url =
        Some (GitHubAssetDownloadUrl
                (array_items (assets (offer_github offer)) ! the (required_board_zip (offer_assets offer)))
                (ReleaseKind (download_mode (the (request_release request))))),
      bound_archive_filename = Some (archive_filename (manifest_asset (offer_manifest offer))),
      bound_transaction_root = request_transaction_root request,
      bound_board = request_board request,
      bound_source_release_sequence = build_release_sequence (offer_installed offer),
      bound_target_release_sequence = manifest_release_sequence (offer_manifest offer),
      bound_old_boot_generation = request_old_boot_generation request,
      bound_new_boot_generation = request_new_boot_generation request,
      bound_archive_size = archive_download_size (manifest_asset (offer_manifest offer)),
      bound_transaction_id = request_transaction_id request,
      bound_archive_sha256 = archive_sha256 (manifest_asset (offer_manifest offer)),
      bound_manifest_sha256 = manifest_digest,
      bound_consent_sha256 = sealed_consent_sha256 authorization,
      bound_reset_required = sealed_reset_required authorization,
      bound_reset_approved = sealed_reset_approved authorization\<rparr>"

definition BuildInstallerRequest ::
  "ReleaseOffer \<Rightarrow> AuthenticatedUpdateBinding \<Rightarrow> zip_source option \<Rightarrow> PreparedConfigSet option \<Rightarrow> bool
   \<Rightarrow> InstallerRequest" where
  "BuildInstallerRequest offer binding archive prepared recovery_progress_given =
     \<lparr>installer_manifest = offer_manifest offer,
      installer_zip = archive,
      installer_transaction_root = bound_transaction_root binding,
      installer_identity =
        \<lparr>identity_transaction_id = bound_transaction_id binding,
         identity_source_release_sequence = bound_source_release_sequence binding,
         identity_source_version = build_version (offer_installed offer),
         identity_old_boot_generation = bound_old_boot_generation binding,
         identity_new_boot_generation = bound_new_boot_generation binding,
         identity_manifest_sha256 = bound_manifest_sha256 binding,
         identity_consent_sha256 = bound_consent_sha256 binding,
         identity_reset_required = bound_reset_required binding,
         identity_reset_approved = bound_reset_approved binding\<rparr>,
      installer_prepared_configs = prepared,
      installer_progress = recovery_progress_given\<rparr>"

definition ConfigTemplateCount :: "ReleaseManifest \<Rightarrow> nat" where
  "ConfigTemplateCount m =
     length (filter (\<lambda>f. file_policy f = ConfigTemplate) (array_items (archive_files (manifest_asset m))))"

definition prepared_entry_valid :: "bool \<Rightarrow> PreparedConfigTemplate \<Rightarrow> bool" where
  "prepared_entry_valid require_content e \<longleftrightarrow>
     \<not> (\<not> NonEmptyTerminatedWithin (entry_path e) (kMaximumManifestPathBytes + 1)
         \<or> (require_content \<and> entry_content e = None)
         \<or> \<not> BytesNonZero (entry_prepared_sha256 e)
         \<or> (entry_original_existed e \<and> \<not> BytesNonZero (entry_original_sha256 e))
         \<or> (\<not> entry_original_existed e
            \<and> (entry_original_size e \<noteq> 0 \<or> BytesNonZero (entry_original_sha256 e))))"

definition template_matches :: "ReleaseManifest \<Rightarrow> PreparedConfigTemplate \<Rightarrow> nat" where
  "template_matches m e =
     length (filter (\<lambda>f. file_policy f = ConfigTemplate
                         \<and> EqualTextBounded (entry_path e) (Some (file_path f)) (kMaximumManifestPathBytes + 1))
       (array_items (archive_files (manifest_asset m))))"

fun prepared_entries_valid ::
  "ReleaseManifest \<Rightarrow> bool \<Rightarrow> PreparedConfigTemplate list \<Rightarrow> PreparedConfigTemplate list \<Rightarrow> bool" where
  "prepared_entries_valid m require_content prior [] = True"
| "prepared_entries_valid m require_content prior (e # es) =
     (if \<not> prepared_entry_valid require_content e then False
      else if template_matches m e \<noteq> 1 then False
      else if list_ex (\<lambda>p. EqualTextBounded (entry_path e) (entry_path p) (kMaximumManifestPathBytes + 1)) prior
        then False
      else prepared_entries_valid m require_content (prior @ [e]) es)"

definition PreparedSetValid ::
  "PreparedConfigSet option \<Rightarrow> AuthenticatedUpdateBinding \<Rightarrow> ReleaseManifest \<Rightarrow> bool \<Rightarrow> bool" where
  "PreparedSetValid set_given binding m require_content =
     (case set_given of
        None \<Rightarrow> False
      | Some s \<Rightarrow>
          if \<not> ConstantTimeDigestEqual (Some (prepared_manifest_sha256 s)) (Some (bound_manifest_sha256 binding))
             \<or> \<not> ConstantTimeDigestEqual (Some (prepared_consent_sha256 s)) (Some (bound_consent_sha256 binding))
             \<or> prepared_reset_required s \<noteq> bound_reset_required binding
             \<or> prepared_reset_approved s \<noteq> bound_reset_approved binding
          then False
          else if array_count (prepared_entries s) \<noteq> ConfigTemplateCount m
                  \<or> (ConfigTemplateCount m \<noteq> 0
                     \<and> (case prepared_entries s of NullArray n \<Rightarrow> True | Array es \<Rightarrow> False))
          then False
          else prepared_entries_valid m require_content [] (array_items (prepared_entries s)))"

definition JournalBoundToTransaction :: "JournalRecord \<Rightarrow> AuthenticatedUpdateBinding \<Rightarrow> bool" where
  "JournalBoundToTransaction rec binding =
     (if jstate rec = JIdle then True
      else transaction_id rec = bound_transaction_id binding
        \<and> source_release_sequence rec = bound_source_release_sequence binding
        \<and> target_release_sequence rec = bound_target_release_sequence binding
        \<and> board rec = bound_board binding
        \<and> ConstantTimeDigestEqual (Some (manifest_sha256 rec)) (Some (bound_manifest_sha256 binding))
        \<and> ConstantTimeDigestEqual (Some (zip_sha256 rec)) (Some (bound_archive_sha256 binding))
        \<and> ConstantTimeDigestEqual (Some (consent_sha256 rec)) (Some (bound_consent_sha256 binding))
        \<and> old_boot_generation rec = bound_old_boot_generation binding
        \<and> new_boot_generation rec = bound_new_boot_generation binding
        \<and> (flags rec AND kJournalFlagResetRequired \<noteq> 0) = bound_reset_required binding
        \<and> (flags rec AND kJournalFlagResetApproved \<noteq> 0) = bound_reset_approved binding)"

section \<open>What a validated request guarantees\<close>

lemma or_fold_nonzero: "foldl (\<lambda>c b. c OR b) a bs \<noteq> (0 :: byte) \<longleftrightarrow> a \<noteq> 0 \<or> list_ex (\<lambda>b. b \<noteq> 0) bs"
  by (induction bs arbitrary: a) (auto simp: or_eq_0_iff)

lemma BytesNonZero_iff: "BytesNonZero bs \<longleftrightarrow> list_ex (\<lambda>b. b \<noteq> 0) bs"
  by (simp add: BytesNonZero_def or_fold_nonzero)

lemma NonEmptyTerminatedWithin_iff:
  "NonEmptyTerminatedWithin s n \<longleftrightarrow> (\<exists>t. s = Some t \<and> t \<noteq> [] \<and> length t < n)"
  by (cases s) (auto simp: NonEmptyTerminatedWithin_def TerminatedWithin_def)

lemma ValidateAuthenticatedRequest_ok:
  assumes "ValidateAuthenticatedRequest r request offer = Inr dig"
  obtains d where "request_release request = Some d" "IsKnownBoardFamily (request_board request)"
    "\<not> download_rejected d" "Sha256Digest (download_manifest d) = Some dig"
    "\<not> offer_rejected (request_board request) (download_mode d = ModePreparedDraft) offer"
    "\<not> assets_rejected r d offer" "\<not> identity_rejected request"
    "BytesNonZero (request_consent_sha256 request)" "OfferConfigurationAdvisoryValid offer"
    "request_reset_required request = request_reset_approved request"
  using assms by (auto simp: ValidateAuthenticatedRequest_def split: option.splits if_splits)

lemma assets_accepted:
  assumes "\<not> assets_rejected r d offer"
  obtains ai where "required_board_zip (offer_assets offer) = Some ai"
    "AssetStringsValid r (array_items (assets (offer_github offer)) ! ai) (download_mode d)"
    "asset_name (array_items (assets (offer_github offer)) ! ai) = archive_filename (manifest_asset (offer_manifest offer))"
    "ai < length (array_items (assets (offer_github offer)))"
    "asset_size (array_items (assets (offer_github offer)) ! ai) = archive_download_size (manifest_asset (offer_manifest offer))"
    "\<exists>q. FindRequiredAssetsForKind r (offer_github offer) (ReleaseKind (download_mode d))
       (Some (manifest_tag (offer_manifest offer)))
       (Some (archive_filename (manifest_asset (offer_manifest offer)))) = (AssetsOk, q)"
  using assms
  by (auto simp: assets_rejected_def Let_def AssetBelongsToRelease_def
      split: option.splits array_view.splits if_splits)

text \<open>
  (C40) The binding built for a validated request is for the board of the request, which is a known
  board, the board of the installed build and the board of the signed archive; it carries the
  size, the (non-zero) digest and the file name of that archive from the signed manifest, the digest
  of the manifest bytes of the request, the transaction identity and the boot generations of the
  request (the identity is not all zeros, the new generation is later than the old one), and the
  release sequences of the installed build and of the manifest, the second larger than the first.
  Its download address is that of a release asset with this name and size; it is the
  address of the signed tag and file name in the pinned repository or, for a draft, an authorized
  asset address of the repository's interface.
\<close>

theorem validated_binding:
  assumes "ValidateAuthenticatedRequest r request offer = Inr dig"
    and "b = BuildBinding request offer dig authorization"
    and "request_release request = Some d"
  shows "bound_board b = request_board request \<and> IsKnownBoardFamily (bound_board b)
    \<and> bound_board b = build_board (offer_installed offer)
    \<and> bound_board b = archive_board (manifest_asset (offer_manifest offer))
    \<and> bound_archive_size b = archive_download_size (manifest_asset (offer_manifest offer))
    \<and> 0 < bound_archive_size b
    \<and> bound_archive_sha256 b = archive_sha256 (manifest_asset (offer_manifest offer))
    \<and> BytesNonZero (bound_archive_sha256 b)
    \<and> bound_archive_filename b = Some (archive_filename (manifest_asset (offer_manifest offer)))
    \<and> bound_manifest_sha256 b = sha256_spec (view_bytes (download_manifest d))
    \<and> bound_transaction_id b = request_transaction_id request
    \<and> bound_candidate b
    \<and> bound_old_boot_generation b = request_old_boot_generation request
    \<and> bound_new_boot_generation b = request_new_boot_generation request
    \<and> bound_old_boot_generation b < bound_new_boot_generation b
    \<and> bound_source_release_sequence b = build_release_sequence (offer_installed offer)
    \<and> bound_target_release_sequence b = manifest_release_sequence (offer_manifest offer)
    \<and> (\<exists>x url. x \<in> set (array_items (assets (offer_github offer)))
         \<and> Some (asset_name x) = bound_archive_filename b \<and> asset_size x = bound_archive_size b
         \<and> bound_archive_url b = Some url
         \<and> (if download_mode d = ModePreparedDraft
            then fst (ParseAndAuthorizeUpdateUrl r (Some url) AuthenticatedReleaseAsset (Some blank_url)) = UrlOk
            else download_address r (manifest_tag (offer_manifest offer))
                   (archive_filename (manifest_asset (offer_manifest offer))) url))"
proof -
  let ?a = "manifest_asset (offer_manifest offer)" and ?as = "array_items (assets (offer_github offer))"
  from assms(1,3) have v: "\<not> download_rejected d" "Sha256Digest (download_manifest d) = Some dig"
    "\<not> offer_rejected (request_board request) (download_mode d = ModePreparedDraft) offer"
    "\<not> assets_rejected r d offer" "\<not> identity_rejected request"
    "IsKnownBoardFamily (request_board request)"
    by (auto elim!: ValidateAuthenticatedRequest_ok)
  obtain m where m: "download_manifest d = Bytes m" "length m \<le> kMaximumReleaseManifestBytes"
    using v(1) by (cases "download_manifest d") (auto simp: download_rejected_def)
  have dig: "dig = sha256_spec (view_bytes (download_manifest d))"
    using v(2) m Sha256Digest_correct [of m] by (simp add: kMaximumReleaseManifestBytes_def)
  have "bound_candidate b \<and> bound_old_boot_generation b < bound_new_boot_generation b
      \<and> 0 < bound_archive_size b \<and> BytesNonZero (bound_archive_sha256 b)
      \<and> bound_board b = archive_board ?a \<and> bound_board b = build_board (offer_installed offer)"
    using v(3,5) assms(2)
    by (auto simp: offer_rejected_def identity_rejected_def bound_candidate_def BuildBinding_def Let_def
        BytesNonZero_iff word_gt_0 not_le)
  moreover have "bound_board b = request_board request" "bound_manifest_sha256 b = dig"
    "bound_archive_size b = archive_download_size ?a" "bound_archive_sha256 b = archive_sha256 ?a"
    "bound_archive_filename b = Some (archive_filename ?a)"
    "bound_transaction_id b = request_transaction_id request"
    "bound_old_boot_generation b = request_old_boot_generation request"
    "bound_new_boot_generation b = request_new_boot_generation request"
    "bound_source_release_sequence b = build_release_sequence (offer_installed offer)"
    "bound_target_release_sequence b = manifest_release_sequence (offer_manifest offer)"
    using assms(2) by (simp_all add: BuildBinding_def)
  moreover obtain ai where ai: "required_board_zip (offer_assets offer) = Some ai"
    "AssetStringsValid r (?as ! ai) (download_mode d)" "asset_name (?as ! ai) = archive_filename ?a"
    "ai < length ?as" "asset_size (?as ! ai) = archive_download_size ?a"
    "\<exists>q. FindRequiredAssetsForKind r (offer_github offer) (ReleaseKind (download_mode d))
       (Some (manifest_tag (offer_manifest offer))) (Some (archive_filename ?a)) = (AssetsOk, q)"
    by (rule assets_accepted [OF v(4)])
  moreover have "\<exists>url. bound_archive_url b = Some url
      \<and> (if download_mode d = ModePreparedDraft
         then fst (ParseAndAuthorizeUpdateUrl r (Some url) AuthenticatedReleaseAsset (Some blank_url)) = UrlOk
         else download_address r (manifest_tag (offer_manifest offer)) (archive_filename ?a) url)"
  proof -
    have "asset_admissible r (ReleaseKind (download_mode d)) (manifest_tag (offer_manifest offer)) (?as ! ai)"
      using ai(4,6) by (auto simp: required_assets_ok_iff list_all_length)
    then show ?thesis
      using assms(2,3) ai(1-3)
      by (cases "download_mode d = ModePreparedDraft")
        (simp_all add: BuildBinding_def GitHubAssetDownloadUrl_def ReleaseKind_def asset_admissible_def
          AssetStringsValid_def Let_def split: if_splits)
  qed
  ultimately show ?thesis using dig v(6) by (metis nth_mem)
qed

section \<open>Prepared configurations\<close>

abbreviation templates :: "ReleaseManifest \<Rightarrow> ManifestFile list" where
  "templates m \<equiv> filter (\<lambda>f. file_policy f = ConfigTemplate) (array_items (archive_files (manifest_asset m)))"

lemma EqualTextBounded_iff:
  "EqualTextBounded (Some s) t n \<longleftrightarrow> t = Some s \<and> length s < n"
  by (auto simp: EqualTextBounded_def TerminatedWithin_def split: option.splits)

lemma template_matches_count:
  assumes "entry_path e = Some p" "length p < kMaximumManifestPathBytes + 1"
  shows "template_matches m e = count_list (map file_path (templates m)) p"
proof -
  have "template_matches m e = length (filter (\<lambda>f. file_path f = p) (templates m))"
    using assms by (auto simp: template_matches_def EqualTextBounded_iff conj_commute intro: arg_cong [where f = length] filter_cong)
  then show ?thesis by (simp add: count_list_eq_length_filter filter_map o_def eq_commute)
qed

lemma prepared_entries_valid_paths:
  "prepared_entries_valid m c prior es \<Longrightarrow>
     \<exists>ps. map entry_path es = map Some ps \<and> distinct ps
        \<and> list_all (\<lambda>p. Some p \<notin> entry_path ` set prior \<and> count_list (map file_path (templates m)) p = 1) ps"
proof (induction es arbitrary: prior)
  case (Cons e es)
  then have e: "prepared_entry_valid c e" "template_matches m e = 1"
    "\<not> list_ex (\<lambda>p. EqualTextBounded (entry_path e) (entry_path p) (kMaximumManifestPathBytes + 1)) prior"
    and rest: "prepared_entries_valid m c (prior @ [e]) es"
    by (simp_all split: if_splits)
  obtain p where p: "entry_path e = Some p" "length p < kMaximumManifestPathBytes + 1"
    using e(1) by (auto simp: prepared_entry_valid_def NonEmptyTerminatedWithin_iff)
  obtain ps where ps: "map entry_path es = map Some ps" "distinct ps"
    "list_all (\<lambda>p. Some p \<notin> entry_path ` set (prior @ [e]) \<and> count_list (map file_path (templates m)) p = 1) ps"
    using Cons.IH [OF rest] by blast
  have "Some p \<notin> entry_path ` set prior"
    using e(3) p by (auto simp: EqualTextBounded_iff list_ex_iff)
  then show ?case
    using p ps e(2) template_matches_count [OF p, of m]
    by (intro exI [of _ "p # ps"]) (auto simp: list_all_iff)
qed simp

lemma permutation_by_count:
  assumes "distinct xs" "length xs = length ys" "\<And>x. x \<in> set xs \<Longrightarrow> count_list ys x = 1"
  shows "mset xs = mset ys"
proof -
  have "set xs \<subseteq> set ys" using assms(3) by (metis count_list_0_iff one_neq_zero subsetI)
  moreover have "card (set ys) \<le> card (set xs)"
    using assms(1,2) card_length [of ys] by (simp add: distinct_card)
  ultimately have s: "set xs = set ys" by (metis card_seteq finite_set)
  then have "distinct ys" using assms(1,2) by (metis card_distinct distinct_card)
  with assms(1) s show ?thesis by (simp add: set_eq_iff_mset_eq_distinct)
qed

text \<open>
  A prepared set is accepted only if it belongs to the manifest and the consent of the transaction
  and its entries are, up to their order, exactly the configuration templates of the manifest:
  every template has one entry and there is no other entry.
\<close>

theorem PreparedSetValid_exact:
  assumes "PreparedSetValid (Some s) b m require_content"
  shows "\<exists>ps. map entry_path (array_items (prepared_entries s)) = map Some ps
    \<and> mset ps = mset (map file_path (templates m))
    \<and> prepared_reset_required s = bound_reset_required b \<and> prepared_reset_approved s = bound_reset_approved b"
proof -
  have v: "prepared_entries_valid m require_content [] (array_items (prepared_entries s))"
    and n: "array_count (prepared_entries s) = ConfigTemplateCount m"
    and z: "ConfigTemplateCount m = 0 \<or> (\<exists>es. prepared_entries s = Array es)"
    and f: "prepared_reset_required s = bound_reset_required b" "prepared_reset_approved s = bound_reset_approved b"
    using assms by (auto simp: PreparedSetValid_def split: if_splits array_view.splits)
  obtain ps where ps: "map entry_path (array_items (prepared_entries s)) = map Some ps" "distinct ps"
    "list_all (\<lambda>p. count_list (map file_path (templates m)) p = 1) ps"
    using prepared_entries_valid_paths [OF v] by (auto simp: list_all_iff)
  have "length ps = length (templates m)"
    using arg_cong [OF ps(1), of length] n z by (cases "prepared_entries s") (auto simp: ConfigTemplateCount_def)
  then have "mset ps = mset (map file_path (templates m))"
    using ps by (intro permutation_by_count) (auto simp: list_all_iff)
  with ps(1) f show ?thesis by blast
qed

section \<open>A concrete request\<close>

definition sample_manifest :: ReleaseManifest where
  "sample_manifest =
     \<lparr>manifest_version = ascii ''2'', manifest_tag = ascii ''v2'', manifest_source_commit = [],
      manifest_release_sequence = 2, manifest_release_epoch = 0, manifest_minimum_abi = 1,
      manifest_maximum_abi = 1, manifest_signing_key_ids = [], manifest_schemas = [],
      manifest_migrations = [], manifest_lossy_changes = [],
      manifest_asset =
        \<lparr>archive_board = Pi4Pi400, archive_filename = ascii ''b.zip'', archive_download_size = 9,
         archive_sha256 = [7], archive_installed_size = 9, archive_required_peak_bytes = 0,
         archive_files =
           Array [\<lparr>file_path = ascii ''a.txt'', file_size = 1, file_sha256 = [1], file_policy = ConfigTemplate,
                   file_compression = CompressionStore\<rparr>],
         archive_directories = Array []\<rparr>\<rparr>"

definition sample_asset :: "string \<Rightarrow> u64 \<Rightarrow> GitHubReleaseAsset" where
  "sample_asset name n =
     \<lparr>asset_id = 0, asset_name = ascii name, asset_size = n,
      browser_download_url = ascii (''https://github.com/kdre/bmx/releases/download/v2/'' @ name),
      api_download_url = []\<rparr>"

definition sample_assets :: "GitHubReleaseAsset list" where
  "sample_assets =
     [sample_asset ''BMX-RELEASE.json'' 1, sample_asset ''BMX-RELEASE.sig'' 1, sample_asset ''b.zip'' 9]"

definition sample_offer :: ReleaseOffer where
  "sample_offer =
     \<lparr>offer_installed =
        \<lparr>build_version = ascii ''1'', build_release_sequence = 1, build_release_epoch = 0,
         build_board = Pi4Pi400, build_source_commit = [], build_updater_abi = 1, build_schemas = []\<rparr>,
      offer_github =
        \<lparr>release_id = 0, tag_name = ascii ''v2'', draft = False, prerelease = False,
         assets = Array sample_assets\<rparr>,
      offer_manifest = sample_manifest,
      offer_assets = \<lparr>required_manifest = Some 0, required_signature = Some 1, required_board_zip = Some 2\<rparr>,
      offer_decision = UpdateAvailable, offer_configuration_status = Compatible,
      offer_reset_areas = [], offer_reset_area_count = 0\<rparr>"

definition sample_download :: ValidatedReleaseDownload where
  "sample_download =
     \<lparr>download_build_info = Bytes [1], download_mode = ModePublishedStable, download_offer = sample_offer,
      download_github_response = Bytes [1], download_manifest = Bytes [1], download_signature = Bytes [1]\<rparr>"

definition sample_request :: AuthenticatedUpdateRequest where
  "sample_request =
     \<lparr>request_release = Some sample_download, request_board = Pi4Pi400,
      request_transaction_root = Some (ascii ''tx''), request_transaction_id = [1],
      request_old_boot_generation = 1, request_new_boot_generation = 2,
      request_consent_sha256 = [1], request_reset_required = False, request_reset_approved = False,
      request_authorization_token = 0\<rparr>"

lemma sample_asset_admissible:
  "list_all (asset_admissible production_repository PublishedStable (ascii ''v2'')) sample_assets"
  by (simp add: sample_assets_def sample_asset_def asset_admissible_def IsSafeAssetName_def IsSafeIdentifier_iff
      IsSafeIdentifierCharacter_def kMaximumGitHubAssetNameBytes_def download_address_def
      kMaximumUpdateUrlBytes_def port_suffixes_def kScheme_def production_repository_def
      kGitHubReleaseDownloadPathPrefix_def path_grammar_def kMaximumUpdatePathBytes_def
      IsForbiddenRequestCharacter_def)

lemma sample_assets_found:
  "FindRequiredAssetsForKind production_repository (offer_github sample_offer) PublishedStable
     (Some (ascii ''v2'')) (Some (ascii ''b.zip'')) = (AssetsOk, offer_assets sample_offer)"
  unfolding required_assets_ok_iff
  by (intro exI [of _ sample_assets] conjI sample_asset_admissible)
    (simp_all add: sample_offer_def sample_assets_def sample_asset_def kMaximumGitHubReleaseAssets_def
      EligibleKind_def IsSafeTag_def IsSafeAssetName_def IsSafeIdentifier_iff IsSafeIdentifierCharacter_def
      kMaximumGitHubReleaseTagBytes_def kMaximumGitHubAssetNameBytes_def kManifestAssetName_def
      kSignatureAssetName_def selected_def asset_index_def upt_rec)

lemma sample_strings_valid:
  "list_all (\<lambda>a. AssetStringsValid production_repository a ModePublishedStable) sample_assets"
  by (simp add: sample_assets_def sample_asset_def AssetStringsValid_def GitHubAssetDownloadUrl_def ReleaseKind_def
      NonEmptyTerminatedWithin_iff kMaximumGitHubAssetNameBytes_def ParseAndAuthorizeUpdateUrl_def
      kMaximumUpdateUrlBytes_def starts_with_def kScheme_def memchr_def parse_authority_def
      kMaximumUpdateHostBytes_def kMaximumUpdatePathBytes_def IsAsciiHostCharacter_def
      IsForbiddenRequestCharacter_def authorize_def IsGithubReleasePath_def production_repository_def
      kGitHubReleaseDownloadPathPrefix_def Let_def)

lemma sample_digest: "Sha256Digest (Bytes [1]) = Some (sha256_spec [1])"
  using Sha256Digest_correct [of "[1]"] by simp

lemma sample_root_valid: "ValidateFatRelativePath (Some (ascii ''tx'')) kInstallerMaximumPathBytes = FatPathOk"
  by code_simp

lemma sample_validated:
  "ValidateAuthenticatedRequest production_repository sample_request sample_offer = Inr (sha256_spec [1])"
proof -
  have "\<not> assets_rejected production_repository sample_download sample_offer"
    using sample_assets_found sample_strings_valid
    by (simp add: assets_rejected_def AssetBelongsToRelease_def sample_offer_def sample_assets_def sample_asset_def
        sample_download_def ReleaseKind_def kMaximumGitHubReleaseAssets_def Let_def sample_manifest_def)
  moreover have "\<not> download_rejected sample_download"
    by (simp add: download_rejected_def sample_download_def AcquisitionModeValid_def kMaximumBuildInfoBytes_def
        kMaximumGitHubReleaseResponseBytes_def kMaximumReleaseManifestBytes_def kMaximumSignatureEnvelopeBytes_def)
  moreover have "\<not> offer_rejected Pi4Pi400 False sample_offer"
    by (simp add: offer_rejected_def sample_offer_def sample_manifest_def Let_def NonEmptyTerminatedWithin_iff
        kMaximumGitHubReleaseTagBytes_def BytesNonZero_iff kMaximumManifestFiles_def kMaximumManifestDirectories_def
        word_le_nat_alt)
  moreover have "\<not> identity_rejected sample_request"
    by (simp add: identity_rejected_def sample_request_def NonEmptyTerminatedWithin_iff kInstallerMaximumPathBytes_def
        kMaximumManifestPathBytes_def BytesNonZero_iff word_le_nat_alt sample_root_valid [unfolded kInstallerMaximumPathBytes_def, simplified])
  ultimately show ?thesis
    using sample_digest
    by (simp add: ValidateAuthenticatedRequest_def sample_request_def sample_download_def IsKnownBoardFamily_def
        BytesNonZero_iff OfferConfigurationAdvisoryValid_def sample_offer_def)
qed

theorem validated_binding_witness:
  "bound_candidate (BuildBinding sample_request sample_offer (sha256_spec [1])
     \<lparr>sealed_consent_sha256 = [1], sealed_reset_required = False, sealed_reset_approved = False\<rparr>)
   \<and> request_board sample_request = archive_board (manifest_asset (offer_manifest sample_offer))"
proof -
  have "request_release sample_request = Some sample_download" by (simp add: sample_request_def)
  from validated_binding [OF sample_validated refl this] show ?thesis by metis
qed

definition sample_prepared :: PreparedConfigSet where
  "sample_prepared =
     \<lparr>prepared_entries =
        Array [\<lparr>entry_path = Some (ascii ''a.txt''), entry_content = Some 0, entry_original_existed = False,
                entry_original_size = 0, entry_original_sha256 = [0], entry_prepared_size = 1,
                entry_prepared_sha256 = [1]\<rparr>],
      prepared_manifest_sha256 = [3], prepared_consent_sha256 = [1],
      prepared_reset_required = False, prepared_reset_approved = False\<rparr>"

theorem PreparedSetValid_exact_witness:
  "\<exists>ps. map entry_path (array_items (prepared_entries sample_prepared)) = map Some ps
     \<and> mset ps = mset (map file_path (templates sample_manifest))"
proof -
  let ?b = "(BuildBinding sample_request sample_offer [3]
     \<lparr>sealed_consent_sha256 = [1], sealed_reset_required = False, sealed_reset_approved = False\<rparr>)"
  have "PreparedSetValid (Some sample_prepared) ?b sample_manifest True"
    by (simp add: PreparedSetValid_def sample_prepared_def sample_manifest_def BuildBinding_def
        ConstantTimeDigestEqual_def ConfigTemplateCount_def prepared_entry_valid_def NonEmptyTerminatedWithin_iff
        kMaximumManifestPathBytes_def BytesNonZero_iff template_matches_def EqualTextBounded_iff)
  from PreparedSetValid_exact [OF this] show ?thesis by blast
qed

end
