(* ===== verification/Manifest_Paths.thy ===== *)
theory Manifest_Paths
  imports Update_Structures
begin

text \<open>
  The inventory policy of a release: the rule table of \<open>generated/update_path_policy_v1.h\<close> and its
  interpreter in \<open>release_manifest.cpp\<close>, which decides what may happen to a file of an archive. The
  theorems say which files count as kernels and that a release cannot replace files in the
  directories that hold the user's own data.
\<close>

section \<open>The rule table\<close>

datatype RuleKind =
    ExactPath | TopRoot | BasenameExact | BasenamePrefixSuffix | BasenameSuffix | MachineKernel

datatype RulePolicy =
    RuleConfigTemplate | RuleKernel | RuleManagedReplace | RuleMetadata | RulePreserve

text \<open>A null pointer is \<open>None\<close>.\<close>

record Rule =
  rule_kind :: RuleKind
  rule_policy :: RulePolicy
  rule_root :: "cstring option"
  rule_value :: "cstring option"
  rule_suffix :: "cstring option"

definition kFileRules :: "Rule list" where
  "kFileRules =
     [Rule.make MachineKernel RuleKernel None None None,
      Rule.make ExactPath RuleMetadata None (Some (ascii ''BMX-BUILD.json'')) None,
      Rule.make ExactPath RuleMetadata None (Some (ascii ''BUILD-PROFILE.txt'')) None,
      Rule.make ExactPath RuleMetadata None (Some (ascii ''MISSING-ROMS.txt'')) None,
      Rule.make ExactPath RuleMetadata None (Some (ascii ''UART-DEBUG.txt'')) None,
      Rule.make ExactPath RuleManagedReplace None (Some (ascii ''armstub7-rpi4.bin'')) None,
      Rule.make ExactPath RuleConfigTemplate None (Some (ascii ''autoboot.txt'')) None,
      Rule.make ExactPath RuleConfigTemplate None (Some (ascii ''bmx-active-kernel.txt'')) None,
      Rule.make ExactPath RuleConfigTemplate None (Some (ascii ''bmx-machine.txt'')) None,
      Rule.make ExactPath RulePreserve None (Some (ascii ''bmx-recovery-pi4.img'')) None,
      Rule.make ExactPath RulePreserve None (Some (ascii ''bmx-recovery-pi5.img'')) None,
      Rule.make ExactPath RuleConfigTemplate None (Some (ascii ''bmx-tryboot-kernel.txt'')) None,
      Rule.make ExactPath RuleConfigTemplate None (Some (ascii ''cmdline.txt'')) None,
      Rule.make ExactPath RuleConfigTemplate None (Some (ascii ''config.txt'')) None,
      Rule.make ExactPath RuleManagedReplace None (Some (ascii ''fixup4.dat'')) None,
      Rule.make ExactPath RuleConfigTemplate None (Some (ascii ''machines.defaults.ini'')) None,
      Rule.make ExactPath RuleConfigTemplate None (Some (ascii ''machines.ini'')) None,
      Rule.make ExactPath RulePreserve None (Some (ascii ''machines.local.ini'')) None,
      Rule.make ExactPath RuleConfigTemplate None (Some (ascii ''machines.txt'')) None,
      Rule.make ExactPath RuleManagedReplace None (Some (ascii ''modem/hayes_dial.wav'')) None,
      Rule.make ExactPath RuleManagedReplace None (Some (ascii ''modem/hayes_long_connect.wav'')) None,
      Rule.make ExactPath RuleManagedReplace None (Some (ascii ''modem/hayes_short_connect.wav'')) None,
      Rule.make ExactPath RuleManagedReplace None (Some (ascii ''start4.elf'')) None,
      Rule.make ExactPath RuleConfigTemplate None (Some (ascii ''tryboot.txt'')) None,
      Rule.make ExactPath RulePreserve None (Some (ascii ''wpa_supplicant.conf'')) None,
      Rule.make BasenameExact RulePreserve None (Some (ascii ''ROMS.txt'')) None,
      Rule.make BasenameExact RulePreserve None (Some (ascii ''bootstat.txt'')) None,
      Rule.make BasenamePrefixSuffix RuleManagedReplace None (Some (ascii ''bcm2711-'')) (Some (ascii ''.dtb'')),
      Rule.make BasenamePrefixSuffix RuleManagedReplace None (Some (ascii ''bcm2712-'')) (Some (ascii ''.dtb'')),
      Rule.make BasenamePrefixSuffix RuleManagedReplace None (Some (ascii ''bcm2712d0-'')) (Some (ascii ''.dtb'')),
      Rule.make BasenamePrefixSuffix RulePreserve None (Some (ascii ''settings'')) (Some (ascii ''.txt'')),
      Rule.make BasenamePrefixSuffix RuleManagedReplace (Some (ascii ''firmware'')) (Some (ascii ''brcmfmac'')) (Some (ascii ''.bin'')),
      Rule.make BasenamePrefixSuffix RuleManagedReplace (Some (ascii ''firmware'')) (Some (ascii ''brcmfmac'')) (Some (ascii ''.clm_blob'')),
      Rule.make BasenamePrefixSuffix RuleManagedReplace (Some (ascii ''firmware'')) (Some (ascii ''brcmfmac'')) (Some (ascii ''.txt'')),
      Rule.make BasenamePrefixSuffix RuleManagedReplace (Some (ascii ''intro'')) (Some (ascii ''bmx-intro-v'')) (Some (ascii ''.dat'')),
      Rule.make BasenameSuffix RuleManagedReplace (Some (ascii ''c128'')) None (Some (ascii ''.vkm'')),
      Rule.make BasenameSuffix RuleManagedReplace (Some (ascii ''c64'')) None (Some (ascii ''.vkm'')),
      Rule.make BasenameSuffix RuleManagedReplace (Some (ascii ''overlays'')) None (Some (ascii ''.dtbo'')),
      Rule.make BasenameSuffix RuleManagedReplace (Some (ascii ''pet'')) None (Some (ascii ''.vkm'')),
      Rule.make BasenameSuffix RuleManagedReplace (Some (ascii ''plus4'')) None (Some (ascii ''.vkm'')),
      Rule.make BasenameSuffix RuleManagedReplace (Some (ascii ''scpu64'')) None (Some (ascii ''.vkm'')),
      Rule.make BasenameSuffix RuleManagedReplace (Some (ascii ''utils'')) None (Some (ascii ''.d64'')),
      Rule.make BasenameSuffix RuleManagedReplace (Some (ascii ''utils'')) None (Some (ascii ''.txt'')),
      Rule.make BasenameSuffix RuleManagedReplace (Some (ascii ''vic20'')) None (Some (ascii ''.vkm'')),
      Rule.make TopRoot RulePreserve (Some (ascii ''c128'')) None None,
      Rule.make TopRoot RulePreserve (Some (ascii ''c64'')) None None,
      Rule.make TopRoot RulePreserve (Some (ascii ''carts'')) None None,
      Rule.make TopRoot RulePreserve (Some (ascii ''disks'')) None None,
      Rule.make TopRoot RulePreserve (Some (ascii ''drives'')) None None,
      Rule.make TopRoot RuleMetadata (Some (ascii ''licenses'')) None None,
      Rule.make TopRoot RulePreserve (Some (ascii ''pet'')) None None,
      Rule.make TopRoot RulePreserve (Some (ascii ''phonebooks'')) None None,
      Rule.make TopRoot RulePreserve (Some (ascii ''plus4'')) None None,
      Rule.make TopRoot RulePreserve (Some (ascii ''scpu64'')) None None,
      Rule.make TopRoot RulePreserve (Some (ascii ''snapshots'')) None None,
      Rule.make TopRoot RulePreserve (Some (ascii ''tapes'')) None None,
      Rule.make TopRoot RulePreserve (Some (ascii ''vic20'')) None None]"

definition kDirectoryRoots :: "cstring list" where
  "kDirectoryRoots =
     [ascii ''c128'', ascii ''c64'', ascii ''carts'', ascii ''disks'', ascii ''drives'', ascii
      ''firmware'', ascii ''intro'', ascii ''licenses'', ascii ''modem'', ascii ''overlays'',
      ascii ''pet'', ascii ''phonebooks'', ascii ''plus4'', ascii ''scpu64'', ascii
      ''snapshots'', ascii ''tapes'', ascii ''utils'', ascii ''vic20'']"

definition kMachineKernelBases :: "cstring list" where
  "kMachineKernelBases = [ascii ''kernel7l.img'', ascii ''kernel_2712.img'']"

definition kMachineKernelMachines :: "cstring list" where
  "kMachineKernelMachines =
     [ascii ''c64'', ascii ''c64sc'', ascii ''scpu64'', ascii ''c128'', ascii ''vic20'', ascii
      ''plus4'', ascii ''pet'', ascii ''updater'', ascii ''intro'']"

definition kRequiredKernelMachineCount :: nat where "kRequiredKernelMachineCount = 7"
definition kMachineKernelPolicy :: RulePolicy where "kMachineKernelPolicy = RuleKernel"

section \<open>The interpreter\<close>

text \<open>\<open>strrchr (path, '/')\<close> and \<open>strchr (path, '/')\<close>.\<close>

definition Basename :: "cstring \<Rightarrow> cstring" where
  "Basename path = rev (takeWhile (\<lambda>b. b \<noteq> ch CHR ''/'') (rev path))"

definition TopEquals :: "cstring \<Rightarrow> cstring \<Rightarrow> bool" where
  "TopEquals path expected \<longleftrightarrow> takeWhile (\<lambda>b. b \<noteq> ch CHR ''/'') path = expected"

definition StartsWith :: "cstring \<Rightarrow> cstring \<Rightarrow> bool" where
  "StartsWith v p = starts_with v p"

definition EndsWith :: "cstring \<Rightarrow> cstring \<Rightarrow> bool" where
  "EndsWith v s \<longleftrightarrow> length v \<ge> length s \<and> drop (length v - length s) v = s"

definition IsSafeManifestPath :: "cstring \<Rightarrow> bool" where
  "IsSafeManifestPath path \<longleftrightarrow> ValidateFatRelativePath (Some path) kMaximumManifestPathBytes = FatPathOk"

text \<open>The bit of the machine, or 0 for a machine that is not required.\<close>

definition ParseMachineKernelSuffix :: "cstring \<Rightarrow> u16 option" where
  "ParseMachineKernelSuffix s =
     (if s = [] \<or> ch CHR ''.'' \<in> set s then None
      else
        (case find (\<lambda>i. kMachineKernelMachines ! i = s) [0..<length kMachineKernelMachines] of
           None \<Rightarrow> None
         | Some i \<Rightarrow> Some (if i < kRequiredKernelMachineCount then push_bit i 1 else 0)))"

fun ConvertPolicy :: "RulePolicy \<Rightarrow> ManifestFilePolicy" where
  "ConvertPolicy RuleConfigTemplate = ConfigTemplate"
| "ConvertPolicy RuleManagedReplace = ManagedReplace"
| "ConvertPolicy RuleMetadata = Metadata"
| "ConvertPolicy RulePreserve = Preserve"
| "ConvertPolicy RuleKernel = Kernel"

text \<open>\<open>strncmp (path, base, base_size) == 0 && path[base_size] == '.' && ParseMachineKernelSuffix (...)\<close>.\<close>

definition machine_kernel :: "cstring \<Rightarrow> cstring \<Rightarrow> bool" where
  "machine_kernel path base \<longleftrightarrow>
     starts_with path base \<and> starts_with (drop (length base) path) [ch CHR ''.'']
     \<and> ParseMachineKernelSuffix (drop (length base + 1) path) \<noteq> None"

definition rule_matched :: "cstring \<Rightarrow> Rule \<Rightarrow> bool" where
  "rule_matched path rule =
     (case rule_kind rule of
        ExactPath \<Rightarrow> path = the (rule_value rule)
      | TopRoot \<Rightarrow> True
      | BasenameExact \<Rightarrow> Basename path = the (rule_value rule)
      | BasenamePrefixSuffix \<Rightarrow>
          StartsWith (Basename path) (the (rule_value rule)) \<and> EndsWith (Basename path) (the (rule_suffix rule))
      | BasenameSuffix \<Rightarrow> EndsWith (Basename path) (the (rule_suffix rule))
      | MachineKernel \<Rightarrow> False)"

fun classify_loop :: "cstring \<Rightarrow> Rule list \<Rightarrow> ManifestFilePolicy option" where
  "classify_loop path [] = None"
| "classify_loop path (rule # rules) =
     (if rule_kind rule = MachineKernel then
        (if list_ex (machine_kernel path) kMachineKernelBases then Some (ConvertPolicy kMachineKernelPolicy)
         else classify_loop path rules)
      else if rule_root rule \<noteq> None \<and> \<not> TopEquals path (the (rule_root rule)) then classify_loop path rules
      else if rule_matched path rule then Some (ConvertPolicy (rule_policy rule))
      else classify_loop path rules)"

definition ClassifyKnownPath :: "cstring \<Rightarrow> ManifestFilePolicy option" where
  "ClassifyKnownPath path = classify_loop path kFileRules"

definition IsAllowedUpdateDirectory :: "cstring \<Rightarrow> bool" where
  "IsAllowedUpdateDirectory path = list_ex (TopEquals path) kDirectoryRoots"

section \<open>Kernels\<close>

lemma machine_names: "list_all (\<lambda>m. m \<noteq> [] \<and> ch CHR ''.'' \<notin> set m) kMachineKernelMachines"
  by (simp add: kMachineKernelMachines_def)

lemma ParseMachineKernelSuffix_known:
  "ParseMachineKernelSuffix s \<noteq> None \<longleftrightarrow> s \<in> set kMachineKernelMachines"
proof -
  have "find (\<lambda>i. kMachineKernelMachines ! i = s) [0..<length kMachineKernelMachines] = None
      \<longleftrightarrow> s \<notin> set kMachineKernelMachines"
    by (auto simp: find_None_iff in_set_conv_nth)
  then show ?thesis
    using machine_names by (auto simp: ParseMachineKernelSuffix_def list_all_iff split: option.splits)
qed

lemma machine_kernel_iff:
  "machine_kernel path base \<longleftrightarrow> (\<exists>machine. machine \<in> set kMachineKernelMachines \<and> path = base @ ch CHR ''.'' # machine)"
  unfolding machine_kernel_def ParseMachineKernelSuffix_known by (auto simp: starts_with_iff)

lemma classify_loop_no_kernel:
  "list_all (\<lambda>r. rule_kind r \<noteq> MachineKernel \<and> rule_policy r \<noteq> RuleKernel) rules \<Longrightarrow>
   classify_loop path rules \<noteq> Some Kernel"
proof (induction rules)
  case (Cons r rules)
  have "ConvertPolicy q = Kernel \<longleftrightarrow> q = RuleKernel" for q by (cases q) simp_all
  with Cons show ?case by simp
qed simp

lemma kFileRules_split:
  "hd kFileRules = Rule.make MachineKernel RuleKernel None None None"
  "list_all (\<lambda>r. rule_kind r \<noteq> MachineKernel \<and> rule_policy r \<noteq> RuleKernel) (tl kFileRules)"
  "kFileRules \<noteq> []"
  by (simp_all add: kFileRules_def Rule.make_def)

lemma classify_kernel_first:
  "ClassifyKnownPath path =
     (if list_ex (machine_kernel path) kMachineKernelBases then Some Kernel
      else classify_loop path (tl kFileRules))"
proof -
  have "kFileRules = Rule.make MachineKernel RuleKernel None None None # tl kFileRules"
    using kFileRules_split(1,3) by (metis list.collapse)
  then have "ClassifyKnownPath path = classify_loop path (Rule.make MachineKernel RuleKernel None None None # tl kFileRules)"
    by (simp add: ClassifyKnownPath_def)
  then show ?thesis by (simp add: Rule.make_def kMachineKernelPolicy_def)
qed

text \<open>
  (C11) The path policy treats as a kernel exactly the files named after one of the two kernel bases and
  one of the known machines; no other file of a release can become a boot kernel.
\<close>

theorem ClassifyKnownPath_kernel_iff:
  "ClassifyKnownPath path = Some Kernel \<longleftrightarrow>
     (\<exists>base machine. base \<in> set kMachineKernelBases \<and> machine \<in> set kMachineKernelMachines
        \<and> path = base @ ch CHR ''.'' # machine)"
  using classify_loop_no_kernel [OF kFileRules_split(2), of path]
  by (auto simp: classify_kernel_first list_ex_iff machine_kernel_iff)

section \<open>The user's own files\<close>

definition user_data_roots :: "cstring list" where
  "user_data_roots =
     [ascii ''carts'', ascii ''disks'', ascii ''drives'', ascii ''phonebooks'', ascii ''snapshots'', ascii ''tapes'']"

text \<open>The only names that have a rule in every directory and are replaced.\<close>

definition device_tree :: "cstring \<Rightarrow> bool" where
  "device_tree name \<longleftrightarrow>
     EndsWith name (ascii ''.dtb'')
     \<and> (StartsWith name (ascii ''bcm2711-'') \<or> StartsWith name (ascii ''bcm2712-'')
        \<or> StartsWith name (ascii ''bcm2712d0-''))"

text \<open>Whether a rule decides a path, when the loop reaches it.\<close>

definition path_rule_applies :: "cstring \<Rightarrow> Rule \<Rightarrow> bool" where
  "path_rule_applies path rule \<longleftrightarrow>
     \<not> (rule_root rule \<noteq> None \<and> \<not> TopEquals path (the (rule_root rule))) \<and> rule_matched path rule"

lemma classify_loop_preserves:
  "list_all (\<lambda>r. rule_kind r \<noteq> MachineKernel \<and> (rule_policy r = RulePreserve \<or> \<not> path_rule_applies path r)) rules \<Longrightarrow>
   list_ex (path_rule_applies path) rules \<Longrightarrow> classify_loop path rules = Some Preserve"
  by (induction rules) (auto simp: path_rule_applies_def)

text \<open>Why a rule leaves a user's directory alone; for every rule this is read off the table.\<close>

definition harmless :: "cstring \<Rightarrow> Rule \<Rightarrow> bool" where
  "harmless folder rule \<longleftrightarrow>
     rule_policy rule = RulePreserve
     \<or> (rule_root rule \<noteq> None \<and> rule_root rule \<noteq> Some folder)
     \<or> (rule_kind rule = ExactPath \<and> takeWhile (\<lambda>b. b \<noteq> ch CHR ''/'') (the (rule_value rule)) \<noteq> folder)
     \<or> (rule_kind rule = BasenamePrefixSuffix \<and> rule_suffix rule = Some (ascii ''.dtb'')
        \<and> (rule_value rule = Some (ascii ''bcm2711-'') \<or> rule_value rule = Some (ascii ''bcm2712-'')
           \<or> rule_value rule = Some (ascii ''bcm2712d0-'')))"

lemma table_harmless:
  "list_all (\<lambda>folder. list_all (\<lambda>r. rule_kind r \<noteq> MachineKernel \<and> harmless folder r) (tl kFileRules)
     \<and> list_ex (\<lambda>r. rule_kind r = TopRoot \<and> rule_root r = Some folder) (tl kFileRules)) user_data_roots"
  by (simp add: user_data_roots_def kFileRules_def Rule.make_def harmless_def)

lemma harmless_verdict:
  assumes "harmless folder r" "TopEquals path folder" "\<not> device_tree (Basename path)"
  shows "rule_policy r = RulePreserve \<or> \<not> path_rule_applies path r"
  using assms by (auto simp: harmless_def path_rule_applies_def TopEquals_def rule_matched_def device_tree_def)

lemma no_kernel_in_user_data:
  assumes "folder \<in> set user_data_roots" "TopEquals path folder"
  shows "\<not> list_ex (machine_kernel path) kMachineKernelBases"
proof
  assume "list_ex (machine_kernel path) kMachineKernelBases"
  then obtain base machine where "base \<in> set kMachineKernelBases" "path = base @ ch CHR ''.'' # machine"
    by (auto simp: list_ex_iff machine_kernel_iff)
  then have "takeWhile (\<lambda>b. b \<noteq> ch CHR ''/'') path = base @ takeWhile (\<lambda>b. b \<noteq> ch CHR ''/'') (ch CHR ''.'' # machine)"
    by (auto simp: kMachineKernelBases_def)
  with assms \<open>base \<in> set kMachineKernelBases\<close> show False
    by (auto simp: TopEquals_def user_data_roots_def kMachineKernelBases_def)
qed

text \<open>
  (C10) Whatever an archive brings into the directories of the user's own data (cartridges, disk images,
  drive images, phone books, snapshots, tapes), the path policy preserves the file that is there;
  the one exception are files with the name of a Raspberry Pi device tree.
\<close>

theorem ClassifyKnownPath_user_data:
  assumes "folder \<in> set user_data_roots" "TopEquals path folder" "\<not> device_tree (Basename path)"
  shows "ClassifyKnownPath path = Some Preserve"
proof -
  have h: "list_all (\<lambda>r. rule_kind r \<noteq> MachineKernel \<and> harmless folder r) (tl kFileRules)"
    and t: "list_ex (\<lambda>r. rule_kind r = TopRoot \<and> rule_root r = Some folder) (tl kFileRules)"
    using table_harmless assms(1) by (auto simp: list_all_iff)
  have "classify_loop path (tl kFileRules) = Some Preserve"
  proof (rule classify_loop_preserves)
    show "list_all (\<lambda>r. rule_kind r \<noteq> MachineKernel \<and> (rule_policy r = RulePreserve \<or> \<not> path_rule_applies path r)) (tl kFileRules)"
      using h harmless_verdict [OF _ assms(2,3)] by (auto simp: list_all_iff)
    have "path_rule_applies path r" if "rule_kind r = TopRoot" "rule_root r = Some folder" for r
      using that assms(2) by (simp add: path_rule_applies_def rule_matched_def)
    then show "list_ex (path_rule_applies path) (tl kFileRules)" using t unfolding list_ex_iff by blast
  qed
  with no_kernel_in_user_data [OF assms(1,2)] show ?thesis by (simp add: classify_kernel_first)
qed

theorem ClassifyKnownPath_user_data_witness:
  "ClassifyKnownPath (ascii ''disks/games/a.d64'') = Some Preserve"
  by (rule ClassifyKnownPath_user_data [of "ascii ''disks''"])
    (simp_all add: user_data_roots_def TopEquals_def device_tree_def Basename_def EndsWith_def)

end
