(* ===== verification/Migration_Registry.thy ===== *)
theory Migration_Registry
  imports Config_Schema
begin

text \<open>
  The migration registry of \<open>config_migration.cpp\<close>: the migrations compiled into the updater and the
  check of a signed manifest's declarations against them. The theorem says which declarations are
  valid: a manifest selects compiled code by its exact tuple and never introduces any.
\<close>

section \<open>The code\<close>

definition kConfigMigrationAreaCount :: nat where "kConfigMigrationAreaCount = 6"
definition kMaximumDeclaredConfigMigrations :: nat where "kMaximumDeclaredConfigMigrations = 64"
definition kMaximumConfigMigrationIdBytes :: nat where "kMaximumConfigMigrationIdBytes = 64"

record ConfigSchemaRequirement =
  requirement_area :: ConfigArea
  requirement_target :: u32
  requirement_accepted :: "u32 array_view"

record DeclaredConfigMigration =
  declared_id :: "cstring option"
  declared_area :: ConfigArea
  declared_from :: u32
  declared_to :: u32
  declared_lossy :: bool

datatype ConfigMigrationRegistryStatus =
    RegistryValid | RegistryInvalidInput | DuplicateDeclaration | UnknownMigration
  | DeclarationMismatch | SchemaMismatch

datatype CompiledTransform =
    TextHeader | ConfigBlockHeader | CmdlineMarker | ResetDefaults | ResetConfigBlock
  | ResetCmdlineKeys

record CompiledMigration =
  compiled_id :: cstring
  compiled_area :: ConfigArea
  compiled_from :: u32
  compiled_to :: u32
  compiled_lossy :: bool
  compiled_transform :: CompiledTransform

definition kCompiledMigrations :: "CompiledMigration list" where
  "kCompiledMigrations =
     [CompiledMigration.make (ascii ''machines-v1-to-v2-header'') Machines 1 2 False TextHeader,
      CompiledMigration.make (ascii ''config-managed-v1-to-v2-header'') ConfigManagedBlock 1 2 False
        ConfigBlockHeader,
      CompiledMigration.make (ascii ''cmdline-managed-v1-to-v2-marker'') CmdlineManagedKeys 1 2 False
        CmdlineMarker,
      CompiledMigration.make (ascii ''network-v1-to-v2-marker'') Network 1 2 False CmdlineMarker,
      CompiledMigration.make (ascii ''settings-v1-to-v2-header'') Settings 1 2 False TextHeader,
      CompiledMigration.make (ascii ''machines-v1-to-v2-reset'') Machines 1 2 True ResetDefaults,
      CompiledMigration.make (ascii ''config-managed-v1-to-v2-reset'') ConfigManagedBlock 1 2 True
        ResetConfigBlock,
      CompiledMigration.make (ascii ''cmdline-managed-v1-to-v2-reset'') CmdlineManagedKeys 1 2 True
        ResetCmdlineKeys,
      CompiledMigration.make (ascii ''network-v1-to-v2-reset'') Network 1 2 True ResetCmdlineKeys,
      CompiledMigration.make (ascii ''settings-v1-to-v2-reset'') Settings 1 2 True ResetDefaults,
      CompiledMigration.make (ascii ''update-state-v1-to-v2-reset'') UpdateState 1 2 True ResetDefaults]"

text \<open>A null pointer counts as too long, as does a string without a NUL in its first bytes.\<close>

definition BoundedStringLength :: "cstring option \<Rightarrow> nat \<Rightarrow> nat" where
  "BoundedStringLength s maximum =
     (case s of None \<Rightarrow> maximum + 1 | Some t \<Rightarrow> if length t \<le> maximum then length t else maximum + 1)"

definition FindCompiledMigration :: "cstring option \<Rightarrow> CompiledMigration option" where
  "FindCompiledMigration i =
     (if BoundedStringLength i kMaximumConfigMigrationIdBytes = 0
         \<or> BoundedStringLength i kMaximumConfigMigrationIdBytes > kMaximumConfigMigrationIdBytes
      then None
      else find (\<lambda>c. compiled_id c = the i) kCompiledMigrations)"

text \<open>The loop over the accepted versions; \<open>seen\<close> are those the inner loop compares with.\<close>

fun accepted_versions_distinct :: "u32 list \<Rightarrow> u32 list \<Rightarrow> bool" where
  "accepted_versions_distinct seen [] = True"
| "accepted_versions_distinct seen (v # vs) =
     (if list_ex (\<lambda>p. p = v) seen then False else accepted_versions_distinct (seen @ [v]) vs)"

definition RequirementIsValid :: "ConfigSchemaRequirement \<Rightarrow> bool" where
  "RequirementIsValid q =
     (case requirement_accepted q of
        NullArray n \<Rightarrow> False
      | Array vs \<Rightarrow>
          if \<not> IsKnownConfigArea (requirement_area q) \<or> requirement_target q = 0 \<or> length vs = 0
             \<or> length vs > 32
          then False
          else if \<not> accepted_versions_distinct [] vs then False
          else list_ex (\<lambda>v. v = requirement_target q) vs)"

definition FindRequirement ::
  "ConfigSchemaRequirement list \<Rightarrow> ConfigArea \<Rightarrow> ConfigSchemaRequirement option" where
  "FindRequirement requirements area = find (\<lambda>q. requirement_area q = area) requirements"

definition VersionIsAccepted :: "ConfigSchemaRequirement \<Rightarrow> u32 \<Rightarrow> bool" where
  "VersionIsAccepted q version = list_ex (\<lambda>v. v = version) (array_items (requirement_accepted q))"

text \<open>\<open>static_cast<size_t> (area)\<close>.\<close>

fun area_index :: "ConfigArea \<Rightarrow> nat" where
  "area_index AreaUnknown = 0"
| "area_index Machines = 1"
| "area_index ConfigManagedBlock = 2"
| "area_index CmdlineManagedKeys = 3"
| "area_index Network = 4"
| "area_index Settings = 5"
| "area_index UpdateState = 6"
| "area_index (AreaOther b) = unat b"

fun requirements_valid :: "nat list \<Rightarrow> ConfigSchemaRequirement list \<Rightarrow> bool" where
  "requirements_valid seen_area [] = True"
| "requirements_valid seen_area (q # qs) =
     (let i = area_index (requirement_area q)
      in if \<not> RequirementIsValid q \<or> i = 0 \<or> i \<ge> 7 \<or> i \<in> set seen_area then False
         else requirements_valid (seen_area @ [i]) qs)"

text \<open>One turn of the loop over the declarations; \<open>earlier\<close> are the declarations before it.\<close>

definition declaration_status ::
  "ConfigSchemaRequirement list \<Rightarrow> DeclaredConfigMigration list \<Rightarrow> DeclaredConfigMigration
   \<Rightarrow> ConfigMigrationRegistryStatus" where
  "declaration_status requirements earlier d =
     (if BoundedStringLength (declared_id d) kMaximumConfigMigrationIdBytes = 0
         \<or> BoundedStringLength (declared_id d) kMaximumConfigMigrationIdBytes > kMaximumConfigMigrationIdBytes
         \<or> \<not> IsKnownConfigArea (declared_area d) \<or> declared_from d = 0 \<or> declared_to d = 0
         \<or> declared_from d = declared_to d
      then RegistryInvalidInput
      else if list_ex (\<lambda>p. declared_id p = declared_id d
                           \<or> (declared_area p = declared_area d \<and> declared_from p = declared_from d
                              \<and> declared_to p = declared_to d)) earlier
      then DuplicateDeclaration
      else
        (case FindCompiledMigration (declared_id d) of
           None \<Rightarrow> UnknownMigration
         | Some c \<Rightarrow>
             if compiled_area c \<noteq> declared_area d \<or> compiled_from c \<noteq> declared_from d
                \<or> compiled_to c \<noteq> declared_to d \<or> compiled_lossy c \<noteq> declared_lossy d
             then DeclarationMismatch
             else
               (case FindRequirement requirements (declared_area d) of
                  None \<Rightarrow> SchemaMismatch
                | Some q \<Rightarrow>
                    if requirement_target q \<noteq> declared_to d \<or> VersionIsAccepted q (declared_from d)
                    then SchemaMismatch else RegistryValid)))"

fun declarations_status ::
  "ConfigSchemaRequirement list \<Rightarrow> DeclaredConfigMigration list \<Rightarrow> DeclaredConfigMigration list
   \<Rightarrow> ConfigMigrationRegistryStatus" where
  "declarations_status requirements earlier [] = RegistryValid"
| "declarations_status requirements earlier (d # ds) =
     (let st = declaration_status requirements earlier d
      in if st \<noteq> RegistryValid then st else declarations_status requirements (earlier @ [d]) ds)"

definition ValidateConfigMigrationDeclarations ::
  "ConfigSchemaRequirement array_view \<Rightarrow> DeclaredConfigMigration array_view
   \<Rightarrow> ConfigMigrationRegistryStatus" where
  "ValidateConfigMigrationDeclarations requirements migrations =
     (case requirements of
        NullArray n \<Rightarrow> RegistryInvalidInput
      | Array qs \<Rightarrow>
          if length qs \<noteq> kConfigMigrationAreaCount
             \<or> array_count migrations > kMaximumDeclaredConfigMigrations
             \<or> (array_count migrations \<noteq> 0
                \<and> (case migrations of NullArray n \<Rightarrow> True | Array ds \<Rightarrow> False))
          then RegistryInvalidInput
          else if \<not> requirements_valid [] qs then RegistryInvalidInput
          else declarations_status qs [] (array_items migrations))"

fun ConfigMigrationRegistryStatusString :: "ConfigMigrationRegistryStatus \<Rightarrow> string" where
  "ConfigMigrationRegistryStatusString RegistryValid = ''valid''"
| "ConfigMigrationRegistryStatusString RegistryInvalidInput = ''invalid input''"
| "ConfigMigrationRegistryStatusString DuplicateDeclaration = ''duplicate migration declaration''"
| "ConfigMigrationRegistryStatusString UnknownMigration = ''migration is not compiled into this updater''"
| "ConfigMigrationRegistryStatusString DeclarationMismatch =
     ''migration declaration does not match compiled registry''"
| "ConfigMigrationRegistryStatusString SchemaMismatch =
     ''migration does not match target schema policy''"


section \<open>What the registry accepts\<close>

lemma accepted_versions_distinct_iff:
  "accepted_versions_distinct seen vs \<longleftrightarrow> distinct vs \<and> set seen \<inter> set vs = {}"
  by (induction vs arbitrary: seen) (auto simp: list_ex_iff)

lemma list_ex_equal: "list_ex (\<lambda>v. v = x) vs \<longleftrightarrow> x \<in> set vs"
  by (auto simp: list_ex_iff)

lemma RequirementIsValid_iff:
  "RequirementIsValid q \<longleftrightarrow>
     (\<exists>vs. requirement_accepted q = Array vs \<and> IsKnownConfigArea (requirement_area q)
        \<and> requirement_target q \<noteq> 0 \<and> length vs \<le> 32 \<and> distinct vs \<and> requirement_target q \<in> set vs)"
  by (cases "requirement_accepted q")
    (auto simp: RequirementIsValid_def accepted_versions_distinct_iff list_ex_equal)

definition known_areas :: "ConfigArea set" where
  "known_areas = {Machines, ConfigManagedBlock, CmdlineManagedKeys, Network, Settings, UpdateState}"

lemma IsKnownConfigArea_iff: "IsKnownConfigArea a \<longleftrightarrow> a \<in> known_areas"
  by (auto simp: IsKnownConfigArea_def known_areas_def)

lemma card_known_areas: "finite known_areas" "card known_areas = kConfigMigrationAreaCount"
  by (simp_all add: known_areas_def kConfigMigrationAreaCount_def)

lemma area_index_known: "a \<in> known_areas \<Longrightarrow> 0 < area_index a \<and> area_index a < 7"
  by (auto simp: known_areas_def)

lemma area_index_inj: "inj_on area_index known_areas"
  by (auto simp: known_areas_def inj_on_def)

lemma requirements_valid_iff:
  "requirements_valid seen qs \<longleftrightarrow>
     list_all RequirementIsValid qs \<and> distinct (map (area_index \<circ> requirement_area) qs)
     \<and> set seen \<inter> set (map (area_index \<circ> requirement_area) qs) = {}"
proof (induction qs arbitrary: seen)
  case (Cons q qs)
  have "RequirementIsValid q \<Longrightarrow> 0 < area_index (requirement_area q) \<and> area_index (requirement_area q) < 7"
    using area_index_known [of "requirement_area q"] by (auto simp: RequirementIsValid_iff IsKnownConfigArea_iff)
  with Cons show ?case by (auto simp: Let_def)
qed simp

text \<open>Six valid requirements of different areas cover every known area.\<close>

definition schemas_complete :: "ConfigSchemaRequirement list \<Rightarrow> bool" where
  "schemas_complete qs \<longleftrightarrow>
     list_all RequirementIsValid qs \<and> distinct (map requirement_area qs)
     \<and> requirement_area ` set qs = known_areas"

lemma requirements_valid_complete:
  assumes "length qs = kConfigMigrationAreaCount"
  shows "requirements_valid [] qs \<longleftrightarrow> schemas_complete qs"
proof -
  have sub: "requirement_area ` set qs \<subseteq> known_areas" if "list_all RequirementIsValid qs"
    using that by (auto simp: list_all_iff RequirementIsValid_iff IsKnownConfigArea_iff)
  have "distinct (map (area_index \<circ> requirement_area) qs) \<longleftrightarrow> distinct (map requirement_area qs)"
    if "list_all RequirementIsValid qs"
    using distinct_map [of area_index "map requirement_area qs"] sub [OF that]
      inj_on_subset [OF area_index_inj] by auto
  moreover have "requirement_area ` set qs = known_areas"
    if "list_all RequirementIsValid qs" "distinct (map requirement_area qs)"
    using card_subset_eq [OF card_known_areas(1) sub [OF that(1)]] distinct_card [OF that(2)] assms
    by (simp add: card_known_areas)
  ultimately show ?thesis
    by (auto simp: requirements_valid_iff schemas_complete_def)
qed

lemma schemas_complete_length: "schemas_complete qs \<Longrightarrow> length qs = kConfigMigrationAreaCount"
  using distinct_card [of "map requirement_area qs"] card_known_areas(2) by (auto simp: schemas_complete_def)

text \<open>The compiled migrations have different identifiers of admissible length.\<close>

lemma kCompiledMigrations_ids:
  "distinct (map compiled_id kCompiledMigrations)"
  "list_all (\<lambda>c. compiled_id c \<noteq> [] \<and> length (compiled_id c) \<le> kMaximumConfigMigrationIdBytes) kCompiledMigrations"
  by (simp_all add: kCompiledMigrations_def CompiledMigration.make_def kMaximumConfigMigrationIdBytes_def)

lemma FindCompiledMigration_iff:
  "FindCompiledMigration i = Some c \<longleftrightarrow> c \<in> set kCompiledMigrations \<and> i = Some (compiled_id c)"
proof (cases i)
  case (Some t)
  have "t \<noteq> [] \<and> length t \<le> kMaximumConfigMigrationIdBytes" if "c \<in> set kCompiledMigrations" "compiled_id c = t"
    using kCompiledMigrations_ids(2) that by (auto simp: list_all_iff)
  then show ?thesis
    using find_key_iff [OF kCompiledMigrations_ids(1), of t c] Some
    by (auto simp: FindCompiledMigration_def BoundedStringLength_def)
qed (simp add: FindCompiledMigration_def BoundedStringLength_def)

lemma compiled_id_inj:
  "c \<in> set kCompiledMigrations \<Longrightarrow> d \<in> set kCompiledMigrations \<Longrightarrow> compiled_id c = compiled_id d \<longleftrightarrow> c = d"
  using kCompiledMigrations_ids(1) by (auto simp: distinct_map dest: inj_onD)

lemma FindRequirement_iff:
  "distinct (map requirement_area qs) \<Longrightarrow>
   FindRequirement qs a = Some q \<longleftrightarrow> q \<in> set qs \<and> requirement_area q = a"
  unfolding FindRequirement_def by (rule find_key_iff)

text \<open>
  A declaration names a compiled migration with all its attributes, and leads to the target version
  of its area from a version the release does not accept as it is.
\<close>

definition compiled_declaration :: "DeclaredConfigMigration \<Rightarrow> bool" where
  "compiled_declaration d \<longleftrightarrow>
     (\<exists>c \<in> set kCompiledMigrations. declared_id d = Some (compiled_id c) \<and> declared_area d = compiled_area c
        \<and> declared_from d = compiled_from c \<and> declared_to d = compiled_to c \<and> declared_lossy d = compiled_lossy c)"

definition declared_tuple :: "DeclaredConfigMigration \<Rightarrow> ConfigArea \<times> u32 \<times> u32" where
  "declared_tuple d = (declared_area d, declared_from d, declared_to d)"

definition leads_to_target :: "ConfigSchemaRequirement list \<Rightarrow> DeclaredConfigMigration \<Rightarrow> bool" where
  "leads_to_target qs d \<longleftrightarrow>
     (\<exists>q \<in> set qs. requirement_area q = declared_area d \<and> requirement_target q = declared_to d
        \<and> declared_from d \<notin> set (array_items (requirement_accepted q)))"

lemma compiled_tuple:
  "c \<in> set kCompiledMigrations \<Longrightarrow> compiled_area c \<in> known_areas \<and> compiled_from c = 1 \<and> compiled_to c = 2"
  by (auto simp: kCompiledMigrations_def CompiledMigration.make_def known_areas_def)

lemma declaration_status_valid:
  assumes "schemas_complete qs"
  shows "declaration_status qs earlier d = RegistryValid \<longleftrightarrow>
     compiled_declaration d \<and> leads_to_target qs d
     \<and> declared_id d \<notin> declared_id ` set earlier \<and> declared_tuple d \<notin> declared_tuple ` set earlier"
proof (cases "FindCompiledMigration (declared_id d)")
  case None
  then have "\<not> compiled_declaration d"
    using FindCompiledMigration_iff [of "declared_id d"] by (auto simp: compiled_declaration_def)
  with None show ?thesis by (auto simp: declaration_status_def)
next
  case (Some c)
  then have c: "c \<in> set kCompiledMigrations" "declared_id d = Some (compiled_id c)"
    by (simp_all add: FindCompiledMigration_iff)
  have "compiled_declaration d \<longleftrightarrow> declared_area d = compiled_area c \<and> declared_from d = compiled_from c
      \<and> declared_to d = compiled_to c \<and> declared_lossy d = compiled_lossy c" (is "_ \<longleftrightarrow> ?same")
    using c compiled_id_inj [OF c(1)] by (auto simp: compiled_declaration_def)
  moreover have "BoundedStringLength (declared_id d) kMaximumConfigMigrationIdBytes \<noteq> 0"
    "\<not> BoundedStringLength (declared_id d) kMaximumConfigMigrationIdBytes > kMaximumConfigMigrationIdBytes"
    using Some by (auto simp: FindCompiledMigration_def split: if_splits)
  moreover have "IsKnownConfigArea (declared_area d) \<and> declared_from d = 1 \<and> declared_to d = 2" if ?same
    using that compiled_tuple [OF c(1)] by (simp add: IsKnownConfigArea_iff)
  moreover have "leads_to_target qs d \<longleftrightarrow>
      (\<exists>q. FindRequirement qs (declared_area d) = Some q \<and> requirement_target q = declared_to d
         \<and> \<not> VersionIsAccepted q (declared_from d))"
    using assms by (auto simp: leads_to_target_def FindRequirement_iff schemas_complete_def VersionIsAccepted_def list_ex_equal)
  moreover have "list_ex (\<lambda>p. declared_id p = declared_id d
        \<or> (declared_area p = declared_area d \<and> declared_from p = declared_from d \<and> declared_to p = declared_to d)) earlier
      \<longleftrightarrow> declared_id d \<in> declared_id ` set earlier \<or> declared_tuple d \<in> declared_tuple ` set earlier" (is "?dup \<longleftrightarrow> _")
    by (induction earlier) (auto simp: declared_tuple_def)
  moreover have "declaration_status qs earlier d = RegistryValid \<longleftrightarrow>
      \<not> (BoundedStringLength (declared_id d) kMaximumConfigMigrationIdBytes = 0
         \<or> BoundedStringLength (declared_id d) kMaximumConfigMigrationIdBytes > kMaximumConfigMigrationIdBytes
         \<or> \<not> IsKnownConfigArea (declared_area d) \<or> declared_from d = 0 \<or> declared_to d = 0
         \<or> declared_from d = declared_to d)
      \<and> \<not> ?dup \<and> ?same
      \<and> (\<exists>q. FindRequirement qs (declared_area d) = Some q \<and> requirement_target q = declared_to d
             \<and> \<not> VersionIsAccepted q (declared_from d))"
    using Some unfolding declaration_status_def by (auto split: option.split)
  ultimately show ?thesis by fastforce
qed

lemma declarations_status_valid:
  assumes "schemas_complete qs"
  shows "declarations_status qs earlier ds = RegistryValid \<longleftrightarrow>
     list_all (\<lambda>d. compiled_declaration d \<and> leads_to_target qs d) ds
     \<and> distinct (map declared_id ds) \<and> distinct (map declared_tuple ds)
     \<and> declared_id ` set earlier \<inter> declared_id ` set ds = {}
     \<and> declared_tuple ` set earlier \<inter> declared_tuple ` set ds = {}"
proof (induction ds arbitrary: earlier)
  case (Cons d ds)
  show ?case
    using Cons.IH [of "earlier @ [d]"] declaration_status_valid [OF assms, of earlier d]
    by (auto simp: Let_def)
qed simp

lemma compiled_declarations_few:
  assumes "list_all compiled_declaration ds" "distinct (map declared_id ds)"
  shows "length ds \<le> kMaximumDeclaredConfigMigrations"
proof -
  have "declared_id ` set ds \<subseteq> (Some \<circ> compiled_id) ` set kCompiledMigrations"
    using assms(1) by (auto simp: list_all_iff compiled_declaration_def)
  then have "card (declared_id ` set ds) \<le> card ((Some \<circ> compiled_id) ` set kCompiledMigrations)"
    by (intro card_mono) simp_all
  also have "\<dots> \<le> length kCompiledMigrations"
    by (rule order_trans [OF card_image_le card_length]) simp
  also have "\<dots> \<le> kMaximumDeclaredConfigMigrations"
    by (simp add: kCompiledMigrations_def kMaximumDeclaredConfigMigrations_def)
  finally show ?thesis using distinct_card [OF assms(2)] by simp
qed

text \<open>What the validation of a manifest's declarations guarantees, and nothing less.\<close>

definition declarations_registered ::
  "ConfigSchemaRequirement list \<Rightarrow> DeclaredConfigMigration list \<Rightarrow> bool" where
  "declarations_registered qs ds \<longleftrightarrow>
     schemas_complete qs \<and> list_all (\<lambda>d. compiled_declaration d \<and> leads_to_target qs d) ds
     \<and> distinct (map declared_id ds) \<and> distinct (map declared_tuple ds)"

lemma registry_valid_iff:
  "ValidateConfigMigrationDeclarations requirements migrations = RegistryValid \<longleftrightarrow>
     (\<exists>qs ds. requirements = Array qs \<and> (migrations = Array ds \<or> (migrations = NullArray 0 \<and> ds = []))
        \<and> declarations_registered qs ds)"
proof (cases requirements)
  case (Array qs)
  have l: "requirements_valid [] qs \<longleftrightarrow> schemas_complete qs" if "length qs = kConfigMigrationAreaCount"
    using that by (rule requirements_valid_complete)
  have *: "ValidateConfigMigrationDeclarations (Array qs) (Array ds) = RegistryValid \<longleftrightarrow>
      declarations_registered qs ds" for ds
    using l compiled_declarations_few [of ds] schemas_complete_length [of qs]
      declarations_status_valid [of qs "[]" ds]
    by (auto simp: ValidateConfigMigrationDeclarations_def declarations_registered_def list_all_iff)
  have "ValidateConfigMigrationDeclarations (Array qs) (NullArray n) = RegistryValid \<longleftrightarrow>
      n = 0 \<and> declarations_registered qs []" for n
    using l schemas_complete_length [of qs]
    by (auto simp: ValidateConfigMigrationDeclarations_def declarations_registered_def)
  with * Array show ?thesis by (cases migrations) auto
qed (simp add: ValidateConfigMigrationDeclarations_def)

text \<open>
  (C9) The declarations of a manifest are accepted exactly when its schemas describe each of the six
  areas once, and every declaration is one of the compiled migrations with all its attributes,
  leads to the target version of its area from a version that is not accepted as it is, and
  repeats neither the identifier nor the area and versions of another declaration.
\<close>

theorem ValidateConfigMigrationDeclarations_valid_iff:
  "ValidateConfigMigrationDeclarations requirements migrations = RegistryValid \<longleftrightarrow>
     (\<exists>qs ds. requirements = Array qs \<and> (migrations = Array ds \<or> (migrations = NullArray 0 \<and> ds = []))
        \<and> declarations_registered qs ds)"
  by (rule registry_valid_iff)

end
