(* ===== verification/Release_Manifest.thy ===== *)
theory Release_Manifest
  imports Manifest_Paths Migration_Registry "HOL-Library.Monad_Syntax"
begin

text \<open>
  \<open>release_manifest.cpp\<close>: the parser of the signed release manifest. A parse works on the tokens of
  the JSON parser; a token index that may be -1 is an option. Every function returns the status as
  \<open>Inl\<close> or what it stores as \<open>Inr\<close>; what a failing parse leaves in the caller's structure is not
  modelled, since every caller discards it.
\<close>

section \<open>Texts\<close>

definition kMaximumManifestSchemas :: nat where "kMaximumManifestSchemas = 32"
definition kMaximumManifestMigrations :: nat where "kMaximumManifestMigrations = 64"
definition kMaximumManifestLossyChanges :: nat where "kMaximumManifestLossyChanges = 64"
definition kMaximumAssetBytes :: u64 where "kMaximumAssetBytes = 512 * 1024 * 1024"
definition kMaximumFileBytes :: u64 where "kMaximumFileBytes = 128 * 1024 * 1024"
definition kSafetyReserveBytes :: u64 where "kSafetyReserveBytes = 16 * 1024 * 1024"

definition kRequiredKernelMachineMask :: u16 where
  "kRequiredKernelMachineMask = push_bit kRequiredKernelMachineCount 1 - 1"

datatype ManifestParseStatus =
    ManifestOk | ManifestInvalidArgument | ManifestInvalidSize | ManifestJsonInvalid
  | ManifestUnsupportedVersion | ManifestWrongType | ManifestMissingField | ManifestUnknownField
  | ManifestInvalidValue | ManifestLimitExceeded | UnsupportedConfiguration | TargetAssetMissing
  | DuplicateAsset | InventoryMismatch | ManifestStorageTooSmall

record ManifestParseStorage =
  manifest_tokens_given :: bool
  manifest_token_capacity :: nat
  manifest_files_given :: bool
  manifest_file_capacity :: nat
  manifest_directories_given :: bool
  manifest_directory_capacity :: nat

definition IsAsciiAlphaNumeric :: "byte \<Rightarrow> bool" where
  "IsAsciiAlphaNumeric c \<longleftrightarrow>
     (c \<ge> ch CHR ''0'' \<and> c \<le> ch CHR ''9'') \<or> (c \<ge> ch CHR ''A'' \<and> c \<le> ch CHR ''Z'')
     \<or> (c \<ge> ch CHR ''a'' \<and> c \<le> ch CHR ''z'')"

text \<open>\<open>IsIdentifier\<close> of this file; \<open>value[0]\<close> of an empty string is the NUL.\<close>

definition IsManifestIdentifier :: "cstring \<Rightarrow> bool" where
  "IsManifestIdentifier v \<longleftrightarrow>
     v \<noteq> [] \<and> IsAsciiAlphaNumeric (hd v) \<and> length v \<le> 64
     \<and> list_all (\<lambda>c. IsAsciiAlphaNumeric c \<or> c = ch CHR ''.'' \<or> c = ch CHR ''_'' \<or> c = ch CHR ''-'') (tl v)"

definition IsVersion :: "cstring \<Rightarrow> bool" where
  "IsVersion v \<longleftrightarrow>
     v \<noteq> [] \<and> IsAsciiAlphaNumeric (hd v) \<and> length v \<le> 64
     \<and> list_all (\<lambda>c. IsAsciiAlphaNumeric c \<or> c = ch CHR ''.'' \<or> c = ch CHR ''_'' \<or> c = ch CHR ''+''
                      \<or> c = ch CHR ''-'') (tl v)"

definition IsTag :: "cstring \<Rightarrow> bool" where
  "IsTag v \<longleftrightarrow>
     v \<noteq> [] \<and> IsAsciiAlphaNumeric (hd v) \<and> length v \<le> 128
     \<and> list_all (\<lambda>c. IsAsciiAlphaNumeric c \<or> c = ch CHR ''.'' \<or> c = ch CHR ''_'' \<or> c = ch CHR ''+''
                      \<or> c = ch CHR ''-'') (tl v)"

definition IsLowerHex :: "byte \<Rightarrow> bool" where
  "IsLowerHex c \<longleftrightarrow>
     (c \<ge> ch CHR ''0'' \<and> c \<le> ch CHR ''9'') \<or> (c \<ge> ch CHR ''a'' \<and> c \<le> ch CHR ''f'')"

definition lower_hex_value :: "byte \<Rightarrow> u32" where
  "lower_hex_value c = (if c \<le> ch CHR ''9'' then ucast c - 0x30 else ucast c - 0x61 + 10)"

fun hex_pairs :: "bytes \<Rightarrow> bytes option" where
  "hex_pairs [] = Some []"
| "hex_pairs [x] = None"
| "hex_pairs (high # low # rest) =
     (if \<not> IsLowerHex high \<or> \<not> IsLowerHex low then None
      else map_option (Cons (ucast (push_bit 4 (lower_hex_value high) OR lower_hex_value low))) (hex_pairs rest))"

definition ParseSha256 :: "cstring \<Rightarrow> bytes option" where
  "ParseSha256 v = (if length v \<noteq> 64 then None else hex_pairs v)"

definition IsSourceCommit :: "cstring \<Rightarrow> bool" where
  "IsSourceCommit v \<longleftrightarrow> (length v = 40 \<or> length v = 64) \<and> list_all IsLowerHex v"

definition IsDisplaySafeDescription :: "cstring \<Rightarrow> bool" where
  "IsDisplaySafeDescription v \<longleftrightarrow> v \<noteq> [] \<and> list_all (\<lambda>b. \<not> (b < 0x20 \<or> b > 0x7e)) v"

definition ParseConfigArea :: "cstring \<Rightarrow> ConfigArea" where
  "ParseConfigArea v =
     (if v = ascii ''machines'' then Machines
      else if v = ascii ''config_managed_block'' then ConfigManagedBlock
      else if v = ascii ''cmdline_managed'' then CmdlineManagedKeys
      else if v = ascii ''network'' then Network
      else if v = ascii ''settings'' then Settings
      else if v = ascii ''update_state'' then UpdateState
      else AreaUnknown)"

fun RegistryStatusToManifestStatus :: "ConfigMigrationRegistryStatus \<Rightarrow> ManifestParseStatus" where
  "RegistryStatusToManifestStatus RegistryValid = ManifestOk"
| "RegistryStatusToManifestStatus UnknownMigration = UnsupportedConfiguration"
| "RegistryStatusToManifestStatus DeclarationMismatch = UnsupportedConfiguration"
| "RegistryStatusToManifestStatus RegistryInvalidInput = UnsupportedConfiguration"
| "RegistryStatusToManifestStatus DuplicateDeclaration = ManifestInvalidValue"
| "RegistryStatusToManifestStatus SchemaMismatch = ManifestInvalidValue"

section \<open>The token accessors of the parser\<close>

definition Member :: "bytes \<Rightarrow> JsonToken list \<Rightarrow> nat option \<Rightarrow> string \<Rightarrow> nat option" where
  "Member text ts object name =
     (case object of None \<Rightarrow> None
      | Some i \<Rightarrow> JsonFindObjectMember (Some text) (Some ts) (int i) (Some (ascii name)))"

text \<open>The scan over the direct children: every key is a known field, and keys and values alternate.\<close>

fun exact_keys ::
  "bytes \<Rightarrow> JsonToken list \<Rightarrow> nat \<Rightarrow> string list \<Rightarrow> bool \<Rightarrow> nat list \<Rightarrow> bool" where
  "exact_keys text ts object known expect_key [] = expect_key"
| "exact_keys text ts object known expect_key (i # is) =
     (if tok_start (ts ! i) \<ge> tok_end (ts ! object) then expect_key
      else if tok_parent (ts ! i) \<noteq> int object then exact_keys text ts object known expect_key is
      else if expect_key
              \<and> \<not> list_ex (\<lambda>f. JsonStringEquals (Some text) (ts ! i) (Some (ascii f))) known then False
      else exact_keys text ts object known (\<not> expect_key) is)"

definition ExactObject :: "bytes \<Rightarrow> JsonToken list \<Rightarrow> nat option \<Rightarrow> string list \<Rightarrow> bool" where
  "ExactObject text ts index known =
     (case index of
        None \<Rightarrow> False
      | Some i \<Rightarrow>
          if i \<ge> length ts \<or> tok_type (ts ! i) \<noteq> JSON_TOKEN_OBJECT
             \<or> tok_child_count (ts ! i) \<noteq> length known * 2
          then False
          else exact_keys text ts i known True [i + 1 ..< length ts]
               \<and> list_all (\<lambda>f. Member text ts index f \<noteq> None) known)"

text \<open>The C string the caller reads from the buffer of \<open>n\<close> bytes.\<close>

definition CopyString :: "bytes \<Rightarrow> JsonToken list \<Rightarrow> nat option \<Rightarrow> nat \<Rightarrow> cstring option" where
  "CopyString text ts token n =
     (case token of
        None \<Rightarrow> None
      | Some t \<Rightarrow>
          if t \<ge> length ts then None
          else (case JsonCopyString (Some text) (ts ! t) True n of Inl e \<Rightarrow> None | Inr out \<Rightarrow> Some (c_str out)))"

definition Uint64 :: "bytes \<Rightarrow> JsonToken list \<Rightarrow> nat option \<Rightarrow> u64 \<Rightarrow> u64 \<Rightarrow> u64 option" where
  "Uint64 text ts token minimum maximum =
     (case token of
        None \<Rightarrow> None
      | Some t \<Rightarrow>
          if t \<ge> length ts then None
          else (case JsonGetUint64 (Some text) (ts ! t) True of
                  Inl e \<Rightarrow> None
                | Inr v \<Rightarrow> if v < minimum \<or> v > maximum then None else Some v))"

definition Uint32 :: "bytes \<Rightarrow> JsonToken list \<Rightarrow> nat option \<Rightarrow> u32 \<Rightarrow> u32 \<Rightarrow> u32 option" where
  "Uint32 text ts token minimum maximum =
     map_option ucast (Uint64 text ts token (ucast minimum) (ucast maximum))"

definition DirectChildren :: "JsonToken list \<Rightarrow> nat option \<Rightarrow> nat" where
  "DirectChildren ts array =
     (case array of
        None \<Rightarrow> 0
      | Some a \<Rightarrow>
          if a < length ts \<and> tok_type (ts ! a) = JSON_TOKEN_ARRAY then tok_child_count (ts ! a) else 0)"

fun direct_child_loop :: "JsonToken list \<Rightarrow> nat \<Rightarrow> nat \<Rightarrow> nat \<Rightarrow> nat list \<Rightarrow> nat option" where
  "direct_child_loop ts array nth_child found [] = None"
| "direct_child_loop ts array nth_child found (i # is) =
     (if tok_start (ts ! i) \<ge> tok_end (ts ! array) then None
      else if tok_parent (ts ! i) \<noteq> int array then direct_child_loop ts array nth_child found is
      else if found = nth_child then Some i
      else direct_child_loop ts array nth_child (found + 1) is)"

text \<open>Called only on an array that has been found.\<close>

definition DirectChild :: "JsonToken list \<Rightarrow> nat option \<Rightarrow> nat \<Rightarrow> nat option" where
  "DirectChild ts array nth_child =
     direct_child_loop ts (the array) nth_child 0 [the array + 1 ..< length ts]"

text \<open>\<open>index < 0 || tokens_[index].type != JSON_TOKEN_ARRAY\<close>.\<close>

definition not_array :: "JsonToken list \<Rightarrow> nat option \<Rightarrow> bool" where
  "not_array ts index =
     (case index of None \<Rightarrow> True | Some i \<Rightarrow> tok_type (ts ! i) \<noteq> JSON_TOKEN_ARRAY)"


section \<open>The release object\<close>

definition blank_asset :: ManifestAsset where
  "blank_asset =
     \<lparr>archive_board = BoardUnknown, archive_filename = [], archive_download_size = 0,
      archive_sha256 = replicate 32 0, archive_installed_size = 0, archive_required_peak_bytes = 0,
      archive_files = NullArray 0, archive_directories = NullArray 0\<rparr>"

definition blank_manifest :: ReleaseManifest where
  "blank_manifest =
     \<lparr>manifest_version = [], manifest_tag = [], manifest_source_commit = [],
      manifest_release_sequence = 0, manifest_release_epoch = 0, manifest_minimum_abi = 0,
      manifest_maximum_abi = 0, manifest_signing_key_ids = [], manifest_schemas = [],
      manifest_migrations = [], manifest_lossy_changes = [], manifest_asset = blank_asset\<rparr>"

definition kReleaseFields :: "string list" where
  "kReleaseFields =
     [''version'', ''release_sequence'', ''release_epoch'', ''tag'', ''channel'', ''source_commit'',
      ''minimum_updater_abi'', ''maximum_updater_abi'', ''signing_key_ids'']"

text \<open>The chain of tests behind the one error status.\<close>

definition release_values ::
  "bytes \<Rightarrow> JsonToken list \<Rightarrow> nat option \<Rightarrow> ReleaseManifest \<Rightarrow> ReleaseManifest option" where
  "release_values text ts index m =
     do {
       v \<leftarrow> CopyString text ts (Member text ts index ''version'') 65;
       guarded (IsVersion v);
       t \<leftarrow> CopyString text ts (Member text ts index ''tag'') 129;
       guarded (IsTag t);
       channel \<leftarrow> CopyString text ts (Member text ts index ''channel'') 16;
       guarded (channel = ascii ''stable'');
       commit \<leftarrow> CopyString text ts (Member text ts index ''source_commit'') 65;
       guarded (IsSourceCommit commit);
       sequence \<leftarrow> Uint64 text ts (Member text ts index ''release_sequence'') 1 0x7fffffff;
       epoch \<leftarrow> Uint64 text ts (Member text ts index ''release_epoch'') 1 0x7fffffffffffffff;
       minimum \<leftarrow> Uint32 text ts (Member text ts index ''minimum_updater_abi'') 1 0x7fffffff;
       maximum \<leftarrow> Uint32 text ts (Member text ts index ''maximum_updater_abi'') 1 0x7fffffff;
       guarded (\<not> minimum > maximum);
       Some (m\<lparr>manifest_version := v, manifest_tag := t, manifest_source_commit := commit,
               manifest_release_sequence := sequence, manifest_release_epoch := epoch,
               manifest_minimum_abi := minimum, manifest_maximum_abi := maximum\<rparr>)
     }"

definition signing_key ::
  "bytes \<Rightarrow> JsonToken list \<Rightarrow> nat option \<Rightarrow> cstring list \<Rightarrow> nat \<Rightarrow> ManifestParseStatus + cstring" where
  "signing_key text ts array earlier i =
     (case CopyString text ts (DirectChild ts array i) 65 of
        None \<Rightarrow> Inl ManifestInvalidValue
      | Some k \<Rightarrow>
          if \<not> IsManifestIdentifier k \<or> (i \<noteq> 0 \<and> \<not> bytes_less (last earlier) k)
          then Inl ManifestInvalidValue else Inr k)"

definition ParseRelease ::
  "bytes \<Rightarrow> JsonToken list \<Rightarrow> nat option \<Rightarrow> ReleaseManifest \<Rightarrow> ManifestParseStatus + ReleaseManifest" where
  "ParseRelease text ts index m =
     (if \<not> ExactObject text ts index kReleaseFields then Inl ManifestUnknownField
      else
        (case release_values text ts index m of
           None \<Rightarrow> Inl ManifestInvalidValue
         | Some m1 \<Rightarrow>
             (let array = Member text ts index ''signing_key_ids''; key_count = DirectChildren ts array
              in if key_count = 0 \<or> key_count > 4 then Inl ManifestLimitExceeded
                 else
                   sum_bind (for_each (signing_key text ts array) [] [0..<key_count])
                     (\<lambda>ids. Inr (m1\<lparr>manifest_signing_key_ids := ids\<rparr>)))))"

section \<open>The configuration object\<close>

definition kConfigurationFields :: "string list" where
  "kConfigurationFields = [''schemas'', ''migrations'', ''lossy_changes'']"
definition kSchemaFields :: "string list" where
  "kSchemaFields = [''id'', ''target_version'', ''accepted_versions'']"
definition kMigrationFields :: "string list" where
  "kMigrationFields = [''area'', ''from_version'', ''id'', ''lossy'', ''to_version'']"
definition kLossyFields :: "string list" where
  "kLossyFields = [''area'', ''description'']"

definition accepted_version ::
  "bytes \<Rightarrow> JsonToken list \<Rightarrow> nat option \<Rightarrow> u32 list \<Rightarrow> nat \<Rightarrow> ManifestParseStatus + u32" where
  "accepted_version text ts array earlier i =
     (case Uint32 text ts (DirectChild ts array i) 0 0x7fffffff of
        None \<Rightarrow> Inl ManifestInvalidValue
      | Some v \<Rightarrow> if i \<noteq> 0 \<and> last earlier \<ge> v then Inl ManifestInvalidValue else Inr v)"

text \<open>A turn of the loop over the schemas; the identifier is kept beside the schema.\<close>

definition parse_schema ::
  "bytes \<Rightarrow> JsonToken list \<Rightarrow> nat option \<Rightarrow> (cstring \<times> ManifestConfigSchema) list \<Rightarrow> nat
   \<Rightarrow> ManifestParseStatus + cstring \<times> ManifestConfigSchema" where
  "parse_schema text ts array earlier i =
     (let schema = DirectChild ts array i
      in if \<not> ExactObject text ts schema kSchemaFields then Inl ManifestUnknownField
         else
           (case CopyString text ts (Member text ts schema ''id'') 65 of
              None \<Rightarrow> Inl ManifestInvalidValue
            | Some n \<Rightarrow>
                if \<not> IsManifestIdentifier n \<or> (i \<noteq> 0 \<and> \<not> bytes_less (fst (last earlier)) n)
                then Inl ManifestInvalidValue
                else
                  (let area = ParseConfigArea n
                   in if \<not> IsKnownConfigArea area \<or> area_index area \<ge> 7
                         \<or> list_ex (\<lambda>p. area_index (schema_area (snd p)) = area_index area) earlier
                      then Inl UnsupportedConfiguration
                      else
                        (case Uint32 text ts (Member text ts schema ''target_version'') 0 0x7fffffff of
                           None \<Rightarrow> Inl UnsupportedConfiguration
                         | Some target \<Rightarrow>
                             (let accepted = Member text ts schema ''accepted_versions'';
                                  accepted_count = DirectChildren ts accepted
                              in if not_array ts accepted then Inl ManifestWrongType
                                 else if accepted_count = 0 \<or> accepted_count > 32
                                   then Inl ManifestLimitExceeded
                                 else
                                   sum_bind (for_each (accepted_version text ts accepted) [] [0..<accepted_count])
                                     (\<lambda>vs. if \<not> list_ex (\<lambda>v. v = target) vs then Inl ManifestInvalidValue
                                           else Inr (n, \<lparr>schema_area = area, schema_target_version = target,
                                                         schema_accepted_versions = vs\<rparr>)))))))"

definition migration_values ::
  "bytes \<Rightarrow> JsonToken list \<Rightarrow> nat option \<Rightarrow> ManifestMigration list \<Rightarrow> nat
   \<Rightarrow> (cstring \<times> cstring \<times> u32 \<times> u32 \<times> bool) option" where
  "migration_values text ts migration earlier i =
     do {
       n \<leftarrow> CopyString text ts (Member text ts migration ''id'') 65;
       guarded (IsManifestIdentifier n);
       guarded (\<not> (i \<noteq> 0 \<and> \<not> bytes_less (migration_id (last earlier)) n));
       area \<leftarrow> CopyString text ts (Member text ts migration ''area'') 65;
       guarded (IsManifestIdentifier area);
       source \<leftarrow> Uint32 text ts (Member text ts migration ''from_version'') 0 0x7fffffff;
       target \<leftarrow> Uint32 text ts (Member text ts migration ''to_version'') 0 0x7fffffff;
       lossy_token \<leftarrow> Member text ts migration ''lossy'';
       guarded (lossy_token < length ts);
       lossy \<leftarrow> (case JsonGetBool (ts ! lossy_token) True of Inl e \<Rightarrow> None | Inr b \<Rightarrow> Some b);
       Some (n, area, source, target, lossy)
     }"

definition parse_migration ::
  "bytes \<Rightarrow> JsonToken list \<Rightarrow> nat option \<Rightarrow> ManifestMigration list \<Rightarrow> nat
   \<Rightarrow> ManifestParseStatus + ManifestMigration" where
  "parse_migration text ts array earlier i =
     (let migration = DirectChild ts array i
      in if \<not> ExactObject text ts migration kMigrationFields then Inl ManifestUnknownField
         else
           (case migration_values text ts migration earlier i of
              None \<Rightarrow> Inl ManifestInvalidValue
            | Some (n, area, source, target, lossy) \<Rightarrow>
                if \<not> IsKnownConfigArea (ParseConfigArea area) then Inl UnsupportedConfiguration
                else Inr \<lparr>migration_id = n, migration_area = ParseConfigArea area, migration_from = source,
                          migration_to = target, migration_lossy = lossy\<rparr>))"

text \<open>The views the registry receives.\<close>

definition schema_view :: "ManifestConfigSchema \<Rightarrow> ConfigSchemaRequirement" where
  "schema_view s =
     \<lparr>requirement_area = schema_area s, requirement_target = schema_target_version s,
      requirement_accepted = Array (schema_accepted_versions s)\<rparr>"

definition migration_view :: "ManifestMigration \<Rightarrow> DeclaredConfigMigration" where
  "migration_view g =
     \<lparr>declared_id = Some (migration_id g), declared_area = migration_area g,
      declared_from = migration_from g, declared_to = migration_to g, declared_lossy = migration_lossy g\<rparr>"

text \<open>A turn of the loop over the lossy changes; the text of the area is kept beside the change.\<close>

definition parse_lossy_change ::
  "bytes \<Rightarrow> JsonToken list \<Rightarrow> nat option \<Rightarrow> (cstring \<times> ManifestLossyChange) list \<Rightarrow> nat
   \<Rightarrow> ManifestParseStatus + cstring \<times> ManifestLossyChange" where
  "parse_lossy_change text ts array earlier i =
     (let change = DirectChild ts array i
      in if \<not> ExactObject text ts change kLossyFields then Inl ManifestUnknownField
         else
           (case do {
                   area \<leftarrow> CopyString text ts (Member text ts change ''area'') 65;
                   guarded (IsManifestIdentifier area);
                   description \<leftarrow> CopyString text ts (Member text ts change ''description'') 257;
                   guarded (IsDisplaySafeDescription description);
                   Some (area, description)
                 } of
              None \<Rightarrow> Inl ManifestInvalidValue
            | Some (area, description) \<Rightarrow>
                if \<not> IsKnownConfigArea (ParseConfigArea area) then Inl UnsupportedConfiguration
                else if i \<noteq> 0 \<and> \<not> bytes_less (fst (last earlier)) area then Inl ManifestInvalidValue
                else Inr (area, \<lparr>lossy_area = ParseConfigArea area, lossy_description = description\<rparr>)))"

definition described_exactly :: "ManifestMigration list \<Rightarrow> ManifestLossyChange list \<Rightarrow> bool" where
  "described_exactly migrations changes \<longleftrightarrow>
     list_all (\<lambda>c. list_ex (\<lambda>g. migration_lossy g \<and> migration_area g = lossy_area c) migrations) changes
     \<and> list_all (\<lambda>g. \<not> migration_lossy g \<or> list_ex (\<lambda>c. lossy_area c = migration_area g) changes) migrations"

definition parse_schemas ::
  "bytes \<Rightarrow> JsonToken list \<Rightarrow> nat option \<Rightarrow> ManifestParseStatus + ManifestConfigSchema list" where
  "parse_schemas text ts index =
     (let schemas = Member text ts index ''schemas''; schema_count = DirectChildren ts schemas
      in if not_array ts schemas then Inl ManifestWrongType
         else if schema_count \<noteq> 6 \<or> schema_count > kMaximumManifestSchemas then Inl UnsupportedConfiguration
         else sum_bind (for_each (parse_schema text ts schemas) [] [0..<schema_count]) (\<lambda>l. Inr (map snd l)))"

definition parse_migrations ::
  "bytes \<Rightarrow> JsonToken list \<Rightarrow> nat option \<Rightarrow> ManifestParseStatus + ManifestMigration list" where
  "parse_migrations text ts index =
     (let migrations = Member text ts index ''migrations''; migration_count = DirectChildren ts migrations
      in if not_array ts migrations then Inl ManifestWrongType
         else if migration_count > kMaximumManifestMigrations then Inl ManifestLimitExceeded
         else for_each (parse_migration text ts migrations) [] [0..<migration_count])"

definition check_registry ::
  "ManifestConfigSchema list \<Rightarrow> ManifestMigration list \<Rightarrow> ManifestParseStatus + unit" where
  "check_registry schemas migrations =
     (if length schemas \<noteq> kConfigMigrationAreaCount then Inl UnsupportedConfiguration
      else
        (let st = RegistryStatusToManifestStatus
                    (ValidateConfigMigrationDeclarations (Array (map schema_view schemas))
                       (Array (map migration_view migrations)))
         in if st \<noteq> ManifestOk then Inl st else Inr ()))"

definition parse_lossy_changes ::
  "bytes \<Rightarrow> JsonToken list \<Rightarrow> nat option \<Rightarrow> ManifestParseStatus + ManifestLossyChange list" where
  "parse_lossy_changes text ts index =
     (let lossy = Member text ts index ''lossy_changes''; lossy_count = DirectChildren ts lossy
      in if not_array ts lossy then Inl ManifestWrongType
         else if lossy_count > kConfigMigrationAreaCount \<or> lossy_count > kMaximumManifestLossyChanges
           then Inl ManifestLimitExceeded
         else sum_bind (for_each (parse_lossy_change text ts lossy) [] [0..<lossy_count]) (\<lambda>l. Inr (map snd l)))"

definition ParseConfiguration ::
  "bytes \<Rightarrow> JsonToken list \<Rightarrow> nat option \<Rightarrow> ReleaseManifest \<Rightarrow> ManifestParseStatus + ReleaseManifest" where
  "ParseConfiguration text ts index m =
     (if \<not> ExactObject text ts index kConfigurationFields then Inl ManifestUnknownField
      else
        sum_bind (parse_schemas text ts index) (\<lambda>schemas.
        sum_bind (parse_migrations text ts index) (\<lambda>migrations.
        sum_bind (check_registry schemas migrations) (\<lambda>_.
        sum_bind (parse_lossy_changes text ts index) (\<lambda>changes.
          if \<not> described_exactly migrations changes then Inl UnsupportedConfiguration
          else Inr (m\<lparr>manifest_schemas := schemas, manifest_migrations := migrations,
                      manifest_lossy_changes := changes\<rparr>))))))"

section \<open>The inventory of an archive\<close>

definition directory_entry ::
  "bytes \<Rightarrow> JsonToken list \<Rightarrow> nat option \<Rightarrow> cstring list \<Rightarrow> nat \<Rightarrow> ManifestParseStatus + cstring" where
  "directory_entry text ts array earlier i =
     (case CopyString text ts (DirectChild ts array i) (kMaximumManifestPathBytes + 1) of
        None \<Rightarrow> Inl ManifestInvalidValue
      | Some path \<Rightarrow>
          if \<not> IsSafeManifestPath path \<or> (i \<noteq> 0 \<and> \<not> bytes_less (last earlier) path)
            then Inl ManifestInvalidValue
          else if \<not> IsAllowedUpdateDirectory path then Inl InventoryMismatch
          else Inr path)"

definition ParseDirectories ::
  "bytes \<Rightarrow> JsonToken list \<Rightarrow> ManifestParseStorage \<Rightarrow> bool \<Rightarrow> nat option \<Rightarrow> ManifestAsset
   \<Rightarrow> ManifestParseStatus + ManifestAsset" where
  "ParseDirectories text ts storage store index asset =
     (let count = DirectChildren ts index
      in if not_array ts index then Inl ManifestWrongType
         else if count > kMaximumManifestDirectories then Inl ManifestLimitExceeded
         else if store \<and> count > manifest_directory_capacity storage then Inl ManifestStorageTooSmall
         else
           sum_bind (for_each (directory_entry text ts index) [] [0..<count])
             (\<lambda>ds. Inr (if store then asset\<lparr>archive_directories := Array ds\<rparr> else asset)))"

definition kFileFields :: "string list" where
  "kFileFields = [''path'', ''size'', ''sha256'', ''policy'', ''compression'']"

text \<open>The local variables of the loop over the files.\<close>

record file_scan =
  scan_files :: "ManifestFile list"
  scan_installed :: u64
  scan_kernels :: u16
  scan_config :: bool
  scan_tryboot :: bool
  scan_active_selector :: bool
  scan_candidate_selector :: bool

definition file_values ::
  "bytes \<Rightarrow> JsonToken list \<Rightarrow> nat option \<Rightarrow> ManifestFile list \<Rightarrow> nat
   \<Rightarrow> (cstring \<times> u64 \<times> bytes \<times> cstring \<times> cstring) option" where
  "file_values text ts entry earlier i =
     do {
       path \<leftarrow> CopyString text ts (Member text ts entry ''path'') (kMaximumManifestPathBytes + 1);
       guarded (IsSafeManifestPath path);
       guarded (\<not> (i \<noteq> 0 \<and> \<not> bytes_less (file_path (last earlier)) path));
       octets \<leftarrow> Uint64 text ts (Member text ts entry ''size'') 0 kMaximumFileBytes;
       sha \<leftarrow> CopyString text ts (Member text ts entry ''sha256'') 65;
       digest \<leftarrow> ParseSha256 sha;
       policy \<leftarrow> CopyString text ts (Member text ts entry ''policy'') 32;
       compression \<leftarrow> CopyString text ts (Member text ts entry ''compression'') 16;
       Some (path, octets, digest, policy, compression)
     }"

definition policy_of_text :: "cstring \<Rightarrow> ManifestFilePolicy option" where
  "policy_of_text policy =
     (if policy = ascii ''kernel'' then Some Kernel
      else if policy = ascii ''managed-replace'' then Some ManagedReplace
      else if policy = ascii ''config-template'' then Some ConfigTemplate
      else if policy = ascii ''preserve'' then Some Preserve
      else if policy = ascii ''metadata'' then Some Metadata
      else None)"

definition compression_of_text :: "cstring \<Rightarrow> ManifestCompression option" where
  "compression_of_text compression =
     (if compression = ascii ''store'' then Some CompressionStore
      else if compression = ascii ''deflate'' then Some CompressionDeflate
      else None)"

text \<open>The bookkeeping of the kernels: the new mask, unless the inventory is refused.\<close>

definition kernel_mask :: "BoardFamily \<Rightarrow> cstring \<Rightarrow> u16 \<Rightarrow> u16 option" where
  "kernel_mask family path kernels =
     (let board_index = (if family = Pi4Pi400 then 0 else 1);
          board_kernel = kMachineKernelBases ! board_index;
          other_board_kernel = kMachineKernelBases ! (1 - board_index)
      in if StartsWith path other_board_kernel then None
         else if path = board_kernel then None
         else if starts_with path board_kernel
                 \<and> starts_with (drop (length board_kernel) path) [ch CHR ''.''] then
           (case ParseMachineKernelSuffix (drop (length board_kernel + 1) path) of
              None \<Rightarrow> None
            | Some machine_bit \<Rightarrow>
                if machine_bit \<noteq> 0 then
                  (if kernels AND machine_bit \<noteq> 0 then None else Some (kernels OR machine_bit))
                else Some kernels)
         else Some kernels)"

definition file_entry ::
  "bytes \<Rightarrow> JsonToken list \<Rightarrow> nat option \<Rightarrow> BoardFamily \<Rightarrow> file_scan \<Rightarrow> nat
   \<Rightarrow> ManifestParseStatus + file_scan" where
  "file_entry text ts array family s i =
     (let entry = DirectChild ts array i
      in if \<not> ExactObject text ts entry kFileFields then Inl ManifestUnknownField
         else
           (case file_values text ts entry (scan_files s) i of
              None \<Rightarrow> Inl ManifestInvalidValue
            | Some (path, octets, digest, policy_text, compression_text) \<Rightarrow>
                (case ClassifyKnownPath path of None \<Rightarrow> Inl InventoryMismatch | Some expected_policy \<Rightarrow>
                 case policy_of_text policy_text of None \<Rightarrow> Inl ManifestInvalidValue | Some policy \<Rightarrow>
                   if policy \<noteq> expected_policy then Inl InventoryMismatch
                   else
                     (case compression_of_text compression_text of
                        None \<Rightarrow> Inl ManifestInvalidValue
                      | Some compression \<Rightarrow>
                          if scan_installed s > kMaximumAssetBytes - octets then Inl ManifestLimitExceeded
                          else
                            (case kernel_mask family path (scan_kernels s) of
                               None \<Rightarrow> Inl InventoryMismatch
                             | Some kernels \<Rightarrow>
                                 Inr \<lparr>scan_files = scan_files s @
                                        [\<lparr>file_path = path, file_size = octets, file_sha256 = digest,
                                          file_policy = policy, file_compression = compression\<rparr>],
                                      scan_installed = scan_installed s + octets, scan_kernels = kernels,
                                      scan_config = (scan_config s \<or> path = ascii ''config.txt''),
                                      scan_tryboot = (scan_tryboot s \<or> path = ascii ''tryboot.txt''),
                                      scan_active_selector =
                                        (scan_active_selector s \<or> path = ascii ''bmx-active-kernel.txt''),
                                      scan_candidate_selector =
                                        (scan_candidate_selector s \<or> path = ascii ''bmx-tryboot-kernel.txt'')\<rparr>)))))"

definition ParseFiles ::
  "bytes \<Rightarrow> JsonToken list \<Rightarrow> ManifestParseStorage \<Rightarrow> bool \<Rightarrow> nat option \<Rightarrow> ManifestAsset
   \<Rightarrow> ManifestParseStatus + ManifestAsset" where
  "ParseFiles text ts storage store index asset =
     (let count = DirectChildren ts index
      in if not_array ts index then Inl ManifestWrongType
         else if count = 0 \<or> count > kMaximumManifestFiles then Inl ManifestLimitExceeded
         else if store \<and> count > manifest_file_capacity storage then Inl ManifestStorageTooSmall
         else
           sum_bind (scan_each (file_entry text ts index (archive_board asset))
               \<lparr>scan_files = [], scan_installed = 0, scan_kernels = 0, scan_config = False,
                scan_tryboot = False, scan_active_selector = False, scan_candidate_selector = False\<rparr>
               [0..<count])
             (\<lambda>s. if scan_kernels s \<noteq> kRequiredKernelMachineMask \<or> \<not> scan_config s \<or> \<not> scan_tryboot s
                      \<or> \<not> scan_active_selector s \<or> \<not> scan_candidate_selector s
                      \<or> scan_installed s \<noteq> archive_installed_size asset
                   then Inl InventoryMismatch
                   else Inr (if store then asset\<lparr>archive_files := Array (scan_files s)\<rparr> else asset)))"


section \<open>The archives of a release\<close>

definition kAssetFields :: "string list" where
  "kAssetFields =
     [''board_family'', ''supported_models'', ''filename'', ''download_size'', ''sha256'',
      ''installed_size'', ''required_peak_bytes'', ''zip_profile'', ''directories'', ''files'']"

definition board_of_text :: "cstring \<Rightarrow> BoardFamily option" where
  "board_of_text v =
     (if v = ascii ''pi4'' then Some Pi4Pi400 else if v = ascii ''pi5'' then Some Pi5Pi500 else None)"

text \<open>The two supported models, in this order.\<close>

definition models_listed :: "bytes \<Rightarrow> JsonToken list \<Rightarrow> nat option \<Rightarrow> BoardFamily \<Rightarrow> bool" where
  "models_listed text ts models family =
     (if not_array ts models \<or> DirectChildren ts models \<noteq> 2 then False
      else
        (case (CopyString text ts (DirectChild ts models 0) 32, CopyString text ts (DirectChild ts models 1) 32) of
           (Some first_model, Some second_model) \<Rightarrow>
             \<not> (family = Pi4Pi400
                \<and> (first_model \<noteq> ascii ''Raspberry Pi 4'' \<or> second_model \<noteq> ascii ''Raspberry Pi 400''))
             \<and> \<not> (family = Pi5Pi500
                  \<and> (first_model \<noteq> ascii ''Raspberry Pi 5'' \<or> second_model \<noteq> ascii ''Raspberry Pi 500''))
         | _ \<Rightarrow> False))"

text \<open>\<open>snprintf (expected_filename, 161, "bmx-%s-%s-boot.zip", ...)\<close>.\<close>

definition archive_name :: "cstring \<Rightarrow> BoardFamily \<Rightarrow> cstring" where
  "archive_name v family =
     ascii ''bmx-'' @ v @ ascii ''-'' @ (if family = Pi4Pi400 then ascii ''pi4-pi400'' else ascii ''pi5-pi500'')
     @ ascii ''-boot.zip''"

definition asset_values ::
  "bytes \<Rightarrow> JsonToken list \<Rightarrow> nat option \<Rightarrow> BoardFamily \<Rightarrow> ManifestAsset option" where
  "asset_values text ts index family =
     do {
       name \<leftarrow> CopyString text ts (Member text ts index ''filename'') 161;
       download \<leftarrow> Uint64 text ts (Member text ts index ''download_size'') 1 kMaximumAssetBytes;
       sha \<leftarrow> CopyString text ts (Member text ts index ''sha256'') 65;
       digest \<leftarrow> ParseSha256 sha;
       installed \<leftarrow> Uint64 text ts (Member text ts index ''installed_size'') 1 kMaximumAssetBytes;
       peak \<leftarrow> Uint64 text ts (Member text ts index ''required_peak_bytes'') 1 0x7fffffffffffffff;
       zip_profile \<leftarrow> CopyString text ts (Member text ts index ''zip_profile'') 32;
       guarded (zip_profile = ascii ''bmx-zip32-v1'');
       Some (blank_asset\<lparr>archive_board := family, archive_filename := name, archive_download_size := download,
                         archive_sha256 := digest, archive_installed_size := installed,
                         archive_required_peak_bytes := peak\<rparr>)
     }"

definition peak_rejected :: "ManifestAsset \<Rightarrow> bool" where
  "peak_rejected a \<longleftrightarrow>
     archive_download_size a > - 1 - archive_installed_size a
     \<or> archive_download_size a + archive_installed_size a > - 1 - kSafetyReserveBytes
     \<or> archive_required_peak_bytes a
         < archive_download_size a + archive_installed_size a + kSafetyReserveBytes"

definition ParseAsset ::
  "bytes \<Rightarrow> JsonToken list \<Rightarrow> ManifestParseStorage \<Rightarrow> cstring \<Rightarrow> nat option \<Rightarrow> bool
   \<Rightarrow> ManifestParseStatus + ManifestAsset" where
  "ParseAsset text ts storage v index store =
     (if \<not> ExactObject text ts index kAssetFields then Inl ManifestUnknownField
      else
        (case Option.bind (CopyString text ts (Member text ts index ''board_family'') 8) board_of_text of
           None \<Rightarrow> Inl ManifestInvalidValue
         | Some family \<Rightarrow>
             if \<not> models_listed text ts (Member text ts index ''supported_models'') family
             then Inl ManifestInvalidValue
             else
               (case asset_values text ts index family of
                  None \<Rightarrow> Inl ManifestInvalidValue
                | Some a \<Rightarrow>
                    if length (archive_name v family) \<ge> 161 \<or> archive_filename a \<noteq> archive_name v family
                      then Inl ManifestInvalidValue
                    else if peak_rejected a then Inl ManifestInvalidValue
                    else
                      sum_bind (ParseDirectories text ts storage store (Member text ts index ''directories'') a)
                        (\<lambda>a1. ParseFiles text ts storage store (Member text ts index ''files'') a1))))"

text \<open>\<open>AsciiCaseEqual\<close>: two strings up to the case of ASCII letters.\<close>

fun AsciiCaseEqual :: "cstring \<Rightarrow> cstring \<Rightarrow> bool" where
  "AsciiCaseEqual [] [] = True"
| "AsciiCaseEqual [] (b # r) = False"
| "AsciiCaseEqual (a # l) [] = False"
| "AsciiCaseEqual (a # l) (b # r) = (if FatAsciiLower a \<noteq> FatAsciiLower b then False else AsciiCaseEqual l r)"

record assets_scan =
  previous_board :: BoardFamily
  found_target :: "ManifestAsset option"
  board_mask :: u8

definition asset_turn ::
  "bytes \<Rightarrow> JsonToken list \<Rightarrow> ManifestParseStorage \<Rightarrow> cstring \<Rightarrow> BoardFamily \<Rightarrow> nat option
   \<Rightarrow> assets_scan \<Rightarrow> nat \<Rightarrow> ManifestParseStatus + assets_scan" where
  "asset_turn text ts storage v target array s i =
     (let index = DirectChild ts array i
      in sum_bind (ParseAsset text ts storage v index False) (\<lambda>parsed.
           if previous_board s \<noteq> BoardUnknown
              \<and> BoardFamily_byte (previous_board s) \<ge> BoardFamily_byte (archive_board parsed)
           then Inl DuplicateAsset
           else
             (let s1 = s\<lparr>previous_board := archive_board parsed,
                        board_mask := board_mask s OR (if archive_board parsed = Pi4Pi400 then 1 else 2)\<rparr>
              in if archive_board parsed \<noteq> target then Inr s1
                 else if found_target s1 \<noteq> None then Inl DuplicateAsset
                 else sum_bind (ParseAsset text ts storage v index True)
                        (\<lambda>a. Inr (s1\<lparr>found_target := Some a\<rparr>)))))"

fun paths_collide :: "cstring list \<Rightarrow> bool" where
  "paths_collide [] = False"
| "paths_collide (p # ps) = (list_ex (AsciiCaseEqual p) ps \<or> paths_collide ps)"

definition inventory_collides :: "ManifestAsset \<Rightarrow> bool" where
  "inventory_collides a =
     (let files = map file_path (array_items (archive_files a)); directories = array_items (archive_directories a)
      in paths_collide files \<or> list_ex (\<lambda>f. list_ex (AsciiCaseEqual f) directories) files
         \<or> paths_collide directories)"

definition ParseAssets ::
  "bytes \<Rightarrow> JsonToken list \<Rightarrow> ManifestParseStorage \<Rightarrow> BoardFamily \<Rightarrow> nat option \<Rightarrow> ReleaseManifest
   \<Rightarrow> ManifestParseStatus + ReleaseManifest" where
  "ParseAssets text ts storage target index m =
     (let count = DirectChildren ts index
      in if not_array ts index then Inl ManifestWrongType
         else if count \<noteq> 2 then Inl ManifestLimitExceeded
         else
           sum_bind (scan_each (asset_turn text ts storage (manifest_version m) target index)
               \<lparr>previous_board = BoardUnknown, found_target = None, board_mask = 0\<rparr> [0..<count])
             (\<lambda>s. if board_mask s \<noteq> 3 then Inl DuplicateAsset
                  else
                    (case found_target s of
                       None \<Rightarrow> Inl TargetAssetMissing
                     | Some a \<Rightarrow>
                         if inventory_collides a then Inl InventoryMismatch
                         else Inr (m\<lparr>manifest_asset := a\<rparr>))))"

section \<open>The manifest\<close>

definition kRootFields :: "string list" where
  "kRootFields = [''manifest_version'', ''release'', ''configuration'', ''assets'']"

definition parse_manifest ::
  "bytes \<Rightarrow> JsonToken list \<Rightarrow> ManifestParseStorage \<Rightarrow> BoardFamily \<Rightarrow> ManifestParseStatus + ReleaseManifest" where
  "parse_manifest text ts storage target =
     (if ts = [] \<or> tok_type (ts ! 0) \<noteq> JSON_TOKEN_OBJECT then Inl ManifestWrongType
      else if \<not> ExactObject text ts (Some 0) kRootFields then Inl ManifestUnknownField
      else if Uint64 text ts (Member text ts (Some 0) ''manifest_version'') 2 2 = None
        then Inl ManifestUnsupportedVersion
      else
        sum_bind (ParseRelease text ts (Member text ts (Some 0) ''release'') blank_manifest) (\<lambda>m1.
        sum_bind (ParseConfiguration text ts (Member text ts (Some 0) ''configuration'') m1) (\<lambda>m2.
          ParseAssets text ts storage target (Member text ts (Some 0) ''assets'') m2)))"

text \<open>\<open>structures_given\<close>: the pointers to the manifest and to the parser's result are not null.\<close>

definition ParseReleaseManifest ::
  "byte_view \<Rightarrow> BoardFamily \<Rightarrow> ManifestParseStorage \<Rightarrow> bool \<Rightarrow> ManifestParseStatus + ReleaseManifest" where
  "ParseReleaseManifest encoded target storage structures_given =
     (let bs = view_bytes encoded; n = view_size encoded
      in if view_null encoded \<or> \<not> structures_given \<or> \<not> manifest_tokens_given storage
            \<or> manifest_token_capacity storage = 0 \<or> \<not> manifest_files_given storage
            \<or> manifest_file_capacity storage = 0 \<or> \<not> manifest_directories_given storage
            \<or> manifest_directory_capacity storage = 0 \<or> \<not> IsKnownBoardFamily target
           then Inl ManifestInvalidArgument
         else if n < 3 \<or> n > kMaximumReleaseManifestBytes \<or> bs ! 0 \<noteq> ch CHR ''{'' \<or> bs ! (n - 1) \<noteq> 0x0a
                 \<or> bs ! (n - 2) \<noteq> ch CHR ''}''
           then Inl ManifestInvalidSize
         else if 0x0d \<in> set bs then Inl ManifestJsonInvalid
         else
           (case ParseJson encoded True (manifest_token_capacity storage) 32 of
              (parsed, ts) \<Rightarrow>
                if result_error parsed \<noteq> JSON_OK
                then Inl (if result_error parsed = JSON_ERROR_TOKEN_LIMIT then ManifestStorageTooSmall
                          else ManifestJsonInvalid)
                else parse_manifest bs ts storage target))"

definition ManifestListsSigningKey :: "ReleaseManifest \<Rightarrow> cstring option \<Rightarrow> bool" where
  "ManifestListsSigningKey m key =
     (case key of None \<Rightarrow> False | Some k \<Rightarrow> list_ex (\<lambda>i. i = k) (manifest_signing_key_ids m))"

fun ManifestParseStatusString :: "ManifestParseStatus \<Rightarrow> string" where
  "ManifestParseStatusString ManifestOk = ''ok''"
| "ManifestParseStatusString ManifestInvalidArgument = ''invalid argument''"
| "ManifestParseStatusString ManifestInvalidSize = ''manifest size/format invalid''"
| "ManifestParseStatusString ManifestJsonInvalid = ''manifest JSON invalid''"
| "ManifestParseStatusString ManifestUnsupportedVersion = ''unsupported manifest version''"
| "ManifestParseStatusString ManifestWrongType = ''manifest field has wrong type''"
| "ManifestParseStatusString ManifestMissingField = ''manifest field missing''"
| "ManifestParseStatusString ManifestUnknownField = ''manifest object fields differ''"
| "ManifestParseStatusString ManifestInvalidValue = ''manifest value invalid''"
| "ManifestParseStatusString ManifestLimitExceeded = ''manifest limit exceeded''"
| "ManifestParseStatusString UnsupportedConfiguration = ''configuration migration unsupported''"
| "ManifestParseStatusString TargetAssetMissing = ''target board asset missing''"
| "ManifestParseStatusString DuplicateAsset = ''manifest assets duplicate or unsorted''"
| "ManifestParseStatusString InventoryMismatch = ''manifest inventory/policy mismatch''"
| "ManifestParseStatusString ManifestStorageTooSmall = ''manifest parse storage too small''"

end
