(* ===== verification/Signature_Canonical.thy ===== *)
theory Signature_Canonical
  imports Signature_Envelope
begin

text \<open>
  What the parser of \<open>signature_envelope.cpp\<close> accepts: base64 is decoded exactly from its canonical
  form, and an envelope is accepted exactly when it is the canonical text of a strictly sorted list
  of well-formed signatures. Two different envelopes therefore never carry the same signatures.
\<close>

section \<open>Base64\<close>

definition base64_char :: "u32 \<Rightarrow> byte" where
  "base64_char v =
     (if v < 26 then ch CHR ''A'' + ucast v
      else if v < 52 then ch CHR ''a'' + ucast (v - 26)
      else if v < 62 then ch CHR ''0'' + ucast (v - 52)
      else if v = 62 then ch CHR ''+'' else ch CHR ''/'')"

definition sextet0 :: "byte \<Rightarrow> u32" where
  "sextet0 b0 = drop_bit 2 (ucast b0)"

definition sextet1 :: "byte \<Rightarrow> byte \<Rightarrow> u32" where
  "sextet1 b0 b1 = push_bit 4 (ucast b0 AND 3) OR drop_bit 4 (ucast b1)"

definition sextet2 :: "byte \<Rightarrow> byte \<Rightarrow> u32" where
  "sextet2 b1 b2 = push_bit 2 (ucast b1 AND 15) OR drop_bit 6 (ucast b2)"

definition sextet3 :: "byte \<Rightarrow> u32" where
  "sextet3 b2 = ucast b2 AND 63"

fun base64_encode :: "bytes \<Rightarrow> bytes" where
  "base64_encode [] = []"
| "base64_encode [b0] =
     [base64_char (sextet0 b0), base64_char (sextet1 b0 0), ch CHR ''='', ch CHR ''='']"
| "base64_encode [b0, b1] =
     [base64_char (sextet0 b0), base64_char (sextet1 b0 b1), base64_char (sextet2 b1 0), ch CHR ''='']"
| "base64_encode (b0 # b1 # b2 # rest) =
     [base64_char (sextet0 b0), base64_char (sextet1 b0 b1), base64_char (sextet2 b1 b2),
      base64_char (sextet3 b2)] @ base64_encode rest"

text \<open>Three bytes and four groups of six bits carry the same information.\<close>

lemma mask_bits: "bit (3 :: u32) n \<longleftrightarrow> n < 2" "bit (15 :: u32) n \<longleftrightarrow> n < 4" "bit (63 :: u32) n \<longleftrightarrow> n < 6"
  using bit_mask_iff [of 2 n, where 'a = u32] bit_mask_iff [of 4 n, where 'a = u32]
    bit_mask_iff [of 6 n, where 'a = u32]
  by (auto simp: mask_eq_exp_minus_1 dest: bit_imp_le_length)

lemma mask_bits_byte: "bit (3 :: byte) n \<longleftrightarrow> n < 2" "bit (15 :: byte) n \<longleftrightarrow> n < 4" "bit (63 :: byte) n \<longleftrightarrow> n < 6"
  using bit_mask_iff [of 2 n, where 'a = byte] bit_mask_iff [of 4 n, where 'a = byte]
    bit_mask_iff [of 6 n, where 'a = byte]
  by (auto simp: mask_eq_exp_minus_1 dest: bit_imp_le_length)

lemma mask_bits_int: "bit (3 :: int) n \<longleftrightarrow> n < 2" "bit (15 :: int) n \<longleftrightarrow> n < 4" "bit (63 :: int) n \<longleftrightarrow> n < 6"
  using bit_mask_iff [of 2 n, where 'a = int] bit_mask_iff [of 4 n, where 'a = int]
    bit_mask_iff [of 6 n, where 'a = int]
  by (auto simp: mask_eq_exp_minus_1)

lemma not_bit_byte: "8 \<le> n \<Longrightarrow> \<not> bit (b :: byte) n"
  using bit_imp_le_length [of b n] by auto

lemma bit_byte_eqI:
  fixes a b :: byte
  assumes "bit a 0 = bit b 0" "bit a 1 = bit b 1" "bit a 2 = bit b 2" "bit a 3 = bit b 3"
    "bit a 4 = bit b 4" "bit a 5 = bit b 5" "bit a 6 = bit b 6" "bit a 7 = bit b 7"
  shows "a = b"
proof (rule bit_word_eqI)
  fix n assume "n < LENGTH(8)"
  then have "n = 0 \<or> n = 1 \<or> n = 2 \<or> n = 3 \<or> n = 4 \<or> n = 5 \<or> n = 6 \<or> n = 7" by auto
  with assms show "bit a n = bit b n" by blast
qed

lemma sextet_take_bit: "(v :: u32) < 64 \<longleftrightarrow> take_bit 6 v = v"
proof
  assume "v < 64"
  then have "unat v < 2 ^ 6" by (simp add: word_less_nat_alt)
  then have "unat (take_bit 6 v) = unat v" by (simp add: unsigned_take_bit_eq take_bit_nat_eq_self)
  then show "take_bit 6 v = v" by (rule unsigned_word_eqI [where 'a = nat])
next
  assume a: "take_bit 6 v = v"
  have "unat (take_bit 6 v) < 2 ^ 6" unfolding unsigned_take_bit_eq by (rule take_bit_nat_less_exp)
  with a show "v < 64" by (simp add: word_less_nat_alt)
qed

lemma not_bit_sextet: "(v :: u32) < 64 \<Longrightarrow> 6 \<le> n \<Longrightarrow> \<not> bit v n"
  unfolding sextet_take_bit by (metis bit_take_bit_iff linorder_not_le)

lemma sextet_ltI: "(\<And>n. 6 \<le> n \<Longrightarrow> \<not> bit v n) \<Longrightarrow> (v :: u32) < 64"
  unfolding sextet_take_bit by (rule bit_word_eqI) (metis bit_take_bit_iff linorder_not_le)

lemma bit_sextet_eqI:
  fixes a b :: u32
  assumes "a < 64" "b < 64" "bit a 0 = bit b 0" "bit a 1 = bit b 1" "bit a 2 = bit b 2" "bit a 3 = bit b 3"
    "bit a 4 = bit b 4" "bit a 5 = bit b 5"
  shows "a = b"
proof -
  have "take_bit 6 a = a" "take_bit 6 b = b"
    using assms(1,2) by (simp_all add: sextet_take_bit)
  moreover have "take_bit 6 a = take_bit 6 b"
  proof (rule bit_word_eqI)
    fix n :: nat
    have "bit a n = bit b n" if "n < 6"
    proof -
      from that have "n = 0 \<or> n = 1 \<or> n = 2 \<or> n = 3 \<or> n = 4 \<or> n = 5" by linarith
      then show ?thesis by (elim disjE; hypsubst) (rule assms(3-8))+
    qed
    then show "bit (take_bit 6 a) n = bit (take_bit 6 b) n" unfolding bit_take_bit_iff by blast
  qed
  ultimately show ?thesis by metis
qed

lemma block_of_bytes:
  "block_bytes (group_block (sextet0 b0) (sextet1 b0 b1) (sextet2 b1 b2) (sextet3 b2)) = [b0, b1, b2]"
proof -
  let ?g = "group_block (sextet0 b0) (sextet1 b0 b1) (sextet2 b1 b2) (sextet3 b2)"
  have "ucast (drop_bit 16 ?g) = b0" "ucast (drop_bit 8 ?g) = b1" "ucast ?g = b2"
    by (rule bit_byte_eqI;
        simp add: group_block_def sextet0_def sextet1_def sextet2_def sextet3_def bit_simps mask_bits
          not_bit_byte)+
  then show ?thesis by (simp add: block_bytes_def)
qed

lemma sextet_bounds: "sextet0 b0 < 64" "sextet1 b0 b1 < 64" "sextet2 b1 b2 < 64" "sextet3 b2 < 64"
  by (rule sextet_ltI; auto simp: sextet0_def sextet1_def sextet2_def sextet3_def bit_simps mask_bits
      mask_bits_byte mask_bits_int not_bit_byte simp del: push_bit_and)+

lemma bytes_of_block:
  assumes "v0 < 64" "v1 < 64" "v2 < 64" "v3 < 64"
    and "block_bytes (group_block v0 v1 v2 v3) = [b0, b1, b2]"
  shows "sextet0 b0 = v0" "sextet1 b0 b1 = v1" "sextet2 b1 b2 = v2" "sextet3 b2 = v3"
proof -
  let ?g = "group_block v0 v1 v2 v3"
  have b: "b0 = ucast (drop_bit 16 ?g)" "b1 = ucast (drop_bit 8 ?g)" "b2 = ucast ?g"
    using assms(5) by (simp_all add: block_bytes_def)
  note z = not_bit_sextet [OF assms(1)] not_bit_sextet [OF assms(2)] not_bit_sextet [OF assms(3)]
    not_bit_sextet [OF assms(4)]
  note d = b group_block_def sextet0_def sextet1_def sextet2_def sextet3_def bit_simps mask_bits mask_bits_byte z
  show "sextet0 b0 = v0"
    by (rule bit_sextet_eqI [OF sextet_bounds(1) assms(1)]) (simp_all add: d del: push_bit_and)
  show "sextet1 b0 b1 = v1"
    by (rule bit_sextet_eqI [OF sextet_bounds(2) assms(2)]) (simp_all add: d del: push_bit_and)
  show "sextet2 b1 b2 = v2"
    by (rule bit_sextet_eqI [OF sextet_bounds(3) assms(3)]) (simp_all add: d del: push_bit_and)
  show "sextet3 b2 = v3"
    by (rule bit_sextet_eqI [OF sextet_bounds(4) assms(4)]) (simp_all add: d del: push_bit_and)
qed

text \<open>The characters and their values.\<close>

lemma char_offset:
  fixes c a :: byte and k v :: u32
  assumes "a \<le> c" "unat k < 64"
  shows "ucast (c - a) + k = v \<longleftrightarrow> unat v = unat c - unat a + unat k"
proof -
  have s: "unat (c - a) = unat c - unat a" using assms(1) by (rule unat_sub)
  have "unat (ucast (c - a) :: u32) = unat c - unat a"
    using unsigned_less [of c, where 'a = nat] by (simp add: unsigned_ucast_eq s take_bit_nat_eq_self)
  then have "unat (ucast (c - a) + k) = unat c - unat a + unat k"
    using assms(2) unsigned_less [of c, where 'a = nat]
      unat_add_exact [of "ucast (c - a) :: u32" k] by simp
  then show ?thesis by (metis word_unat_eq_iff)
qed

lemma Base64Value_nat:
  "Base64Value c = Some v \<longleftrightarrow>
     (65 \<le> unat c \<and> unat c \<le> 90 \<and> unat v = unat c - 65)
     \<or> (97 \<le> unat c \<and> unat c \<le> 122 \<and> unat v = unat c - 71)
     \<or> (48 \<le> unat c \<and> unat c \<le> 57 \<and> unat v = unat c + 4)
     \<or> (unat c = 43 \<and> unat v = 62) \<or> (unat c = 47 \<and> unat v = 63)"
proof -
  have n: "(c :: byte) \<le> w \<longleftrightarrow> unat c \<le> unat w" "w \<le> c \<longleftrightarrow> unat w \<le> unat c" "c = w \<longleftrightarrow> unat c = unat w" for w
    by (simp_all add: word_le_nat_alt word_unat_eq_iff)
  have v: "62 = v \<longleftrightarrow> unat v = 62" "63 = v \<longleftrightarrow> unat v = 63" by (auto simp: word_unat_eq_iff)
  have o: "65 \<le> unat c \<Longrightarrow> ucast (c - 65) = v \<longleftrightarrow> unat v = unat c - 65"
    "97 \<le> unat c \<Longrightarrow> ucast (c - 97) + 26 = v \<longleftrightarrow> unat v = unat c - 71"
    "48 \<le> unat c \<Longrightarrow> ucast (c - 48) + 52 = v \<longleftrightarrow> unat v = unat c + 4"
    using char_offset [of 65 c 0 v] char_offset [of 97 c 26 v] char_offset [of 48 c 52 v]
    by (auto simp: word_le_nat_alt)
  show ?thesis
    unfolding Base64Value_def by (auto simp: n v o)
qed

lemma char_plus:
  fixes a :: byte and v k :: u32
  assumes "k \<le> v" "v < 64" "unat a < 128"
  shows "unat (a + ucast (v - k)) = unat a + (unat v - unat k)"
proof -
  have v: "unat v < 64" using assms(2) by (simp add: word_less_nat_alt)
  have "unat (ucast (v - k) :: byte) = unat v - unat k"
    using v by (simp add: unsigned_ucast_eq unat_sub [OF assms(1)] take_bit_nat_eq_self)
  then show ?thesis using v assms(3) unat_add_exact [of a "ucast (v - k)"] by simp
qed

lemma base64_char_nat:
  assumes "v < 64"
  shows "unat (base64_char v) =
     (if unat v < 26 then unat v + 65 else if unat v < 52 then unat v + 71
      else if unat v < 62 then unat v - 4 else if unat v = 62 then 43 else 47)"
proof -
  have n: "v < w \<longleftrightarrow> unat v < unat w" "v = w \<longleftrightarrow> unat v = unat w" for w
    by (simp_all add: word_less_nat_alt word_unat_eq_iff)
  have o: "unat (65 + ucast v :: byte) = unat v + 65"
    "26 \<le> unat v \<Longrightarrow> unat (97 + ucast (v - 26) :: byte) = unat v + 71"
    "52 \<le> unat v \<Longrightarrow> unat (48 + ucast (v - 52) :: byte) = unat v - 4"
    using char_plus [of 0 v 65] char_plus [of 26 v 97] char_plus [of 52 v 48] assms
    by (auto simp: word_le_nat_alt)
  show ?thesis
    unfolding base64_char_def by (simp add: n o)
qed

lemma base64_range:
  fixes n m :: nat
  assumes "m < 64"
  shows "(65 \<le> n \<and> n \<le> 90 \<and> m = n - 65) \<or> (97 \<le> n \<and> n \<le> 122 \<and> m = n - 71)
     \<or> (48 \<le> n \<and> n \<le> 57 \<and> m = n + 4) \<or> (n = 43 \<and> m = 62) \<or> (n = 47 \<and> m = 63) \<longleftrightarrow>
     n = (if m < 26 then m + 65 else if m < 52 then m + 71 else if m < 62 then m - 4
          else if m = 62 then 43 else 47)"
proof -
  consider "m < 26" | "26 \<le> m" "m < 52" | "52 \<le> m" "m < 62" | "m = 62" | "m = 63"
    using assms by linarith
  then show ?thesis by cases (simp; linarith)+
qed

lemma Base64Value_iff: "Base64Value c = Some v \<longleftrightarrow> v < 64 \<and> c = base64_char v"
proof (cases "v < 64")
  case True
  then have m: "unat v < 64" by (simp add: word_less_nat_alt)
  have "c = base64_char v \<longleftrightarrow> unat c = unat (base64_char v)" by (simp add: word_unat_eq_iff)
  with True show ?thesis
    unfolding Base64Value_nat base64_char_nat [OF True] base64_range [OF m] by blast
next
  case False
  then have m: "64 \<le> unat v" by (simp add: word_less_nat_alt)
  then have "Base64Value c \<noteq> Some v" unfolding Base64Value_nat by linarith
  with False show ?thesis by simp
qed

lemma base64_char_not_pad: "v < 64 \<Longrightarrow> base64_char v \<noteq> ch CHR ''=''"
  using Base64Value_iff [of "ch CHR ''=''" v] by (auto simp: Base64Value_def)

text \<open>The groups of the decoder, read forwards and backwards.\<close>

lemma padded_value_iff: "c \<noteq> ch CHR ''='' \<Longrightarrow> padded_value c = Base64Value c"
  by (simp add: padded_value_def)

lemma base64_encode_length: "length (base64_encode d) mod 4 = 0" "base64_encode d = [] \<longleftrightarrow> d = []"
  by (induction d rule: base64_encode.induct) auto

lemma base64_padding_append:
  assumes "4 \<le> length e"
  shows "base64_padding (xs @ e) = base64_padding e"
proof -
  have "(xs @ e) ! (length (xs @ e) - k) = e ! (length e - k)" if "k \<le> 2" for k
  proof -
    have "length (xs @ e) - k = length xs + (length e - k)" using assms that by simp
    then show ?thesis by (metis nth_append_length_plus)
  qed
  from this [of 1] this [of 2] show ?thesis using assms unfolding base64_padding_def by simp
qed

lemma base64_padding_le: "base64_padding e \<le> 2"
  by (simp add: base64_padding_def)

lemma Base64Value_sextet:
  "Base64Value (base64_char (sextet0 b0)) = Some (sextet0 b0)"
  "Base64Value (base64_char (sextet1 b0 b1)) = Some (sextet1 b0 b1)"
  "Base64Value (base64_char (sextet2 b1 b2)) = Some (sextet2 b1 b2)"
  "Base64Value (base64_char (sextet3 b2)) = Some (sextet3 b2)"
  "base64_char (sextet0 b0) \<noteq> ch CHR ''=''" "base64_char (sextet1 b0 b1) \<noteq> ch CHR ''=''"
  "base64_char (sextet2 b1 b2) \<noteq> ch CHR ''=''" "base64_char (sextet3 b2) \<noteq> ch CHR ''=''"
  using sextet_bounds base64_char_not_pad [OF sextet_bounds(1)] base64_char_not_pad [OF sextet_bounds(2)]
    base64_char_not_pad [OF sextet_bounds(3)] base64_char_not_pad [OF sextet_bounds(4)]
  by (simp_all add: Base64Value_iff)

lemma sextet_low_bits: "sextet1 b0 0 AND 0x0f = 0" "sextet2 b1 0 AND 0x03 = 0" "sextet2 0 0 = 0" "sextet3 0 = 0"
proof -
  note d = sextet1_def sextet2_def bit_simps mask_bits mask_bits_byte mask_bits_int
  show "sextet1 b0 0 AND 0x0f = 0" by (rule bit_word_eqI) (auto simp: d simp del: push_bit_and)
  show "sextet2 b1 0 AND 0x03 = 0" by (rule bit_word_eqI) (auto simp: d simp del: push_bit_and)
qed (simp_all add: sextet2_def sextet3_def)

lemma decode_encoded_group:
  "decode_group final 0 n (base64_char (sextet0 b0)) (base64_char (sextet1 b0 b1))
     (base64_char (sextet2 b1 b2)) (base64_char (sextet3 b2)) out
   = Some (out @ take (n - length out) [b0, b1, b2])"
  "decode_group False p n (base64_char (sextet0 b0)) (base64_char (sextet1 b0 b1))
     (base64_char (sextet2 b1 b2)) (base64_char (sextet3 b2)) out
   = Some (out @ take (n - length out) [b0, b1, b2])"
  unfolding decode_group_def padded_value_iff [OF Base64Value_sextet(7)]
    padded_value_iff [OF Base64Value_sextet(8)] Base64Value_sextet
  using Base64Value_sextet(7) [of b1 b2] Base64Value_sextet(8) [of b2]
  by (simp_all add: block_of_bytes Let_def)

lemma decode_padded_group:
  "decode_group True (Suc 0) (length out + 2) (base64_char (sextet0 b0)) (base64_char (sextet1 b0 b1))
     (base64_char (sextet2 b1 0)) (ch CHR ''='') out = Some (out @ [b0, b1])"
  "decode_group True 2 (length out + 1) (base64_char (sextet0 b0)) (base64_char (sextet1 b0 0))
     (ch CHR ''='') (ch CHR ''='') out = Some (out @ [b0])"
proof -
  have b: "block_bytes (group_block (sextet0 b0) (sextet1 b0 b1) (sextet2 b1 0) 0) = [b0, b1, 0]"
    "block_bytes (group_block (sextet0 b0) (sextet1 b0 0) 0 0) = [b0, 0, 0]"
    using block_of_bytes [of b0 b1 0] block_of_bytes [of b0 0 0] by (simp_all add: sextet_low_bits)
  have eq: "padded_value (ch CHR ''='') = Some 0" by (simp add: padded_value_def)
  show "decode_group True (Suc 0) (length out + 2) (base64_char (sextet0 b0)) (base64_char (sextet1 b0 b1))
     (base64_char (sextet2 b1 0)) (ch CHR ''='') out = Some (out @ [b0, b1])"
    unfolding decode_group_def eq padded_value_iff [OF Base64Value_sextet(7)] Base64Value_sextet
    using Base64Value_sextet(7) by (simp add: b sextet_low_bits Let_def)
  show "decode_group True 2 (length out + 1) (base64_char (sextet0 b0)) (base64_char (sextet1 b0 0))
     (ch CHR ''='') (ch CHR ''='') out = Some (out @ [b0])"
    unfolding decode_group_def eq Base64Value_sextet by (simp add: b sextet_low_bits Let_def)
qed

lemma base64_size_step:
  assumes "4 \<le> l" "p \<le> (2 :: nat)"
  shows "(l + 4) div 4 * 3 - p = 3 + (l div 4 * 3 - p)"
proof -
  have "(l + 4) div 4 = l div 4 + 1" "1 \<le> l div 4" using assms(1) by auto
  with assms(2) show ?thesis by linarith
qed

lemma base64_loop_encoded:
  assumes "d \<noteq> []"
  shows "base64_loop (base64_padding (base64_encode d)) (length out + length d) (base64_encode d) out = Some (out @ d)
    \<and> length (base64_encode d) div 4 * 3 - base64_padding (base64_encode d) = length d"
  using assms
proof (induction d arbitrary: out rule: base64_encode.induct)
  case (2 b0)
  have p: "base64_padding (base64_encode [b0]) = 2" by (simp add: base64_padding_def)
  show ?case using decode_padded_group(2) [of out b0] unfolding p by simp
next
  case (3 b0 b1)
  have p: "base64_padding (base64_encode [b0, b1]) = Suc 0"
    using Base64Value_sextet(7) [of b1 0] by (simp add: base64_padding_def)
  show ?case using decode_padded_group(1) [of out b0 b1] unfolding p by simp
next
  case (4 b0 b1 b2 rest)
  let ?e = "base64_encode rest"
  show ?case
  proof (cases "rest = []")
    case True
    have p: "base64_padding (base64_encode [b0, b1, b2]) = 0"
      using Base64Value_sextet(7) [of b1 b2] Base64Value_sextet(8) [of b2] by (simp add: base64_padding_def)
    show ?thesis using True decode_encoded_group(1) [of True "Suc (Suc (Suc (length out)))"] unfolding p True by simp
  next
    case False
    then have l: "4 \<le> length ?e"
      using base64_encode_length [of rest] by (metis gr_zeroI length_0_conv mod_less not_le)
    have p: "base64_padding (base64_encode (b0 # b1 # b2 # rest)) = base64_padding ?e"
      unfolding base64_encode.simps by (rule base64_padding_append [OF l])
    have "rest = [] \<longleftrightarrow> ?e = []" using base64_encode_length(2) by simp
    moreover note base64_size_step [OF l base64_padding_le [of ?e]]
    ultimately show ?thesis
      using False "4.IH" [OF False, of "out @ [b0, b1, b2]"] unfolding p
      by (simp add: decode_encoded_group(2) add.commute add.left_commute)
  qed
qed simp

lemma padded_value_Some:
  "padded_value c = Some v \<longleftrightarrow> (if c = ch CHR ''='' then v = 0 else v < 64 \<and> c = base64_char v)"
  by (auto simp: padded_value_def Base64Value_iff)

lemma sextet_zero:
  "sextet2 b1 b2 AND 0x03 = 0 \<Longrightarrow> sextet3 b2 = 0 \<Longrightarrow> b2 = 0"
  "sextet1 b0 b1 AND 0x0f = 0 \<Longrightarrow> sextet2 b1 b2 = 0 \<Longrightarrow> b1 = 0"
proof -
  note d = sextet1_def sextet2_def sextet3_def bit_simps mask_bits mask_bits_byte mask_bits_int
  have bit: "bit (w :: u32) k = False" if "w = 0" for w k using that by simp
  show "b2 = 0" if z: "sextet2 b1 b2 AND 0x03 = 0" "sextet3 b2 = 0"
    using bit [OF z(1), of 0] bit [OF z(1), of 1] bit [OF z(2), of 0] bit [OF z(2), of 1]
      bit [OF z(2), of 2] bit [OF z(2), of 3] bit [OF z(2), of 4] bit [OF z(2), of 5]
    by (intro bit_byte_eqI) (simp_all add: d del: push_bit_and)
  show "b1 = 0" if z: "sextet1 b0 b1 AND 0x0f = 0" "sextet2 b1 b2 = 0"
    using bit [OF z(1), of 0] bit [OF z(1), of 1] bit [OF z(1), of 2] bit [OF z(1), of 3]
      bit [OF z(2), of 2] bit [OF z(2), of 3] bit [OF z(2), of 4] bit [OF z(2), of 5]
    by (intro bit_byte_eqI) (simp_all add: d del: push_bit_and)
qed

text \<open>What a group that decodes consists of.\<close>

lemma decode_group_values:
  assumes "decode_group final p n a b c d out = Some out'"
  obtains b0 b1 b2 where "out' = out @ take (n - length out) [b0, b1, b2]"
    "a = base64_char (sextet0 b0)" "b = base64_char (sextet1 b0 b1)"
    "if c = ch CHR ''='' then sextet2 b1 b2 = 0 else c = base64_char (sextet2 b1 b2)"
    "if d = ch CHR ''='' then sextet3 b2 = 0 else d = base64_char (sextet3 b2)"
    "final \<and> p = 1 \<longrightarrow> sextet2 b1 b2 AND 0x03 = 0" "final \<and> p = 2 \<longrightarrow> sextet1 b0 b1 AND 0x0f = 0"
    "final \<or> c \<noteq> ch CHR ''='' \<and> d \<noteq> ch CHR ''=''" "c = ch CHR ''='' \<longrightarrow> d = ch CHR ''=''"
proof -
  from assms obtain v0 v1 v2 v3 where v: "Base64Value a = Some v0" "Base64Value b = Some v1"
    "padded_value c = Some v2" "padded_value d = Some v3"
    and out': "out' = out @ take (n - length out) (block_bytes (group_block v0 v1 v2 v3))"
    and chk: "final \<and> p = 1 \<longrightarrow> v2 AND 0x03 = 0" "final \<and> p = 2 \<longrightarrow> v1 AND 0x0f = 0"
      "final \<or> c \<noteq> ch CHR ''='' \<and> d \<noteq> ch CHR ''=''" "c = ch CHR ''='' \<longrightarrow> d = ch CHR ''=''"
    unfolding decode_group_def by (auto simp: Let_def split: option.splits if_splits)
  obtain b0 b1 b2 where blk: "block_bytes (group_block v0 v1 v2 v3) = [b0, b1, b2]"
    by (simp add: block_bytes_def)
  have lt: "v0 < 64" "v1 < 64" "v2 < 64" "v3 < 64"
    using v by (auto simp: Base64Value_iff padded_value_Some split: if_splits)
  note sx = bytes_of_block [OF lt blk]
  show ?thesis
  proof (rule that [of b0 b1 b2])
    show "out' = out @ take (n - length out) [b0, b1, b2]" using out' blk by simp
    show "a = base64_char (sextet0 b0)" "b = base64_char (sextet1 b0 b1)"
      using v(1,2) sx by (simp_all add: Base64Value_iff)
    show "if c = ch CHR ''='' then sextet2 b1 b2 = 0 else c = base64_char (sextet2 b1 b2)"
      "if d = ch CHR ''='' then sextet3 b2 = 0 else d = base64_char (sextet3 b2)"
      using v(3,4) unfolding sx padded_value_Some by (simp_all split: if_splits)
  qed (use chk sx in simp_all)
qed

lemma last_group_sound:
  assumes "decode_group True (base64_padding [a, b, c, d]) (length out + (3 - base64_padding [a, b, c, d])) a b c d out
      = Some out'"
  shows "\<exists>x. x \<noteq> [] \<and> [a, b, c, d] = base64_encode x \<and> out' = out @ x"
proof (rule decode_group_values [OF assms])
  fix b0 b1 b2
  assume o: "out' = out @ take (length out + (3 - base64_padding [a, b, c, d]) - length out) [b0, b1, b2]"
    and g: "a = base64_char (sextet0 b0)" "b = base64_char (sextet1 b0 b1)"
    "if c = ch CHR ''='' then sextet2 b1 b2 = 0 else c = base64_char (sextet2 b1 b2)"
    "if d = ch CHR ''='' then sextet3 b2 = 0 else d = base64_char (sextet3 b2)"
    and chk: "True \<and> base64_padding [a, b, c, d] = 1 \<longrightarrow> sextet2 b1 b2 AND 0x03 = 0"
      "True \<and> base64_padding [a, b, c, d] = 2 \<longrightarrow> sextet1 b0 b1 AND 0x0f = 0"
      "c = ch CHR ''='' \<longrightarrow> d = ch CHR ''=''"
  have p: "base64_padding [a, b, c, d]
      = (if d = ch CHR ''='' then 1 else 0) + (if c = ch CHR ''='' then 1 else 0)"
    by (simp add: base64_padding_def)
  consider "c = ch CHR ''=''" "d = ch CHR ''=''" | "c \<noteq> ch CHR ''=''" "d = ch CHR ''=''"
    | "c \<noteq> ch CHR ''=''" "d \<noteq> ch CHR ''=''" using chk(3) by blast
  then show ?thesis
  proof cases
    case 1
    then have z: "b1 = 0" using g(3) chk(2) p sextet_zero(2) [of b0 b1 b2] by simp
    have "out' = out @ [b0]" using o unfolding p using 1 by simp
    with z 1 g show ?thesis by (intro exI [of _ "[b0]"]) simp
  next
    case 2
    then have z: "b2 = 0" using g(4) chk(1) p sextet_zero(1) [of b1 b2] by simp
    have "out' = out @ [b0, b1]" using o 2 unfolding p by (simp add: numeral_2_eq_2)
    with z 2 g show ?thesis by (intro exI [of _ "[b0, b1]"]) simp
  next
    case 3
    then have "out' = out @ [b0, b1, b2]" using o unfolding p by (simp add: numeral_3_eq_3)
    with 3 g show ?thesis by (intro exI [of _ "[b0, b1, b2]"]) simp
  qed
qed

lemma base64_loop_groups:
  assumes "base64_loop p n e out = Some r" "e \<noteq> []"
  shows "\<exists>a b c d rest. e = a # b # c # d # rest"
  using assms(1)
proof (cases rule: base64_loop.elims)
  case (1)
  with assms(2) show ?thesis by simp
qed auto

lemma base64_loop_sound:
  "base64_loop (base64_padding e) (length out + (length e div 4 * 3 - base64_padding e)) e out = Some r
   \<Longrightarrow> e \<noteq> [] \<Longrightarrow> \<exists>x. x \<noteq> [] \<and> e = base64_encode x \<and> r = out @ x"
proof (induction "length e" arbitrary: e out rule: less_induct)
  case less
  obtain a b c d rest where e: "e = a # b # c # d # rest"
    using base64_loop_groups [OF less.prems] by blast
  show ?case
  proof (cases "rest = []")
    case True
    with less.prems e last_group_sound [of a b c d out] show ?thesis
      by (auto split: option.splits)
  next
    case False
    let ?n = "length out + (length e div 4 * 3 - base64_padding e)"
    from less.prems e False obtain out' where
      g: "decode_group False (base64_padding e) ?n a b c d out = Some out'"
      and l: "base64_loop (base64_padding e) ?n rest out' = Some r"
      by (auto split: option.splits)
    have len4: "4 \<le> length rest"
      using base64_loop_groups [OF l False] by auto
    have p: "base64_padding e = base64_padding rest"
      using base64_padding_append [OF len4, of "[a, b, c, d]"] e by simp
    have n: "?n = length out + 3 + (length rest div 4 * 3 - base64_padding rest)"
      using e p base64_size_step [OF len4 base64_padding_le [of rest]] by (simp add: add.commute)
    from g obtain b0 b1 b2 where o: "out' = out @ take (?n - length out) [b0, b1, b2]"
      and q: "[a, b, c, d] = [base64_char (sextet0 b0), base64_char (sextet1 b0 b1),
        base64_char (sextet2 b1 b2), base64_char (sextet3 b2)]"
      by (rule decode_group_values) auto
    have o': "out' = out @ [b0, b1, b2]" using o n by simp
    have "?n = length out' + (length rest div 4 * 3 - base64_padding rest)" using n o' by simp
    then have "base64_loop (base64_padding rest)
        (length out' + (length rest div 4 * 3 - base64_padding rest)) rest out' = Some r"
      using l p by (simp only:)
    from less.hyps [OF _ this False] e obtain x where "x \<noteq> []" "rest = base64_encode x" "r = out' @ x"
      by auto
    with o' q e show ?thesis by (intro exI [of _ "b0 # b1 # b2 # x"]) simp
  qed
qed

text \<open>
  The decoder accepts exactly the canonical encodings: it returns \<open>d\<close> precisely for the one text
  that encodes the non-empty \<open>d\<close>, when \<open>d\<close> fits the output.
\<close>

theorem DecodeCanonicalBase64_iff:
  "DecodeCanonicalBase64 e n = Some d \<longleftrightarrow> d \<noteq> [] \<and> length d \<le> n \<and> e = base64_encode d"
proof
  assume a: "DecodeCanonicalBase64 e n = Some d"
  then have e: "e \<noteq> []" and l: "base64_loop (base64_padding e) (length e div 4 * 3 - base64_padding e) e [] = Some d"
    and s: "length d = length e div 4 * 3 - base64_padding e" "length e div 4 * 3 - base64_padding e \<le> n"
    by (auto simp: DecodeCanonicalBase64_def Let_def split: if_splits option.splits)
  from base64_loop_sound [of e "[]" d] l e s show "d \<noteq> [] \<and> length d \<le> n \<and> e = base64_encode d" by auto
next
  assume a: "d \<noteq> [] \<and> length d \<le> n \<and> e = base64_encode d"
  with base64_loop_encoded [of d "[]"] base64_encode_length [of d]
  show "DecodeCanonicalBase64 e n = Some d" by (simp add: DecodeCanonicalBase64_def Let_def)
qed

section \<open>The canonical envelope\<close>

definition render_record :: "ReleaseSignature \<Rightarrow> bytes" where
  "render_record sig =
     kKeyPrefix @ key_id sig @ [10] @ kAlgorithmLine @ [10]
     @ kSignaturePrefix @ base64_encode (der sig) @ [10]"

definition render_envelope :: "ReleaseSignature list \<Rightarrow> bytes" where
  "render_envelope sigs = kEnvelopeHeader @ [10] @ concat (map render_record sigs)"

definition signature_ok :: "ReleaseSignature \<Rightarrow> bool" where
  "signature_ok sig \<longleftrightarrow> IsIdentifier (key_id sig) \<and> IsValidP256EcdsaDer (Bytes (der sig))"

lemma NextLine_iff: "NextLine s = Some (line, r) \<longleftrightarrow> s = line @ 10 # r \<and> 10 \<notin> set line"
proof
  assume a: "NextLine s = Some (line, r)"
  let ?l = "takeWhile (\<lambda>c. c \<noteq> 10) s"
  have l: "line = ?l" "r = drop (length ?l + 1) s" "length ?l < length s"
    using a by (auto simp: NextLine_def Let_def split: if_splits)
  have "s ! length ?l = 10" using nth_length_takeWhile [OF l(3)] by simp
  then have "s = ?l @ 10 # r"
    using l by (metis Suc_eq_plus1 append_take_drop_id id_take_nth_drop takeWhile_eq_take)
  moreover have "10 \<notin> set ?l" by (auto dest: set_takeWhileD)
  ultimately show "s = line @ 10 # r \<and> 10 \<notin> set line" using l(1) by simp
next
  assume s: "s = line @ 10 # r \<and> 10 \<notin> set line"
  then have "takeWhile (\<lambda>c. c \<noteq> 10) s = line"
    by (metis (mono_tags, lifting) append_Nil2 takeWhile.simps(2) takeWhile_append2)
  with s show "NextLine s = Some (line, r)" by (simp add: NextLine_def Let_def)
qed

lemma LineStartsWith_iff: "LineStartsWith line prefix = Some v \<longleftrightarrow> line = prefix @ v \<and> v \<noteq> []"
  by (auto simp: LineStartsWith_def) (metis append_take_drop_id)

text \<open>Every byte of the rendering but the line feeds is a printable ASCII character.\<close>

definition printable :: "byte \<Rightarrow> bool" where
  "printable c \<longleftrightarrow> 32 \<le> c \<and> c \<le> 126"

lemma printable_char: "v < 64 \<Longrightarrow> printable (base64_char v)"
  using base64_char_nat [of v] by (auto simp: printable_def word_le_nat_alt word_less_nat_alt split: if_splits)

lemma printable_base64: "list_all printable (base64_encode d)"
  by (induction d rule: base64_encode.induct)
    (simp_all add: printable_char sextet_bounds, simp_all add: printable_def)

lemma printable_identifier: "IsIdentifier v \<Longrightarrow> list_all printable v \<and> v \<noteq> []"
proof -
  assume a: "IsIdentifier v"
  have p: "printable c" if "is_identifier_byte c" for c
    using that by (auto simp: is_identifier_byte_def is_alphanumeric_def printable_def word_le_nat_alt)
  from a show ?thesis
    by (cases v) (auto simp: IsIdentifier_def is_identifier_byte_def list_all_iff intro!: p split: if_splits)
qed

lemma printable_texts:
  "list_all printable kKeyPrefix" "list_all printable kAlgorithmLine" "list_all printable kSignaturePrefix"
  "list_all printable kEnvelopeHeader"
  by (simp_all add: kKeyPrefix_def kAlgorithmLine_def kSignaturePrefix_def kEnvelopeHeader_def printable_def)

lemma printable_no_newline: "list_all printable s \<Longrightarrow> 10 \<notin> set s"
  by (auto simp: list_all_iff printable_def)

lemma first_bad_byte_None:
  "first_bad_byte s = None \<longleftrightarrow> list_all (\<lambda>c. c \<noteq> 13 \<and> c \<le> 0x7f) s"
  by (induction s) auto

lemma valid_der_size: "IsValidP256EcdsaDer (Bytes d) \<Longrightarrow> d \<noteq> [] \<and> length d \<le> 80"
  by (auto simp: IsValidP256EcdsaDer_def kMaximumEcdsaDerBytes_def Let_def split: if_splits)

lemma parse_record_iff:
  "parse_record previous s = Inr (sig, r) \<longleftrightarrow>
     s = render_record sig @ r \<and> signature_ok sig
     \<and> (case previous of None \<Rightarrow> True | Some p \<Rightarrow> bytes_less p (key_id sig))"
proof
  assume "parse_record previous s = Inr (sig, r)"
  then obtain kl s1 al s2 sl key enc where l: "NextLine s = Some (kl, s1)" "NextLine s1 = Some (al, s2)"
    "NextLine s2 = Some (sl, r)" "LineStartsWith kl kKeyPrefix = Some key" "LineEquals al kAlgorithmLine"
    "LineStartsWith sl kSignaturePrefix = Some enc"
    and d: "DecodeCanonicalBase64 enc kMaximumEcdsaDerBytes = Some (der sig)" "key_id sig = key"
    and ok: "IsIdentifier key" "IsValidP256EcdsaDer (Bytes (der sig))"
      "case previous of None \<Rightarrow> True | Some p \<Rightarrow> bytes_less p key"
    unfolding parse_record_def by (auto split: option.splits if_splits)
  have "enc = base64_encode (der sig)" using d(1) by (simp add: DecodeCanonicalBase64_iff)
  then have "s = render_record sig @ r"
    using l d(2) by (auto simp: NextLine_iff LineStartsWith_iff LineEquals_def render_record_def)
  with d(2) ok show "s = render_record sig @ r \<and> signature_ok sig
     \<and> (case previous of None \<Rightarrow> True | Some p \<Rightarrow> bytes_less p (key_id sig))"
    by (auto simp: signature_ok_def split: option.splits)
next
  assume a: "s = render_record sig @ r \<and> signature_ok sig
     \<and> (case previous of None \<Rightarrow> True | Some p \<Rightarrow> bytes_less p (key_id sig))"
  then have ok: "IsIdentifier (key_id sig)" "IsValidP256EcdsaDer (Bytes (der sig))"
    by (simp_all add: signature_ok_def)
  note p = printable_identifier [OF ok(1)] valid_der_size [OF ok(2)]
  have nl: "10 \<notin> set kKeyPrefix" "10 \<notin> set kAlgorithmLine" "10 \<notin> set kSignaturePrefix"
    "10 \<notin> set (key_id sig)" "10 \<notin> set (base64_encode (der sig))"
    using p printable_texts printable_base64 printable_no_newline by blast+
  have "NextLine s = Some (kKeyPrefix @ key_id sig, kAlgorithmLine @ 10 # kSignaturePrefix
      @ base64_encode (der sig) @ 10 # r)"
    using a nl by (simp add: NextLine_iff render_record_def)
  moreover have "NextLine (kAlgorithmLine @ 10 # kSignaturePrefix @ base64_encode (der sig) @ 10 # r)
      = Some (kAlgorithmLine, kSignaturePrefix @ base64_encode (der sig) @ 10 # r)"
    using nl by (simp add: NextLine_iff)
  moreover have "NextLine (kSignaturePrefix @ base64_encode (der sig) @ 10 # r)
      = Some (kSignaturePrefix @ base64_encode (der sig), r)"
    using nl by (simp add: NextLine_iff)
  moreover have "LineStartsWith (kKeyPrefix @ key_id sig) kKeyPrefix = Some (key_id sig)"
    "LineStartsWith (kSignaturePrefix @ base64_encode (der sig)) kSignaturePrefix = Some (base64_encode (der sig))"
    using p base64_encode_length(2) by (simp_all add: LineStartsWith_iff)
  moreover have "DecodeCanonicalBase64 (base64_encode (der sig)) kMaximumEcdsaDerBytes = Some (der sig)"
    using p by (simp add: DecodeCanonicalBase64_iff kMaximumEcdsaDerBytes_def)
  ultimately show "parse_record previous s = Inr (sig, r)"
    using a ok by (auto simp: parse_record_def LineEquals_def split: option.splits)
qed

lemma bytes_less_trans: "bytes_less a b \<Longrightarrow> bytes_less b c \<Longrightarrow> bytes_less a c"
proof (induction a b arbitrary: c rule: bytes_less.induct)
  case (4 x xs y ys)
  then show ?case by (cases c) auto
qed (auto elim: bytes_less.elims)

lemma sorted_snoc:
  "sorted_wrt bytes_less (map key_id (sigs @ [sig])) \<longleftrightarrow>
     sorted_wrt bytes_less (map key_id sigs)
     \<and> (sigs = [] \<or> bytes_less (key_id (last sigs)) (key_id sig))"
proof (cases sigs rule: rev_cases)
  case (snoc ys y)
  then show ?thesis by (auto simp: sorted_wrt_append intro: bytes_less_trans)
qed simp

definition envelope_list :: "nat \<Rightarrow> ReleaseSignature list \<Rightarrow> bool" where
  "envelope_list capacity sigs \<longleftrightarrow>
     length sigs \<le> min kMaximumReleaseSignatures capacity \<and> list_all signature_ok sigs
     \<and> sorted_wrt bytes_less (map key_id sigs)"

lemma envelope_list_prefix: "envelope_list capacity (sigs @ new) \<Longrightarrow> envelope_list capacity sigs"
  by (auto simp: envelope_list_def sorted_wrt_append)

abbreviation previous_key :: "ReleaseSignature list \<Rightarrow> cstring option" where
  "previous_key sigs \<equiv> (if sigs = [] then None else Some (key_id (last sigs)))"

lemma envelope_list_snoc:
  "envelope_list capacity (sigs @ [sig]) \<longleftrightarrow>
     envelope_list capacity sigs \<and> length sigs < min kMaximumReleaseSignatures capacity \<and> signature_ok sig
     \<and> (case previous_key sigs of None \<Rightarrow> True | Some p \<Rightarrow> bytes_less p (key_id sig))"
  unfolding envelope_list_def sorted_snoc by auto

lemma records_loop_iff:
  "envelope_list capacity sigs \<Longrightarrow>
   records_loop capacity sigs s = Inr r \<longleftrightarrow>
     (\<exists>new. r = sigs @ new \<and> s = concat (map render_record new) \<and> envelope_list capacity r)"
proof (induction capacity sigs s arbitrary: r rule: records_loop.induct)
  case (1 capacity sigs s)
  have ne: "render_record x \<noteq> []" for x by (simp add: render_record_def)
  show ?case
  proof (cases "s = []")
    case True
    then show ?thesis using "1.prems" ne by (auto simp: records_loop.simps)
  next
    case False
    let ?prev = "previous_key sigs"
    have hd: "length sigs < min kMaximumReleaseSignatures capacity
        \<and> parse_record ?prev s = Inr (x, concat (map render_record xs))"
      if "s = concat (map render_record (x # xs))" "envelope_list capacity (sigs @ x # xs)" for x xs
      using envelope_list_prefix [of capacity "sigs @ [x]" xs] that
      unfolding parse_record_iff envelope_list_snoc by simp
    have rhs: "(\<exists>new. r = sigs @ new \<and> s = concat (map render_record new) \<and> envelope_list capacity r)
      \<longleftrightarrow> (\<exists>x xs. r = sigs @ x # xs \<and> s = concat (map render_record (x # xs)) \<and> envelope_list capacity r)"
      using False by (metis concat.simps(1) list.exhaust list.simps(8))
    show ?thesis
    proof (cases "length sigs < min kMaximumReleaseSignatures capacity")
      case room: True
      show ?thesis
      proof (cases "parse_record ?prev s")
        case (Inl e)
        then have "records_loop capacity sigs s \<noteq> Inr r"
          using False room by (subst records_loop.simps) simp
        moreover have False
          if "r = sigs @ x # xs" "s = concat (map render_record (x # xs))" "envelope_list capacity r" for x xs
          using hd [OF that(2)] that(1,3) Inl by simp
        ultimately show ?thesis unfolding rhs by blast
      next
        case (Inr p)
        obtain sig t where p: "p = (sig, t)" by (cases p)
        have q: "s = render_record sig @ t" "envelope_list capacity (sigs @ [sig])"
          using Inr p room "1.prems" unfolding envelope_list_snoc by (simp_all add: parse_record_iff)
        have "records_loop capacity sigs s = records_loop capacity (sigs @ [sig]) t"
          using False room Inr p by (subst records_loop.simps) simp
        also have "\<dots> = Inr r \<longleftrightarrow>
            (\<exists>new. r = (sigs @ [sig]) @ new \<and> t = concat (map render_record new) \<and> envelope_list capacity r)"
          using "1.IH" [OF False _ Inr p [symmetric] q(2)] room by simp
        also have "\<dots> \<longleftrightarrow> (\<exists>x xs. r = sigs @ x # xs \<and> s = concat (map render_record (x # xs))
            \<and> envelope_list capacity r)"
        proof
          assume "\<exists>new. r = (sigs @ [sig]) @ new \<and> t = concat (map render_record new) \<and> envelope_list capacity r"
          with q(1) show "\<exists>x xs. r = sigs @ x # xs \<and> s = concat (map render_record (x # xs)) \<and> envelope_list capacity r"
            by (auto intro: exI [of _ sig])
        next
          assume "\<exists>x xs. r = sigs @ x # xs \<and> s = concat (map render_record (x # xs)) \<and> envelope_list capacity r"
          then obtain x xs where x: "r = sigs @ x # xs" "s = concat (map render_record (x # xs))"
            "envelope_list capacity r" by blast
          with hd [of x xs] Inr p have "sig = x" "t = concat (map render_record xs)" by simp_all
          with x show "\<exists>new. r = (sigs @ [sig]) @ new \<and> t = concat (map render_record new) \<and> envelope_list capacity r"
            by auto
        qed
        finally show ?thesis unfolding rhs .
      qed
    next
      case full: False
      then have "records_loop capacity sigs s \<noteq> Inr r"
        using False by (subst records_loop.simps) auto
      with rhs hd full show ?thesis by blast
    qed
  qed
qed

lemma render_bytes:
  assumes "list_all signature_ok sigs"
  shows "list_all (\<lambda>c. c \<noteq> 13 \<and> c \<le> 0x7f) (render_envelope sigs)"
proof -
  have c: "c \<noteq> 13 \<and> c \<le> 0x7f" if "printable c \<or> c = 10" for c
    using that by (auto simp: printable_def word_le_nat_alt)
  have "list_all (\<lambda>c. printable c \<or> c = 10) (render_record x)" if "x \<in> set sigs" for x
    using that assms printable_identifier [of "key_id x"] printable_texts printable_base64 [of "der x"]
    by (auto simp: render_record_def list_all_iff signature_ok_def)
  with c printable_texts(4) show ?thesis by (auto simp: render_envelope_def list_all_iff)
qed

lemma envelope_iff:
  "ParseSignatureEnvelope (Bytes env) True capacity True = Inr sigs \<longleftrightarrow>
     env = render_envelope sigs \<and> length env \<le> kMaximumSignatureEnvelopeBytes \<and> sigs \<noteq> []
     \<and> length sigs \<le> min kMaximumReleaseSignatures capacity
     \<and> list_all signature_ok sigs \<and> sorted_wrt bytes_less (map key_id sigs)"
proof -
  have e: "envelope_list capacity []" by (simp add: envelope_list_def)
  have h: "10 \<notin> set kEnvelopeHeader" using printable_texts(4) by (rule printable_no_newline)
  show ?thesis
  proof
    assume a: "ParseSignatureEnvelope (Bytes env) True capacity True = Inr sigs"
    then obtain line r where "NextLine env = Some (line, r)" "LineEquals line kEnvelopeHeader"
      "records_loop capacity [] r = Inr sigs" "sigs \<noteq> []" "length env \<le> kMaximumSignatureEnvelopeBytes"
      unfolding ParseSignatureEnvelope_def by (auto simp: Let_def split: if_splits option.splits sum.splits)
    then show "env = render_envelope sigs \<and> length env \<le> kMaximumSignatureEnvelopeBytes \<and> sigs \<noteq> []
       \<and> length sigs \<le> min kMaximumReleaseSignatures capacity
       \<and> list_all signature_ok sigs \<and> sorted_wrt bytes_less (map key_id sigs)"
      using records_loop_iff [OF e, of r sigs]
      by (auto simp: NextLine_iff LineEquals_def render_envelope_def envelope_list_def)
  next
    assume a: "env = render_envelope sigs \<and> length env \<le> kMaximumSignatureEnvelopeBytes \<and> sigs \<noteq> []
       \<and> length sigs \<le> min kMaximumReleaseSignatures capacity
       \<and> list_all signature_ok sigs \<and> sorted_wrt bytes_less (map key_id sigs)"
    then have n: "NextLine env = Some (kEnvelopeHeader, concat (map render_record sigs))"
      using h by (simp add: NextLine_iff render_envelope_def)
    have l: "records_loop capacity [] (concat (map render_record sigs)) = Inr sigs"
      unfolding records_loop_iff [OF e] using a by (simp add: envelope_list_def)
    have "last env = 10"
      using a by (cases sigs rule: rev_cases) (simp_all add: render_envelope_def render_record_def)
    moreover have "first_bad_byte env = None"
      unfolding first_bad_byte_None using a render_bytes [of sigs] by simp
    moreover have "env \<noteq> []" using a by (simp add: render_envelope_def)
    ultimately show "ParseSignatureEnvelope (Bytes env) True capacity True = Inr sigs"
      using a n l by (auto simp: ParseSignatureEnvelope_def LineEquals_def Let_def linorder_not_less)
  qed
qed

text \<open>
  (C36) The parser accepts exactly the canonical envelopes: it returns \<open>sigs\<close> precisely for the one text
  that renders them, when they are between one and four, fit the caller's array, have well-formed
  and strictly increasing key identifiers and well-formed P-256 signatures, and the text is within
  the size limit.
\<close>

theorem ParseSignatureEnvelope_iff:
  "ParseSignatureEnvelope (Bytes env) True capacity True = Inr sigs \<longleftrightarrow>
     env = render_envelope sigs \<and> length env \<le> kMaximumSignatureEnvelopeBytes \<and> sigs \<noteq> []
     \<and> length sigs \<le> min kMaximumReleaseSignatures capacity
     \<and> list_all signature_ok sigs \<and> sorted_wrt bytes_less (map key_id sigs)"
  by (rule envelope_iff)

end
