(* ===== verification/Manifest_Facts.thy ===== *)
theory Manifest_Facts
  imports Release_Manifest Signature_Canonical
begin

text \<open>
  What an accepted release manifest guarantees: the shape and the bounds of every field, the
  registered configuration changes and the complete, collision-free inventory of the archive.
\<close>

section \<open>Fields\<close>

text \<open>A C string that fits a buffer of \<open>n\<close> bytes with its NUL.\<close>

definition text_fits :: "nat \<Rightarrow> cstring \<Rightarrow> bool" where
  "text_fits n s \<longleftrightarrow> 0 \<notin> set s \<and> length s < n"

lemma CopyString_fits: "CopyString text ts token n = Some s \<Longrightarrow> text_fits n s"
proof -
  assume a: "CopyString text ts token n = Some s"
  then obtain t out where o: "JsonCopyString (Some text) (ts ! t) True n = Inr out" "s = c_str out"
    by (auto simp: CopyString_def split: option.splits if_splits sum.splits)
  then obtain d where d: "copy_loop n (token_text text (ts ! t)) [] = Inr d" "out = d @ [0]" "0 < n"
    by (auto simp: JsonCopyString_def split: if_splits sum.splits)
  then have "length d < n" using copy_loop_iff [of "[]" n "token_text text (ts ! t)" d] by simp
  moreover have "c_str (d @ [0]) = takeWhile (\<lambda>b. b \<noteq> 0) d"
    by (induction d) (auto simp: c_str_def)
  ultimately show ?thesis
    using o(2) d(2) length_takeWhile_le [of "\<lambda>b. b \<noteq> 0" d] c_str_no_nul [of out] by (simp add: text_fits_def)
qed

lemma Uint64_range: "Uint64 text ts token lo hi = Some v \<Longrightarrow> lo \<le> v \<and> v \<le> hi"
  by (auto simp: Uint64_def not_less split: option.splits if_splits sum.splits)

lemma Uint32_range:
  assumes "Uint32 text ts token lo hi = Some v"
  shows "lo \<le> v \<and> v \<le> hi"
proof -
  obtain w :: u64 where w: "ucast lo \<le> w" "w \<le> ucast hi" "v = ucast w"
    using assms by (auto simp: Uint32_def dest: Uint64_range)
  have u: "unat (ucast x :: u64) = unat x" for x :: u32
    using unsigned_less [of x, where 'a = nat] by (simp add: unsigned_ucast_eq take_bit_nat_eq_self)
  have "unat w \<le> unat hi" using w(2) by (simp add: word_le_nat_alt u)
  then have "unat v = unat w"
    using w(3) unsigned_less [of hi, where 'a = nat] by (simp add: unsigned_ucast_eq take_bit_nat_eq_self)
  with w(1,2) show ?thesis by (simp add: word_le_nat_alt u)
qed

lemma hex_pairs_length: "hex_pairs v = Some d \<Longrightarrow> length v = 2 * length d"
  by (induction v arbitrary: d rule: hex_pairs.induct) (auto split: if_splits)

lemma ParseSha256_length: "ParseSha256 v = Some d \<Longrightarrow> length d = 32"
  by (auto simp: ParseSha256_def dest: hex_pairs_length split: if_splits)

lemmas field_facts = CopyString_fits Uint64_range Uint32_range ParseSha256_length

lemma transp_bytes_less: "transp bytes_less"
  by (auto intro: transpI bytes_less_trans)

lemma bytes_less_irrefl [simp]: "\<not> bytes_less x x"
  by (induction x) auto

lemma sorted_bytes_distinct: "sorted_wrt bytes_less xs \<Longrightarrow> distinct xs"
  by (induction xs) auto

section \<open>The release object\<close>

definition release_ok :: "ReleaseManifest \<Rightarrow> bool" where
  "release_ok m \<longleftrightarrow>
     IsVersion (manifest_version m) \<and> IsTag (manifest_tag m) \<and> IsSourceCommit (manifest_source_commit m)
     \<and> 1 \<le> manifest_release_sequence m \<and> manifest_release_sequence m \<le> 0x7fffffff
     \<and> 1 \<le> manifest_release_epoch m \<and> manifest_release_epoch m \<le> 0x7fffffffffffffff
     \<and> 1 \<le> manifest_minimum_abi m \<and> manifest_minimum_abi m \<le> manifest_maximum_abi m
     \<and> manifest_maximum_abi m \<le> 0x7fffffff
     \<and> manifest_signing_key_ids m \<noteq> [] \<and> length (manifest_signing_key_ids m) \<le> 4
     \<and> list_all IsManifestIdentifier (manifest_signing_key_ids m)
     \<and> sorted_wrt bytes_less (manifest_signing_key_ids m)"

lemma signing_keys_ok:
  assumes "for_each (signing_key text ts array) [] [0..<n] = Inr ids"
  shows "length ids = n \<and> list_all IsManifestIdentifier ids \<and> sorted_wrt bytes_less ids"
proof -
  have "list_all IsManifestIdentifier ids \<and> sorted_wrt bytes_less ids"
    using assms
    by (induction rule: for_each_upt)
      (auto simp: signing_key_def sorted_wrt_snoc [OF transp_bytes_less] split: option.splits if_splits)
  with assms show ?thesis by (simp add: for_each_length)
qed

lemma ParseRelease_ok: "ParseRelease text ts index m = Inr m' \<Longrightarrow> release_ok m'"
  by (auto simp: ParseRelease_def release_values_def release_ok_def Let_def Option.bind_eq_Some_conv
      dest!: signing_keys_ok field_facts split: if_splits option.splits)

section \<open>The configuration object\<close>

definition schema_ok :: "ManifestConfigSchema \<Rightarrow> bool" where
  "schema_ok s \<longleftrightarrow>
     sorted_wrt (<) (schema_accepted_versions s) \<and> schema_target_version s \<in> set (schema_accepted_versions s)"

text \<open>Every lossy migration has a description for its area, and nothing else is described.\<close>

definition configuration_ok :: "ReleaseManifest \<Rightarrow> bool" where
  "configuration_ok m \<longleftrightarrow>
     list_all schema_ok (manifest_schemas m)
     \<and> declarations_registered (map schema_view (manifest_schemas m)) (map migration_view (manifest_migrations m))
     \<and> list_all (\<lambda>c. IsDisplaySafeDescription (lossy_description c)) (manifest_lossy_changes m)
     \<and> distinct (map lossy_area (manifest_lossy_changes m))
     \<and> lossy_area ` set (manifest_lossy_changes m)
       = migration_area ` {g \<in> set (manifest_migrations m). migration_lossy g}"

lemma accepted_versions_ok:
  assumes "for_each (accepted_version text ts array) [] [0..<n] = Inr vs"
  shows "sorted_wrt (<) vs"
  using assms
  by (induction rule: for_each_upt)
    (auto simp: accepted_version_def sorted_wrt_snoc not_le split: option.splits if_splits)

lemma parse_schemas_ok: "parse_schemas text ts index = Inr schemas \<Longrightarrow> list_all schema_ok schemas"
proof -
  assume "parse_schemas text ts index = Inr schemas"
  then obtain l n where l: "schemas = map snd l"
    "for_each (parse_schema text ts (Member text ts index ''schemas'')) [] [0..<n] = Inr l"
    by (auto simp: parse_schemas_def Let_def split: if_splits)
  from l(2) have "list_all (\<lambda>p. schema_ok (snd p)) l"
    by (induction rule: for_each_upt)
      (auto simp: parse_schema_def Let_def schema_ok_def list_ex_equal dest!: accepted_versions_ok
        split: option.splits if_splits)
  with l(1) show ?thesis by (auto simp: list_all_iff)
qed

text \<open>Known areas are known by their texts.\<close>

lemma ParseConfigArea_inj:
  "IsKnownConfigArea (ParseConfigArea v) \<Longrightarrow> ParseConfigArea v = ParseConfigArea w \<Longrightarrow> v = w"
  by (auto simp: ParseConfigArea_def IsKnownConfigArea_def split: if_splits)

lemma parse_lossy_changes_ok:
  assumes "parse_lossy_changes text ts index = Inr changes"
  shows "list_all (\<lambda>c. IsDisplaySafeDescription (lossy_description c)) changes
    \<and> distinct (map lossy_area changes)"
proof -
  obtain l n where l: "changes = map snd l"
    "for_each (parse_lossy_change text ts (Member text ts index ''lossy_changes'')) [] [0..<n] = Inr l"
    using assms by (auto simp: parse_lossy_changes_def Let_def split: if_splits)
  define good where "good p \<longleftrightarrow> IsDisplaySafeDescription (lossy_description (snd p))
    \<and> IsKnownConfigArea (ParseConfigArea (fst p)) \<and> lossy_area (snd p) = ParseConfigArea (fst p)"
    for p :: "cstring \<times> ManifestLossyChange"
  from l(2) have g: "list_all good l \<and> sorted_wrt bytes_less (map fst l)"
    by (induction rule: for_each_upt)
      (auto simp: parse_lossy_change_def Let_def good_def sorted_wrt_map_snoc [OF transp_bytes_less]
        Option.bind_eq_Some_conv split: option.splits if_splits prod.splits)
  have "inj_on ParseConfigArea (set (map fst l))"
    using g by (auto simp: list_all_iff good_def intro!: inj_onI ParseConfigArea_inj)
  moreover have "distinct (map fst l)" using g sorted_bytes_distinct by blast
  ultimately have "distinct (map ParseConfigArea (map fst l))" by (simp only: distinct_map)
  moreover have "map lossy_area changes = map ParseConfigArea (map fst l)"
    using l(1) g by (auto simp: list_all_iff good_def)
  ultimately have "distinct (map lossy_area changes)" by simp
  with l(1) g show ?thesis by (auto simp: list_all_iff good_def)
qed

lemma RegistryStatusToManifestStatus_ok: "RegistryStatusToManifestStatus st = ManifestOk \<longleftrightarrow> st = RegistryValid"
  by (cases st) simp_all

lemma ParseConfiguration_ok:
  assumes "ParseConfiguration text ts index m = Inr m'"
  shows "configuration_ok m'
    \<and> (\<exists>ss gs cs. m' = m\<lparr>manifest_schemas := ss, manifest_migrations := gs, manifest_lossy_changes := cs\<rparr>)"
proof -
  obtain ss gs cs where p: "parse_schemas text ts index = Inr ss" "check_registry ss gs = Inr ()"
    "parse_lossy_changes text ts index = Inr cs" "described_exactly gs cs"
    and m': "m' = m\<lparr>manifest_schemas := ss, manifest_migrations := gs, manifest_lossy_changes := cs\<rparr>"
    using assms by (auto simp: ParseConfiguration_def split: if_splits)
  have "declarations_registered (map schema_view ss) (map migration_view gs)"
    using p(2) by (auto simp: check_registry_def Let_def RegistryStatusToManifestStatus_ok registry_valid_iff split: if_splits)
  moreover have "lossy_area ` set cs = migration_area ` {g \<in> set gs. migration_lossy g}"
    using p(4) unfolding described_exactly_def list_all_iff list_ex_iff by (auto simp: image_iff) metis+
  ultimately have "configuration_ok m'"
    using parse_schemas_ok [OF p(1)] parse_lossy_changes_ok [OF p(3)] m' by (simp add: configuration_ok_def)
  with m' show ?thesis by blast
qed

section \<open>The inventory\<close>

lemma FatAsciiLower_case: "AsciiCaseEqual a b \<longleftrightarrow> map FatAsciiLower a = map FatAsciiLower b"
  by (induction a b rule: AsciiCaseEqual.induct) auto

lemma paths_collide_iff: "\<not> paths_collide ps \<longleftrightarrow> distinct (map (map FatAsciiLower) ps)"
  by (induction ps) (auto simp: FatAsciiLower_case list_ex_iff)

lemma inventory_collides_iff:
  "\<not> inventory_collides a \<longleftrightarrow>
     distinct (map (map FatAsciiLower)
       (map file_path (array_items (archive_files a)) @ array_items (archive_directories a)))"
  by (auto simp: inventory_collides_def Let_def paths_collide_iff FatAsciiLower_case list_ex_iff)

definition board_kernel :: "BoardFamily \<Rightarrow> cstring" where
  "board_kernel family = kMachineKernelBases ! (if family = Pi4Pi400 then 0 else 1)"

definition other_kernel :: "BoardFamily \<Rightarrow> cstring" where
  "other_kernel family = kMachineKernelBases ! (if family = Pi4Pi400 then 1 else 0)"

text \<open>The path of the \<open>i\<close>-th machine's kernel.\<close>

definition kernel_path :: "BoardFamily \<Rightarrow> nat \<Rightarrow> cstring" where
  "kernel_path family i = board_kernel family @ ch CHR ''.'' # kMachineKernelMachines ! i"

definition file_ok :: "BoardFamily \<Rightarrow> ManifestFile \<Rightarrow> bool" where
  "file_ok family f \<longleftrightarrow>
     IsSafeManifestPath (file_path f) \<and> ClassifyKnownPath (file_path f) = Some (file_policy f)
     \<and> file_size f \<le> kMaximumFileBytes \<and> length (file_sha256 f) = 32
     \<and> \<not> starts_with (file_path f) (other_kernel family) \<and> file_path f \<noteq> board_kernel family"

definition directory_ok :: "cstring \<Rightarrow> bool" where
  "directory_ok d \<longleftrightarrow> IsSafeManifestPath d \<and> IsAllowedUpdateDirectory d"

definition boot_files :: "cstring list" where
  "boot_files =
     [ascii ''config.txt'', ascii ''tryboot.txt'', ascii ''bmx-active-kernel.txt'', ascii ''bmx-tryboot-kernel.txt'']"

definition required_paths :: "BoardFamily \<Rightarrow> cstring list" where
  "required_paths family = map (kernel_path family) [0..<kRequiredKernelMachineCount] @ boot_files"

definition inventory_ok :: "BoardFamily \<Rightarrow> u64 \<Rightarrow> ManifestFile list \<Rightarrow> cstring list \<Rightarrow> bool" where
  "inventory_ok family installed fs ds \<longleftrightarrow>
     fs \<noteq> [] \<and> length fs \<le> kMaximumManifestFiles \<and> length ds \<le> kMaximumManifestDirectories
     \<and> sorted_wrt bytes_less (map file_path fs) \<and> sorted_wrt bytes_less ds
     \<and> list_all (file_ok family) fs \<and> list_all directory_ok ds
     \<and> set (required_paths family) \<subseteq> file_path ` set fs
     \<and> (\<Sum>f\<leftarrow>fs. unat (file_size f)) = unat installed"

lemma ParseMachineKernelSuffix_Some:
  assumes "ParseMachineKernelSuffix s = Some b"
  shows "\<exists>i < length kMachineKernelMachines. s = kMachineKernelMachines ! i
    \<and> b = (if i < kRequiredKernelMachineCount then push_bit i 1 else 0)"
  using assms by (auto simp: ParseMachineKernelSuffix_def find_Some_iff split: if_splits option.splits)

lemma bit_machine: "bit (2 ^ i :: u16) j \<longleftrightarrow> i = j \<and> i < 16"
  by (auto simp: bit_simps)

text \<open>A bit of the mask stands for a kernel that has been seen.\<close>

definition kernels_seen :: "BoardFamily \<Rightarrow> u16 \<Rightarrow> ManifestFile list \<Rightarrow> bool" where
  "kernels_seen family kernels fs \<longleftrightarrow> (\<forall>i. bit kernels i \<longrightarrow> kernel_path family i \<in> file_path ` set fs)"

lemma kernel_mask_Some:
  assumes "kernel_mask family path kernels = Some kernels'"
  shows "\<not> starts_with path (other_kernel family) \<and> path \<noteq> board_kernel family
    \<and> (\<forall>i. bit kernels' i \<longrightarrow> bit kernels i \<or> path = kernel_path family i)"
proof -
  have new: "path = kernel_path family i"
    if "starts_with path (board_kernel family)" "starts_with (drop (length (board_kernel family)) path) [ch CHR ''.'']"
      "ParseMachineKernelSuffix (drop (length (board_kernel family) + 1) path) = Some b" "bit b i" for b i
  proof -
    from that(1,2) obtain t where t: "path = board_kernel family @ ch CHR ''.'' # t"
      by (auto simp: starts_with_iff)
    with that(3) obtain j where "t = kMachineKernelMachines ! j"
      "b = (if j < kRequiredKernelMachineCount then push_bit j 1 else 0)"
      by (auto dest: ParseMachineKernelSuffix_Some)
    with t that(4) show ?thesis by (auto simp: kernel_path_def bit_machine split: if_splits)
  qed
  have o: "kMachineKernelBases ! (1 - (if family = Pi4Pi400 then 0 else 1)) = other_kernel family"
    by (simp add: other_kernel_def)
  show ?thesis
    using assms new unfolding kernel_mask_def Let_def o board_kernel_def [symmetric]
    by (auto simp: StartsWith_def bit_or_iff split: if_splits option.splits)
qed

definition scan_ok :: "BoardFamily \<Rightarrow> file_scan \<Rightarrow> bool" where
  "scan_ok family s \<longleftrightarrow>
     list_all (file_ok family) (scan_files s) \<and> sorted_wrt bytes_less (map file_path (scan_files s))
     \<and> unat (scan_installed s) = (\<Sum>f\<leftarrow>scan_files s. unat (file_size f)) \<and> scan_installed s \<le> kMaximumAssetBytes
     \<and> kernels_seen family (scan_kernels s) (scan_files s)
     \<and> (scan_config s \<longrightarrow> ascii ''config.txt'' \<in> file_path ` set (scan_files s))
     \<and> (scan_tryboot s \<longrightarrow> ascii ''tryboot.txt'' \<in> file_path ` set (scan_files s))
     \<and> (scan_active_selector s \<longrightarrow> ascii ''bmx-active-kernel.txt'' \<in> file_path ` set (scan_files s))
     \<and> (scan_candidate_selector s \<longrightarrow> ascii ''bmx-tryboot-kernel.txt'' \<in> file_path ` set (scan_files s))"

lemma installed_step:
  assumes "x \<le> kMaximumFileBytes" "\<not> kMaximumAssetBytes - x < s"
  shows "unat (s + x) = unat s + unat x" "s + x \<le> kMaximumAssetBytes"
proof -
  have x: "unat x \<le> 2 ^ 27" using assms(1) by (simp add: kMaximumFileBytes_def word_le_nat_alt)
  then have "x \<le> kMaximumAssetBytes" by (simp add: kMaximumAssetBytes_def word_le_nat_alt)
  then have "unat (kMaximumAssetBytes - x) = unat kMaximumAssetBytes - unat x" by (rule unat_sub)
  then have s: "unat s + unat x \<le> 2 ^ 29"
    using assms(2) x by (simp add: word_less_nat_alt kMaximumAssetBytes_def)
  then show e: "unat (s + x) = unat s + unat x" by (intro unat_add_exact) simp
  with s show "s + x \<le> kMaximumAssetBytes" by (simp add: kMaximumAssetBytes_def word_le_nat_alt)
qed

lemma file_entry_ok:
  assumes "file_entry text ts array family s (length (scan_files s)) = Inr s'" "scan_ok family s"
  shows "scan_ok family s' \<and> length (scan_files s') = Suc (length (scan_files s))"
proof -
  obtain path octets digest policy compression kernels where
    f: "IsSafeManifestPath path" "scan_files s = [] \<or> bytes_less (file_path (last (scan_files s))) path"
    "octets \<le> kMaximumFileBytes" "length digest = 32" "ClassifyKnownPath path = Some policy"
    "\<not> scan_installed s > kMaximumAssetBytes - octets" "kernel_mask family path (scan_kernels s) = Some kernels"
    and s': "s' = \<lparr>scan_files = scan_files s @
                     [\<lparr>file_path = path, file_size = octets, file_sha256 = digest, file_policy = policy,
                       file_compression = compression\<rparr>],
                   scan_installed = scan_installed s + octets, scan_kernels = kernels,
                   scan_config = (scan_config s \<or> path = ascii ''config.txt''),
                   scan_tryboot = (scan_tryboot s \<or> path = ascii ''tryboot.txt''),
                   scan_active_selector = (scan_active_selector s \<or> path = ascii ''bmx-active-kernel.txt''),
                   scan_candidate_selector = (scan_candidate_selector s \<or> path = ascii ''bmx-tryboot-kernel.txt'')\<rparr>"
    using assms(1)
    by (auto simp: file_entry_def file_values_def Let_def Option.bind_eq_Some_conv dest!: field_facts
        split: if_splits option.splits)
  note k = kernel_mask_Some [OF f(7)]
  have "kernels_seen family kernels (scan_files s')"
    using k assms(2) by (auto simp: kernels_seen_def scan_ok_def s')
  then show ?thesis
    using assms(2) f k installed_step [OF f(3,6)]
    by (auto simp: s' scan_ok_def file_ok_def sorted_wrt_map_snoc [OF transp_bytes_less])
qed

lemma required_mask: "i < kRequiredKernelMachineCount \<Longrightarrow> bit kRequiredKernelMachineMask i"
proof -
  have e: "kRequiredKernelMachineMask = mask 7"
    by (simp add: kRequiredKernelMachineMask_def kRequiredKernelMachineCount_def mask_eq_exp_minus_1)
  assume "i < kRequiredKernelMachineCount"
  then show ?thesis unfolding e bit_mask_iff by (simp add: kRequiredKernelMachineCount_def)
qed

lemma ParseFiles_ok:
  assumes "ParseFiles text ts storage store index a = Inr a'"
  shows "\<exists>fs. a' = (if store then a\<lparr>archive_files := Array fs\<rparr> else a)
    \<and> fs \<noteq> [] \<and> length fs \<le> kMaximumManifestFiles \<and> (store \<longrightarrow> length fs \<le> manifest_file_capacity storage)
    \<and> sorted_wrt bytes_less (map file_path fs) \<and> list_all (file_ok (archive_board a)) fs \<and> set (required_paths (archive_board a)) \<subseteq> file_path ` set fs
    \<and> (\<Sum>f\<leftarrow>fs. unat (file_size f)) = unat (archive_installed_size a)"
proof -
  define n where "n = DirectChildren ts index"
  let ?s0 = "\<lparr>scan_files = [], scan_installed = 0, scan_kernels = 0, scan_config = False,
    scan_tryboot = False, scan_active_selector = False, scan_candidate_selector = False\<rparr>"
  have n: "n \<noteq> 0" "n \<le> kMaximumManifestFiles" "store \<longrightarrow> n \<le> manifest_file_capacity storage"
    using assms unfolding ParseFiles_def Let_def n_def [symmetric] by (auto split: if_splits)
  obtain s where s: "scan_each (file_entry text ts index (archive_board a)) ?s0 [0..<n] = Inr s"
    and e: "scan_kernels s = kRequiredKernelMachineMask" "scan_config s" "scan_tryboot s"
      "scan_active_selector s" "scan_candidate_selector s" "scan_installed s = archive_installed_size a"
      "a' = (if store then a\<lparr>archive_files := Array (scan_files s)\<rparr> else a)"
    using assms unfolding ParseFiles_def Let_def n_def [symmetric] by (auto split: if_splits)
  have ok: "scan_ok (archive_board a) s \<and> length (scan_files s) = n"
  proof (rule scan_each_upt [where P = "\<lambda>i s. scan_ok (archive_board a) s \<and> length (scan_files s) = i"])
    show "scan_each (file_entry text ts index (archive_board a)) ?s0 [0..<n] = Inr s" by (rule s)
  next
    fix s i s'
    assume "scan_ok (archive_board a) s \<and> length (scan_files s) = i"
      "file_entry text ts index (archive_board a) s i = Inr s'"
    then show "scan_ok (archive_board a) s' \<and> length (scan_files s') = Suc i"
      by (auto dest: file_entry_ok)
  qed (simp add: scan_ok_def kernels_seen_def)
  then have "set (required_paths (archive_board a)) \<subseteq> file_path ` set (scan_files s)"
    using e(1-5) required_mask by (auto simp: required_paths_def boot_files_def scan_ok_def kernels_seen_def)
  then show ?thesis
    using ok n e(6,7) by (intro exI [of _ "scan_files s"]) (auto simp: scan_ok_def)
qed

lemma ParseDirectories_ok:
  assumes "ParseDirectories text ts storage store index a = Inr a'"
  shows "\<exists>ds. a' = (if store then a\<lparr>archive_directories := Array ds\<rparr> else a)
    \<and> length ds \<le> kMaximumManifestDirectories \<and> (store \<longrightarrow> length ds \<le> manifest_directory_capacity storage)
    \<and> sorted_wrt bytes_less ds \<and> list_all directory_ok ds"
proof -
  define n where "n = DirectChildren ts index"
  obtain ds where n: "n \<le> kMaximumManifestDirectories" "store \<longrightarrow> n \<le> manifest_directory_capacity storage"
    and ds: "for_each (directory_entry text ts index) [] [0..<n] = Inr ds"
    and a': "a' = (if store then a\<lparr>archive_directories := Array ds\<rparr> else a)"
    using assms by (auto simp: ParseDirectories_def n_def Let_def split: if_splits)
  from ds have "sorted_wrt bytes_less ds \<and> list_all directory_ok ds"
    by (induction rule: for_each_upt)
      (auto simp: directory_entry_def directory_ok_def sorted_wrt_snoc [OF transp_bytes_less]
        split: option.splits if_splits)
  with n a' for_each_length [OF ds] show ?thesis by auto
qed

section \<open>The archive of the running board\<close>

definition sizes_ok :: "ManifestAsset \<Rightarrow> bool" where
  "sizes_ok a \<longleftrightarrow>
     1 \<le> archive_download_size a \<and> archive_download_size a \<le> kMaximumAssetBytes
     \<and> 1 \<le> archive_installed_size a \<and> archive_installed_size a \<le> kMaximumAssetBytes
     \<and> length (archive_sha256 a) = 32
     \<and> unat (archive_download_size a) + unat (archive_installed_size a) + unat kSafetyReserveBytes
         \<le> unat (archive_required_peak_bytes a)"

definition archive_stored ::
  "ManifestParseStorage \<Rightarrow> cstring \<Rightarrow> BoardFamily \<Rightarrow> ManifestAsset \<Rightarrow> bool" where
  "archive_stored storage v family a \<longleftrightarrow>
     archive_board a = family \<and> archive_filename a = archive_name v family \<and> length (archive_filename a) < 161
     \<and> sizes_ok a
     \<and> (\<exists>fs ds. archive_files a = Array fs \<and> archive_directories a = Array ds
          \<and> length fs \<le> manifest_file_capacity storage \<and> length ds \<le> manifest_directory_capacity storage
          \<and> inventory_ok family (archive_installed_size a) fs ds)"

lemma peak_ok:
  assumes "\<not> peak_rejected a"
  shows "unat (archive_download_size a) + unat (archive_installed_size a) + unat kSafetyReserveBytes
    \<le> unat (archive_required_peak_bytes a)"
proof -
  let ?d = "archive_download_size a" and ?i = "archive_installed_size a"
  from assms have g: "?d \<le> - 1 - ?i" "?d + ?i \<le> - 1 - kSafetyReserveBytes"
    and le: "?d + ?i + kSafetyReserveBytes \<le> archive_required_peak_bytes a"
    unfolding peak_rejected_def not_less [symmetric] by blast+
  note one = iffD1 [OF word_add_guard g(1)] and two = iffD1 [OF word_add_guard g(2)]
  have "unat (?d + ?i) = unat ?d + unat ?i"
    by (rule unat_add_exact) (use one in \<open>simp only: add.commute\<close>)
  moreover have "unat (?d + ?i + kSafetyReserveBytes) = unat (?d + ?i) + unat kSafetyReserveBytes"
    by (rule unat_add_exact) (use two in \<open>simp only: add.commute\<close>)
  ultimately show ?thesis using le unfolding word_le_nat_alt by linarith
qed

lemma board_of_text_known: "board_of_text v = Some family \<Longrightarrow> family \<in> {Pi4Pi400, Pi5Pi500}"
  by (auto simp: board_of_text_def split: if_splits)

lemma ParseAsset_cases:
  assumes "ParseAsset text ts storage v index store = Inr a"
  obtains family a0 a1 where
    "Option.bind (CopyString text ts (Member text ts index ''board_family'') 8) board_of_text = Some family"
    "asset_values text ts index family = Some a0" "length (archive_name v family) < 161"
    "archive_filename a0 = archive_name v family" "\<not> peak_rejected a0"
    "ParseDirectories text ts storage store (Member text ts index ''directories'') a0 = Inr a1"
    "ParseFiles text ts storage store (Member text ts index ''files'') a1 = Inr a"
proof (cases "Option.bind (CopyString text ts (Member text ts index ''board_family'') 8) board_of_text")
  case None
  with assms show ?thesis by (simp add: ParseAsset_def split: if_splits)
next
  case (Some family)
  show ?thesis
  proof (cases "asset_values text ts index family")
    case None
    with Some assms show ?thesis by (simp add: ParseAsset_def split: if_splits)
  next
    case (Some a0)
    with \<open>Option.bind _ _ = Some family\<close> assms that [of family a0] show ?thesis
      by (auto simp add: ParseAsset_def not_le split: if_splits)
  qed
qed

lemma asset_values_ok:
  assumes "asset_values text ts index family = Some a" "\<not> peak_rejected a"
  shows "archive_board a = family \<and> sizes_ok a"
  using assms(1) peak_ok [OF assms(2)]
  by (auto simp: asset_values_def sizes_ok_def blank_asset_def Option.bind_eq_Some_conv dest!: field_facts)

lemma ParseAsset_board:
  assumes "ParseAsset text ts storage v index store = Inr a"
  shows "Option.bind (CopyString text ts (Member text ts index ''board_family'') 8) board_of_text = Some (archive_board a)"
  using assms
proof (rule ParseAsset_cases)
  fix family a0 a1
  assume "Option.bind (CopyString text ts (Member text ts index ''board_family'') 8) board_of_text = Some family"
    and "asset_values text ts index family = Some a0" "\<not> peak_rejected a0"
    and d: "ParseDirectories text ts storage store (Member text ts index ''directories'') a0 = Inr a1"
    and f: "ParseFiles text ts storage store (Member text ts index ''files'') a1 = Inr a"
  moreover from ParseDirectories_ok [OF d] ParseFiles_ok [OF f]
  have "archive_board a = archive_board a0" by auto
  ultimately show ?thesis using asset_values_ok by metis
qed

lemma ParseAsset_ok:
  assumes "ParseAsset text ts storage v index True = Inr a"
  shows "archive_stored storage v (archive_board a) a"
  using assms
proof (rule ParseAsset_cases)
  fix family a0 a1
  assume a0: "asset_values text ts index family = Some a0" "length (archive_name v family) < 161"
    "archive_filename a0 = archive_name v family" "\<not> peak_rejected a0"
    and d: "ParseDirectories text ts storage True (Member text ts index ''directories'') a0 = Inr a1"
    and f: "ParseFiles text ts storage True (Member text ts index ''files'') a1 = Inr a"
  have b: "archive_board a0 = family" "sizes_ok a0" using asset_values_ok [OF a0(1,4)] by simp_all
  from ParseDirectories_ok [OF d] obtain ds where ds: "a1 = a0\<lparr>archive_directories := Array ds\<rparr>"
    "length ds \<le> kMaximumManifestDirectories" "length ds \<le> manifest_directory_capacity storage"
    "sorted_wrt bytes_less ds" "list_all directory_ok ds" by auto
  from ParseFiles_ok [OF f] obtain fs where fs: "a = a1\<lparr>archive_files := Array fs\<rparr>" "fs \<noteq> []"
    "length fs \<le> kMaximumManifestFiles" "length fs \<le> manifest_file_capacity storage"
    "sorted_wrt bytes_less (map file_path fs)" "list_all (file_ok (archive_board a1)) fs"
    "set (required_paths (archive_board a1)) \<subseteq> file_path ` set fs"
    "(\<Sum>f\<leftarrow>fs. unat (file_size f)) = unat (archive_installed_size a1)" by auto
  show ?thesis
    using a0 b ds fs unfolding archive_stored_def by (simp add: inventory_ok_def sizes_ok_def)
qed

text \<open>Both passes over an archive find the same board in it.\<close>

lemma asset_turn_found:
  assumes "asset_turn text ts storage v target array s i = Inr s'"
    and "pred_option (archive_stored storage v target) (found_target s)"
  shows "pred_option (archive_stored storage v target) (found_target s')"
proof -
  let ?index = "DirectChild ts array i"
  obtain parsed where p: "ParseAsset text ts storage v ?index False = Inr parsed"
    using assms(1) by (auto simp: asset_turn_def Let_def)
  have "archive_stored storage v target a"
    if "ParseAsset text ts storage v ?index True = Inr a" "archive_board parsed = target" for a
    using ParseAsset_board [OF p] ParseAsset_board [OF that(1)] that(2) ParseAsset_ok [OF that(1)] by simp
  with assms p show ?thesis
    by (auto simp: asset_turn_def Let_def split: if_splits)
qed

lemma ParseAssets_ok:
  assumes "ParseAssets text ts storage target index m = Inr m'"
  shows "\<exists>a. m' = m\<lparr>manifest_asset := a\<rparr> \<and> archive_stored storage (manifest_version m) target a
    \<and> \<not> inventory_collides a"
proof -
  obtain s a n where s: "scan_each (asset_turn text ts storage (manifest_version m) target index)
        \<lparr>previous_board = BoardUnknown, found_target = None, board_mask = 0\<rparr> [0..<n] = Inr s"
    and a: "found_target s = Some a" "\<not> inventory_collides a" "m' = m\<lparr>manifest_asset := a\<rparr>"
    using assms by (auto simp: ParseAssets_def Let_def split: if_splits option.splits)
  have "pred_option (archive_stored storage (manifest_version m) target) (found_target s)"
    using s by (rule scan_each_induct) (simp, rule asset_turn_found)
  with a show ?thesis by auto
qed

section \<open>The manifest\<close>

definition manifest_ok :: "ManifestParseStorage \<Rightarrow> BoardFamily \<Rightarrow> ReleaseManifest \<Rightarrow> bool" where
  "manifest_ok storage target m \<longleftrightarrow>
     release_ok m \<and> configuration_ok m
     \<and> archive_stored storage (manifest_version m) target (manifest_asset m)
     \<and> distinct (map (map FatAsciiLower)
         (map file_path (array_items (archive_files (manifest_asset m)))
          @ array_items (archive_directories (manifest_asset m))))"

lemma parse_manifest_ok:
  assumes "parse_manifest text ts storage target = Inr m"
  shows "manifest_ok storage target m"
proof -
  obtain m1 m2 where p: "ParseRelease text ts (Member text ts (Some 0) ''release'') blank_manifest = Inr m1"
    "ParseConfiguration text ts (Member text ts (Some 0) ''configuration'') m1 = Inr m2"
    "ParseAssets text ts storage target (Member text ts (Some 0) ''assets'') m2 = Inr m"
    using assms by (auto simp: parse_manifest_def split: if_splits)
  obtain ss gs cs where m2: "m2 = m1\<lparr>manifest_schemas := ss, manifest_migrations := gs, manifest_lossy_changes := cs\<rparr>"
    and c: "configuration_ok m2"
    using ParseConfiguration_ok [OF p(2)] by blast
  obtain a where a: "m = m2\<lparr>manifest_asset := a\<rparr>" "archive_stored storage (manifest_version m2) target a"
    "\<not> inventory_collides a"
    using ParseAssets_ok [OF p(3)] by blast
  have "release_ok m" using ParseRelease_ok [OF p(1)] m2 a(1) by (simp add: release_ok_def)
  moreover have "configuration_ok m" using c a(1) by (simp add: configuration_ok_def)
  ultimately show ?thesis
    using a(1,2) m2 a(3) [unfolded inventory_collides_iff] unfolding manifest_ok_def by simp
qed

lemma ParseReleaseManifest_manifest_ok:
  "ParseReleaseManifest encoded target storage given = Inr m \<Longrightarrow>
   IsKnownBoardFamily target \<and> view_size encoded \<le> kMaximumReleaseManifestBytes \<and> \<not> view_null encoded
   \<and> manifest_ok storage target m"
  by (auto simp: ParseReleaseManifest_def Let_def dest: parse_manifest_ok split: if_splits prod.splits)

text \<open>
  (C6) An accepted manifest is well formed: the release fields have their syntax and ranges, the key
  identifiers are sorted and at most four, the archive is the one of the running board under its
  canonical name with sizes that leave the safety reserve, and its inventory fits the caller's
  storage, is sorted, safe on a FAT volume even up to the case of letters, holds only files the path
  policy knows under exactly that policy, contains every required kernel and boot file and no kernel
  of the other board, and its sizes add up to the signed installed size.
\<close>

theorem ParseReleaseManifest_wellformed:
  "case ParseReleaseManifest encoded target storage given of
     Inl e \<Rightarrow> True
   | Inr m \<Rightarrow>
       IsKnownBoardFamily target \<and> release_ok m
       \<and> archive_stored storage (manifest_version m) target (manifest_asset m)
       \<and> distinct (map (map FatAsciiLower)
           (map file_path (array_items (archive_files (manifest_asset m)))
            @ array_items (archive_directories (manifest_asset m))))"
  using ParseReleaseManifest_manifest_ok [of encoded target storage given]
  by (auto simp: manifest_ok_def split: sum.split)

text \<open>
  (C7) The configuration part of an accepted manifest only selects code that is compiled into the
  updater: it describes each of the six areas once, every migration is a compiled one with all its
  attributes and leads to the target version of its area, and the areas it describes to the user as
  losing configuration are exactly those with a lossy migration.
\<close>

theorem ParseReleaseManifest_configuration:
  "case ParseReleaseManifest encoded target storage given of Inl e \<Rightarrow> True | Inr m \<Rightarrow> configuration_ok m"
  using ParseReleaseManifest_manifest_ok [of encoded target storage given]
  by (auto simp: manifest_ok_def split: sum.split)

end
