(* ===== verification/Manifest_Trust.thy ===== *)
theory Manifest_Trust
  imports Manifest_Facts
begin

text \<open>
  \<open>signature_verifier.cpp\<close> and \<open>trust_store.cpp\<close>: which manifests are trusted. The verification of
  one P-256 signature (\<open>VerifyP256SignatureFunction\<close>, done by Mbed TLS on the target) is an
  argument. The theorem says that a manifest is trusted exactly when one signature of its envelope
  names a key the manifest lists and the updater trusts and has not revoked, and verifies under it.
\<close>

section \<open>The code\<close>

text \<open>\<open>trusted_pem\<close> is the pointer and the size of the key.\<close>

record TrustedReleaseKey =
  trusted_key_id :: "cstring option"
  trusted_pem :: byte_view
  trusted_revoked :: bool

type_synonym verify_function = "byte_view \<Rightarrow> byte_view \<Rightarrow> byte_view \<Rightarrow> bool"

datatype ManifestTrustStatus =
    Trusted | TrustInvalidArgument | EnvelopeInvalid | UndeclaredSignature | NoTrustedKey
  | SignatureMismatch

record ManifestTrustResult =
  trust_status :: ManifestTrustStatus
  trust_envelope_status :: SignatureEnvelopeStatus
  verified_key_id :: cstring

text \<open>
  The loop over the trusted keys for one signature: whether a key verified it, and the new value of
  \<open>saw_trusted_key\<close>.
\<close>

fun key_loop ::
  "verify_function \<Rightarrow> byte_view \<Rightarrow> ReleaseSignature \<Rightarrow> TrustedReleaseKey list \<Rightarrow> bool \<Rightarrow> bool \<times> bool" where
  "key_loop verify manifest_bytes sig [] saw_trusted_key = (False, saw_trusted_key)"
| "key_loop verify manifest_bytes sig (k # ks) saw_trusted_key =
     (if trusted_key_id k = None \<or> the (trusted_key_id k) \<noteq> key_id sig \<or> trusted_revoked k
        then key_loop verify manifest_bytes sig ks saw_trusted_key
      else if view_null (trusted_pem k) \<or> view_size (trusted_pem k) = 0
        then key_loop verify manifest_bytes sig ks True
      else if verify (trusted_pem k) manifest_bytes (Bytes (der sig)) then (True, True)
      else key_loop verify manifest_bytes sig ks True)"

text \<open>The loop over the signatures ends with the key that verified or with the error status.\<close>

fun trust_loop ::
  "verify_function \<Rightarrow> byte_view \<Rightarrow> ReleaseManifest \<Rightarrow> TrustedReleaseKey list \<Rightarrow> ReleaseSignature list
   \<Rightarrow> bool \<Rightarrow> bool \<Rightarrow> ManifestTrustStatus + cstring" where
  "trust_loop verify manifest_bytes m keys [] saw_trusted_key saw_undeclared =
     Inl (if saw_undeclared \<and> \<not> saw_trusted_key then UndeclaredSignature
          else if \<not> saw_trusted_key then NoTrustedKey
          else SignatureMismatch)"
| "trust_loop verify manifest_bytes m keys (sig # sigs) saw_trusted_key saw_undeclared =
     (if \<not> ManifestListsSigningKey m (Some (key_id sig))
      then trust_loop verify manifest_bytes m keys sigs saw_trusted_key True
      else
        (case key_loop verify manifest_bytes sig keys saw_trusted_key of
           (True, saw) \<Rightarrow> Inr (key_id sig)
         | (False, saw) \<Rightarrow> trust_loop verify manifest_bytes m keys sigs saw saw_undeclared))"

definition VerifyManifestTrust ::
  "byte_view \<Rightarrow> ReleaseManifest \<Rightarrow> byte_view \<Rightarrow> TrustedReleaseKey array_view \<Rightarrow> verify_function option
   \<Rightarrow> ManifestTrustResult" where
  "VerifyManifestTrust manifest_bytes m envelope trusted_keys verify_function =
     (case (trusted_keys, verify_function) of
        (Array keys, Some verify) \<Rightarrow>
          if view_null manifest_bytes \<or> view_size manifest_bytes = 0 \<or> view_null envelope \<or> keys = []
          then \<lparr>trust_status = TrustInvalidArgument, trust_envelope_status = EnvelopeInvalidArgument,
                verified_key_id = []\<rparr>
          else
            (case ParseSignatureEnvelope envelope True kMaximumReleaseSignatures True of
               Inl e \<Rightarrow> \<lparr>trust_status = EnvelopeInvalid, trust_envelope_status = e, verified_key_id = []\<rparr>
             | Inr sigs \<Rightarrow>
                 (case trust_loop verify manifest_bytes m keys sigs False False of
                    Inl e \<Rightarrow> \<lparr>trust_status = e, trust_envelope_status = EnvelopeOk, verified_key_id = []\<rparr>
                  | Inr k \<Rightarrow> \<lparr>trust_status = Trusted, trust_envelope_status = EnvelopeOk, verified_key_id = k\<rparr>))
      | _ \<Rightarrow>
          \<lparr>trust_status = TrustInvalidArgument, trust_envelope_status = EnvelopeInvalidArgument,
           verified_key_id = []\<rparr>)"

fun ManifestTrustStatusString :: "ManifestTrustStatus \<Rightarrow> string" where
  "ManifestTrustStatusString Trusted = ''trusted''"
| "ManifestTrustStatusString TrustInvalidArgument = ''invalid argument''"
| "ManifestTrustStatusString EnvelopeInvalid = ''signature envelope invalid''"
| "ManifestTrustStatusString UndeclaredSignature = ''signature key not declared by manifest''"
| "ManifestTrustStatusString NoTrustedKey = ''no trusted release key''"
| "ManifestTrustStatusString SignatureMismatch = ''manifest signature mismatch''"

text \<open>The two compiled trust stores; \<open>BMX_UPDATE_TEST_CHANNEL\<close> selects the test key.\<close>

definition kTestReleasePublicKey :: bytes where
  "kTestReleasePublicKey =
     ascii ''-----BEGIN PUBLIC KEY-----'' @ 0x0a #
     ascii ''MFkwEwYHKoZIzj0CAQYIKoZIzj0DAQcDQgAEShbFDnu2fo8xFBGV/y4o/Lsa9Bqy'' @ 0x0a #
     ascii ''1dGRPPRLZH5gDGyfQscChxxNnO76JIEMhIZ7trl1yttB1Hku80K3Aos4Zw=='' @ 0x0a #
     ascii ''-----END PUBLIC KEY-----'' @ [0x0a, 0]"

definition kProductionReleasePublicKey :: bytes where
  "kProductionReleasePublicKey =
     ascii ''-----BEGIN PUBLIC KEY-----'' @ 0x0a #
     ascii ''MFkwEwYHKoZIzj0CAQYIKoZIzj0DAQcDQgAE4Ctuk+qBVmzhU9YRDqpgkSK08OoF'' @ 0x0a #
     ascii ''sUbk+UzQE6iVkhLwXAAERjo6RhIzxjbZ+dU0OQ11dgk6jx/bNvGxwy6LCw=='' @ 0x0a #
     ascii ''-----END PUBLIC KEY-----'' @ [0x0a, 0]"

definition kReleaseKeys :: "bool \<Rightarrow> TrustedReleaseKey list" where
  "kReleaseKeys test_channel =
     (if test_channel
      then [\<lparr>trusted_key_id = Some (ascii ''p256-5494cdd5cfa1c479''), trusted_pem = Bytes kTestReleasePublicKey,
             trusted_revoked = False\<rparr>]
      else [\<lparr>trusted_key_id = Some (ascii ''p256-9d2fe3155e45a903''),
             trusted_pem = Bytes kProductionReleasePublicKey, trusted_revoked = False\<rparr>])"

definition ReleaseTrustStore :: "bool \<Rightarrow> TrustedReleaseKey array_view" where
  "ReleaseTrustStore test_channel = Array (kReleaseKeys test_channel)"

section \<open>Which manifests are trusted\<close>

text \<open>A key of the store that vouches for a signature.\<close>

definition key_verifies ::
  "verify_function \<Rightarrow> byte_view \<Rightarrow> ReleaseSignature \<Rightarrow> TrustedReleaseKey \<Rightarrow> bool" where
  "key_verifies verify manifest_bytes sig k \<longleftrightarrow>
     trusted_key_id k = Some (key_id sig) \<and> \<not> trusted_revoked k
     \<and> \<not> view_null (trusted_pem k) \<and> view_size (trusted_pem k) \<noteq> 0
     \<and> verify (trusted_pem k) manifest_bytes (Bytes (der sig))"

lemma key_loop_fst:
  "fst (key_loop verify manifest_bytes sig ks saw) \<longleftrightarrow> list_ex (key_verifies verify manifest_bytes sig) ks"
  by (induction ks arbitrary: saw) (auto simp: key_verifies_def)

lemma trust_loop_Inr:
  "trust_loop verify manifest_bytes m keys sigs saw undeclared = Inr k \<Longrightarrow>
   \<exists>sig \<in> set sigs. key_id sig = k \<and> ManifestListsSigningKey m (Some k)
     \<and> list_ex (key_verifies verify manifest_bytes sig) keys"
proof (induction sigs arbitrary: saw undeclared)
  case (Cons sig sigs)
  then show ?case
    using key_loop_fst [of verify manifest_bytes sig keys saw]
    by (auto split: if_splits prod.splits bool.splits)
qed simp

lemma trust_loop_Inl:
  "trust_loop verify manifest_bytes m keys sigs saw undeclared = Inl e \<Longrightarrow>
   e \<noteq> Trusted \<and> (sig \<in> set sigs \<longrightarrow> ManifestListsSigningKey m (Some (key_id sig)) \<longrightarrow>
     \<not> list_ex (key_verifies verify manifest_bytes sig) keys)"
proof (induction sigs arbitrary: saw undeclared)
  case (Cons s sigs)
  then show ?case
    using key_loop_fst [of verify manifest_bytes s keys saw]
    by (auto split: if_splits prod.splits bool.splits)
qed (auto split: if_splits)

text \<open>The envelope is the canonical text of sorted, well-formed signatures, at most four.\<close>

definition envelope_of :: "byte_view \<Rightarrow> ReleaseSignature list \<Rightarrow> bool" where
  "envelope_of envelope sigs \<longleftrightarrow>
     envelope = Bytes (render_envelope sigs) \<and> view_size envelope \<le> kMaximumSignatureEnvelopeBytes
     \<and> sigs \<noteq> [] \<and> length sigs \<le> kMaximumReleaseSignatures
     \<and> list_all signature_ok sigs \<and> sorted_wrt bytes_less (map key_id sigs)"

lemma envelope_of_iff:
  "ParseSignatureEnvelope envelope True kMaximumReleaseSignatures True = Inr sigs \<longleftrightarrow> envelope_of envelope sigs"
proof (cases envelope)
  case (Bytes env)
  show ?thesis unfolding Bytes envelope_iff by (auto simp: envelope_of_def)
qed (simp add: ParseSignatureEnvelope_def envelope_of_def)

text \<open>
  The manifest's bytes are vouched for: one of the signatures is by a key that the manifest declares,
  that is among the trusted keys and not revoked there, and verifies over exactly these bytes.
\<close>

definition vouched ::
  "verify_function \<Rightarrow> TrustedReleaseKey list \<Rightarrow> byte_view \<Rightarrow> ReleaseManifest \<Rightarrow> byte_view \<Rightarrow> bool" where
  "vouched verify keys manifest_bytes m envelope \<longleftrightarrow>
     (\<exists>sigs sig key. envelope_of envelope sigs \<and> sig \<in> set sigs
        \<and> key_id sig \<in> set (manifest_signing_key_ids m) \<and> key \<in> set keys
        \<and> key_verifies verify manifest_bytes sig key)"

lemma ManifestListsSigningKey_iff:
  "ManifestListsSigningKey m (Some k) \<longleftrightarrow> k \<in> set (manifest_signing_key_ids m)"
  by (auto simp: ManifestListsSigningKey_def list_ex_iff)

lemma trust_loop_iff:
  "(\<exists>k. trust_loop verify manifest_bytes m keys sigs False False = Inr k) \<longleftrightarrow>
     (\<exists>sig key. sig \<in> set sigs \<and> key_id sig \<in> set (manifest_signing_key_ids m) \<and> key \<in> set keys
        \<and> key_verifies verify manifest_bytes sig key)" (is "?L \<longleftrightarrow> ?R")
proof
  assume ?R
  then obtain sig key where sig: "sig \<in> set sigs" "ManifestListsSigningKey m (Some (key_id sig))"
    "list_ex (key_verifies verify manifest_bytes sig) keys"
    by (auto simp: ManifestListsSigningKey_iff list_ex_iff)
  then have "trust_loop verify manifest_bytes m keys sigs False False \<noteq> Inl e" for e
    by (auto dest: trust_loop_Inl)
  then show ?L by (cases "trust_loop verify manifest_bytes m keys sigs False False") auto
next
  assume ?L
  then show ?R by (fastforce dest!: trust_loop_Inr simp: ManifestListsSigningKey_iff list_ex_iff)
qed

lemma trusted_iff:
  "trust_status (VerifyManifestTrust manifest_bytes m envelope trusted_keys verify_function) = Trusted \<longleftrightarrow>
     (\<exists>keys verify. trusted_keys = Array keys \<and> verify_function = Some verify
        \<and> \<not> view_null manifest_bytes \<and> view_size manifest_bytes \<noteq> 0
        \<and> vouched verify keys manifest_bytes m envelope)"
proof (cases trusted_keys)
  case (Array keys)
  show ?thesis
  proof (cases verify_function)
    case (Some verify)
    show ?thesis
    proof (cases "view_null manifest_bytes \<or> view_size manifest_bytes = 0 \<or> view_null envelope \<or> keys = []")
      case True
      then have "\<not> (\<not> view_null manifest_bytes \<and> view_size manifest_bytes \<noteq> 0
          \<and> vouched verify keys manifest_bytes m envelope)"
        by (auto simp: vouched_def envelope_of_def)
      with True Array Some show ?thesis by (auto simp: VerifyManifestTrust_def)
    next
      case ok: False
      show ?thesis
      proof (cases "ParseSignatureEnvelope envelope True kMaximumReleaseSignatures True")
        case (Inl e)
        then have "\<not> envelope_of envelope sigs" for sigs using envelope_of_iff [of envelope sigs] by simp
        with ok Inl Array Some show ?thesis by (auto simp: VerifyManifestTrust_def vouched_def)
      next
        case (Inr sigs)
        then have "envelope_of envelope sigs' \<longleftrightarrow> sigs' = sigs" for sigs'
          using envelope_of_iff [of envelope sigs'] by auto
        then have v: "vouched verify keys manifest_bytes m envelope \<longleftrightarrow>
            (\<exists>k. trust_loop verify manifest_bytes m keys sigs False False = Inr k)"
          unfolding trust_loop_iff vouched_def by auto
        have "trust_status (VerifyManifestTrust manifest_bytes m envelope trusted_keys verify_function) = Trusted
            \<longleftrightarrow> (\<exists>k. trust_loop verify manifest_bytes m keys sigs False False = Inr k)"
          using ok Inr Array Some by (auto simp: VerifyManifestTrust_def dest: trust_loop_Inl split: sum.split)
        with v ok Array Some show ?thesis by auto
      qed
    qed
  qed (simp add: VerifyManifestTrust_def split: array_view.split)
qed (simp add: VerifyManifestTrust_def)

text \<open>
  (C8) A manifest is trusted exactly when its envelope is the canonical text of well-formed signatures and
  one of them is by a key that the manifest declares and the updater trusts without having revoked
  it, and verifies over exactly the bytes of the manifest.
\<close>

theorem VerifyManifestTrust_trusted_iff:
  "trust_status (VerifyManifestTrust manifest_bytes m envelope trusted_keys verify_function) = Trusted \<longleftrightarrow>
     (\<exists>keys verify. trusted_keys = Array keys \<and> verify_function = Some verify
        \<and> \<not> view_null manifest_bytes \<and> view_size manifest_bytes \<noteq> 0
        \<and> vouched verify keys manifest_bytes m envelope)"
  by (rule trusted_iff)

end
