(* ===== verification/Build_Info.thy ===== *)
theory Build_Info
  imports Manifest_Facts
begin

text \<open>
  \<open>build_info.cpp\<close>: the parser of the build information that came with the installed release. As in
  the manifest parser, an error status is \<open>Inl\<close>, and what a failing parse leaves in the caller's
  structure is not modelled. The theorem gives the ranges of an accepted record and that it has one
  schema version for each configuration area.
\<close>

section \<open>The code\<close>

datatype BuildInfoStatus =
    BuildInfoOk | BuildInfoInvalidArgument | BuildInfoInvalidSize | BuildInfoJsonInvalid
  | BuildInfoUnsupportedVersion | FieldsInvalid | UnsupportedSchema | BuildInfoStorageTooSmall

definition AreaFromToken :: "bytes \<Rightarrow> JsonToken \<Rightarrow> ConfigArea" where
  "AreaFromToken text t =
     (let is = (\<lambda>n. JsonStringEquals (Some text) t (Some (ascii n)))
      in if is ''machines'' then Machines
         else if is ''config_managed_block'' then ConfigManagedBlock
         else if is ''cmdline_managed'' then CmdlineManagedKeys
         else if is ''network'' then Network
         else if is ''settings'' then Settings
         else if is ''update_state'' then UpdateState
         else AreaUnknown)"

definition kBuildInfoFields :: "string list" where
  "kBuildInfoFields =
     [''build_info_version'', ''version'', ''release_sequence'', ''release_epoch'', ''board_family'',
      ''source_commit'', ''updater_abi'', ''configuration_schemas'']"

text \<open>The scan of \<open>ExactRoot\<close>: every second direct child is a known key.\<close>

fun root_keys :: "bytes \<Rightarrow> JsonToken list \<Rightarrow> nat \<Rightarrow> nat list \<Rightarrow> bool" where
  "root_keys text ts direct_ordinal [] = True"
| "root_keys text ts direct_ordinal (i # is) =
     (if tok_start (ts ! i) \<ge> tok_end (ts ! 0) then True
      else if tok_parent (ts ! i) \<noteq> 0 then root_keys text ts direct_ordinal is
      else if direct_ordinal mod 2 \<noteq> 0 then root_keys text ts (direct_ordinal + 1) is
      else if \<not> list_ex (\<lambda>f. JsonStringEquals (Some text) (ts ! i) (Some (ascii f))) kBuildInfoFields
        then False
      else root_keys text ts (direct_ordinal + 1) is)"

definition ExactRoot :: "bytes \<Rightarrow> JsonToken list \<Rightarrow> bool" where
  "ExactRoot text ts =
     (if ts = [] \<or> tok_type (ts ! 0) \<noteq> JSON_TOKEN_OBJECT
         \<or> tok_child_count (ts ! 0) \<noteq> length kBuildInfoFields * 2
      then False
      else if \<not> list_all (\<lambda>f. RequiredMember text ts 0 f \<noteq> None) kBuildInfoFields then False
      else root_keys text ts 0 [1 ..< length ts])"

definition GetUint :: "bytes \<Rightarrow> JsonToken list \<Rightarrow> nat option \<Rightarrow> u64 \<Rightarrow> u64 \<Rightarrow> u64 option" where
  "GetUint text ts token minimum maximum =
     (case token of
        None \<Rightarrow> None
      | Some t \<Rightarrow>
          (case JsonGetUint64 (Some text) (ts ! t) True of
             Inl e \<Rightarrow> None
           | Inr v \<Rightarrow> if v < minimum \<or> v > maximum then None else Some v))"

text \<open>The C string copied from a member that \<open>ExactRoot\<close> has found.\<close>

definition copy_member :: "bytes \<Rightarrow> JsonToken list \<Rightarrow> string \<Rightarrow> nat \<Rightarrow> cstring option" where
  "copy_member text ts name n =
     (case JsonCopyString (Some text) (ts ! the (RequiredMember text ts 0 name)) True n of
        Inl e \<Rightarrow> None
      | Inr out \<Rightarrow> Some (c_str out))"

definition IsBuildVersion :: "cstring \<Rightarrow> bool" where
  "IsBuildVersion v =
     (if length v = 0 \<or> length v > 64 then False
      else
        list_all (\<lambda>i. let c = v ! i
                       in \<not> (\<not> IsAsciiAlphaNumeric c
                              \<and> (i = 0 \<or> (c \<noteq> ch CHR ''.'' \<and> c \<noteq> ch CHR ''_'' \<and> c \<noteq> ch CHR ''+''
                                          \<and> c \<noteq> ch CHR ''-''))))
          [0..<length v])"

definition IsCommit :: "cstring \<Rightarrow> bool" where
  "IsCommit v = (if length v \<noteq> 40 \<and> length v \<noteq> 64 then False else list_all IsLowerHex v)"

text \<open>The local variables of the loop over the schemas; a schema is an area and its version.\<close>

record schema_scan =
  scan_expect_key :: bool
  scan_area :: ConfigArea
  scan_seen :: "nat list"
  scan_schemas :: "(ConfigArea \<times> u32) list"

text \<open>\<open>None\<close> is the error \<open>UnsupportedSchema\<close>.\<close>

fun schemas_loop :: "bytes \<Rightarrow> JsonToken list \<Rightarrow> nat \<Rightarrow> schema_scan \<Rightarrow> nat list \<Rightarrow> schema_scan option" where
  "schemas_loop text ts object s [] = Some s"
| "schemas_loop text ts object s (i # is) =
     (if tok_start (ts ! i) \<ge> tok_end (ts ! object) then Some s
      else if tok_parent (ts ! i) \<noteq> int object then schemas_loop text ts object s is
      else if scan_expect_key s then
        (let area = AreaFromToken text (ts ! i); k = area_index area
         in if \<not> IsKnownConfigArea area \<or> k \<ge> 7 \<or> k \<in> set (scan_seen s) then None
            else schemas_loop text ts object
                   (s\<lparr>scan_area := area, scan_seen := scan_seen s @ [k], scan_expect_key := False\<rparr>) is)
      else
        (if length (scan_schemas s) \<ge> kMaximumConfigAreas then None
         else
           (case JsonGetUint64 (Some text) (ts ! i) True of
              Inl e \<Rightarrow> None
            | Inr v \<Rightarrow>
                if v > 0x7fffffff then None
                else schemas_loop text ts object
                       (s\<lparr>scan_schemas := scan_schemas s @ [(scan_area s, ucast v)], scan_expect_key := True\<rparr>) is)))"

definition parse_build_schemas ::
  "bytes \<Rightarrow> JsonToken list \<Rightarrow> (ConfigArea \<times> u32) list option" where
  "parse_build_schemas text ts =
     (case RequiredMember text ts 0 ''configuration_schemas'' of
        None \<Rightarrow> None
      | Some schemas \<Rightarrow>
          if tok_type (ts ! schemas) \<noteq> JSON_TOKEN_OBJECT \<or> tok_child_count (ts ! schemas) \<noteq> 12 then None
          else
            (case schemas_loop text ts schemas
                    \<lparr>scan_expect_key = True, scan_area = AreaUnknown, scan_seen = [], scan_schemas = []\<rparr>
                    [schemas + 1 ..< length ts] of
               None \<Rightarrow> None
             | Some s \<Rightarrow>
                 if \<not> scan_expect_key s \<or> length (scan_schemas s) \<noteq> 6 then None else Some (scan_schemas s)))"

definition build_fields :: "bytes \<Rightarrow> JsonToken list \<Rightarrow> (cstring \<times> u64 \<times> u64 \<times> cstring \<times> cstring \<times> u64) option" where
  "build_fields text ts =
     do {
       v \<leftarrow> copy_member text ts ''version'' 65;
       guarded (IsBuildVersion v);
       sequence \<leftarrow> GetUint text ts (RequiredMember text ts 0 ''release_sequence'') 1 0x7fffffff;
       epoch \<leftarrow> GetUint text ts (RequiredMember text ts 0 ''release_epoch'') 1 0x7fffffffffffffff;
       family \<leftarrow> copy_member text ts ''board_family'' 8;
       commit \<leftarrow> copy_member text ts ''source_commit'' 65;
       guarded (IsCommit commit);
       abi \<leftarrow> GetUint text ts (RequiredMember text ts 0 ''updater_abi'') 1 0x7fffffff;
       Some (v, sequence, epoch, family, commit, abi)
     }"

definition parse_build_info :: "bytes \<Rightarrow> JsonToken list \<Rightarrow> BuildInfoStatus + InstalledBuildInfo" where
  "parse_build_info text ts =
     (if \<not> ExactRoot text ts then Inl FieldsInvalid
      else if GetUint text ts (RequiredMember text ts 0 ''build_info_version'') 1 1 = None
        then Inl BuildInfoUnsupportedVersion
      else
        (case build_fields text ts of
           None \<Rightarrow> Inl FieldsInvalid
         | Some (v, sequence, epoch, family_text, commit, abi) \<Rightarrow>
             (case board_of_text family_text of
                None \<Rightarrow> Inl FieldsInvalid
              | Some family \<Rightarrow>
                  (case parse_build_schemas text ts of
                     None \<Rightarrow> Inl UnsupportedSchema
                   | Some schemas \<Rightarrow>
                       Inr \<lparr>build_version = v, build_release_sequence = sequence, build_release_epoch = epoch,
                            build_board = family, build_source_commit = commit,
                            build_updater_abi = ucast abi, build_schemas = schemas\<rparr>))))"

definition ParseBuildInfo ::
  "byte_view \<Rightarrow> bool \<Rightarrow> nat \<Rightarrow> bool \<Rightarrow> BuildInfoStatus + InstalledBuildInfo" where
  "ParseBuildInfo encoded tokens_given token_capacity structures_given =
     (let bs = view_bytes encoded; n = view_size encoded
      in if view_null encoded \<or> \<not> tokens_given \<or> token_capacity = 0 \<or> \<not> structures_given
           then Inl BuildInfoInvalidArgument
         else if n < 3 \<or> n > kMaximumBuildInfoBytes \<or> bs ! 0 \<noteq> ch CHR ''{'' \<or> bs ! (n - 1) \<noteq> 0x0a
                 \<or> bs ! (n - 2) \<noteq> ch CHR ''}''
           then Inl BuildInfoInvalidSize
         else
           (case ParseJson encoded True token_capacity 16 of
              (parsed, ts) \<Rightarrow>
                if result_error parsed \<noteq> JSON_OK
                then Inl (if result_error parsed = JSON_ERROR_TOKEN_LIMIT then BuildInfoStorageTooSmall
                          else BuildInfoJsonInvalid)
                else parse_build_info bs ts))"

fun BuildInfoStatusString :: "BuildInfoStatus \<Rightarrow> string" where
  "BuildInfoStatusString BuildInfoOk = ''ok''"
| "BuildInfoStatusString BuildInfoInvalidArgument = ''invalid argument''"
| "BuildInfoStatusString BuildInfoInvalidSize = ''BMX-BUILD size/format invalid''"
| "BuildInfoStatusString BuildInfoJsonInvalid = ''BMX-BUILD JSON invalid''"
| "BuildInfoStatusString BuildInfoUnsupportedVersion = ''unsupported BMX-BUILD version''"
| "BuildInfoStatusString FieldsInvalid = ''BMX-BUILD fields invalid''"
| "BuildInfoStatusString UnsupportedSchema = ''BMX-BUILD schemas unsupported''"
| "BuildInfoStatusString BuildInfoStorageTooSmall = ''BMX-BUILD parse storage too small''"

section \<open>What an accepted record guarantees\<close>

definition build_info_ok :: "InstalledBuildInfo \<Rightarrow> bool" where
  "build_info_ok b \<longleftrightarrow>
     IsVersion (build_version b) \<and> IsSourceCommit (build_source_commit b)
     \<and> 1 \<le> build_release_sequence b \<and> build_release_sequence b \<le> 0x7fffffff
     \<and> 1 \<le> build_release_epoch b \<and> build_release_epoch b \<le> 0x7fffffffffffffff
     \<and> 1 \<le> build_updater_abi b \<and> build_updater_abi b \<le> 0x7fffffff
     \<and> build_board b \<in> {Pi4Pi400, Pi5Pi500}
     \<and> distinct (map fst (build_schemas b)) \<and> fst ` set (build_schemas b) = known_areas
     \<and> list_all (\<lambda>p. snd p \<le> 0x7fffffff) (build_schemas b)"

lemma list_all_upt_Suc: "list_all P [0..<Suc n] \<longleftrightarrow> P 0 \<and> list_all (\<lambda>i. P (Suc i)) [0..<n]"
  unfolding list_all_iff set_upt by (auto simp: less_Suc_eq_0_disj)

lemma list_all_upt_nth: "list_all (\<lambda>i. Q (xs ! i)) [0..<length xs] \<longleftrightarrow> list_all Q xs"
  by (simp add: list_all_length)

lemma IsBuildVersion_iff: "IsBuildVersion v \<longleftrightarrow> IsVersion v"
proof (cases v)
  case (Cons c cs)
  let ?ok = "\<lambda>c. IsAsciiAlphaNumeric c \<or> c = ch CHR ''.'' \<or> c = ch CHR ''_'' \<or> c = ch CHR ''+'' \<or> c = ch CHR ''-''"
  have "IsBuildVersion v \<longleftrightarrow> length cs \<le> 63 \<and> IsAsciiAlphaNumeric c \<and> list_all (\<lambda>i. ?ok (cs ! i)) [0..<length cs]"
    unfolding IsBuildVersion_def Cons Let_def list.size add_0_right add_Suc_right list_all_upt_Suc
    by (auto simp: list_all_iff)
  then show ?thesis unfolding list_all_upt_nth [of ?ok cs] by (auto simp: IsVersion_def Cons)
qed (simp add: IsBuildVersion_def IsVersion_def)

lemma IsCommit_iff: "IsCommit v \<longleftrightarrow> IsSourceCommit v"
  by (auto simp: IsCommit_def IsSourceCommit_def)

lemma GetUint_range: "GetUint text ts token lo hi = Some v \<Longrightarrow> lo \<le> v \<and> v \<le> hi"
  by (auto simp: GetUint_def not_less split: option.splits if_splits sum.splits)

lemma small_ucast:
  fixes v :: u64
  assumes "v \<le> 0x7fffffff"
  shows "unat (ucast v :: u32) = unat v"
  using assms by (simp add: word_le_nat_alt unsigned_ucast_eq take_bit_nat_eq_self)

text \<open>The areas seen are those stored, and the one whose value comes next.\<close>

definition schema_scan_ok :: "schema_scan \<Rightarrow> bool" where
  "schema_scan_ok s \<longleftrightarrow>
     (let areas = map fst (scan_schemas s) @ (if scan_expect_key s then [] else [scan_area s])
      in scan_seen s = map area_index areas \<and> distinct (map area_index areas) \<and> list_all IsKnownConfigArea areas
         \<and> list_all (\<lambda>p. snd p \<le> 0x7fffffff) (scan_schemas s))"

lemma schema_key_ok:
  assumes "schema_scan_ok s" "scan_expect_key s" "IsKnownConfigArea area" "area_index area \<notin> set (scan_seen s)"
  shows "schema_scan_ok (s\<lparr>scan_area := area, scan_seen := scan_seen s @ [area_index area], scan_expect_key := False\<rparr>)"
  using assms by (auto simp: schema_scan_ok_def Let_def)

lemma schema_value_ok:
  fixes v :: u64
  assumes "schema_scan_ok s" "\<not> scan_expect_key s" "\<not> v > 0x7fffffff"
  shows "schema_scan_ok (s\<lparr>scan_schemas := scan_schemas s @ [(scan_area s, ucast v)], scan_expect_key := True\<rparr>)"
proof -
  have "v \<le> 0x7fffffff" using assms(3) by (simp add: not_less)
  then have "ucast v \<le> (0x7fffffff :: u32)" using small_ucast [of v] by (simp add: word_le_nat_alt)
  then show ?thesis using assms(1,2) by (auto simp: schema_scan_ok_def Let_def)
qed

lemma schemas_loop_ok: "schemas_loop text ts object s is = Some s' \<Longrightarrow> schema_scan_ok s \<Longrightarrow> schema_scan_ok s'"
proof (induction "is" arbitrary: s)
  case (Cons i "is")
  note step = schema_key_ok [OF Cons.prems(2)] schema_value_ok [OF Cons.prems(2)]
  show ?case
    using Cons.prems
    by (auto simp: Let_def simp del: not_less split: if_splits sum.splits
        intro: Cons.IH [OF _ Cons.prems(2)] Cons.IH [OF _ step(1)] Cons.IH [OF _ step(2)] Cons.prems(2))
qed simp

lemma parse_build_schemas_ok:
  assumes "parse_build_schemas text ts = Some schemas"
  shows "distinct (map fst schemas) \<and> fst ` set schemas = known_areas
    \<and> list_all (\<lambda>p. snd p \<le> 0x7fffffff) schemas"
proof -
  let ?s0 = "\<lparr>scan_expect_key = True, scan_area = AreaUnknown, scan_seen = [], scan_schemas = []\<rparr>"
  obtain object "is" s where l: "schemas_loop text ts object ?s0 is = Some s" "scan_expect_key s"
    and n: "length schemas = 6" "schemas = scan_schemas s"
    using assms by (auto simp: parse_build_schemas_def split: option.splits if_splits)
  have ok: "schema_scan_ok s" by (rule schemas_loop_ok [OF l(1)]) (simp add: schema_scan_ok_def)
  then have "distinct (map area_index (map fst schemas))" and k: "fst ` set schemas \<subseteq> known_areas"
    using l(2) n(2) by (auto simp: schema_scan_ok_def list_all_iff IsKnownConfigArea_iff)
  then have d: "distinct (map fst schemas)" by (simp only: distinct_map)
  have "card (fst ` set schemas) = 6" using distinct_card [OF d] n(1) by simp
  then have "fst ` set schemas = known_areas"
    using card_subset_eq [OF card_known_areas(1) k] card_known_areas(2) by (simp add: kConfigMigrationAreaCount_def)
  with d ok n(2) show ?thesis by (simp add: schema_scan_ok_def Let_def)
qed

lemma build_info_accepted: "ParseBuildInfo encoded given cap given' = Inr b \<Longrightarrow> build_info_ok b"
proof -
  assume "ParseBuildInfo encoded given cap given' = Inr b"
  then obtain ts v sequence epoch family_text commit abi family schemas where
    f: "build_fields (view_bytes encoded) ts = Some (v, sequence, epoch, family_text, commit, abi)"
    and p: "board_of_text family_text = Some family" "parse_build_schemas (view_bytes encoded) ts = Some schemas"
    and b: "b = \<lparr>build_version = v, build_release_sequence = sequence, build_release_epoch = epoch,
                 build_board = family, build_source_commit = commit, build_updater_abi = ucast abi,
                 build_schemas = schemas\<rparr>"
    by (auto simp: ParseBuildInfo_def parse_build_info_def Let_def split: if_splits prod.splits option.splits)
  from f have r: "IsVersion v" "IsSourceCommit commit" "1 \<le> sequence" "sequence \<le> 0x7fffffff" "1 \<le> epoch"
    "epoch \<le> 0x7fffffffffffffff" "1 \<le> abi" "abi \<le> 0x7fffffff"
    by (auto simp: build_fields_def Option.bind_eq_Some_conv IsBuildVersion_iff IsCommit_iff dest!: GetUint_range)
  have "1 \<le> (ucast abi :: u32) \<and> ucast abi \<le> (0x7fffffff :: u32)"
    using r(7,8) small_ucast [OF r(8)] by (simp add: word_le_nat_alt)
  then show ?thesis
    using r b parse_build_schemas_ok [OF p(2)] board_of_text_known [OF p(1)] by (simp add: build_info_ok_def)
qed

text \<open>
  (C12) An accepted build record has a well-formed version and commit, positive numbers within their
  ranges, a known board, and exactly one schema version for each of the six configuration areas.
\<close>

theorem ParseBuildInfo_wellformed:
  "case ParseBuildInfo encoded given cap given' of Inl e \<Rightarrow> True | Inr b \<Rightarrow> build_info_ok b"
  using build_info_accepted [of encoded given cap given'] by (auto split: sum.split)

end
