(* ===== verification/Release_Offer.thy ===== *)
theory Release_Offer
  imports Manifest_Trust Build_Info
begin

text \<open>
  \<open>release_offer.cpp\<close>: from the installed build record, GitHub's release description, the manifest
  and its signatures to an offer, or to the reason why there is none. The offer is returned only
  with the status \<open>Ok\<close>; what a failure leaves in the caller's structure is not modelled. The
  theorems say what an offer guarantees: the manifest is vouched for by a trusted key, belongs to
  the running board, is newer, and agrees in every size, name and address with GitHub's description.
\<close>

section \<open>The code\<close>

record ReleaseOfferStorage =
  installed_tokens_given :: bool
  installed_token_capacity :: nat
  github_tokens_given :: bool
  github_token_capacity :: nat
  github_assets_given :: bool
  github_asset_capacity :: nat
  offer_manifest_storage :: ManifestParseStorage

datatype ReleaseOfferStatus =
    OfferOk | OfferInvalidArgument | InstalledMetadataInvalid | GitHubResponseInvalid
  | MetadataAssetsInvalid | MetadataSizeMismatch | ManifestInvalid | OfferManifestUntrusted
  | ReleaseAssetsInvalid | ZipMetadataMismatch | ReleaseRejected | ReleaseEpochRegressed
  | OnlineSourceUnsupported | ConfigurationBlocked

record ReleaseOfferResult =
  offer_status :: ReleaseOfferStatus
  offer_build_info_status :: BuildInfoStatus
  offer_github_status :: GitHubReleaseParseStatus
  offer_assets_status :: RequiredGitHubAssetsStatus
  offer_manifest_status :: ManifestParseStatus
  offer_trust_status :: ManifestTrustStatus
  offer_release_decision :: ReleaseDecision

definition MakeOfferResult :: "ReleaseOfferStatus \<Rightarrow> ReleaseOfferResult" where
  "MakeOfferResult st =
     \<lparr>offer_status = st, offer_build_info_status = BuildInfoInvalidArgument,
      offer_github_status = GitHubInvalidArgument, offer_assets_status = AssetsInvalidArgument,
      offer_manifest_status = ManifestInvalidArgument, offer_trust_status = TrustInvalidArgument,
      offer_release_decision = InvalidCandidateMetadata\<rparr>"

definition StorageIsValid :: "ReleaseOfferStorage \<Rightarrow> bool" where
  "StorageIsValid s \<longleftrightarrow>
     installed_tokens_given s \<and> installed_token_capacity s \<noteq> 0
     \<and> github_tokens_given s \<and> github_token_capacity s \<noteq> 0
     \<and> github_assets_given s \<and> github_asset_capacity s \<noteq> 0
     \<and> manifest_tokens_given (offer_manifest_storage s) \<and> manifest_token_capacity (offer_manifest_storage s) \<noteq> 0
     \<and> manifest_files_given (offer_manifest_storage s) \<and> manifest_file_capacity (offer_manifest_storage s) \<noteq> 0
     \<and> manifest_directories_given (offer_manifest_storage s)
     \<and> manifest_directory_capacity (offer_manifest_storage s) \<noteq> 0"

definition SchemaAccepts :: "ManifestConfigSchema \<Rightarrow> u32 \<Rightarrow> bool" where
  "SchemaAccepts schema version = list_ex (\<lambda>v. v = version) (schema_accepted_versions schema)"

definition FindInstalledSchema :: "InstalledBuildInfo \<Rightarrow> ConfigArea \<Rightarrow> (ConfigArea \<times> u32) option" where
  "FindInstalledSchema b area = find (\<lambda>s. fst s = area) (build_schemas b)"

definition FindMigration ::
  "ReleaseManifest \<Rightarrow> ConfigArea \<Rightarrow> u32 \<Rightarrow> u32 \<Rightarrow> ManifestMigration option" where
  "FindMigration m area source target =
     find (\<lambda>g. migration_area g = area \<and> migration_from g = source \<and> migration_to g = target)
       (manifest_migrations m)"

text \<open>One turn of the loop over the schemas: the flag \<open>blocked\<close> and the areas that would be reset.\<close>

definition classify_schema ::
  "InstalledBuildInfo \<Rightarrow> ReleaseManifest \<Rightarrow> ManifestConfigSchema \<Rightarrow> bool \<times> ConfigArea list
   \<Rightarrow> bool \<times> ConfigArea list" where
  "classify_schema b m target st =
     (case st of (blocked, resets) \<Rightarrow>
        (case FindInstalledSchema b (schema_area target) of
           None \<Rightarrow> (True, resets)
         | Some source \<Rightarrow>
             if snd source > schema_target_version target then (True, resets)
             else if SchemaAccepts target (snd source) then (blocked, resets)
             else
               (case FindMigration m (schema_area target) (snd source) (schema_target_version target) of
                  None \<Rightarrow> (True, resets)
                | Some migration \<Rightarrow>
                    if \<not> migration_lossy migration then (blocked, resets)
                    else if length resets \<ge> kMaximumConfigAreas then (True, resets)
                    else (blocked, resets @ [schema_area target]))))"

definition ClassifySchemas ::
  "InstalledBuildInfo \<Rightarrow> ReleaseManifest \<Rightarrow> OfferConfigurationStatus \<times> ConfigArea list" where
  "ClassifySchemas b m =
     (case fold (classify_schema b m) (manifest_schemas m) (False, []) of
        (blocked, resets) \<Rightarrow>
          ((if blocked then BlockedIncompatible
            else if length resets = 0 then Compatible else ResetConfirmationRequired), resets))"

text \<open>The inputs of the policy decision.\<close>

definition offered_installation :: "InstalledBuildInfo \<Rightarrow> InstalledRelease" where
  "offered_installation b =
     \<lparr>has_update_metadata = True, installed_release_sequence = build_release_sequence b,
      installed_board = build_board b, updater_abi = build_updater_abi b\<rparr>"

definition offered_candidate ::
  "ReleaseAcquisitionMode \<Rightarrow> GitHubLatestRelease \<Rightarrow> ReleaseManifest \<Rightarrow> ReleaseCandidate" where
  "offered_candidate mode g m =
     \<lparr>release_source = GitHubLatestKdreBmx, channel = Stable,
      api_reports_draft = (if mode = ModePublishedStable then draft g else False),
      api_reports_prerelease = prerelease g,
      candidate_release_sequence = manifest_release_sequence m,
      candidate_board = archive_board (manifest_asset m),
      minimum_updater_abi = manifest_minimum_abi m, maximum_updater_abi = manifest_maximum_abi m\<rparr>"

text \<open>The part behind the authentication of the manifest.\<close>

definition offer_decide ::
  "ReleaseAcquisitionMode \<Rightarrow> InstalledBuildInfo \<Rightarrow> GitHubLatestRelease \<Rightarrow> ReleaseManifest
   \<Rightarrow> RequiredGitHubReleaseAssets \<Rightarrow> ReleaseOfferResult \<Rightarrow> ReleaseOfferResult \<times> ReleaseOffer option" where
  "offer_decide mode b g m q result =
     (let verdict = EvaluateReleaseCandidate (offered_installation b) (offered_candidate mode g m);
          r1 = result\<lparr>offer_release_decision := verdict\<rparr>
      in if verdict \<noteq> UpdateAvailable then (r1\<lparr>offer_status := ReleaseRejected\<rparr>, None)
         else if manifest_release_epoch m < build_release_epoch b
           then (r1\<lparr>offer_status := ReleaseEpochRegressed\<rparr>, None)
         else
           (case ClassifySchemas b m of
              (st, resets) \<Rightarrow>
                (r1\<lparr>offer_status := OfferOk\<rparr>,
                 Some \<lparr>offer_installed = b, offer_github = g, offer_manifest = m, offer_assets = q,
                       offer_decision = verdict, offer_configuration_status = st,
                       offer_reset_areas = resets, offer_reset_area_count = length resets\<rparr>)))"

text \<open>The manifest and its signatures, and the release assets they select.\<close>

definition offer_authenticate ::
  "repository \<Rightarrow> byte_view \<Rightarrow> byte_view \<Rightarrow> BoardFamily \<Rightarrow> ReleaseAcquisitionMode
   \<Rightarrow> TrustedReleaseKey array_view \<Rightarrow> verify_function option \<Rightarrow> ReleaseOfferStorage
   \<Rightarrow> InstalledBuildInfo \<Rightarrow> GitHubLatestRelease \<Rightarrow> GitHubReleaseMetadataAssets \<Rightarrow> ReleaseOfferResult
   \<Rightarrow> ReleaseOfferResult \<times> ReleaseOffer option" where
  "offer_authenticate r manifest_bytes signature_envelope running mode keys verify storage b g metadata result =
     (case ParseReleaseManifest manifest_bytes running (offer_manifest_storage storage) True of
        Inl e \<Rightarrow> (result\<lparr>offer_manifest_status := e, offer_status := ManifestInvalid\<rparr>, None)
      | Inr m \<Rightarrow>
          (let trust = VerifyManifestTrust manifest_bytes m signature_envelope keys verify;
               r1 = result\<lparr>offer_manifest_status := ManifestOk, offer_trust_status := trust_status trust\<rparr>
           in if trust_status trust \<noteq> Trusted then (r1\<lparr>offer_status := OfferManifestUntrusted\<rparr>, None)
              else
                (case FindRequiredAssetsForKind r g (ReleaseKind mode) (Some (manifest_tag m))
                        (Some (archive_filename (manifest_asset m))) of
                   (st, q) \<Rightarrow>
                     (let r2 = r1\<lparr>offer_assets_status := st\<rparr>
                      in if st \<noteq> AssetsOk then (r2\<lparr>offer_status := ReleaseAssetsInvalid\<rparr>, None)
                         else if required_manifest q \<noteq> metadata_manifest metadata
                                 \<or> required_signature q \<noteq> metadata_signature metadata
                                 \<or> asset_size (array_items (assets g) ! the (required_board_zip q))
                                   \<noteq> archive_download_size (manifest_asset m)
                           then (r2\<lparr>offer_status := ZipMetadataMismatch\<rparr>, None)
                         else offer_decide mode b g m q r2))))"

text \<open>GitHub's description of the release and its metadata files.\<close>

definition offer_describe ::
  "repository \<Rightarrow> byte_view \<Rightarrow> byte_view \<Rightarrow> byte_view \<Rightarrow> BoardFamily \<Rightarrow> ReleaseAcquisitionMode
   \<Rightarrow> TrustedReleaseKey array_view \<Rightarrow> verify_function option \<Rightarrow> ReleaseOfferStorage
   \<Rightarrow> InstalledBuildInfo \<Rightarrow> ReleaseOfferResult \<Rightarrow> ReleaseOfferResult \<times> ReleaseOffer option" where
  "offer_describe r github_response manifest_bytes signature_envelope running mode keys verify storage b result =
     (case ParseGitHubRelease r github_response
             \<lparr>storage_tokens_given = github_tokens_given storage,
              storage_token_capacity = github_token_capacity storage,
              storage_assets_given = github_assets_given storage,
              storage_asset_capacity = github_asset_capacity storage\<rparr> (ReleaseKind mode) True of
        ((st, release), _) \<Rightarrow>
          (let r1 = result\<lparr>offer_github_status := st\<rparr>
           in if st \<noteq> GitHubOk then (r1\<lparr>offer_status := GitHubResponseInvalid\<rparr>, None)
              else
                (let g = the release
                 in case FindReleaseMetadataAssetsForKind r g (ReleaseKind mode) of
                      (ast, metadata) \<Rightarrow>
                        (let r2 = r1\<lparr>offer_assets_status := ast\<rparr>
                         in if ast \<noteq> AssetsOk then (r2\<lparr>offer_status := MetadataAssetsInvalid\<rparr>, None)
                            else if unat (asset_size (array_items (assets g) ! the (metadata_manifest metadata)))
                                      \<noteq> view_size manifest_bytes
                                    \<or> unat (asset_size (array_items (assets g) ! the (metadata_signature metadata)))
                                      \<noteq> view_size signature_envelope
                              then (r2\<lparr>offer_status := MetadataSizeMismatch\<rparr>, None)
                            else offer_authenticate r manifest_bytes signature_envelope running mode keys verify
                                   storage b g metadata r2))))"

definition BuildReleaseOfferForMode ::
  "repository \<Rightarrow> byte_view \<Rightarrow> byte_view \<Rightarrow> byte_view \<Rightarrow> byte_view \<Rightarrow> BoardFamily \<Rightarrow> ReleaseAcquisitionMode
   \<Rightarrow> TrustedReleaseKey array_view \<Rightarrow> verify_function option \<Rightarrow> ReleaseOfferStorage \<Rightarrow> bool
   \<Rightarrow> ReleaseOfferResult \<times> ReleaseOffer option" where
  "BuildReleaseOfferForMode r installed_build_info github_response manifest_bytes signature_envelope running
     mode keys verify storage offer_given =
     (let result = MakeOfferResult OfferInvalidArgument
      in if \<not> offer_given \<or> view_null installed_build_info \<or> view_null github_response
            \<or> view_null manifest_bytes \<or> view_null signature_envelope \<or> \<not> IsKnownBoardFamily running
            \<or> (mode \<noteq> ModePublishedStable \<and> mode \<noteq> ModePreparedDraft)
            \<or> (case keys of NullArray n \<Rightarrow> True | Array ks \<Rightarrow> ks = []) \<or> verify = None
            \<or> \<not> StorageIsValid storage
         then (result, None)
         else
           (case ParseBuildInfo installed_build_info (installed_tokens_given storage)
                   (installed_token_capacity storage) True of
              Inl e \<Rightarrow>
                (result\<lparr>offer_build_info_status := e, offer_status := InstalledMetadataInvalid\<rparr>, None)
            | Inr b \<Rightarrow>
                (let r1 = result\<lparr>offer_build_info_status := BuildInfoOk\<rparr>
                 in if build_board b \<noteq> running then (r1\<lparr>offer_status := InstalledMetadataInvalid\<rparr>, None)
                    else offer_describe r github_response manifest_bytes signature_envelope running mode keys
                           verify storage b r1)))"

definition BuildReleaseOffer ::
  "repository \<Rightarrow> byte_view \<Rightarrow> byte_view \<Rightarrow> byte_view \<Rightarrow> byte_view \<Rightarrow> BoardFamily
   \<Rightarrow> TrustedReleaseKey array_view \<Rightarrow> verify_function option \<Rightarrow> ReleaseOfferStorage \<Rightarrow> bool
   \<Rightarrow> ReleaseOfferResult \<times> ReleaseOffer option" where
  "BuildReleaseOffer r installed_build_info github_latest_response manifest_bytes signature_envelope running
     keys verify storage offer_given =
     BuildReleaseOfferForMode r installed_build_info github_latest_response manifest_bytes signature_envelope
       running ModePublishedStable keys verify storage offer_given"

fun ReleaseOfferStatusString :: "ReleaseOfferStatus \<Rightarrow> string" where
  "ReleaseOfferStatusString OfferOk = ''ok''"
| "ReleaseOfferStatusString OfferInvalidArgument = ''invalid argument''"
| "ReleaseOfferStatusString InstalledMetadataInvalid = ''installed BMX metadata invalid or wrong board''"
| "ReleaseOfferStatusString GitHubResponseInvalid = ''GitHub latest-release response invalid''"
| "ReleaseOfferStatusString MetadataAssetsInvalid = ''release metadata assets invalid''"
| "ReleaseOfferStatusString MetadataSizeMismatch = ''release metadata size differs from GitHub''"
| "ReleaseOfferStatusString ManifestInvalid = ''release manifest invalid''"
| "ReleaseOfferStatusString OfferManifestUntrusted = ''release manifest signature untrusted''"
| "ReleaseOfferStatusString ReleaseAssetsInvalid = ''signed release assets invalid''"
| "ReleaseOfferStatusString ZipMetadataMismatch = ''board ZIP metadata mismatch''"
| "ReleaseOfferStatusString ReleaseRejected = ''release is not an eligible upgrade''"
| "ReleaseOfferStatusString ReleaseEpochRegressed = ''release timestamp regressed''"
| "ReleaseOfferStatusString OnlineSourceUnsupported =
     ''installed release has no signed online source inventory''"
| "ReleaseOfferStatusString ConfigurationBlocked = ''configuration is not safely compatible''"

end
