(* ===== verification/Http_Body.thy ===== *)
theory Http_Body
  imports Sha256
begin

text \<open>
  The body half of \<open>http_response_parser.cpp\<close> and the two sinks of \<open>body_sinks.cpp\<close>. The decoder
  is a state machine that is fed arbitrarily split network buffers and passes the payload to a
  sink. The interface \<open>HttpBodySink\<close> is a locale; the bounded memory sink interprets it, and the
  hashing sink extends any sink to a sink. The theorems relate what reaches the sink to the
  grammar of the chunked coding, for every splitting of the wire bytes.
\<close>

section \<open>The decoder\<close>

datatype HttpBodyStatus =
    BodyOk | Complete | BodyInvalidArgument | BodyTooLarge | SinkRejected | InvalidChunk
  | UnexpectedData | Truncated

datatype DecoderState =
    kContentLength | kChunkSize | kChunkSizeLf | kChunkData | kChunkDataCr | kChunkDataLf
  | kFinalCr | kFinalLf | kComplete | kFailed

text \<open>
  \<open>chunk_line\<close> is the used part of the 18-byte array. The sink pointer may be null; the
  constructor then fails the decoder, so that the null case of \<open>decoder_Write\<close> is never reached.
\<close>

record 's HttpBodyDecoder =
  state :: DecoderState
  remaining :: u64
  decoded_bytes :: u64
  maximum_body_bytes :: u64
  sink :: "'s option"
  chunk_line :: bytes

definition kChunkLineBytes :: nat where "kChunkLineBytes = 18"

definition make_decoder :: "bool \<Rightarrow> u64 \<Rightarrow> bool \<Rightarrow> u64 \<Rightarrow> 's option \<Rightarrow> 's HttpBodyDecoder" where
  "make_decoder has_content_length content_length chunked maximum s =
     (let r = (if has_content_length then content_length else 0)
      in \<lparr>state = (if s = None \<or> has_content_length = chunked then kFailed
                   else if \<not> chunked \<and> r > maximum then kFailed
                   else if \<not> chunked \<and> r = 0 then kComplete
                   else if chunked then kChunkSize else kContentLength),
          remaining = r, decoded_bytes = 0, maximum_body_bytes = maximum, sink = s,
          chunk_line = []\<rparr>)"

definition decoder_Fail :: "HttpBodyStatus \<Rightarrow> 's HttpBodyDecoder \<Rightarrow> HttpBodyStatus \<times> 's HttpBodyDecoder"
where
  "decoder_Fail st d = (st, d\<lparr>state := kFailed\<rparr>)"

definition decoder_Write ::
  "('s \<Rightarrow> bytes \<Rightarrow> bool \<times> 's) \<Rightarrow> 's HttpBodyDecoder \<Rightarrow> bytes \<Rightarrow> HttpBodyStatus \<times> 's HttpBodyDecoder"
where
  "decoder_Write write d data =
     (if length data = 0 then (BodyOk, d)
      else if decoded_bytes d > maximum_body_bytes d
              \<or> length data > unat (maximum_body_bytes d - decoded_bytes d)
        then decoder_Fail BodyTooLarge d
      else
        (case sink d of
           None \<Rightarrow> decoder_Fail SinkRejected d
         | Some s \<Rightarrow>
             (case write s data of
                (False, s') \<Rightarrow> decoder_Fail SinkRejected (d\<lparr>sink := Some s'\<rparr>)
              | (True, s') \<Rightarrow>
                  (BodyOk, d\<lparr>sink := Some s',
                             decoded_bytes := decoded_bytes d + of_nat (length data)\<rparr>))))"

definition hex_digit :: "byte \<Rightarrow> u64 option" where
  "hex_digit c =
     (if ch CHR ''0'' \<le> c \<and> c \<le> ch CHR ''9'' then Some (ucast (c - ch CHR ''0''))
      else if ch CHR ''a'' \<le> c \<and> c \<le> ch CHR ''f'' then Some (ucast (c - ch CHR ''a'') + 10)
      else if ch CHR ''A'' \<le> c \<and> c \<le> ch CHR ''F'' then Some (ucast (c - ch CHR ''A'') + 10)
      else None)"

fun parse_chunk_size :: "bytes \<Rightarrow> u64 \<Rightarrow> u64 option" where
  "parse_chunk_size [] v = Some v"
| "parse_chunk_size (c # cs) v =
     (case hex_digit c of
        None \<Rightarrow> None
      | Some digit \<Rightarrow>
          if v > (- 1 - digit) div 16 then None else parse_chunk_size cs (v * 16 + digit))"

text \<open>
  One pass of the loop body. The first component is the status to return, \<open>None\<close> for
  \<open>continue\<close>; the last is the part of the buffer not yet consumed.
\<close>

type_synonym 's loop_step = "HttpBodyStatus option \<times> 's HttpBodyDecoder \<times> bytes"

definition returning :: "HttpBodyStatus \<times> 's HttpBodyDecoder \<Rightarrow> bytes \<Rightarrow> 's loop_step" where
  "returning r rest = (case r of (st, d) \<Rightarrow> (Some st, d, rest))"

definition content_length_step ::
  "('s \<Rightarrow> bytes \<Rightarrow> bool \<times> 's) \<Rightarrow> 's HttpBodyDecoder \<Rightarrow> bytes \<Rightarrow> 's loop_step" where
  "content_length_step write d data =
     (let available = (if length data > unat (remaining d) then unat (remaining d) else length data)
      in case decoder_Write write d (take available data) of
           (ws, d1) \<Rightarrow>
             if ws \<noteq> BodyOk then (Some ws, d1, data)
             else
               (let d2 = d1\<lparr>remaining := remaining d1 - of_nat available\<rparr>;
                    rest = drop available data
                in if remaining d2 = 0
                   then (Some (if rest = [] then Complete else UnexpectedData),
                         d2\<lparr>state := kComplete\<rparr>, rest)
                   else (None, d2, rest)))"

definition chunk_size_step :: "'s HttpBodyDecoder \<Rightarrow> byte \<Rightarrow> bytes \<Rightarrow> 's loop_step" where
  "chunk_size_step d c rest =
     (if c = 13 then
        (if chunk_line d = [] then returning (decoder_Fail InvalidChunk d) rest
         else
           (case parse_chunk_size (chunk_line d) 0 of
              None \<Rightarrow> returning (decoder_Fail InvalidChunk d) rest
            | Some n \<Rightarrow> (None, d\<lparr>remaining := n, chunk_line := [], state := kChunkSizeLf\<rparr>, rest)))
      else if c = 10 \<or> c = ch CHR '';'' \<or> length (chunk_line d) \<ge> kChunkLineBytes
        then returning (decoder_Fail InvalidChunk d) rest
      else (None, d\<lparr>chunk_line := chunk_line d @ [c]\<rparr>, rest))"

text \<open>The end of the data branch: all of a chunk's payload has been passed on.\<close>

definition chunk_data_done :: "'s HttpBodyDecoder \<Rightarrow> 's HttpBodyDecoder" where
  "chunk_data_done d = (if remaining d = 0 then d\<lparr>state := kChunkDataCr\<rparr> else d)"

text \<open>The bulk copy behind the first payload byte.\<close>

definition chunk_bulk_step ::
  "('s \<Rightarrow> bytes \<Rightarrow> bool \<times> 's) \<Rightarrow> 's HttpBodyDecoder \<Rightarrow> bytes \<Rightarrow> 's loop_step" where
  "chunk_bulk_step write d rest =
     (let available = (if length rest > unat (remaining d) then unat (remaining d) else length rest)
      in case decoder_Write write d (take available rest) of
           (ws, d1) \<Rightarrow>
             if ws \<noteq> BodyOk then (Some ws, d1, rest)
             else (None, chunk_data_done (d1\<lparr>remaining := remaining d1 - of_nat available\<rparr>),
                   drop available rest))"

definition chunk_data_step ::
  "('s \<Rightarrow> bytes \<Rightarrow> bool \<times> 's) \<Rightarrow> 's HttpBodyDecoder \<Rightarrow> byte \<Rightarrow> bytes \<Rightarrow> 's loop_step" where
  "chunk_data_step write d c rest =
     (case decoder_Write write d [c] of
        (ws, d1) \<Rightarrow>
          if ws \<noteq> BodyOk then (Some ws, d1, rest)
          else
            (let d2 = d1\<lparr>remaining := remaining d1 - 1\<rparr>
             in if remaining d2 \<noteq> 0 \<and> rest \<noteq> [] then chunk_bulk_step write d2 rest
                else (None, chunk_data_done d2, rest)))"

definition expect_byte ::
  "byte \<Rightarrow> DecoderState \<Rightarrow> 's HttpBodyDecoder \<Rightarrow> byte \<Rightarrow> bytes \<Rightarrow> 's loop_step" where
  "expect_byte expected nxt d c rest =
     (if c \<noteq> expected then returning (decoder_Fail InvalidChunk d) rest
      else (None, d\<lparr>state := nxt\<rparr>, rest))"

definition feed_step ::
  "('s \<Rightarrow> bytes \<Rightarrow> bool \<times> 's) \<Rightarrow> 's HttpBodyDecoder \<Rightarrow> byte \<Rightarrow> bytes \<Rightarrow> 's loop_step" where
  "feed_step write d c rest =
     (case state d of
        kContentLength \<Rightarrow> content_length_step write d (c # rest)
      | kChunkSize \<Rightarrow> chunk_size_step d c rest
      | kChunkSizeLf \<Rightarrow> expect_byte 10 (if remaining d = 0 then kFinalCr else kChunkData) d c rest
      | kChunkData \<Rightarrow> chunk_data_step write d c rest
      | kChunkDataCr \<Rightarrow> expect_byte 13 kChunkDataLf d c rest
      | kChunkDataLf \<Rightarrow> expect_byte 10 kChunkSize d c rest
      | kFinalCr \<Rightarrow> expect_byte 13 kFinalLf d c rest
      | kFinalLf \<Rightarrow>
          if c \<noteq> 10 then returning (decoder_Fail InvalidChunk d) rest
          else (Some (if rest = [] then Complete else UnexpectedData), d\<lparr>state := kComplete\<rparr>, rest)
      | kComplete \<Rightarrow> (None, d, rest)
      | kFailed \<Rightarrow> (None, d, rest))"

lemma decoder_Write_frame:
  "decoder_Write write d data = (BodyOk, d') \<Longrightarrow>
   state d' = state d \<and> remaining d' = remaining d \<and> chunk_line d' = chunk_line d
   \<and> maximum_body_bytes d' = maximum_body_bytes d"
  by (auto simp: decoder_Write_def decoder_Fail_def split: if_splits option.splits prod.splits bool.splits)

lemma feed_step_shorter:
  "feed_step write d c rest = (None, d', rest') \<Longrightarrow> length rest' \<le> length rest"
  by (auto simp: feed_step_def content_length_step_def chunk_size_step_def chunk_data_step_def
      chunk_bulk_step_def expect_byte_def returning_def decoder_Fail_def Let_def unat_eq_0
      dest!: decoder_Write_frame
      split: DecoderState.splits if_splits prod.splits option.splits)

function feed_loop ::
  "('s \<Rightarrow> bytes \<Rightarrow> bool \<times> 's) \<Rightarrow> 's HttpBodyDecoder \<Rightarrow> bytes
   \<Rightarrow> HttpBodyStatus \<times> 's HttpBodyDecoder \<times> bytes" where
  "feed_loop write d [] = ((if state d = kComplete then Complete else BodyOk), d, [])"
| "feed_loop write d (c # rest) =
     (case feed_step write d c rest of
        (Some st, d', rest') \<Rightarrow> (st, d', rest')
      | (None, d', rest') \<Rightarrow> feed_loop write d' rest')"
  by pat_completeness auto
termination
  by (relation "measure (\<lambda>(w, d, data). length data)")
    (auto dest: feed_step_shorter [OF sym] simp: le_imp_less_Suc)

definition decoder_Feed ::
  "('s \<Rightarrow> bytes \<Rightarrow> bool \<times> 's) \<Rightarrow> 's HttpBodyDecoder \<Rightarrow> byte_view \<Rightarrow> bool
   \<Rightarrow> HttpBodyStatus \<times> 's HttpBodyDecoder \<times> nat" where
  "decoder_Feed write d data consumed_given =
     (if \<not> consumed_given \<or> (view_null data \<and> view_size data \<noteq> 0) then (BodyInvalidArgument, d, 0)
      else if state d = kFailed then (BodyInvalidArgument, d, 0)
      else if state d = kComplete
        then ((if view_size data = 0 then Complete else UnexpectedData), d, 0)
      else
        (case feed_loop write d (view_bytes data) of
           (st, d', rest) \<Rightarrow> (st, d', length (view_bytes data) - length rest)))"

definition decoder_Finish :: "'s HttpBodyDecoder \<Rightarrow> HttpBodyStatus \<times> 's HttpBodyDecoder" where
  "decoder_Finish d =
     (if state d = kComplete then (Complete, d)
      else if state d = kFailed then (BodyInvalidArgument, d)
      else decoder_Fail Truncated d)"

fun HttpBodyStatusString :: "HttpBodyStatus \<Rightarrow> string" where
  "HttpBodyStatusString BodyOk = ''ok''"
| "HttpBodyStatusString Complete = ''complete''"
| "HttpBodyStatusString BodyInvalidArgument = ''invalid argument''"
| "HttpBodyStatusString BodyTooLarge = ''HTTP body too large''"
| "HttpBodyStatusString SinkRejected = ''HTTP body sink rejected data''"
| "HttpBodyStatusString InvalidChunk = ''invalid chunked HTTP body''"
| "HttpBodyStatusString UnexpectedData = ''data after HTTP body''"
| "HttpBodyStatusString Truncated = ''truncated HTTP body''"

section \<open>The sinks\<close>

text \<open>
  \<open>capacity_ - size_\<close> never goes below zero because the size stays within the capacity (part of
  \<open>memory_holds\<close> below), so the subtraction is that of the natural numbers.
\<close>

record BoundedMemoryBodySink =
  sink_buffer :: byte_view
  sink_size :: nat
  overflowed :: bool

definition make_memory_sink :: "byte_view \<Rightarrow> BoundedMemoryBodySink" where
  "make_memory_sink buf = \<lparr>sink_buffer = buf, sink_size = 0, overflowed = False\<rparr>"

definition memory_Write :: "BoundedMemoryBodySink \<Rightarrow> byte_view \<Rightarrow> bool \<times> BoundedMemoryBodySink" where
  "memory_Write s v =
     (if (view_null v \<and> view_size v \<noteq> 0) \<or> view_null (sink_buffer s)
         \<or> view_size v > view_size (sink_buffer s) - sink_size s
      then (False, s\<lparr>overflowed := True\<rparr>)
      else (True, s\<lparr>sink_buffer := (if view_size v \<noteq> 0
                                    then Bytes (put_bytes (view_bytes (sink_buffer s)) (sink_size s) (view_bytes v))
                                    else sink_buffer s),
                    sink_size := sink_size s + view_size v\<rparr>))"

definition memory_Reset :: "BoundedMemoryBodySink \<Rightarrow> BoundedMemoryBodySink" where
  "memory_Reset s = s\<lparr>sink_size := 0, overflowed := False\<rparr>"

definition memory_bytes :: "BoundedMemoryBodySink \<Rightarrow> bytes" where
  "memory_bytes s = take (sink_size s) (view_bytes (sink_buffer s))"

record 'd HashingBodySink =
  destination :: "'d option"
  exact_size :: u64
  bytes_written :: u64
  sha256 :: Sha256
  failed :: bool
  finished :: bool

definition make_hashing_sink :: "'d option \<Rightarrow> u64 \<Rightarrow> 'd HashingBodySink" where
  "make_hashing_sink dest n =
     \<lparr>destination = dest, exact_size = n, bytes_written = 0, sha256 = Sha256_Reset,
      failed = (dest = None \<or> n = 0), finished = False\<rparr>"

text \<open>\<open>Update\<close> and the write to the destination are tried in this order; either may fail the sink.\<close>

definition hashing_Write ::
  "('d \<Rightarrow> bytes \<Rightarrow> bool \<times> 'd) \<Rightarrow> 'd HashingBodySink \<Rightarrow> byte_view \<Rightarrow> bool \<times> 'd HashingBodySink" where
  "hashing_Write write h v =
     (if failed h \<or> finished h \<or> (view_null v \<and> view_size v \<noteq> 0)
         \<or> bytes_written h > exact_size h
         \<or> view_size v > unat (exact_size h - bytes_written h)
      then (False, h\<lparr>failed := True\<rparr>)
      else
        (case Sha256_Update (sha256 h) v of
           (False, sh) \<Rightarrow> (False, h\<lparr>sha256 := sh, failed := True\<rparr>)
         | (True, sh) \<Rightarrow>
             (case write (the (destination h)) (view_bytes v) of
                (False, d') \<Rightarrow> (False, h\<lparr>sha256 := sh, destination := Some d', failed := True\<rparr>)
              | (True, d') \<Rightarrow>
                  (True, h\<lparr>sha256 := sh, destination := Some d',
                           bytes_written := bytes_written h + of_nat (view_size v)\<rparr>))))"

definition hashing_Finish ::
  "bool \<Rightarrow> 'd HashingBodySink \<Rightarrow> bytes option \<times> 'd HashingBodySink" where
  "hashing_Finish digest_given h =
     (if \<not> digest_given \<or> failed h \<or> finished h \<or> bytes_written h \<noteq> exact_size h
      then (None, h\<lparr>failed := True\<rparr>)
      else (case Sha256_Final (sha256 h) of (r, sh) \<Rightarrow> (r, h\<lparr>finished := True, sha256 := sh\<rparr>)))"

lemma loop_steps_not_ok:
  "content_length_step write d data \<noteq> (Some BodyOk, d', rest')"
  "chunk_size_step d c rest \<noteq> (Some BodyOk, d', rest')"
  "chunk_bulk_step write d rest \<noteq> (Some BodyOk, d', rest')"
  "expect_byte b nxt d c rest \<noteq> (Some BodyOk, d', rest')"
  by (simp_all add: content_length_step_def chunk_size_step_def chunk_bulk_step_def expect_byte_def
      returning_def decoder_Fail_def Let_def split: prod.split option.split)

lemma chunk_data_step_not_ok: "chunk_data_step write d c rest \<noteq> (Some BodyOk, d', rest')"
  by (simp add: chunk_data_step_def Let_def loop_steps_not_ok split: prod.split)

lemma feed_step_not_ok: "feed_step write d c rest \<noteq> (Some BodyOk, d', rest')"
  by (cases "state d")
    (simp_all add: feed_step_def loop_steps_not_ok chunk_data_step_not_ok returning_def decoder_Fail_def)

section \<open>The interface \<open>HttpBodySink\<close>\<close>

text \<open>
  \<open>received s m\<close>: the sink in state \<open>s\<close> has taken in exactly the bytes \<open>m\<close>. A write that reports
  success appends; an accepting sink takes every write that fits its room.
\<close>

locale body_sink =
  fixes wr :: "'s \<Rightarrow> bytes \<Rightarrow> bool \<times> 's"
    and received :: "'s \<Rightarrow> bytes \<Rightarrow> bool"
  assumes write_appends: "received s m \<Longrightarrow> wr s data = (True, s') \<Longrightarrow> received s' (m @ data)"

locale accepting_sink = body_sink wr received
  for wr :: "'s \<Rightarrow> bytes \<Rightarrow> bool \<times> 's" and received :: "'s \<Rightarrow> bytes \<Rightarrow> bool" +
  fixes room :: "'s \<Rightarrow> nat"
  assumes write_accepts: "received s m \<Longrightarrow> length m + length data \<le> room s \<Longrightarrow>
    \<exists>s'. wr s data = (True, s') \<and> room s' = room s"

section \<open>The coding as a byte automaton\<close>

text \<open>
  The specification side: one byte at a time, with the payload it emits. \<open>None\<close> rejects.
\<close>

type_synonym config = "DecoderState \<times> nat \<times> bytes"

definition wire_step :: "config \<Rightarrow> byte \<Rightarrow> (config \<times> bytes) option" where
  "wire_step cfg c =
     (case cfg of (st, n, l) \<Rightarrow>
        (case st of
           kContentLength \<Rightarrow>
             if n = 0 then None else Some ((if n = 1 then kComplete else kContentLength, n - 1, l), [c])
         | kChunkSize \<Rightarrow>
             if c = 13 then
               (if l = [] then None
                else (case parse_chunk_size l 0 of
                        None \<Rightarrow> None | Some v \<Rightarrow> Some ((kChunkSizeLf, unat v, []), [])))
             else if c = 10 \<or> c = ch CHR '';'' \<or> length l \<ge> kChunkLineBytes then None
             else Some ((kChunkSize, n, l @ [c]), [])
         | kChunkSizeLf \<Rightarrow>
             if c = 10 then Some ((if n = 0 then kFinalCr else kChunkData, n, l), []) else None
         | kChunkData \<Rightarrow>
             if n = 0 then None else Some ((if n = 1 then kChunkDataCr else kChunkData, n - 1, l), [c])
         | kChunkDataCr \<Rightarrow> if c = 13 then Some ((kChunkDataLf, n, l), []) else None
         | kChunkDataLf \<Rightarrow> if c = 10 then Some ((kChunkSize, n, l), []) else None
         | kFinalCr \<Rightarrow> if c = 13 then Some ((kFinalLf, n, l), []) else None
         | kFinalLf \<Rightarrow> if c = 10 then Some ((kComplete, n, l), []) else None
         | kComplete \<Rightarrow> None
         | kFailed \<Rightarrow> None))"

fun wire_run :: "config \<Rightarrow> bytes \<Rightarrow> (config \<times> bytes) option" where
  "wire_run cfg [] = Some (cfg, [])"
| "wire_run cfg (c # cs) =
     (case wire_step cfg c of
        None \<Rightarrow> None
      | Some (cfg', out) \<Rightarrow>
          (case wire_run cfg' cs of None \<Rightarrow> None | Some (cfg'', out') \<Rightarrow> Some (cfg'', out @ out')))"

lemma wire_run_append:
  "wire_run cfg (xs @ ys) =
     (case wire_run cfg xs of
        None \<Rightarrow> None
      | Some (cfg', out) \<Rightarrow>
          (case wire_run cfg' ys of None \<Rightarrow> None | Some (cfg'', out') \<Rightarrow> Some (cfg'', out @ out')))"
  by (induction cfg xs rule: wire_run.induct) (auto split: option.splits prod.splits)

lemma wire_run_content:
  "length xs \<le> n \<Longrightarrow> xs \<noteq> [] \<Longrightarrow>
   wire_run (kContentLength, n, l) xs
   = Some ((if length xs = n then kComplete else kContentLength, n - length xs, l), xs)"
proof (induction xs arbitrary: n)
  case (Cons x xs)
  then show ?case
    by (cases "xs = []") (auto simp: wire_step_def)
qed simp

lemma wire_run_data:
  "length xs \<le> n \<Longrightarrow> xs \<noteq> [] \<Longrightarrow>
   wire_run (kChunkData, n, l) xs
   = Some ((if length xs = n then kChunkDataCr else kChunkData, n - length xs, l), xs)"
proof (induction xs arbitrary: n)
  case (Cons x xs)
  then show ?case
    by (cases "xs = []") (auto simp: wire_step_def)
qed simp

definition decoder_config :: "'s HttpBodyDecoder \<Rightarrow> config" where
  "decoder_config d = (state d, unat (remaining d), chunk_line d)"

text \<open>The invariant of the decoder: a state that expects payload still lacks some.\<close>

definition decoder_ok :: "'s HttpBodyDecoder \<Rightarrow> bool" where
  "decoder_ok d \<longleftrightarrow> state d \<noteq> kFailed \<and> (state d \<in> {kContentLength, kChunkData} \<longrightarrow> remaining d \<noteq> 0)"

lemma wire_run_content_out: "wire_run (kContentLength, n, l) xs = Some (cfg, out) \<Longrightarrow> out = xs"
proof (induction xs arbitrary: n out)
  case (Cons x xs)
  show ?case
  proof (cases "n = 1")
    case True
    with Cons.prems show ?thesis
      by (cases xs) (auto simp: wire_step_def split: if_splits option.splits)
  next
    case False
    with Cons.prems Cons.IH [of "n - 1"] show ?thesis
      by (auto simp: wire_step_def split: if_splits option.splits)
  qed
qed simp

lemma wire_run_data_out:
  assumes "wire_run (kChunkData, n, l) xs = Some (cfg, out)" "0 < n" "xs \<noteq> []"
  shows "length (take n xs) \<le> length out"
proof -
  have "wire_run (kChunkData, n, l) (take n xs @ drop n xs) = Some (cfg, out)" using assms by simp
  moreover have "take n xs \<noteq> []" "length (take n xs) \<le> n" using assms by auto
  ultimately show ?thesis
    using wire_run_data [of "take n xs" n l]
    by (auto simp only: wire_run_append split: option.splits) auto
qed

lemma decoder_Write_maximum:
  "maximum_body_bytes (snd (decoder_Write write d data)) = maximum_body_bytes d"
  by (simp add: decoder_Write_def decoder_Fail_def split: option.split prod.split bool.split)

lemma Write_maximum: "decoder_Write write d data = (ws, d') \<Longrightarrow> maximum_body_bytes d' = maximum_body_bytes d"
  by (metis decoder_Write_maximum snd_conv)

lemma loop_steps_maximum:
  "content_length_step write d data = (r, d', rest') \<Longrightarrow> maximum_body_bytes d' = maximum_body_bytes d"
  "chunk_size_step d c rest = (r, d', rest') \<Longrightarrow> maximum_body_bytes d' = maximum_body_bytes d"
  "chunk_bulk_step write d rest = (r, d', rest') \<Longrightarrow> maximum_body_bytes d' = maximum_body_bytes d"
  "expect_byte b nxt d c rest = (r, d', rest') \<Longrightarrow> maximum_body_bytes d' = maximum_body_bytes d"
  by (auto simp: content_length_step_def chunk_size_step_def chunk_bulk_step_def expect_byte_def
      chunk_data_done_def returning_def decoder_Fail_def Let_def dest!: Write_maximum
      split: prod.splits option.splits if_splits)

lemma chunk_data_step_maximum:
  "chunk_data_step write d c rest = (r, d', rest') \<Longrightarrow> maximum_body_bytes d' = maximum_body_bytes d"
  by (auto simp: chunk_data_step_def chunk_data_done_def Let_def dest!: Write_maximum loop_steps_maximum
      split: prod.splits if_splits)

lemma feed_step_maximum:
  "feed_step write d c rest = (r, d', rest') \<Longrightarrow> maximum_body_bytes d' = maximum_body_bytes d"
  by (cases "state d")
    (auto simp: feed_step_def returning_def decoder_Fail_def
      dest: loop_steps_maximum chunk_data_step_maximum split: if_splits)

lemma feed_loop_maximum:
  "feed_loop wr d data = (st, d', rest') \<Longrightarrow> maximum_body_bytes d' = maximum_body_bytes d"
  by (induction wr d data rule: feed_loop.induct)
    (auto dest: feed_step_maximum split: prod.splits option.splits)

section \<open>The decoder follows the automaton\<close>

text \<open>A sequence of network buffers, one \<open>Feed\<close> call each; the first error stops it.\<close>

fun feed_buffers ::
  "('s \<Rightarrow> bytes \<Rightarrow> bool \<times> 's) \<Rightarrow> HttpBodyStatus \<Rightarrow> 's HttpBodyDecoder \<Rightarrow> bytes list
   \<Rightarrow> HttpBodyStatus \<times> 's HttpBodyDecoder" where
  "feed_buffers wr st d [] = (st, d)"
| "feed_buffers wr st d (b # bs) =
     (case decoder_Feed wr d (Bytes b) True of
        (st', d', n) \<Rightarrow>
          if st' = BodyOk \<or> st' = Complete then feed_buffers wr st' d' bs else (st', d'))"

context body_sink
begin

text \<open>The sink behind the decoder holds \<open>m\<close>, and the byte counter agrees.\<close>

definition passed_on :: "'s HttpBodyDecoder \<Rightarrow> bytes \<Rightarrow> bool" where
  "passed_on d m \<longleftrightarrow>
     (\<exists>s. sink d = Some s \<and> received s m) \<and> unat (decoded_bytes d) = length m
     \<and> length m \<le> unat (maximum_body_bytes d)"

lemma passed_on_update [simp]:
  "passed_on (d\<lparr>state := st\<rparr>) m = passed_on d m"
  "passed_on (d\<lparr>remaining := n\<rparr>) m = passed_on d m"
  "passed_on (d\<lparr>chunk_line := l\<rparr>) m = passed_on d m"
  by (simp_all add: passed_on_def)

lemma Write_passed_on:
  assumes "passed_on d m" "decoder_Write wr d data = (BodyOk, d')"
  shows "passed_on d' (m @ data)"
proof (cases "data = []")
  case True
  with assms show ?thesis by (simp add: decoder_Write_def)
next
  case False
  let ?max = "maximum_body_bytes d" and ?dec = "decoded_bytes d"
  from assms obtain s where s: "sink d = Some s" "received s m" "unat ?dec = length m"
    "length m \<le> unat ?max" by (auto simp: passed_on_def)
  with False assms(2) obtain s' where w: "wr s data = (True, s')"
    and fit: "?dec \<le> ?max" "length data \<le> unat (?max - ?dec)"
    and d': "d' = d\<lparr>sink := Some s', decoded_bytes := ?dec + of_nat (length data)\<rparr>"
    by (auto simp: decoder_Write_def decoder_Fail_def split: if_splits prod.splits bool.splits)
  have le: "length m + length data \<le> unat ?max"
    using fit s by (simp add: unat_sub)
  then have lt: "length m + length data < 2 ^ LENGTH(64)"
    by (rule le_less_trans) (rule unsigned_less)
  then have "unat (of_nat (length data) :: u64) = length data"
    by (intro unat_of_nat_small) linarith
  then have "unat (?dec + of_nat (length data)) = length m + length data"
    using lt s(3) by (subst unat_add_exact) simp_all
  with le d' write_appends [OF s(2) w] show ?thesis by (simp add: passed_on_def)
qed

lemma content_length_step_follows:
  assumes "passed_on d m" "decoder_ok d" "state d = kContentLength" "data \<noteq> []"
    and step: "content_length_step wr d data = (r, d', rest)"
    and good: "r \<in> {None, Some Complete, Some UnexpectedData}"
  shows "\<exists>used out. data = used @ rest \<and> wire_run (decoder_config d) used = Some (decoder_config d', out)
           \<and> passed_on d' (m @ out) \<and> decoder_ok d'
           \<and> (r = None \<longleftrightarrow> state d' \<noteq> kComplete) \<and> (r = Some Complete \<longleftrightarrow> r \<noteq> None \<and> rest = [])"
proof -
  define k where "k = (if length data > unat (remaining d) then unat (remaining d) else length data)"
  have r0: "remaining d \<noteq> 0" using assms(2,3) by (simp add: decoder_ok_def)
  have k: "0 < k" "k \<le> length data" "k \<le> unat (remaining d)"
    using assms(4) r0 by (auto simp: k_def unat_gt_0)
  obtain ws d1 where w: "decoder_Write wr d (take k data) = (ws, d1)" by (metis prod.collapse)
  have ws: "ws = BodyOk"
    using step good w [unfolded k_def]
    by (auto simp: content_length_step_def Let_def decoder_Write_def decoder_Fail_def
        split: if_splits option.splits prod.splits bool.splits)
  note f = decoder_Write_frame [OF w [unfolded ws]]
  have sub: "unat (remaining d - of_nat k) = unat (remaining d) - k"
  proof -
    have "unat (of_nat k :: u64) = k"
      using k(3) unsigned_less [of "remaining d", where 'a = nat] by (intro unat_of_nat_small) simp
    then show ?thesis using k(3) by (simp add: unat_sub word_le_nat_alt)
  qed
  have z: "remaining d - of_nat k = 0 \<longleftrightarrow> k = unat (remaining d)"
    using sub k(3) unat_eq_0 [of "remaining d - of_nat k"] by auto
  have res: "rest = drop k data"
    "d' = (if remaining d - of_nat k = 0 then d1\<lparr>remaining := 0, state := kComplete\<rparr>
           else d1\<lparr>remaining := remaining d - of_nat k\<rparr>)"
    "r = (if remaining d - of_nat k = 0 then Some (if rest = [] then Complete else UnexpectedData) else None)"
    using step w f unfolding content_length_step_def Let_def k_def [symmetric]
    by (auto simp: ws split: if_splits)
  have run: "wire_run (decoder_config d) (take k data)
        = Some ((if k = unat (remaining d) then kComplete else kContentLength, unat (remaining d) - k,
                 chunk_line d), take k data)"
    using k assms(3,4) wire_run_content [of "take k data" "unat (remaining d)" "chunk_line d"]
    by (simp add: decoder_config_def min_absorb2)
  have cfg: "decoder_config d' = (if k = unat (remaining d) then kComplete else kContentLength,
      unat (remaining d) - k, chunk_line d)"
    using f assms(3) sub z by (auto simp: res(2) decoder_config_def)
  have "passed_on d' (m @ take k data)"
    using Write_passed_on [OF assms(1) w [unfolded ws]] by (simp add: res(2))
  moreover have "decoder_ok d'"
    using f assms(3) by (auto simp: res(2) decoder_ok_def)
  ultimately show ?thesis
    using run cfg res f assms(3)
    by (intro exI [of _ "take k data"]) auto
qed

lemma chunk_data_step_follows:
  assumes "passed_on d m" "decoder_ok d" "state d = kChunkData"
    and step: "chunk_data_step wr d c rest = (r, d', rest')"
    and good: "r \<in> {None, Some Complete, Some UnexpectedData}"
  shows "\<exists>used out. c # rest = used @ rest' \<and> wire_run (decoder_config d) used = Some (decoder_config d', out)
           \<and> passed_on d' (m @ out) \<and> decoder_ok d' \<and> r = None \<and> state d' \<noteq> kComplete"
proof -
  have r0: "remaining d \<noteq> 0" using assms(2,3) by (simp add: decoder_ok_def)
  obtain ws d1 where w: "decoder_Write wr d [c] = (ws, d1)" by (metis prod.collapse)
  have ws: "ws = BodyOk"
    using step good w
    by (auto simp: chunk_data_step_def Let_def decoder_Write_def decoder_Fail_def
        split: if_splits option.splits prod.splits bool.splits)
  note f = decoder_Write_frame [OF w [unfolded ws]]
  note p1 = Write_passed_on [OF assms(1) w [unfolded ws]]
  define n where "n = unat (remaining d)"
  have n: "0 < n" "unat (remaining d - 1) = n - 1" "remaining d - 1 = 0 \<longleftrightarrow> n = 1"
    using r0 unat_eq_0 [of "remaining d - 1"]
    by (auto simp: n_def unat_gt_0 unat_minus_one)
  show ?thesis
  proof (cases "remaining d - 1 \<noteq> 0 \<and> rest \<noteq> []")
    case False
    then have d': "d' = chunk_data_done (d1\<lparr>remaining := remaining d - 1\<rparr>)" "rest' = rest" "r = None"
      using step w f by (auto simp: chunk_data_step_def ws Let_def split: if_splits)
    have "wire_run (decoder_config d) [c]
          = Some ((if n = 1 then kChunkDataCr else kChunkData, n - 1, chunk_line d), [c])"
      using wire_run_data [of "[c]" n "chunk_line d"] n(1) assms(3)
      by (auto simp: decoder_config_def n_def [symmetric])
    moreover have "decoder_config d' = (if n = 1 then kChunkDataCr else kChunkData, n - 1, chunk_line d)"
      using f assms(3) n by (auto simp: d' decoder_config_def chunk_data_done_def)
    moreover have "passed_on d' (m @ [c])" using p1 by (simp add: d' chunk_data_done_def)
    moreover have "decoder_ok d' \<and> state d' \<noteq> kComplete"
      using f assms(3) by (auto simp: d' decoder_ok_def chunk_data_done_def)
    ultimately show ?thesis using d' by (intro exI [of _ "[c]"]) simp
  next
    case True
    define d2 where "d2 = d1\<lparr>remaining := remaining d - 1\<rparr>"
    define k where "k = (if length rest > unat (remaining d2) then unat (remaining d2) else length rest)"
    have d2: "remaining d2 = remaining d - 1" "unat (remaining d2) = n - 1"
      using n by (simp_all add: d2_def)
    have k: "0 < k" "k \<le> length rest" "k \<le> n - 1"
      using True n by (auto simp: k_def d2)
    obtain ws' d3 where w': "decoder_Write wr d2 (take k rest) = (ws', d3)" by (metis prod.collapse)
    have "chunk_bulk_step wr d2 rest = (r, d', rest')"
      using step w f True by (simp add: chunk_data_step_def ws d2_def)
    then have unfold: "(if ws' \<noteq> BodyOk then (Some ws', d3, rest)
           else (None, chunk_data_done (d3\<lparr>remaining := remaining d3 - of_nat k\<rparr>), drop k rest))
          = (r, d', rest')"
      using w' unfolding chunk_bulk_step_def Let_def k_def [symmetric] by simp
    have ws': "ws' = BodyOk"
      using unfold good w'
      by (auto simp: decoder_Write_def decoder_Fail_def
          split: if_splits option.splits prod.splits bool.splits)
    note f' = decoder_Write_frame [OF w' [unfolded ws']]
    have sub: "unat (remaining d2 - of_nat k) = n - 1 - k"
    proof -
      have "unat (of_nat k :: u64) = k"
        using k(3) d2 unsigned_less [of "remaining d2", where 'a = nat] by (intro unat_of_nat_small) simp
      then show ?thesis using k(3) d2 by (simp add: unat_sub word_le_nat_alt)
    qed
    then have z: "remaining d2 - of_nat k = 0 \<longleftrightarrow> k = n - 1"
      using k(3) unat_eq_0 [of "remaining d2 - of_nat k"] by auto
    have d': "d' = chunk_data_done (d3\<lparr>remaining := remaining d2 - of_nat k\<rparr>)" "rest' = drop k rest"
      "r = None"
      using unfold f' by (simp_all add: ws')
    have "wire_run (decoder_config d) (c # take k rest)
          = Some ((if k = n - 1 then kChunkDataCr else kChunkData, n - 1 - k, chunk_line d), c # take k rest)"
      using wire_run_data [of "c # take k rest" n "chunk_line d"] n(1) k assms(3)
      by (auto simp: decoder_config_def n_def [symmetric] min_absorb2)
    moreover have "decoder_config d' = (if k = n - 1 then kChunkDataCr else kChunkData, n - 1 - k, chunk_line d)"
      using f f' assms(3) sub z by (auto simp: d' decoder_config_def chunk_data_done_def d2_def)
    moreover have "passed_on d' (m @ c # take k rest)"
      using Write_passed_on [OF _ w' [unfolded ws'], of "m @ [c]"] p1
      by (simp add: d' chunk_data_done_def d2_def)
    moreover have "decoder_ok d' \<and> state d' \<noteq> kComplete"
      using f f' assms(3) by (auto simp: d' decoder_ok_def chunk_data_done_def d2_def)
    ultimately show ?thesis using d' by (intro exI [of _ "c # take k rest"]) simp
  qed
qed

lemma chunk_size_step_follows:
  assumes "decoder_ok d" "state d = kChunkSize"
    and "chunk_size_step d c rest = (r, d', rest')" "r \<in> {None, Some Complete, Some UnexpectedData}"
  shows "rest' = rest \<and> wire_step (decoder_config d) c = Some (decoder_config d', [])
         \<and> (passed_on d m \<longrightarrow> passed_on d' m) \<and> decoder_ok d' \<and> r = None \<and> state d' \<noteq> kComplete"
  using assms
  by (auto simp: chunk_size_step_def wire_step_def decoder_config_def decoder_ok_def returning_def
      decoder_Fail_def split: if_splits option.splits)

lemma expect_byte_follows:
  assumes "decoder_ok d" "expect_byte b nxt d c rest = (r, d', rest')"
    and "r \<in> {None, Some Complete, Some UnexpectedData}" "nxt \<notin> {kFailed, kComplete, kContentLength}"
    and "nxt = kChunkData \<Longrightarrow> remaining d \<noteq> 0"
  shows "rest' = rest \<and> c = b \<and> decoder_config d' = (nxt, unat (remaining d), chunk_line d)
         \<and> (passed_on d m \<longrightarrow> passed_on d' m) \<and> decoder_ok d' \<and> r = None \<and> state d' \<noteq> kComplete"
  using assms
  by (auto simp: expect_byte_def decoder_config_def decoder_ok_def returning_def decoder_Fail_def
      split: if_splits)

lemma feed_step_follows:
  assumes p: "passed_on d m" and ok: "decoder_ok d" "state d \<noteq> kComplete"
    and step: "feed_step wr d c rest = (r, d', rest')"
    and good: "r \<in> {None, Some Complete, Some UnexpectedData}"
  shows "\<exists>used out. c # rest = used @ rest' \<and> wire_run (decoder_config d) used = Some (decoder_config d', out)
           \<and> passed_on d' (m @ out) \<and> decoder_ok d'
           \<and> (r = None \<longleftrightarrow> state d' \<noteq> kComplete) \<and> (r = Some Complete \<longleftrightarrow> r \<noteq> None \<and> rest' = [])"
proof -
  have one: ?thesis
    if "wire_step (decoder_config d) c = Some (decoder_config d', [])" "rest' = rest" "passed_on d' m"
      "decoder_ok d'" "r = None \<longleftrightarrow> state d' \<noteq> kComplete" "r = Some Complete \<longleftrightarrow> r \<noteq> None \<and> rest' = []"
    using that by (intro exI [of _ "[c]"] exI [of _ "[]"]) simp
  have expect: ?thesis
    if e: "expect_byte b nxt d c rest = (r, d', rest')" "nxt \<notin> {kFailed, kComplete, kContentLength}"
      "nxt = kChunkData \<Longrightarrow> remaining d \<noteq> 0"
      "wire_step (decoder_config d) b = Some ((nxt, unat (remaining d), chunk_line d), [])" for b nxt
    using expect_byte_follows [OF ok(1) e(1) good e(2,3), of m] e(4) p by (intro one) auto
  show ?thesis
  proof (cases "state d")
    case kContentLength
    with step content_length_step_follows [OF p ok(1) _ _ _ good, of "c # rest" d' rest']
    show ?thesis by (simp add: feed_step_def)
  next
    case kChunkSize
    with step chunk_size_step_follows [OF ok(1) kChunkSize _ good, of c rest d' rest' m] p
    show ?thesis by (intro one) (simp_all add: feed_step_def)
  next
    case kChunkSizeLf
    show ?thesis
      by (rule expect [of 10 "if remaining d = 0 then kFinalCr else kChunkData"])
        (use step kChunkSizeLf in \<open>auto simp: feed_step_def wire_step_def decoder_config_def unat_eq_0 split: if_splits\<close>)
  next
    case kChunkData
    with step chunk_data_step_follows [OF p ok(1) kChunkData _ good, of c rest d' rest']
    show ?thesis by (auto simp: feed_step_def)
  next
    case kChunkDataCr
    show ?thesis
      by (rule expect [of 13 kChunkDataLf])
        (use step kChunkDataCr in \<open>simp_all add: feed_step_def wire_step_def decoder_config_def\<close>)
  next
    case kChunkDataLf
    show ?thesis
      by (rule expect [of 10 kChunkSize])
        (use step kChunkDataLf in \<open>simp_all add: feed_step_def wire_step_def decoder_config_def\<close>)
  next
    case kFinalCr
    show ?thesis
      by (rule expect [of 13 kFinalLf])
        (use step kFinalCr in \<open>simp_all add: feed_step_def wire_step_def decoder_config_def\<close>)
  next
    case kFinalLf
    with step good p show ?thesis
      by (intro one)
        (auto simp: feed_step_def wire_step_def decoder_config_def returning_def decoder_Fail_def
          decoder_ok_def split: if_splits)
  next
    case kComplete
    with ok show ?thesis by simp
  next
    case kFailed
    with ok show ?thesis by (simp add: decoder_ok_def)
  qed
qed

lemma feed_loop_follows:
  assumes "passed_on d m" "decoder_ok d" "state d \<noteq> kComplete"
    and "feed_loop wr d data = (st, d', rest)" "st = BodyOk \<or> st = Complete"
  shows "\<exists>out. rest = [] \<and> wire_run (decoder_config d) data = Some (decoder_config d', out)
           \<and> passed_on d' (m @ out) \<and> decoder_ok d' \<and> (st = Complete \<longleftrightarrow> state d' = kComplete)"
  using assms
proof (induction "length data" arbitrary: d data m rule: less_induct)
  case less
  show ?case
  proof (cases data)
    case Nil
    with less.prems show ?thesis by (auto split: if_splits)
  next
    case (Cons c rst)
    obtain r d1 rest1 where step: "feed_step wr d c rst = (r, d1, rest1)" by (metis prod.collapse)
    have good: "r \<in> {None, Some Complete, Some UnexpectedData}"
      using less.prems(4,5) step Cons feed_step_not_ok [of wr d c rst] by (auto split: option.splits)
    from feed_step_follows [OF less.prems(1-3) step good] obtain used out where
      u: "c # rst = used @ rest1" "wire_run (decoder_config d) used = Some (decoder_config d1, out)"
        "passed_on d1 (m @ out)" "decoder_ok d1" "r = None \<longleftrightarrow> state d1 \<noteq> kComplete"
        "r = Some Complete \<longleftrightarrow> r \<noteq> None \<and> rest1 = []" by blast
    show ?thesis
    proof (cases r)
      case (Some s)
      then have eq: "st = s" "d' = d1" "rest = rest1"
        using less.prems(4) step Cons by simp_all
      with less.prems(5) good Some have "r = Some Complete" by auto
      with eq u Cons Some show ?thesis by simp
    next
      case None
      then have l: "length rest1 < length data" "feed_loop wr d1 rest1 = (st, d', rest)"
        using feed_step_shorter step Cons less.prems(4) by (fastforce, simp)
      from less.hyps [OF l(1) u(3,4) _ l(2) less.prems(5)] None u(5) obtain out' where
        "rest = []" "wire_run (decoder_config d1) rest1 = Some (decoder_config d', out')"
        "passed_on d' ((m @ out) @ out')" "decoder_ok d'" "st = Complete \<longleftrightarrow> state d' = kComplete"
        by auto
      with u(1,2) Cons show ?thesis by (simp add: wire_run_append)
    qed
  qed
qed

lemma Feed_follows:
  assumes "passed_on d m" "decoder_ok d"
    and "decoder_Feed wr d (Bytes b) True = (st, d', n)" "st = BodyOk \<or> st = Complete"
  shows "\<exists>out. wire_run (decoder_config d) b = Some (decoder_config d', out)
           \<and> passed_on d' (m @ out) \<and> decoder_ok d' \<and> (st = Complete \<longleftrightarrow> state d' = kComplete)"
proof (cases "state d = kComplete")
  case True
  with assms show ?thesis by (auto simp: decoder_Feed_def split: if_splits)
next
  case False
  with assms obtain rest where "feed_loop wr d b = (st, d', rest)"
    by (auto simp: decoder_Feed_def decoder_ok_def split: prod.splits)
  with feed_loop_follows [OF assms(1,2) False this assms(4)] show ?thesis by blast
qed

lemma feed_buffers_follows:
  assumes "passed_on d m" "decoder_ok d" "st0 = Complete \<Longrightarrow> state d = kComplete"
    and "feed_buffers wr st0 d bs = (Complete, d')"
  shows "\<exists>out. wire_run (decoder_config d) (concat bs) = Some (decoder_config d', out)
           \<and> passed_on d' (m @ out) \<and> state d' = kComplete"
  using assms
proof (induction bs arbitrary: d m st0)
  case Nil
  then show ?case by auto
next
  case (Cons b bs)
  obtain st d1 n where f: "decoder_Feed wr d (Bytes b) True = (st, d1, n)" by (metis prod.collapse)
  with Cons.prems(4) have st: "st = BodyOk \<or> st = Complete" and r: "feed_buffers wr st d1 bs = (Complete, d')"
    by (auto split: if_splits)
  from Feed_follows [OF Cons.prems(1,2) f st] obtain out where
    o: "wire_run (decoder_config d) b = Some (decoder_config d1, out)" "passed_on d1 (m @ out)"
      "decoder_ok d1" "st = Complete \<longleftrightarrow> state d1 = kComplete" by blast
  with Cons.IH [OF o(2,3) _ r] obtain out' where
    "wire_run (decoder_config d1) (concat bs) = Some (decoder_config d', out')"
    "passed_on d' ((m @ out) @ out')" "state d' = kComplete" by auto
  with o(1) show ?case by (simp add: wire_run_append)
qed

end

text \<open>Nothing fails while the automaton runs, the limit holds and the sink has room.\<close>

context accepting_sink
begin

lemma Write_accepted:
  assumes "passed_on d m" "length m + length data \<le> unat (maximum_body_bytes d)"
    and "sink d = Some s" "length m + length data \<le> room s"
  shows "\<exists>d' s'. decoder_Write wr d data = (BodyOk, d') \<and> sink d' = Some s' \<and> room s' = room s"
proof (cases "data = []")
  case True
  with assms show ?thesis by (simp add: decoder_Write_def)
next
  case False
  from assms have p: "received s m" "unat (decoded_bytes d) = length m" by (auto simp: passed_on_def)
  then obtain s' where "wr s data = (True, s')" "room s' = room s"
    using write_accepts assms(4) by blast
  moreover have "decoded_bytes d \<le> maximum_body_bytes d"
    using assms(2) p(2) by (simp add: word_le_nat_alt)
  moreover from this have "length data \<le> unat (maximum_body_bytes d - decoded_bytes d)"
    using assms(2) p(2) by (simp add: unat_sub)
  ultimately show ?thesis using False assms(3) by (auto simp: decoder_Write_def)
qed

lemma content_length_step_accepts:
  assumes p: "passed_on d m" and s: "sink d = Some s"
    and fit: "length m + length data \<le> unat (maximum_body_bytes d)" "length m + length data \<le> room s"
    and step: "content_length_step wr d data = (r, d', rest)"
  shows "r \<in> {None, Some Complete, Some UnexpectedData} \<and> (\<exists>s'. sink d' = Some s' \<and> room s' = room s)"
proof -
  define k where "k = (if length data > unat (remaining d) then unat (remaining d) else length data)"
  have "length (take k data) \<le> length data" by simp
  then obtain d1 s' where w: "decoder_Write wr d (take k data) = (BodyOk, d1)" "sink d1 = Some s'"
    "room s' = room s"
    using Write_accepted [OF p _ s, of "take k data"] fit by fastforce
  with step show ?thesis
    unfolding content_length_step_def Let_def k_def [symmetric] by (auto split: if_splits)
qed

lemma chunk_data_step_accepts:
  assumes p: "passed_on d m" and s: "sink d = Some s"
    and fit: "length m + Suc (length (take (unat (remaining d) - 1) rest)) \<le> unat (maximum_body_bytes d)"
      "length m + Suc (length (take (unat (remaining d) - 1) rest)) \<le> room s"
    and r0: "remaining d \<noteq> 0"
    and step: "chunk_data_step wr d c rest = (r, d', rest')"
  shows "r \<in> {None, Some Complete, Some UnexpectedData} \<and> (\<exists>s'. sink d' = Some s' \<and> room s' = room s)"
proof -
  obtain d1 s1 where w: "decoder_Write wr d [c] = (BodyOk, d1)" "sink d1 = Some s1" "room s1 = room s"
    using Write_accepted [OF p _ s, of "[c]"] fit by fastforce
  note f = decoder_Write_frame [OF w(1)]
  define d2 where "d2 = d1\<lparr>remaining := remaining d1 - 1\<rparr>"
  have d2: "passed_on d2 (m @ [c])" "sink d2 = Some s1" "maximum_body_bytes d2 = maximum_body_bytes d"
    using Write_passed_on [OF p w(1)] w f by (simp_all add: d2_def)
  have n: "unat (remaining d2) = unat (remaining d) - 1"
    using f r0 by (simp add: d2_def unat_minus_one)
  define k where "k = (if length rest > unat (remaining d2) then unat (remaining d2) else length rest)"
  have "length (m @ [c]) + length (take k rest) \<le> unat (maximum_body_bytes d2)"
    "length (m @ [c]) + length (take k rest) \<le> room s1"
    using fit w(3) d2(3) by (auto simp: k_def n min_def split: if_splits)
  from Write_accepted [OF d2(1) this(1) d2(2) this(2)] obtain d3 s3 where
    "decoder_Write wr d2 (take k rest) = (BodyOk, d3)" "sink d3 = Some s3" "room s3 = room s"
    using w(3) by auto
  then have "\<exists>d3 s3. chunk_bulk_step wr d2 rest = (None, d3, drop k rest) \<and> sink d3 = Some s3 \<and> room s3 = room s"
    unfolding chunk_bulk_step_def Let_def k_def [symmetric] by (auto simp: chunk_data_done_def)
  with step w d2(2) show ?thesis
    unfolding chunk_data_step_def Let_def
    by (auto simp: d2_def [symmetric] chunk_data_done_def split: if_splits)
qed

lemma feed_step_accepts:
  assumes p: "passed_on d m" and ok: "decoder_ok d" and s: "sink d = Some s"
    and run: "wire_run (decoder_config d) (c # rest) = Some (cfg, out)"
    and fit: "length m + length out \<le> unat (maximum_body_bytes d)" "length m + length out \<le> room s"
    and step: "feed_step wr d c rest = (r, d', rest')"
  shows "r \<in> {None, Some Complete, Some UnexpectedData} \<and> (\<exists>s'. sink d' = Some s' \<and> room s' = room s)"
proof (cases "state d")
  case kContentLength
  from run [unfolded decoder_config_def kContentLength] have "out = c # rest"
    by (rule wire_run_content_out)
  with kContentLength step content_length_step_accepts [OF p s, of "c # rest" r d' rest'] fit
  show ?thesis by (simp add: feed_step_def)
next
  case kChunkData
  with ok have r0: "remaining d \<noteq> 0" by (simp add: decoder_ok_def)
  have "length (take (unat (remaining d)) (c # rest)) \<le> length out"
    using run kChunkData r0
    by (intro wire_run_data_out [of "unat (remaining d)" "chunk_line d" "c # rest" cfg])
      (simp_all add: decoder_config_def unat_gt_0)
  then have "Suc (length (take (unat (remaining d) - 1) rest)) \<le> length out"
    using r0 by (cases "unat (remaining d)") (simp_all add: unat_eq_0)
  with fit have "length m + Suc (length (take (unat (remaining d) - 1) rest)) \<le> unat (maximum_body_bytes d)"
    "length m + Suc (length (take (unat (remaining d) - 1) rest)) \<le> room s" by simp_all
  with chunk_data_step_accepts [OF p s _ _ r0, of rest c r d' rest'] step kChunkData
  show ?thesis by (simp add: feed_step_def)
qed (use run step s ok in \<open>auto simp: feed_step_def wire_step_def decoder_config_def chunk_size_step_def
    expect_byte_def decoder_ok_def unat_eq_0 split: if_splits option.splits\<close>)

lemma feed_loop_accepts:
  assumes "passed_on d m" "decoder_ok d" "state d \<noteq> kComplete" "sink d = Some s"
    and "wire_run (decoder_config d) data = Some (cfg, out)"
    and "length m + length out \<le> unat (maximum_body_bytes d)" "length m + length out \<le> room s"
    and "feed_loop wr d data = (st, d', rest)"
  shows "(st = BodyOk \<or> st = Complete) \<and> (\<exists>s'. sink d' = Some s' \<and> room s' = room s)"
  using assms
proof (induction "length data" arbitrary: d data m out s rule: less_induct)
  case less
  show ?case
  proof (cases data)
    case Nil
    with less.prems show ?thesis by auto
  next
    case (Cons c rst)
    obtain r d1 rest1 where step: "feed_step wr d c rst = (r, d1, rest1)" by (metis prod.collapse)
    from feed_step_accepts [OF less.prems(1,2,4) less.prems(5) [unfolded Cons] less.prems(6,7) step]
    obtain s1 where a: "r \<in> {None, Some Complete, Some UnexpectedData}" "sink d1 = Some s1" "room s1 = room s"
      by blast
    from feed_step_follows [OF less.prems(1-3) step a(1)] obtain used o1 where
      u: "c # rst = used @ rest1" "wire_run (decoder_config d) used = Some (decoder_config d1, o1)"
        "passed_on d1 (m @ o1)" "decoder_ok d1" "r = None \<longleftrightarrow> state d1 \<noteq> kComplete"
        "r = Some Complete \<longleftrightarrow> r \<noteq> None \<and> rest1 = []" by blast
    from less.prems(5) u(1,2) Cons obtain o2 where
      o2: "wire_run (decoder_config d1) rest1 = Some (cfg, o2)" "out = o1 @ o2"
      by (auto simp: wire_run_append split: option.splits)
    show ?thesis
    proof (cases "r = None")
      case False
      then have "state d1 = kComplete" using u(5) by simp
      then have "rest1 = []"
        using o2(1) by (cases rest1) (simp_all add: decoder_config_def wire_step_def)
      with u(6) False have "r = Some Complete" by simp
      with less.prems(8) step Cons a(2,3) show ?thesis by auto
    next
      case True
      have max: "maximum_body_bytes d1 = maximum_body_bytes d"
        by (rule feed_step_maximum [OF step])
      have l: "length rest1 < length data" "feed_loop wr d1 rest1 = (st, d', rest)"
        using feed_step_shorter step Cons less.prems(8) True by (fastforce, simp)
      have "(st = BodyOk \<or> st = Complete) \<and> (\<exists>s'. sink d' = Some s' \<and> room s' = room s1)"
        by (rule less.hyps [OF l(1) u(3,4) _ a(2) o2(1) _ _ l(2)])
          (use u(5) True less.prems(6,7) o2(2) a(3) max in auto)
      with a(3) show ?thesis by simp
    qed
  qed
qed

lemma feed_buffers_accepts:
  assumes "passed_on d m" "decoder_ok d" "sink d = Some s"
    and "wire_run (decoder_config d) (concat bs) = Some ((kComplete, n, l), out)"
    and "length m + length out \<le> unat (maximum_body_bytes d)" "length m + length out \<le> room s"
  shows "\<exists>d'. feed_buffers wr st0 d bs = (if bs = [] then st0 else Complete, d') \<and> state d' = kComplete"
  using assms
proof (induction bs arbitrary: d m out s st0)
  case Nil
  then show ?case by (simp add: decoder_config_def)
next
  case (Cons b bs)
  have run: "wire_run (decoder_config d) (b @ concat bs) = Some ((kComplete, n, l), out)"
    using Cons.prems(4) by simp
  show ?case
  proof (cases "state d = kComplete")
    case True
    then have "b = []" using run by (cases b) (auto simp: decoder_config_def wire_step_def)
    with True run have f: "decoder_Feed wr d (Bytes b) True = (Complete, d, 0)"
      and r: "wire_run (decoder_config d) (concat bs) = Some ((kComplete, n, l), out)"
      by (simp_all add: decoder_Feed_def)
    from Cons.IH [OF Cons.prems(1-3) r Cons.prems(5,6), of Complete] f show ?thesis by auto
  next
    case nc: False
    from run obtain c1 o1 o2 where r1: "wire_run (decoder_config d) b = Some (c1, o1)"
      and r2: "wire_run c1 (concat bs) = Some ((kComplete, n, l), o2)" "out = o1 @ o2"
      by (auto simp: wire_run_append split: option.splits)
    obtain st d1 rest where f: "feed_loop wr d b = (st, d1, rest)" by (metis prod.collapse)
    from feed_loop_accepts [OF Cons.prems(1,2) nc Cons.prems(3) r1 _ _ f] Cons.prems(5,6) r2(2)
    obtain s1 where a: "st = BodyOk \<or> st = Complete" "sink d1 = Some s1" "room s1 = room s" by auto
    from feed_loop_follows [OF Cons.prems(1,2) nc f a(1)] r1 have
      fo: "c1 = decoder_config d1" "passed_on d1 (m @ o1)" "decoder_ok d1"
        "st = Complete \<longleftrightarrow> state d1 = kComplete" by auto
    have max: "maximum_body_bytes d1 = maximum_body_bytes d" by (rule feed_loop_maximum [OF f])
    have "\<exists>d'. feed_buffers wr st d1 bs = (if bs = [] then st else Complete, d') \<and> state d' = kComplete"
      by (rule Cons.IH [OF fo(2,3) a(2) r2(1) [unfolded fo(1)]])
        (use Cons.prems(5,6) r2(2) a(3) max in auto)
    then obtain d' where d': "feed_buffers wr st d1 bs = (if bs = [] then st else Complete, d')"
      "state d' = kComplete" by blast
    then have "feed_buffers wr st d1 bs = (Complete, d')"
      using fo(4) by (cases bs) simp_all
    with d'(2) f a(1) nc Cons.prems(2) show ?thesis by (auto simp: decoder_Feed_def decoder_ok_def)
  qed
qed

end

section \<open>The grammar of the chunked coding\<close>

definition hex_value :: "byte \<Rightarrow> nat" where
  "hex_value c = unat (the (hex_digit c))"

fun hex_number :: "bytes \<Rightarrow> nat \<Rightarrow> nat" where
  "hex_number [] v = v"
| "hex_number (c # cs) v = hex_number cs (v * 16 + hex_value c)"

text \<open>A chunk-size line: one to eighteen hexadecimal digits whose value fits 64 bits.\<close>

definition size_line :: "bytes \<Rightarrow> nat \<Rightarrow> bool" where
  "size_line l n \<longleftrightarrow>
     l \<noteq> [] \<and> length l \<le> kChunkLineBytes \<and> list_all (\<lambda>c. hex_digit c \<noteq> None) l
     \<and> n = hex_number l 0 \<and> n < 2 ^ 64"

inductive chunked :: "bytes \<Rightarrow> bytes \<Rightarrow> bool" where
  last_chunk: "size_line l 0 \<Longrightarrow> chunked (l @ [13, 10, 13, 10]) []"
| data_chunk: "size_line l (length data) \<Longrightarrow> data \<noteq> [] \<Longrightarrow> chunked wire body \<Longrightarrow>
    chunked (l @ [13, 10] @ data @ [13, 10] @ wire) (data @ body)"

lemma hex_number_mono: "v \<le> hex_number cs v"
proof (induction cs arbitrary: v)
  case (Cons c cs)
  have "v \<le> v * 16 + hex_value c" by simp
  also have "\<dots> \<le> hex_number (c # cs) v" using Cons by simp
  finally show ?case .
qed simp

lemma parse_chunk_size_iff:
  "parse_chunk_size l v = Some n \<longleftrightarrow>
     list_all (\<lambda>c. hex_digit c \<noteq> None) l \<and> unat n = hex_number l (unat v)"
proof (induction l arbitrary: v)
  case Nil
  then show ?case by (auto intro: unsigned_word_eqI [where 'a = nat])
next
  case (Cons c cs)
  show ?case
  proof (cases "hex_digit c")
    case (Some digit)
    then have hv: "hex_value c = unat digit" by (simp add: hex_value_def)
    show ?thesis
    proof (cases "v > (- 1 - digit) div 16")
      case True
      then have "\<not> v \<le> (- 1 - digit) div 16" by (simp only: linorder_not_le)
      then have "2 ^ 64 \<le> unat v * 16 + unat digit"
        using word_digit_guard [of 16 v digit] by simp
      also have "\<dots> \<le> hex_number cs (unat v * 16 + unat digit)" by (rule hex_number_mono)
      finally have "unat n \<noteq> hex_number (c # cs) (unat v)"
        using unsigned_less [of n, where 'a = nat] by (simp add: hv)
      with True Some show ?thesis by simp
    next
      case False
      then have "v \<le> (- 1 - digit) div 16" by (simp only: linorder_not_less)
      then have "unat v * unat (16 :: u64) + unat digit < 2 ^ LENGTH(64)"
        using word_digit_guard [of 16 v digit] by simp
      then have "unat (v * 16 + digit) = unat v * 16 + unat digit"
        using word_digit_exact [of v 16 digit] by simp
      with False Some Cons [of "v * 16 + digit"] show ?thesis by (simp add: hv)
    qed
  qed simp
qed

lemma size_line_parse:
  "size_line l n \<longleftrightarrow>
     l \<noteq> [] \<and> length l \<le> kChunkLineBytes \<and> (\<exists>v. parse_chunk_size l 0 = Some v \<and> unat v = n)"
proof -
  have "(\<exists>v :: u64. unat v = N \<and> P) \<longleftrightarrow> N < 2 ^ 64 \<and> P" for N P
    using unat_of_nat_small [of N, where 'a = 64] unsigned_less [where 'a = nat and 'b = 64]
    by (auto intro: exI [of _ "of_nat N"])
  then show ?thesis by (auto simp: size_line_def parse_chunk_size_iff)
qed

text \<open>What may still follow, and which payload it carries, in each state of the automaton.\<close>

fun rest_of :: "config \<Rightarrow> bytes \<Rightarrow> bytes \<Rightarrow> bool" where
  "rest_of (kChunkSize, n, l) w b \<longleftrightarrow> chunked (l @ w) b"
| "rest_of (kChunkSizeLf, n, l) w b \<longleftrightarrow>
     l = [] \<and> (\<exists>w'. w = 10 # w'
        \<and> (if n = 0 then w' = [13, 10] \<and> b = []
           else \<exists>data wire body. length data = n \<and> w' = data @ [13, 10] @ wire \<and> b = data @ body
                  \<and> chunked wire body))"
| "rest_of (kChunkData, n, l) w b \<longleftrightarrow>
     l = [] \<and> (\<exists>data wire body. length data = n \<and> w = data @ [13, 10] @ wire \<and> b = data @ body
        \<and> chunked wire body)"
| "rest_of (kChunkDataCr, n, l) w b \<longleftrightarrow> l = [] \<and> (\<exists>wire. w = [13, 10] @ wire \<and> chunked wire b)"
| "rest_of (kChunkDataLf, n, l) w b \<longleftrightarrow> l = [] \<and> (\<exists>wire. w = 10 # wire \<and> chunked wire b)"
| "rest_of (kFinalCr, n, l) w b \<longleftrightarrow> w = [13, 10] \<and> b = []"
| "rest_of (kFinalLf, n, l) w b \<longleftrightarrow> w = [10] \<and> b = []"
| "rest_of (kComplete, n, l) w b \<longleftrightarrow> w = [] \<and> b = []"
| "rest_of (kContentLength, n, l) w b \<longleftrightarrow> w = b \<and> length w = n"
| "rest_of (kFailed, n, l) w b \<longleftrightarrow> False"

definition config_ok :: "config \<Rightarrow> bool" where
  "config_ok cfg = (case cfg of (st, n, l) \<Rightarrow>
     length l \<le> kChunkLineBytes \<and> (st \<noteq> kChunkSize \<longrightarrow> l = [])
     \<and> (st \<in> {kContentLength, kChunkData} \<longrightarrow> n \<noteq> 0))"

lemma wire_step_ok:
  assumes "config_ok cfg" "wire_step cfg c = Some (cfg', out)"
  shows "config_ok cfg'"
  using assms
  by (cases cfg) (auto simp: config_ok_def wire_step_def split: DecoderState.splits if_splits option.splits)

lemma rest_of_step:
  assumes "config_ok cfg" "wire_step cfg c = Some (cfg', out)" "rest_of cfg' w b"
  shows "rest_of cfg (c # w) (out @ b)"
proof -
  obtain st n l where cfg: "cfg = (st, n, l)" by (metis prod_cases3)
  show ?thesis
  proof (cases st)
    case kChunkSize
    show ?thesis
    proof (cases "c = 13")
      case True
      with assms cfg kChunkSize obtain v where v: "l \<noteq> []" "parse_chunk_size l 0 = Some v"
        "cfg' = (kChunkSizeLf, unat v, [])" "out = []"
        by (auto simp: wire_step_def split: if_splits option.splits)
      have sl: "size_line l (unat v)"
        using v assms(1) cfg by (auto simp: size_line_parse config_ok_def)
      from assms(3) v obtain w' where w: "w = 10 # w'"
        "if unat v = 0 then w' = [13, 10] \<and> b = []
         else \<exists>data wire body. length data = unat v \<and> w' = data @ [13, 10] @ wire \<and> b = data @ body
                \<and> chunked wire body" by auto
      show ?thesis
      proof (cases "unat v = 0")
        case True
        with w sl last_chunk [of l] \<open>c = 13\<close> cfg kChunkSize v show ?thesis by simp
      next
        case False
        with w obtain data wire body where d: "length data = unat v" "w' = data @ [13, 10] @ wire"
          "b = data @ body" "chunked wire body" by auto
        have "chunked (l @ [13, 10] @ data @ [13, 10] @ wire) (data @ body)"
          by (rule data_chunk) (use sl d False in auto)
        with d w \<open>c = 13\<close> cfg kChunkSize v show ?thesis by simp
      qed
    next
      case False
      with assms cfg kChunkSize show ?thesis by (auto simp: wire_step_def split: if_splits)
    qed
  next
    case kChunkData
    with assms cfg show ?thesis
      by (auto simp: wire_step_def config_ok_def split: if_splits)
        (metis append_Cons append_Nil length_Cons One_nat_def Suc_diff_1 list.size(3) neq0_conv,
         metis append_Cons length_Cons Suc_pred neq0_conv)
  next
    case kContentLength
    with assms cfg show ?thesis
      by (auto simp: wire_step_def config_ok_def split: if_splits)
  qed (use assms cfg in \<open>auto simp: wire_step_def config_ok_def split: if_splits\<close>)
qed

lemma wire_run_sound:
  assumes "config_ok cfg" "wire_run cfg w = Some ((kComplete, n, l), b)"
  shows "rest_of cfg w b"
  using assms
proof (induction w arbitrary: cfg b)
  case Nil
  then show ?case by auto
next
  case (Cons c w)
  then obtain cfg' o1 o2 where "wire_step cfg c = Some (cfg', o1)"
    "wire_run cfg' w = Some ((kComplete, n, l), o2)" "b = o1 @ o2"
    by (auto split: option.splits)
  with Cons.IH [of cfg' o2] Cons.prems(1) wire_step_ok rest_of_step show ?case by blast
qed

lemma wire_run_size:
  "list_all (\<lambda>c. hex_digit c \<noteq> None) l \<Longrightarrow> length (l0 @ l) \<le> kChunkLineBytes \<Longrightarrow>
   wire_run (kChunkSize, n, l0) l = Some ((kChunkSize, n, l0 @ l), [])"
proof (induction l arbitrary: l0)
  case (Cons c l)
  then have "hex_digit c \<noteq> None" by simp
  then have "c \<noteq> 13" "c \<noteq> 10" "c \<noteq> ch CHR '';''"
    by (auto simp: hex_digit_def)
  with Cons show ?case by (simp add: wire_step_def)
qed simp

lemma wire_run_size_line:
  assumes "size_line l n"
  shows "wire_run (kChunkSize, k, []) (l @ [13, 10])
         = Some ((if n = 0 then kFinalCr else kChunkData, n, []), [])"
proof -
  from assms obtain v where v: "l \<noteq> []" "parse_chunk_size l 0 = Some v" "unat v = n"
    by (auto simp: size_line_parse)
  have "wire_run (kChunkSize, k, []) l = Some ((kChunkSize, k, l), [])"
    using wire_run_size [of l "[]" k] assms by (simp add: size_line_def)
  with v show ?thesis by (simp add: wire_run_append wire_step_def)
qed

lemma wire_run_chunked:
  "chunked w b \<Longrightarrow> \<exists>n. wire_run (kChunkSize, k, []) w = Some ((kComplete, n, []), b)"
proof (induction w b arbitrary: k rule: chunked.induct)
  case (last_chunk l)
  have "l @ [13, 10, 13, 10] = (l @ [13, 10]) @ [13, 10]" by simp
  then show ?case
    using wire_run_size_line [OF last_chunk, of k] by (simp only: wire_run_append) (simp add: wire_step_def)
next
  case (data_chunk l data wire body)
  let ?n = "length data"
  have n: "?n \<noteq> 0" using data_chunk.hyps(2) by simp
  have d: "wire_run (kChunkData, ?n, []) data = Some ((kChunkDataCr, 0, []), data)"
    using wire_run_data [of data ?n "[]"] data_chunk.hyps(2) by simp
  have crlf: "wire_run (kChunkDataCr, 0, []) [13, 10] = Some ((kChunkSize, 0, []), [])"
    by (simp add: wire_step_def)
  from data_chunk.IH [of 0] obtain m where
    w: "wire_run (kChunkSize, 0, []) wire = Some ((kComplete, m, []), body)" by blast
  have "wire_run (kChunkSize, k, []) ((l @ [13, 10]) @ data @ [13, 10] @ wire)
        = Some ((kComplete, m, []), data @ body)"
    using wire_run_size_line [OF data_chunk.hyps(1), of k] n d crlf w
    by (simp only: wire_run_append option.case prod.case if_False append_Nil append_Nil2)
  then show ?case by auto
qed

section \<open>The two sinks implement the interface\<close>

abbreviation memory_sink_write :: "BoundedMemoryBodySink \<Rightarrow> bytes \<Rightarrow> bool \<times> BoundedMemoryBodySink" where
  "memory_sink_write s data \<equiv> memory_Write s (Bytes data)"

definition memory_holds :: "BoundedMemoryBodySink \<Rightarrow> bytes \<Rightarrow> bool" where
  "memory_holds s m \<longleftrightarrow>
     \<not> view_null (sink_buffer s) \<and> sink_size s = length m
     \<and> length m \<le> view_size (sink_buffer s) \<and> memory_bytes s = m"

interpretation memory: accepting_sink memory_sink_write memory_holds "\<lambda>s. view_size (sink_buffer s)"
proof
  fix s m data s'
  assume a: "memory_holds s m" "memory_Write s (Bytes data) = (True, s')"
  then obtain buf where buf: "sink_buffer s = Bytes buf" "take (length m) buf = m"
    "sink_size s = length m" "length m \<le> length buf"
    by (cases "sink_buffer s") (auto simp: memory_holds_def memory_bytes_def)
  with a(2) have "length m + length data \<le> length buf"
    and s': "s' = s\<lparr>sink_buffer := (if data \<noteq> [] then Bytes (put_bytes buf (length m) data) else Bytes buf),
                   sink_size := length m + length data\<rparr>"
    by (auto simp: memory_Write_def split: if_splits)
  moreover from this have "take (length m + length data) (put_bytes buf (length m) data) = m @ data"
    using buf by (simp add: put_bytes_def)
  ultimately show "memory_holds s' (m @ data)"
    using buf by (auto simp: memory_holds_def memory_bytes_def)
next
  fix s m and data :: bytes
  assume "memory_holds s m" "length m + length data \<le> view_size (sink_buffer s)"
  then show "\<exists>s'. memory_Write s (Bytes data) = (True, s') \<and> view_size (sink_buffer s') = view_size (sink_buffer s)"
    by (cases "sink_buffer s") (auto simp: memory_Write_def memory_holds_def)
qed

text \<open>The hashing sink in front of any sink: digest, counter and destination agree on the bytes.\<close>

definition hashing_holds ::
  "('d \<Rightarrow> bytes \<Rightarrow> bool) \<Rightarrow> u64 \<Rightarrow> 'd HashingBodySink \<Rightarrow> bytes \<Rightarrow> bool" where
  "hashing_holds R n h m \<longleftrightarrow>
     exact_size h = n \<and> (\<exists>d. destination h = Some d \<and> R d m) \<and> Sha256_holds (sha256 h) m
     \<and> unat (bytes_written h) = length m \<and> length m \<le> unat (exact_size h)
     \<and> \<not> failed h \<and> \<not> finished h"

context body_sink
begin

lemma hashing_is_sink:
  "body_sink (\<lambda>h data. hashing_Write wr h (Bytes data)) (hashing_holds received n)"
proof
  fix h m data h'
  assume a: "hashing_holds received n h m" "hashing_Write wr h (Bytes data) = (True, h')"
  from a(1) obtain d where d: "destination h = Some d" "received d m" "Sha256_holds (sha256 h) m"
    "unat (bytes_written h) = length m" "length m \<le> unat (exact_size h)" "\<not> failed h" "\<not> finished h"
    "exact_size h = n"
    by (auto simp: hashing_holds_def)
  have le: "bytes_written h \<le> exact_size h" using d by (simp add: word_le_nat_alt)
  with a(2) have "length data \<le> unat (exact_size h) - length m"
    using d(4) by (auto simp: hashing_Write_def unat_sub split: if_splits)
  then have fit: "length m + length data \<le> unat (exact_size h)" using d(5) by simp
  then have lt: "length m + length data < 2 ^ LENGTH(64)"
    by (rule le_less_trans) (rule unsigned_less)
  then obtain sh where sh: "Sha256_Update (sha256 h) (Bytes data) = (True, sh)" "Sha256_holds sh (m @ data)"
    using Sha256_Update_holds [OF d(3), of data] by auto
  with a(2) d obtain d' where w: "wr d data = (True, d')"
    and h': "h' = h\<lparr>sha256 := sh, destination := Some d',
                   bytes_written := bytes_written h + of_nat (length data)\<rparr>"
    by (auto simp: hashing_Write_def split: if_splits prod.splits bool.splits)
  have "unat (of_nat (length data) :: u64) = length data"
    using lt by (intro unat_of_nat_small) linarith
  then have "unat (bytes_written h + of_nat (length data)) = length m + length data"
    using lt d(4) by (subst unat_add_exact) simp_all
  with h' sh(2) write_appends [OF d(2) w] fit d(6-8) show "hashing_holds received n h' (m @ data)"
    by (simp add: hashing_holds_def)
qed

end

definition hashing_room :: "('d \<Rightarrow> nat) \<Rightarrow> 'd HashingBodySink \<Rightarrow> nat" where
  "hashing_room dest_room h =
     min (unat (exact_size h)) (case destination h of None \<Rightarrow> 0 | Some d \<Rightarrow> dest_room d)"

context accepting_sink
begin

lemma hashing_is_accepting:
  "accepting_sink (\<lambda>h data. hashing_Write wr h (Bytes data)) (hashing_holds received n) (hashing_room room)"
proof (intro accepting_sink.intro hashing_is_sink accepting_sink_axioms.intro)
  fix h m and data :: bytes
  assume a: "hashing_holds received n h m" "length m + length data \<le> hashing_room room h"
  from a(1) obtain d where d: "destination h = Some d" "received d m" "Sha256_holds (sha256 h) m"
    "unat (bytes_written h) = length m" "length m \<le> unat (exact_size h)" "\<not> failed h" "\<not> finished h"
    "exact_size h = n"
    by (auto simp: hashing_holds_def)
  with a(2) have fit: "length m + length data \<le> unat (exact_size h)" "length m + length data \<le> room d"
    by (simp_all add: hashing_room_def)
  then have "length m + length data < 2 ^ LENGTH(64)"
    using unsigned_less [of "exact_size h", where 'a = nat] by linarith
  then obtain sh where sh: "Sha256_Update (sha256 h) (Bytes data) = (True, sh)"
    using Sha256_Update_holds [OF d(3), of data] by auto
  from write_accepts [OF d(2) fit(2)] obtain d' where w: "wr d data = (True, d')" "room d' = room d" by blast
  have le: "bytes_written h \<le> exact_size h" using d by (simp add: word_le_nat_alt)
  then have "\<not> bytes_written h > exact_size h" "\<not> length data > unat (exact_size h - bytes_written h)"
    using fit(1) d(4) by (simp_all add: unat_sub)
  with d sh w show "\<exists>h'. hashing_Write wr h (Bytes data) = (True, h') \<and> hashing_room room h' = hashing_room room h"
    by (simp add: hashing_Write_def hashing_room_def)
qed

end

interpretation hashed_memory: accepting_sink
  "\<lambda>h data. hashing_Write memory_sink_write h (Bytes data)" "hashing_holds memory_holds n"
  "hashing_room (\<lambda>s. view_size (sink_buffer s))" for n
  by (rule memory.hashing_is_accepting)

lemma hashing_Finish_digest:
  assumes "hashing_holds R n h m" "hashing_Finish g h = (Some digest, h')"
  shows "digest = sha256_spec m \<and> length m = unat n"
proof -
  from assms(2) have f: "bytes_written h = exact_size h" "fst (Sha256_Final (sha256 h)) = Some digest"
    by (auto simp: hashing_Finish_def split: if_splits prod.splits)
  have len: "length m = unat n" using assms(1) f(1) by (auto simp: hashing_holds_def)
  have holds: "Sha256_holds (sha256 h) m" using assms(1) by (simp add: hashing_holds_def)
  from Sha256_Final_Some [OF this f(2)] len show ?thesis by simp
qed

text \<open>The framing of a body on the wire, by the two header fields.\<close>

definition framed :: "bool \<Rightarrow> u64 \<Rightarrow> bool \<Rightarrow> bytes \<Rightarrow> bytes \<Rightarrow> bool" where
  "framed has_content_length content_length is_chunked wire body \<longleftrightarrow>
     (if is_chunked then \<not> has_content_length \<and> chunked wire body
      else has_content_length \<and> wire = body \<and> length body = unat content_length)"

context body_sink
begin

lemma make_decoder_start:
  assumes "state (make_decoder hcl cl chk mx (Some s)) \<noteq> kFailed" "received s []"
  shows "passed_on (make_decoder hcl cl chk mx (Some s)) []"
    "decoder_ok (make_decoder hcl cl chk mx (Some s))"
    "config_ok (decoder_config (make_decoder hcl cl chk mx (Some s)))"
    "rest_of (decoder_config (make_decoder hcl cl chk mx (Some s))) w b \<longleftrightarrow> framed hcl cl chk w b"
  using assms
  by (auto simp: make_decoder_def passed_on_def decoder_ok_def config_ok_def decoder_config_def
      framed_def Let_def unat_gt_0 split: if_splits)

lemma complete_sound:
  assumes "received s []"
    and "feed_buffers wr BodyOk (make_decoder hcl cl chk mx (Some s)) bufs = (Complete, d')"
  shows "\<exists>body s'. framed hcl cl chk (concat bufs) body \<and> sink d' = Some s' \<and> received s' body
         \<and> unat (decoded_bytes d') = length body \<and> length body \<le> unat (maximum_body_bytes d')"
proof -
  let ?d = "make_decoder hcl cl chk mx (Some s)"
  have st: "state ?d \<noteq> kFailed"
  proof
    assume "state ?d = kFailed"
    with assms(2) show False by (cases bufs) (simp_all add: decoder_Feed_def)
  qed
  note start = make_decoder_start [OF st assms(1)]
  from feed_buffers_follows [OF start(1,2) _ assms(2)] obtain out where
    o: "wire_run (decoder_config ?d) (concat bufs) = Some (decoder_config d', out)" "passed_on d' out"
      "state d' = kComplete" by auto
  then have "rest_of (decoder_config ?d) (concat bufs) out"
    using start(3) by (intro wire_run_sound) (auto simp: decoder_config_def)
  with start(4) o(2) show ?thesis by (auto simp: passed_on_def)
qed

end

lemma chunked_functional: "chunked w b \<Longrightarrow> chunked w b' \<Longrightarrow> b = b'"
  using wire_run_chunked [of w b 0] wire_run_chunked [of w b' 0] by auto

lemma framed_functional: "framed hcl cl chk w b \<Longrightarrow> framed hcl cl chk w b' \<Longrightarrow> b = b'"
  by (auto simp: framed_def dest: chunked_functional split: if_splits)

context accepting_sink
begin

lemma complete_total:
  assumes "received s []" "framed hcl cl chk (concat bufs) body"
    and "length body \<le> unat mx" "length body \<le> room s"
  shows "\<exists>d' s'. feed_buffers wr BodyOk (make_decoder hcl cl chk mx (Some s)) bufs
             = (if bufs = [] then BodyOk else Complete, d')
         \<and> state d' = kComplete \<and> sink d' = Some s' \<and> received s' body
         \<and> unat (decoded_bytes d') = length body"
proof -
  let ?d = "make_decoder hcl cl chk mx (Some s)"
  have "unat cl = length body" if "\<not> chk" using assms(2) that by (simp add: framed_def)
  then have cl: "cl \<le> mx" "cl = 0 \<longleftrightarrow> body = []" if "\<not> chk"
    using assms(3) that by (auto simp: word_le_nat_alt unat_eq_0)
  have st: "state ?d \<noteq> kFailed"
    using assms(2) cl by (auto simp: framed_def make_decoder_def Let_def split: if_splits)
  note start = make_decoder_start [OF st assms(1)]
  have "\<exists>n l. wire_run (decoder_config ?d) (concat bufs) = Some ((kComplete, n, l), body)"
  proof (cases chk)
    case True
    then have "decoder_config ?d = (kChunkSize, 0, [])"
      using assms(2) by (simp add: decoder_config_def make_decoder_def framed_def Let_def)
    with True assms(2) wire_run_chunked [of "concat bufs" body 0] show ?thesis
      by (auto simp: framed_def)
  next
    case False
    then have c: "decoder_config ?d = (if body = [] then kComplete else kContentLength, length body, [])"
      "concat bufs = body"
      using assms(2) cl by (auto simp: decoder_config_def make_decoder_def framed_def Let_def)
    show ?thesis
    proof (cases "body = []")
      case True
      with c(1) show ?thesis unfolding c(2) by simp
    next
      case False
      with c wire_run_content [of body "length body" "[]"] show ?thesis by simp
    qed
  qed
  then obtain n l where run: "wire_run (decoder_config ?d) (concat bufs) = Some ((kComplete, n, l), body)"
    by blast
  have "\<exists>d'. feed_buffers wr BodyOk ?d bufs = (if bufs = [] then BodyOk else Complete, d') \<and> state d' = kComplete"
    by (rule feed_buffers_accepts [OF start(1,2) _ run])
      (use assms(3,4) in \<open>simp_all add: make_decoder_def Let_def\<close>)
  then obtain d' where d': "feed_buffers wr BodyOk ?d bufs = (if bufs = [] then BodyOk else Complete, d')"
    "state d' = kComplete" by blast
  show ?thesis
  proof (cases "bufs = []")
    case True
    then have "d' = ?d" "state ?d = kComplete" using d' by simp_all
    moreover have "body = []" using run True by simp
    ultimately show ?thesis using d' start(1) by (auto simp: passed_on_def)
  next
    case False
    with d' have f: "feed_buffers wr BodyOk ?d bufs = (Complete, d')" by simp
    from complete_sound [OF assms(1) f] obtain body' s' where
      b: "framed hcl cl chk (concat bufs) body'" "sink d' = Some s'" "received s' body'"
        "unat (decoded_bytes d') = length body'" by blast
    from framed_functional [OF b(1) assms(2)] b(2-4) d' show ?thesis by blast
  qed
qed

end

lemma make_memory_sink_empty: "memory_holds (make_memory_sink (Bytes buf)) []"
  by (simp add: memory_holds_def make_memory_sink_def memory_bytes_def)

lemma hashed_memory_empty:
  "n \<noteq> 0 \<Longrightarrow>
   hashing_holds memory_holds n (make_hashing_sink (Some (make_memory_sink (Bytes buf))) n) []"
  using sha.holds_init make_memory_sink_empty by (simp add: hashing_holds_def make_hashing_sink_def)

lemma hashing_Finish_total:
  assumes "hashing_holds R n h m" "length m = unat n" "length m \<le> (2 ^ 64 - 1) div 8"
  shows "\<exists>h'. hashing_Finish True h = (Some (sha256_spec m), h')"
proof -
  have "bytes_written h = exact_size h"
    using assms(1,2) by (auto simp: hashing_holds_def intro: unsigned_word_eqI [where 'a = nat])
  moreover have "fst (Sha256_Final (sha256 h)) = Some (sha256_spec m)"
    using assms by (intro Sha256_Final_holds) (simp_all add: hashing_holds_def)
  ultimately show ?thesis
    using assms(1) by (auto simp: hashing_Finish_def hashing_holds_def split: prod.splits)
qed

section \<open>Properties\<close>

text \<open>
  (C23) End to end: when a response body has been fed in any number of buffers through the decoder
  into a hashing sink in front of a memory sink, the decoder reports completion and the hashing
  sink yields a digest, then the wire bytes are a well-formed framing of some body, the memory
  sink holds exactly that body, the digest is its SHA-256, its length is the expected exact size
  and does not exceed the limit.
\<close>

theorem download_is_authentic:
  assumes feed: "feed_buffers (\<lambda>h data. hashing_Write memory_sink_write h (Bytes data)) BodyOk
        (make_decoder hcl cl chk mx (Some (make_hashing_sink (Some (make_memory_sink (Bytes buf))) n)))
        bufs = (Complete, d)"
    and sink: "sink d = Some h" "destination h = Some mem"
    and finish: "hashing_Finish True h = (Some digest, h')"
    and n: "n \<noteq> 0"
  shows "framed hcl cl chk (concat bufs) (memory_bytes mem)
         \<and> digest = sha256_spec (memory_bytes mem)
         \<and> length (memory_bytes mem) = unat n
         \<and> length (memory_bytes mem) \<le> unat (maximum_body_bytes d)"
proof -
  from hashed_memory.complete_sound [OF hashed_memory_empty [OF n] feed]
  obtain body where b: "framed hcl cl chk (concat bufs) body" "hashing_holds memory_holds n h body"
    "length body \<le> unat (maximum_body_bytes d)" using sink by auto
  then have "memory_bytes mem = body" using sink by (auto simp: hashing_holds_def memory_holds_def)
  with b hashing_Finish_digest [OF b(2) finish] show ?thesis by simp
qed

text \<open>
  (C24) Decoding succeeds for every splitting: whenever the wire bytes frame a body, the empty one
  included, that fits the limit and the buffer, feeding them in arbitrary pieces, empty ones
  included, completes with exactly that body in memory: every call reports success, the last one
  completion, and \<open>Finish\<close> confirms it. (With no call at all only an empty body with a
  \<open>Content-Length\<close> is framed; then \<open>Finish\<close> alone reports completion.)
\<close>

theorem body_decoding_total:
  assumes framed: "framed hcl cl chk (concat bufs) body"
    and fits: "length body \<le> unat mx" "length body \<le> length buf"
  shows "\<exists>d mem. feed_buffers memory_sink_write BodyOk
           (make_decoder hcl cl chk mx (Some (make_memory_sink (Bytes buf)))) bufs
             = (if bufs = [] then BodyOk else Complete, d)
         \<and> decoder_Finish d = (Complete, d)
         \<and> sink d = Some mem \<and> memory_bytes mem = body \<and> unat (decoded_bytes d) = length body"
proof -
  have "length body \<le> view_size (sink_buffer (make_memory_sink (Bytes buf)))"
    using fits by (simp add: make_memory_sink_def)
  from memory.complete_total [OF make_memory_sink_empty framed fits(1) this] obtain d mem where
    d: "feed_buffers memory_sink_write BodyOk
          (make_decoder hcl cl chk mx (Some (make_memory_sink (Bytes buf)))) bufs
        = (if bufs = [] then BodyOk else Complete, d)"
      "state d = kComplete" "sink d = Some mem" "memory_holds mem body"
      "unat (decoded_bytes d) = length body"
    by blast
  have "memory_bytes mem = body" using d(4) by (simp add: memory_holds_def)
  moreover have "decoder_Finish d = (Complete, d)" using d(2) by (simp add: decoder_Finish_def)
  ultimately show ?thesis using d(1,3,5) by blast
qed

definition sample_wire :: "bytes list" where
  "sample_wire = [ascii ''3'' @ [13], [10] @ ascii ''ab'', ascii ''c'' @ [13, 10] @ ascii ''0'', [13, 10, 13, 10]]"

lemma sample_wire_framed: "framed False 0 True (concat sample_wire) (ascii ''abc'')"
proof -
  have "chunked (ascii ''0'' @ [13, 10, 13, 10]) []"
    by (rule last_chunk) (simp add: size_line_def kChunkLineBytes_def hex_digit_def hex_value_def)
  then have "chunked (ascii ''3'' @ [13, 10] @ ascii ''abc'' @ [13, 10] @ ascii ''0'' @ [13, 10, 13, 10])
      (ascii ''abc'' @ [])"
    by (intro data_chunk) (simp_all add: size_line_def kChunkLineBytes_def hex_digit_def hex_value_def)
  then show ?thesis by (simp add: framed_def sample_wire_def)
qed

lemma completed_run:
  "\<exists>d mem. run = (if bs = [] then BodyOk else Complete, d) \<and> decoder_Finish d = (Complete, d)
     \<and> sink d = Some mem \<and> memory_bytes mem = body \<and> unat (decoded_bytes d) = length body
   \<Longrightarrow> bs \<noteq> [] \<Longrightarrow> \<exists>d mem. run = (Complete, d) \<and> sink d = Some mem \<and> memory_bytes mem = body"
  by auto

theorem body_decoding_total_witness:
  "(\<exists>d mem. feed_buffers memory_sink_write BodyOk
     (make_decoder False 0 True 100 (Some (make_memory_sink (Bytes (replicate 8 0))))) sample_wire
     = (Complete, d) \<and> sink d = Some mem \<and> memory_bytes mem = ascii ''abc'')
   \<and> (\<exists>d mem. feed_buffers memory_sink_write BodyOk
     (make_decoder True 0 False 100 (Some (make_memory_sink (Bytes (replicate 8 0))))) [[], []]
     = (Complete, d) \<and> sink d = Some mem \<and> memory_bytes mem = [])"
proof (intro conjI)
  show "\<exists>d mem. feed_buffers memory_sink_write BodyOk
     (make_decoder False 0 True 100 (Some (make_memory_sink (Bytes (replicate 8 0))))) sample_wire
     = (Complete, d) \<and> sink d = Some mem \<and> memory_bytes mem = ascii ''abc''"
    by (rule completed_run [OF body_decoding_total [OF sample_wire_framed]]) (simp_all add: sample_wire_def)
  have "framed True 0 False (concat [[], []]) []" by (simp add: framed_def)
  then show "\<exists>d mem. feed_buffers memory_sink_write BodyOk
     (make_decoder True 0 False 100 (Some (make_memory_sink (Bytes (replicate 8 0))))) [[], []]
     = (Complete, d) \<and> sink d = Some mem \<and> memory_bytes mem = []"
    by (rule completed_run [OF body_decoding_total]) simp_all
qed

theorem download_is_authentic_witness:
  "\<exists>d h mem digest h'.
     feed_buffers (\<lambda>h data. hashing_Write memory_sink_write h (Bytes data)) BodyOk
        (make_decoder False 0 True 100
           (Some (make_hashing_sink (Some (make_memory_sink (Bytes (replicate 8 0)))) 3))) sample_wire
       = (Complete, d) \<and> sink d = Some h \<and> destination h = Some mem
     \<and> hashing_Finish True h = (Some digest, h') \<and> digest = sha256_spec (memory_bytes mem)"
proof -
  let ?s = "make_hashing_sink (Some (make_memory_sink (Bytes (replicate 8 0)))) 3"
  have start: "hashing_holds memory_holds 3 ?s []" by (rule hashed_memory_empty) simp
  have room: "length (ascii ''abc'') \<le> hashing_room (\<lambda>s. view_size (sink_buffer s)) ?s"
    by (simp add: hashing_room_def make_hashing_sink_def make_memory_sink_def)
  obtain d where d: "feed_buffers (\<lambda>h data. hashing_Write memory_sink_write h (Bytes data)) BodyOk
        (make_decoder False 0 True 100 (Some ?s)) sample_wire = (Complete, d)"
    using hashed_memory.complete_total [OF start sample_wire_framed _ room, of 100]
    by (auto simp: sample_wire_def)
  from hashed_memory.complete_sound [OF start this] obtain body h where
    b: "framed False 0 True (concat sample_wire) body" "sink d = Some h" "hashing_holds memory_holds 3 h body"
    by blast
  from b(1) have "body = ascii ''abc''" by (rule framed_functional [OF _ sample_wire_framed])
  then obtain digest h' where f: "hashing_Finish True h = (Some digest, h')"
    using hashing_Finish_total [OF b(3)] by auto
  from b(3) obtain mem where m: "destination h = Some mem" by (auto simp: hashing_holds_def)
  have "digest = sha256_spec (memory_bytes mem)"
    using download_is_authentic [OF d b(2) m f] by simp
  with d b(2) m f show ?thesis by blast
qed

end
