(* ===== verification/Update_Orchestrator.thy ===== *)
theory Update_Orchestrator
  imports Update_Request Release_Offer Candidate_Health Http_Body
begin

text \<open>
  \<open>update_orchestrator.cpp\<close>: the three phases of an update. \<open>Start\<close> downloads, verifies, stages and
  arms an update and requests the candidate boot; \<open>ResumeAfterBoot\<close> judges the candidate and commits
  or rolls back; \<open>RetireCommitted\<close> removes the backup of a committed update. The objects the
  orchestrator calls are records of operations on the machine state \<open>'w\<close>; an absent object is \<open>None\<close>.
  An output parameter is part of the operation's answer. The archive transport is modelled by the
  pieces it hands to the sink, in order and up to the first one the sink refuses, and by the status
  it reports then.
\<close>

section \<open>Statuses and results\<close>

datatype UpdateOrchestratorPhase =
    PhaseNone | PhaseValidate | PhaseInspectJournal | PhasePersistRequest | PhaseDownload
  | PhaseVerifyStoredArchive | PhasePrepareConfiguration | PhaseStage | PhaseArmCandidate
  | PhaseRequestCandidateReboot | PhaseRestoreConfiguration | PhaseProbeHealth | PhaseMarkHealthy
  | PhaseCommit | PhaseRollback | PhaseRequestPreviousReboot | PhaseCleanup | PhaseRetirePrevious

datatype UpdateOrchestratorStatus =
    CandidateRebootRequested | UpdateCommitted | RollbackRebootRequested
  | InterruptedBeforeCandidateCleaned | OrchestratorInvalidArgument | AuthenticatedOfferInvalid
  | IdentityInvalid | ConsentInvalid | AuthorizationDenied | PlatformUnsupported
  | OrchestratorWorkspaceTooSmall | ReadinessBlocked | ReadinessProbeFailed | StorageBeginFailed
  | RequestPersistenceFailed | DownloadFailed | DownloadCanceled | DownloadVerificationFailed
  | StorageFinishFailed | StorageOpenFailed | StoredArchiveVerificationFailed | StorageCloseFailed
  | PreparedConfigFailed | PreparedConfigInvalid | InstallerStageFailed | InstallerArmFailed
  | CandidateRebootFailed | HealthProbeFailed | CandidateUnhealthy
  | InstallerHealthTransitionFailed | InstallerCommitFailed | InstallerRollbackFailed
  | RecoveryJournalInvalid | RecoveryDeactivationFailed | PreviousRebootFailed
  | OrchestratorRecoveryProgressFailed | PreviousRetentionFailed | PreviousRetired | CleanupFailed

datatype AuthenticatedReleaseValidationStatus =
    ReleaseAuthentic | ReleaseInvalidArgument | AuthenticationRejected

text \<open>Of the nested offer result only the status is kept; the detail statuses are not read here.\<close>

record AuthenticatedReleaseValidationResult =
  validation_status :: AuthenticatedReleaseValidationStatus
  validation_offer_status :: ReleaseOfferStatus

datatype UpdateRequestPersistenceStatus =
    PersistenceOk | PersistenceFailed | PersistenceProgressFailed

datatype CurrentConfigConsentStatus =
    ConfigConsentOk | ConfigReadFailed | ConfigInvalidOrBlocked | ConfigDigestFailed

record CurrentConfigConsentEvidence =
  evidence_consent_sha256 :: bytes
  evidence_configuration_status :: OfferConfigurationStatus

datatype AuthorizationConsentStatus =
    AuthorizationOk | AuthorizationInvalidArgument | AuthorizationNotExplicit
  | AuthorizationNetworkDisabled | AuthorizationNetworkNotReady | ConfigRevalidationFailed
  | ConfigBlocked | ConsentMismatch | ResetDecisionMismatch

record AuthorizationConsentResult =
  authorization_status :: AuthorizationConsentStatus
  authorization_start_decision :: UpdateStartDecision
  authorization_config_status :: CurrentConfigConsentStatus

datatype ArchiveFetchStatus = FetchOk | FetchFailed | FetchCanceled

datatype ArchiveStorageStatus =
    ArchiveOk | ArchiveFailed | ArchiveNotFound | ArchiveBusy | ArchiveProgressFailed

datatype InstallReadinessGateStatus = GateReady | GateBlocked | GateProbeFailed

record UpdateInstallReadinessResult =
  blockers :: u32
  readiness_demand :: StorageDemand
  readiness_storage :: StoragePreflightResult

datatype PreparedConfigProviderStatus =
    PreparedOk | PreparedInvalidBinding | PreparedSourceChanged | PreparedIoError
  | PreparedUnsupported | PreparedProgressFailed

datatype InstallerStatus =
    InstallerOk | AlreadyStaged | AlreadyArmed | AlreadyHealthy | AlreadyCommitted | AlreadyRetired
  | NothingToRollback | InstallerInvalidArgument | InstallerInvalidPath | InvalidManifest
  | RetentionInventoryMissing | RetentionConflict | InstallerInvalidIdentity
  | InstallerWorkspaceTooSmall | ArchiveIo | ArchiveHashMismatch | ArchiveInvalid
  | InventoryMismatch | StorageInsufficient | PreparedConfigRequired | InstallerConfigInvalid
  | ConfigChangedSinceConsent | FileSystemDurabilityUnsupported | InstallerFileSystemError
  | UnexpectedNodeType | KernelCollision | PreserveChanged | FileHashMismatch | JournalCorrupt
  | JournalConflict | JournalCodecError | JournalTransitionDenied | WrongState
  | CandidateBackendUnsupported | CandidateBackendError | RollbackEvidenceMissing
  | InstallerProgressFailed

text \<open>The status of the archive reader is only passed on; it is kept as its number.\<close>

record InstallerResult =
  installer_status :: InstallerStatus
  installer_zip_status :: u8
  installer_storage :: StoragePreflightResult
  installer_journal_selection :: JournalSelectionStatus
  installer_journal_state :: JournalState
  installer_completed_steps :: u32
  installer_total_steps :: u32

record UpdateOrchestratorResult =
  orchestrator_status :: UpdateOrchestratorStatus
  orchestrator_phase :: UpdateOrchestratorPhase
  fetch_status :: ArchiveFetchStatus
  storage_status :: ArchiveStorageStatus
  persistence_status :: UpdateRequestPersistenceStatus
  prepared_config_status :: PreparedConfigProviderStatus
  release_validation :: AuthenticatedReleaseValidationResult
  authorization :: AuthorizationConsentResult
  readiness_status :: InstallReadinessGateStatus
  readiness :: UpdateInstallReadinessResult
  health_status :: CandidateHealthStatus
  rollback_trigger :: UpdateOrchestratorStatus
  installer_result :: InstallerResult
  rollback_result :: InstallerResult
  rollback_cleanup_result :: InstallerResult
  verified_archive_bytes :: u64
  rollback_attempted :: bool
  orchestrator_failsafe_requested :: bool

section \<open>Progress reports\<close>

datatype UpdateRecoveryProgressKind =
    BootInitializationMilestone | RecoveryPrecheck | TransactionStateRead | TransactionPayloadRead
  | TransactionCleanup | PreparedEvidenceRead | PreparedFileVerified | PreparedCleanup
  | CandidateFileHashed | CandidateJournalRead | InstallerFileHashed | InstallerFileCopied
  | InstallerJournalPersisted | InstallerCommitStep | InstallerRollbackStep | ArchiveCleanup
  | StoredArchiveHashed | CandidateRebootCheckpoint | ForegroundDownloadMutationCheckpoint
  | ForegroundRetireMutationCheckpoint | PreparedArchiveInitialHashed | PreparedArchiveFinalHashed
  | InstallerArchiveHashed | CandidateEvidenceRead | CandidateHealthEvaluated
  | CandidateRollbackDecision | ForegroundStageComplete | CandidateRollbackComplete
  | InstallerStageOverall | InstallerContentPlanSummary

text \<open>
  The two numbers of a report that are enumeration values in the code are kept as such.
\<close>

datatype progress_detail =
    Amount u64 | HealthDetail CandidateHealthStatus | ProbeDetail CandidateHealthProbeStatus
  | TriggerDetail UpdateOrchestratorStatus | InstallerDetail InstallerStatus

record UpdateRecoveryProgressEvent =
  event_kind :: UpdateRecoveryProgressKind
  event_completed :: progress_detail
  event_total :: progress_detail

record 'w UpdateRecoveryProgress =
  BeginMandatoryOperation :: "'w \<Rightarrow> 'w"
  EndMandatoryOperation :: "'w \<Rightarrow> 'w"
  Report :: "UpdateRecoveryProgressEvent \<Rightarrow> 'w \<Rightarrow> bool \<times> 'w"

text \<open>\<open>ScopedMandatoryUpdateRecoveryOperation\<close>: the brackets around a block.\<close>

definition scoped_mandatory ::
  "'w UpdateRecoveryProgress option \<Rightarrow> ('w \<Rightarrow> 'r \<times> 'w) \<Rightarrow> 'w \<Rightarrow> 'r \<times> 'w" where
  "scoped_mandatory progress block w =
     (case progress of
        None \<Rightarrow> block w
      | Some p \<Rightarrow>
          (case block (BeginMandatoryOperation p w) of (r, w') \<Rightarrow> (r, EndMandatoryOperation p w')))"

definition ReportUpdateRecoveryProgress ::
  "'w UpdateRecoveryProgress option \<Rightarrow> UpdateRecoveryProgressKind \<Rightarrow> progress_detail \<Rightarrow> progress_detail
   \<Rightarrow> 'w \<Rightarrow> bool \<times> 'w" where
  "ReportUpdateRecoveryProgress progress k completed whole w =
     (case progress of
        None \<Rightarrow> (True, w)
      | Some p \<Rightarrow> Report p \<lparr>event_kind = k, event_completed = completed, event_total = whole\<rparr> w)"

section \<open>The objects the orchestrator calls\<close>

record 'w archive_transport =
  fetch_pieces :: "cstring \<Rightarrow> u64 \<Rightarrow> 'w \<Rightarrow> byte_view list \<times> 'w"
  fetch_end :: "bool \<Rightarrow> 'w \<Rightarrow> ArchiveFetchStatus \<times> 'w"

text \<open>
  The archive storage and the read access it hands out. \<open>ReadAt\<close> answers with the bytes of the
  destination by index.
\<close>

record 'w UpdateArchiveStorage =
  storage_Begin :: "AuthenticatedUpdateBinding \<Rightarrow> 'w \<Rightarrow> ArchiveStorageStatus \<times> 'w"
  storage_Write :: "'w \<Rightarrow> bytes \<Rightarrow> bool \<times> 'w"
  storage_Finish :: "'w \<Rightarrow> ArchiveStorageStatus \<times> 'w"
  storage_Abort :: "'w \<Rightarrow> 'w"
  storage_OpenRead ::
    "AuthenticatedUpdateBinding \<Rightarrow> 'w \<Rightarrow> (ArchiveStorageStatus \<times> zip_source option) \<times> 'w"
  storage_CloseRead :: "'w \<Rightarrow> ArchiveStorageStatus \<times> 'w"
  storage_Discard :: "AuthenticatedUpdateBinding \<Rightarrow> bool \<Rightarrow> 'w \<Rightarrow> ArchiveStorageStatus \<times> 'w"
  source_GetSize :: "zip_source \<Rightarrow> 'w \<Rightarrow> u64 option \<times> 'w"
  source_ReadAt :: "zip_source \<Rightarrow> u64 \<Rightarrow> nat \<Rightarrow> 'w \<Rightarrow> (nat \<Rightarrow> byte) option \<times> 'w"

record 'w UpdateRequestPersistence =
  Persist :: "AuthenticatedUpdateRequest \<Rightarrow> 'w \<Rightarrow> UpdateRequestPersistenceStatus \<times> 'w"
  DiscardPersisted :: "AuthenticatedUpdateBinding \<Rightarrow> bool \<Rightarrow> 'w \<Rightarrow> UpdateRequestPersistenceStatus \<times> 'w"
  DeactivatePersisted :: "bool \<Rightarrow> 'w \<Rightarrow> UpdateRequestPersistenceStatus \<times> 'w"
  RetainCommitted :: "AuthenticatedUpdateBinding \<Rightarrow> bool \<Rightarrow> 'w \<Rightarrow> UpdateRequestPersistenceStatus \<times> 'w"
  DiscardRetainedCommitted ::
    "AuthenticatedUpdateBinding \<Rightarrow> bool \<Rightarrow> 'w \<Rightarrow> UpdateRequestPersistenceStatus \<times> 'w"

record 'w PreparedConfigProvider =
  PrepareForStage ::
    "AuthenticatedUpdateBinding \<Rightarrow> ReleaseManifest \<Rightarrow> zip_source \<Rightarrow> bool \<Rightarrow> 'w
     \<Rightarrow> (PreparedConfigProviderStatus \<times> PreparedConfigSet option) \<times> 'w"
  RestoreForResume ::
    "AuthenticatedUpdateBinding \<Rightarrow> ReleaseManifest \<Rightarrow> bool \<Rightarrow> 'w
     \<Rightarrow> (PreparedConfigProviderStatus \<times> PreparedConfigSet option) \<times> 'w"
  prepared_Discard :: "AuthenticatedUpdateBinding \<Rightarrow> bool \<Rightarrow> 'w \<Rightarrow> PreparedConfigProviderStatus \<times> 'w"

record 'w UpdateInstallOperations =
  installer_ReadJournal :: "cstring option \<Rightarrow> 'w \<Rightarrow> (InstallerResult \<times> JournalRecord) \<times> 'w"
  installer_Stage :: "InstallerRequest \<Rightarrow> InstallerWorkspace \<Rightarrow> 'w \<Rightarrow> InstallerResult \<times> 'w"
  installer_ArmCandidate :: "InstallerRequest \<Rightarrow> 'w \<Rightarrow> InstallerResult \<times> 'w"
  installer_MarkCandidateHealthy :: "InstallerRequest \<Rightarrow> 'w \<Rightarrow> InstallerResult \<times> 'w"
  installer_Commit :: "InstallerRequest \<Rightarrow> InstallerWorkspace \<Rightarrow> 'w \<Rightarrow> InstallerResult \<times> 'w"
  installer_Rollback :: "InstallerRequest \<Rightarrow> InstallerWorkspace \<Rightarrow> 'w \<Rightarrow> InstallerResult \<times> 'w"
  installer_RetireRolledBack :: "InstallerRequest \<Rightarrow> InstallerWorkspace \<Rightarrow> 'w \<Rightarrow> InstallerResult \<times> 'w"
  installer_RetireCommitted :: "InstallerRequest \<Rightarrow> InstallerWorkspace \<Rightarrow> 'w \<Rightarrow> InstallerResult \<times> 'w"

record 'w UpdateRebootControl =
  reboot_OneShotRecoverySupported :: "'w \<Rightarrow> bool \<times> 'w"
  reboot_RequestReboot :: "UpdateRebootTarget \<Rightarrow> AuthenticatedUpdateBinding \<Rightarrow> 'w \<Rightarrow> bool \<times> 'w"
  reboot_RequestPreviousBootFailSafe :: "'w \<Rightarrow> bool \<times> 'w"

record 'w UpdateOrchestrator =
  release_validator ::
    "(ValidatedReleaseDownload \<Rightarrow> BoardFamily \<Rightarrow> 'w
      \<Rightarrow> (AuthenticatedReleaseValidationResult \<times> ReleaseOffer) \<times> 'w) option"
  authorization_gate ::
    "(AuthenticatedUpdateRequest \<Rightarrow> ReleaseOffer \<Rightarrow> 'w
      \<Rightarrow> (AuthorizationConsentResult \<times> SealedUpdateAuthorization) \<times> 'w) option"
  readiness_gate ::
    "(AuthenticatedUpdateBinding \<Rightarrow> ReleaseManifest \<Rightarrow> UpdateInstallReadinessResult \<Rightarrow> 'w
      \<Rightarrow> (InstallReadinessGateStatus \<times> UpdateInstallReadinessResult) \<times> 'w) option"
  transport :: "'w archive_transport option"
  storage :: "'w UpdateArchiveStorage option"
  request_persistence :: "'w UpdateRequestPersistence option"
  prepared_configs :: "'w PreparedConfigProvider option"
  installer :: "'w UpdateInstallOperations option"
  health_probe ::
    "(AuthenticatedUpdateBinding \<Rightarrow> ReleaseManifest \<Rightarrow> 'w \<Rightarrow> (bool \<times> CandidateHealthEvidence) \<times> 'w) option"
  reboot_object :: "'w UpdateRebootControl option"

text \<open>Scratch memory that is only tested for presence is \<open>unit option\<close>.\<close>

record 'p UpdateOrchestratorWorkspace =
  installer_workspace :: InstallerWorkspace
  release_offer :: "unit option"
  verification_buffer :: byte_view
  recovery_progress :: "'p option"

definition kMinimumOrchestratorBufferBytes :: nat where "kMinimumOrchestratorBufferBytes = 4096"
definition kInstallerMinimumIoBufferBytes :: nat where "kInstallerMinimumIoBufferBytes = 4096"
definition kZipMaximumEntries :: nat where "kZipMaximumEntries = 2048"

section \<open>Helpers\<close>

definition OrchestratorWorkspaceValid :: "'p UpdateOrchestratorWorkspace \<Rightarrow> bool \<Rightarrow> bool" where
  "OrchestratorWorkspaceValid ws start_phase =
     (if release_offer ws = None \<or> view_null (verification_buffer ws)
         \<or> view_size (verification_buffer ws) < kMinimumOrchestratorBufferBytes
         \<or> view_null (io_buffer (installer_workspace ws))
         \<or> view_size (io_buffer (installer_workspace ws)) < kInstallerMinimumIoBufferBytes
      then False
      else if \<not> start_phase then recovery_progress ws \<noteq> None
      else zip_entries_given (installer_workspace ws) \<and> expected_files_given (installer_workspace ws)
        \<and> zip_workspace_given (installer_workspace ws))"

definition WorkspaceFitsManifest :: "'p UpdateOrchestratorWorkspace \<Rightarrow> ReleaseManifest \<Rightarrow> bool" where
  "WorkspaceFitsManifest ws m =
     (let a = manifest_asset m; i = installer_workspace ws;
          file_count = array_count (archive_files a); directory_count = array_count (archive_directories a)
      in if file_count > kZipMaximumEntries \<or> directory_count > kZipMaximumEntries - file_count then False
         else zip_entry_capacity i \<ge> file_count + directory_count
           \<and> expected_file_capacity i \<ge> file_count
           \<and> (directory_count = 0
              \<or> (expected_directories_given i \<and> expected_directory_capacity i \<ge> directory_count)))"

lemma rehash_advance:
  fixes offset sz :: u64
  assumes "offset < sz" "0 < n" "cnt = (if unat (sz - offset) < n then unat (sz - offset) else n)"
  shows "unat (offset + of_nat cnt) = unat offset + cnt" "0 < cnt" "unat offset + cnt \<le> unat sz"
proof -
  have d: "unat (sz - offset) = unat sz - unat offset" "unat offset < unat sz"
    using assms(1) by (simp_all add: unat_sub word_less_nat_alt order_less_imp_le)
  then show c: "0 < cnt" "unat offset + cnt \<le> unat sz" using assms(2,3) by auto
  have l: "unat sz < 2 ^ 64" using unsigned_less [of sz, where 'a = nat] by simp
  then have "unat (of_nat cnt :: u64) = cnt" using c by (simp add: unsigned_of_nat take_bit_nat_eq_self)
  then show "unat (offset + of_nat cnt) = unat offset + cnt"
    using c l by (simp add: unat_add_exact)
qed

text \<open>
  The loop of \<open>RehashStoredArchive\<close>: \<open>size\<close> is the size of the archive, \<open>n\<close> the size of the buffer.
  \<open>Inl\<close> is a return with the flag \<open>progress_failed\<close>, \<open>Inr\<close> the hash after the last piece.
\<close>

function rehash_loop ::
  "'w UpdateArchiveStorage \<Rightarrow> 'w UpdateRecoveryProgress option \<Rightarrow> zip_source \<Rightarrow> nat \<Rightarrow> u64 \<Rightarrow> u64
   \<Rightarrow> Sha256 \<Rightarrow> 'w \<Rightarrow> (bool + Sha256) \<times> 'w" where
  "rehash_loop st progress src n sz offset hash w =
     (if n = 0 \<or> \<not> offset < sz then (Inr hash, w)
      else
        (let remaining = sz - offset; count = (if unat remaining < n then unat remaining else n)
         in case source_ReadAt st src offset count w of
              (None, w1) \<Rightarrow> (Inl False, w1)
            | (Some f, w1) \<Rightarrow>
                (case Sha256_Update hash (Bytes (map f [0..<count])) of
                   (False, h) \<Rightarrow> (Inl False, w1)
                 | (True, h) \<Rightarrow>
                     (case ReportUpdateRecoveryProgress progress StoredArchiveHashed
                             (Amount (offset + of_nat count)) (Amount sz) w1 of
                        (False, w2) \<Rightarrow> (Inl True, w2)
                      | (True, w2) \<Rightarrow>
                          rehash_loop st progress src n sz (offset + of_nat count) h w2))))"
  by pat_completeness auto

termination
proof (relation "measure (\<lambda>(st, progress, src, n, sz, offset, hash, w). unat sz - unat offset)", goal_cases)
  case (2 st progress src n sz offset hash w x xa x1 x2 x2a x1a x2b x1b x2c)
  then show ?case
    using rehash_advance [of offset sz n xa] by auto
qed simp

declare rehash_loop.simps [simp del]

text \<open>The verified size (0 before success), whether the report failed, and the answer.\<close>

definition RehashStoredArchive ::
  "'w UpdateArchiveStorage \<Rightarrow> zip_source option \<Rightarrow> AuthenticatedUpdateBinding \<Rightarrow> byte_view
   \<Rightarrow> 'w UpdateRecoveryProgress option \<Rightarrow> 'w \<Rightarrow> (bool \<times> u64 \<times> bool) \<times> 'w" where
  "RehashStoredArchive st source binding buffer progress w =
     (case source of
        None \<Rightarrow> ((False, 0, False), w)
      | Some src \<Rightarrow>
          if view_null buffer \<or> view_size buffer = 0 then ((False, 0, False), w)
          else
            (case source_GetSize st src w of
               (None, w1) \<Rightarrow> ((False, 0, False), w1)
             | (Some sz, w1) \<Rightarrow>
                 if sz \<noteq> bound_archive_size binding then ((False, 0, False), w1)
                 else
                   (case rehash_loop st progress src (view_size buffer) sz 0 Sha256_Reset w1 of
                      (Inl progress_failed, w2) \<Rightarrow> ((False, 0, progress_failed), w2)
                    | (Inr hash, w2) \<Rightarrow>
                        (case fst (Sha256_Final hash) of
                           None \<Rightarrow> ((False, 0, False), w2)
                         | Some digest \<Rightarrow>
                             if \<not> ConstantTimeDigestEqual (Some digest) (Some (bound_archive_sha256 binding))
                             then ((False, 0, False), w2)
                             else ((True, sz, False), w2)))))"

definition InvalidInstallerResult :: InstallerResult where
  "InvalidInstallerResult =
     \<lparr>installer_status = InstallerInvalidArgument, installer_zip_status = 1,
      installer_storage = MakeResult Sufficient 0, installer_journal_selection = NoJournal,
      installer_journal_state = JIdle, installer_completed_steps = 0, installer_total_steps = 0\<rparr>"

definition no_demand :: StorageDemand where
  "no_demand =
     \<lparr>zip_download_bytes = 0, staged_files_bytes = 0, snapshot_bytes = 0, largest_temporary_file_bytes = 0,
      metadata_journal_log_bytes = 0, safety_reserve_bytes = 0, manifest_required_peak_bytes = 0\<rparr>"

definition OrchestratorInitialResult :: UpdateOrchestratorResult where
  "OrchestratorInitialResult =
     \<lparr>orchestrator_status = OrchestratorInvalidArgument, orchestrator_phase = PhaseNone,
      fetch_status = FetchFailed, storage_status = ArchiveFailed, persistence_status = PersistenceFailed,
      prepared_config_status = PreparedUnsupported,
      release_validation =
        \<lparr>validation_status = ReleaseInvalidArgument, validation_offer_status = OfferInvalidArgument\<rparr>,
      authorization =
        \<lparr>authorization_status = AuthorizationInvalidArgument,
         authorization_start_decision = NotExplicitUserAction,
         authorization_config_status = ConfigInvalidOrBlocked\<rparr>,
      readiness_status = GateProbeFailed,
      readiness = \<lparr>blockers = 0, readiness_demand = no_demand, readiness_storage = MakeResult InvalidLimits 0\<rparr>,
      health_status = JournalUnavailable, rollback_trigger = OrchestratorInvalidArgument,
      installer_result = InvalidInstallerResult, rollback_result = InvalidInstallerResult,
      rollback_cleanup_result = InvalidInstallerResult, verified_archive_bytes = 0,
      rollback_attempted = False, orchestrator_failsafe_requested = False\<rparr>"

definition readiness_ready :: "UpdateInstallReadinessResult \<Rightarrow> bool" where
  "readiness_ready r \<longleftrightarrow> blockers r = 0"

definition StageAccepted :: "InstallerStatus \<Rightarrow> bool" where
  "StageAccepted s \<longleftrightarrow> s = InstallerOk \<or> s = AlreadyStaged"

definition ArmAccepted :: "InstallerStatus \<Rightarrow> bool" where
  "ArmAccepted s \<longleftrightarrow> s = InstallerOk \<or> s = AlreadyArmed"

definition HealthMarkAccepted :: "InstallerStatus \<Rightarrow> bool" where
  "HealthMarkAccepted s \<longleftrightarrow> s = InstallerOk \<or> s = AlreadyHealthy"

definition CommitAccepted :: "InstallerStatus \<Rightarrow> bool" where
  "CommitAccepted s \<longleftrightarrow> s = InstallerOk \<or> s = AlreadyCommitted"

definition RollbackAccepted :: "InstallerStatus \<Rightarrow> bool" where
  "RollbackAccepted s \<longleftrightarrow> s = InstallerOk \<or> s = NothingToRollback"

definition RolledBackRetirementAccepted :: "InstallerStatus \<Rightarrow> bool" where
  "RolledBackRetirementAccepted s \<longleftrightarrow> s = InstallerOk \<or> s = AlreadyRetired"

definition InstallerProgressOr ::
  "InstallerStatus \<Rightarrow> UpdateOrchestratorStatus \<Rightarrow> UpdateOrchestratorStatus" where
  "InstallerProgressOr s fallback =
     (if s = InstallerProgressFailed then OrchestratorRecoveryProgressFailed else fallback)"

definition HasTransactionJournal :: "InstallerResult \<Rightarrow> bool" where
  "HasTransactionJournal r \<longleftrightarrow>
     installer_journal_selection r = SelectedA \<or> installer_journal_selection r = SelectedB
     \<or> installer_journal_selection r = SelectedEquivalentCopies"

definition HealthEvidenceBound :: "CandidateHealthEvidence \<Rightarrow> ReleaseManifest \<Rightarrow> bool" where
  "HealthEvidenceBound e m \<longleftrightarrow>
     manifest_board e = archive_board (manifest_asset m)
     \<and> Candidate_Health.target_release_sequence e = manifest_release_sequence m
     \<and> Candidate_Health.minimum_updater_abi e = manifest_minimum_abi m
     \<and> Candidate_Health.maximum_updater_abi e = manifest_maximum_abi m"

text \<open>
  The cleanups. Each is bracketed as mandatory and stops at the first owner that fails; the answer
  is the result structure with the statuses so far and whether all succeeded.
\<close>

type_synonym 'w outcome = "(bool \<times> UpdateOrchestratorResult) \<times> 'w"

definition discard_archive_and_configs ::
  "'w UpdateArchiveStorage \<Rightarrow> 'w PreparedConfigProvider \<Rightarrow> AuthenticatedUpdateBinding \<Rightarrow> bool
   \<Rightarrow> UpdateOrchestratorResult \<Rightarrow> 'w \<Rightarrow> 'w outcome" where
  "discard_archive_and_configs st pc binding given result w =
     (case storage_Discard st binding given w of
        (s, w1) \<Rightarrow>
          let r1 = result\<lparr>storage_status := s\<rparr>
          in if s \<noteq> ArchiveOk then ((False, r1), w1)
             else
               (case prepared_Discard pc binding given w1 of
                  (p, w2) \<Rightarrow> ((p = PreparedOk, r1\<lparr>prepared_config_status := p\<rparr>), w2)))"

definition discard_request ::
  "'w UpdateRequestPersistence \<Rightarrow> AuthenticatedUpdateBinding \<Rightarrow> bool \<Rightarrow> UpdateOrchestratorResult \<Rightarrow> 'w
   \<Rightarrow> 'w outcome" where
  "discard_request q binding given result w =
     (case DiscardPersisted q binding given w of
        (s, w1) \<Rightarrow> ((s = PersistenceOk, result\<lparr>persistence_status := s\<rparr>), w1))"

definition CleanupTransaction ::
  "'w UpdateOrchestrator \<Rightarrow> AuthenticatedUpdateBinding \<Rightarrow> 'w UpdateRecoveryProgress option
   \<Rightarrow> UpdateOrchestratorResult \<Rightarrow> 'w \<Rightarrow> 'w outcome" where
  "CleanupTransaction orc binding progress result w =
     (case (storage orc, request_persistence orc, prepared_configs orc) of
        (Some st, Some q, Some pc) \<Rightarrow>
          scoped_mandatory progress (\<lambda>w.
            case discard_archive_and_configs st pc binding (progress \<noteq> None) result w of
              ((False, r), w1) \<Rightarrow> ((False, r), w1)
            | ((True, r), w1) \<Rightarrow> discard_request q binding (progress \<noteq> None) r w1) w
      | _ \<Rightarrow> ((False, result), w))"

definition CleanupRolledBackTransaction ::
  "'w UpdateOrchestrator \<Rightarrow> InstallerRequest \<Rightarrow> InstallerWorkspace \<Rightarrow> AuthenticatedUpdateBinding
   \<Rightarrow> 'w UpdateRecoveryProgress option \<Rightarrow> UpdateOrchestratorResult \<Rightarrow> 'w \<Rightarrow> 'w outcome" where
  "CleanupRolledBackTransaction orc request iws binding progress result w =
     (case (storage orc, request_persistence orc, prepared_configs orc, installer orc) of
        (Some st, Some q, Some pc, Some ins) \<Rightarrow>
          scoped_mandatory progress (\<lambda>w.
            case discard_archive_and_configs st pc binding (progress \<noteq> None) result w of
              ((False, r), w1) \<Rightarrow> ((False, r), w1)
            | ((True, r), w1) \<Rightarrow>
                (case installer_RetireRolledBack ins request iws w1 of
                   (ir, w2) \<Rightarrow>
                     let r1 = r\<lparr>rollback_cleanup_result := ir\<rparr>
                     in if \<not> RolledBackRetirementAccepted (installer_status ir) then ((False, r1), w2)
                        else discard_request q binding (progress \<noteq> None) r1 w2)) w
      | _ \<Rightarrow> ((False, result), w))"

definition RetainCommittedTransaction ::
  "'w UpdateOrchestrator \<Rightarrow> AuthenticatedUpdateBinding \<Rightarrow> 'w UpdateRecoveryProgress option
   \<Rightarrow> UpdateOrchestratorResult \<Rightarrow> 'w \<Rightarrow> 'w outcome" where
  "RetainCommittedTransaction orc binding progress result w =
     (case (storage orc, request_persistence orc, prepared_configs orc) of
        (Some st, Some q, Some pc) \<Rightarrow>
          scoped_mandatory progress (\<lambda>w.
            case discard_archive_and_configs st pc binding (progress \<noteq> None) result w of
              ((False, r), w1) \<Rightarrow> ((False, r), w1)
            | ((True, r), w1) \<Rightarrow>
                (case RetainCommitted q binding (progress \<noteq> None) w1 of
                   (s, w2) \<Rightarrow> ((s = PersistenceOk, r\<lparr>persistence_status := s\<rparr>), w2))) w
      | _ \<Rightarrow> ((False, result), w))"

definition CleanupFailureStatus :: "UpdateOrchestratorResult \<Rightarrow> UpdateOrchestratorStatus" where
  "CleanupFailureStatus r =
     (if storage_status r \<noteq> ArchiveOk
        then (if storage_status r = ArchiveProgressFailed then OrchestratorRecoveryProgressFailed else CleanupFailed)
      else if prepared_config_status r \<noteq> PreparedOk
        then (if prepared_config_status r = PreparedProgressFailed then OrchestratorRecoveryProgressFailed
              else CleanupFailed)
      else if persistence_status r \<noteq> PersistenceOk
        then (if persistence_status r = PersistenceProgressFailed then OrchestratorRecoveryProgressFailed
              else CleanupFailed)
      else CleanupFailed)"

definition RolledBackCleanupFailureStatus :: "UpdateOrchestratorResult \<Rightarrow> UpdateOrchestratorStatus" where
  "RolledBackCleanupFailureStatus r =
     (if storage_status r \<noteq> ArchiveOk \<or> prepared_config_status r \<noteq> PreparedOk then CleanupFailureStatus r
      else if \<not> RolledBackRetirementAccepted (installer_status (rollback_cleanup_result r))
        then (if installer_status (rollback_cleanup_result r) = InstallerProgressFailed
              then OrchestratorRecoveryProgressFailed else CleanupFailed)
      else CleanupFailureStatus r)"

definition DiscardDownloadedRequest ::
  "'w UpdateOrchestrator \<Rightarrow> AuthenticatedUpdateBinding \<Rightarrow> 'w UpdateRecoveryProgress option
   \<Rightarrow> UpdateOrchestratorResult \<Rightarrow> 'w \<Rightarrow> 'w outcome" where
  "DiscardDownloadedRequest orc binding progress result w =
     (case (storage orc, request_persistence orc) of
        (Some st, Some q) \<Rightarrow>
          scoped_mandatory progress (\<lambda>w.
            case storage_Discard st binding (progress \<noteq> None) w of
              (s, w1) \<Rightarrow>
                let r1 = result\<lparr>storage_status := s\<rparr>
                in if s \<noteq> ArchiveOk then ((False, r1), w1)
                   else discard_request q binding (progress \<noteq> None) r1 w1) w
      | _ \<Rightarrow> ((False, result), w))"

definition AbortDownloadAndDiscardRequest ::
  "'w UpdateOrchestrator \<Rightarrow> AuthenticatedUpdateBinding \<Rightarrow> 'w UpdateRecoveryProgress option
   \<Rightarrow> UpdateOrchestratorResult \<Rightarrow> 'w \<Rightarrow> 'w outcome" where
  "AbortDownloadAndDiscardRequest orc binding progress result w =
     (case (storage orc, request_persistence orc) of
        (Some st, Some q) \<Rightarrow>
          scoped_mandatory progress (\<lambda>w.
            discard_request q binding (progress \<noteq> None) result (storage_Abort st w)) w
      | _ \<Rightarrow> ((False, result), w))"

definition DeactivatePendingRequest ::
  "'w UpdateRequestPersistence option \<Rightarrow> 'w UpdateRecoveryProgress option \<Rightarrow> UpdateOrchestratorResult \<Rightarrow> 'w
   \<Rightarrow> 'w outcome" where
  "DeactivatePendingRequest persistence progress result w =
     scoped_mandatory progress (\<lambda>w.
       case (case persistence of
               None \<Rightarrow> (PersistenceFailed, w)
             | Some q \<Rightarrow> DeactivatePersisted q (progress \<noteq> None) w) of
         (s, w1) \<Rightarrow>
           let r1 = result\<lparr>persistence_status := s\<rparr>
           in if s \<noteq> PersistenceOk
              then ((False, r1\<lparr>orchestrator_status :=
                      (if s = PersistenceProgressFailed then OrchestratorRecoveryProgressFailed
                       else RecoveryDeactivationFailed)\<rparr>), w1)
              else ((True, r1), w1)) w"

text \<open>The brackets use the progress object of the installer request, which is the given one.\<close>

definition MandatoryRollback ::
  "'w UpdateInstallOperations option \<Rightarrow> 'w UpdateRecoveryProgress option \<Rightarrow> InstallerRequest
   \<Rightarrow> InstallerWorkspace \<Rightarrow> 'w \<Rightarrow> InstallerResult \<times> 'w" where
  "MandatoryRollback ins progress request iws w =
     (case ins of
        None \<Rightarrow> (InvalidInstallerResult, w)
      | Some i \<Rightarrow> scoped_mandatory progress (installer_Rollback i request iws) w)"

definition RequestPreviousFailSafe ::
  "'w UpdateOrchestrator \<Rightarrow> UpdateOrchestratorStatus \<Rightarrow> 'w UpdateRecoveryProgress option
   \<Rightarrow> UpdateOrchestratorResult \<Rightarrow> 'w \<Rightarrow> UpdateOrchestratorResult \<times> 'w" where
  "RequestPreviousFailSafe orc trigger progress result w =
     (let r0 = result\<lparr>rollback_trigger := trigger, orchestrator_phase := PhaseRequestPreviousReboot\<rparr>
      in case DeactivatePendingRequest (request_persistence orc) progress r0 w of
           ((False, r1), w1) \<Rightarrow> (r1, w1)
         | ((True, r1), w1) \<Rightarrow>
             (let r2 = r1\<lparr>orchestrator_failsafe_requested := True\<rparr>
              in case reboot_object orc of
                   None \<Rightarrow> (r2\<lparr>orchestrator_status := PreviousRebootFailed\<rparr>, w1)
                 | Some rb \<Rightarrow>
                     (case reboot_RequestPreviousBootFailSafe rb w1 of
                        (False, w2) \<Rightarrow> (r2\<lparr>orchestrator_status := PreviousRebootFailed\<rparr>, w2)
                      | (True, w2) \<Rightarrow> (r2\<lparr>orchestrator_status := trigger\<rparr>, w2))))"

definition validation_failure :: "RequestValidation \<Rightarrow> UpdateOrchestratorStatus" where
  "validation_failure v =
     (if v = RequestInvalidArgument then OrchestratorInvalidArgument
      else if v = RequestOfferInvalid then AuthenticatedOfferInvalid
      else if v = RequestIdentityInvalid then IdentityInvalid
      else ConsentInvalid)"

section \<open>The gates\<close>

text \<open>
  \<open>RawAuthenticatedReleaseValidator::Revalidate\<close>: the trusted keys, the verifier and the parser
  storage are the members of the object. The caller's offer is left alone when no offer was built.
\<close>

definition Revalidate ::
  "repository \<Rightarrow> TrustedReleaseKey array_view \<Rightarrow> verify_function option \<Rightarrow> ReleaseOfferStorage
   \<Rightarrow> ValidatedReleaseDownload \<Rightarrow> BoardFamily \<Rightarrow> ReleaseOffer option
   \<Rightarrow> AuthenticatedReleaseValidationResult \<times> ReleaseOffer option" where
  "Revalidate r keys verify parser_storage d running fresh_offer =
     (let invalid = \<lparr>validation_status = ReleaseInvalidArgument, validation_offer_status = OfferInvalidArgument\<rparr>
      in if fresh_offer = None \<or> \<not> AcquisitionModeValid (download_mode d)
            \<or> view_null (download_build_info d) \<or> view_size (download_build_info d) = 0
            \<or> view_null (download_github_response d) \<or> view_size (download_github_response d) = 0
            \<or> view_null (download_manifest d) \<or> view_size (download_manifest d) = 0
            \<or> view_null (download_signature d) \<or> view_size (download_signature d) = 0
            \<or> \<not> IsKnownBoardFamily running
            \<or> (case keys of NullArray n \<Rightarrow> True | Array ks \<Rightarrow> ks = []) \<or> verify = None
         then (invalid, fresh_offer)
         else
           (case BuildReleaseOfferForMode r (download_build_info d) (download_github_response d)
                   (download_manifest d) (download_signature d) running (download_mode d) keys verify
                   parser_storage True of
              (result, offer) \<Rightarrow>
                (\<lparr>validation_status =
                    (if offer_status result = OfferOk then ReleaseAuthentic else AuthenticationRejected),
                  validation_offer_status = offer_status result\<rparr>,
                 (if offer = None then fresh_offer else offer))))"

text \<open>\<open>ForegroundNetworkAuthorizationConsentGate\<close>: its two sources and its one operation.\<close>

type_synonym 'w foreground_source = "u64 \<Rightarrow> 'w \<Rightarrow> (bool \<times> UpdateStartContext) \<times> 'w"
type_synonym 'w config_source =
  "ReleaseOffer \<Rightarrow> BoardFamily \<Rightarrow> bytes \<Rightarrow> 'w
   \<Rightarrow> (CurrentConfigConsentStatus \<times> CurrentConfigConsentEvidence) \<times> 'w"

definition unsealed :: SealedUpdateAuthorization where
  "unsealed = \<lparr>sealed_consent_sha256 = replicate 32 0, sealed_reset_required = False, sealed_reset_approved = False\<rparr>"

text \<open>The comparison of the consent that was computed now with the one of the request.\<close>

definition seal ::
  "AuthenticatedUpdateRequest \<Rightarrow> CurrentConfigConsentEvidence \<Rightarrow> AuthorizationConsentResult
   \<Rightarrow> AuthorizationConsentResult \<times> SealedUpdateAuthorization" where
  "seal request evidence result =
     (if \<not> BytesNonZero (evidence_consent_sha256 evidence)
         \<or> \<not> ConstantTimeDigestEqual (Some (evidence_consent_sha256 evidence)) (Some (request_consent_sha256 request))
        then (result\<lparr>authorization_status := ConsentMismatch\<rparr>, unsealed)
      else if evidence_configuration_status evidence \<noteq> Compatible
              \<and> evidence_configuration_status evidence \<noteq> ResetConfirmationRequired
        then (result\<lparr>authorization_status := ConfigBlocked\<rparr>, unsealed)
      else
        (let reset_required = (evidence_configuration_status evidence = ResetConfirmationRequired)
         in if request_reset_required request \<noteq> reset_required \<or> request_reset_approved request \<noteq> reset_required
              then (result\<lparr>authorization_status := ResetDecisionMismatch\<rparr>, unsealed)
            else (result\<lparr>authorization_status := AuthorizationOk\<rparr>,
                  \<lparr>sealed_consent_sha256 = evidence_consent_sha256 evidence,
                   sealed_reset_required = reset_required,
                   sealed_reset_approved = request_reset_approved request\<rparr>)))"

definition AuthorizeAndSeal ::
  "'w foreground_source option \<Rightarrow> 'w config_source option \<Rightarrow> AuthenticatedUpdateRequest \<Rightarrow> ReleaseOffer
   \<Rightarrow> SealedUpdateAuthorization option \<Rightarrow> 'w
   \<Rightarrow> (AuthorizationConsentResult \<times> SealedUpdateAuthorization option) \<times> 'w" where
  "AuthorizeAndSeal foreground config request offer sealed w =
     (let result = \<lparr>authorization_status = AuthorizationInvalidArgument,
                    authorization_start_decision = NotExplicitUserAction,
                    authorization_config_status = ConfigInvalidOrBlocked\<rparr>
      in case (sealed, foreground, config, request_release request) of
           (Some _, Some fg, Some cs, Some d) \<Rightarrow>
             if \<not> IsKnownBoardFamily (request_board request) then ((result, sealed), w)
             else
               (case fg (request_authorization_token request) w of
                  ((False, ctx), w1) \<Rightarrow>
                    ((result\<lparr>authorization_status := AuthorizationNotExplicit\<rparr>, Some unsealed), w1)
                | ((True, ctx), w1) \<Rightarrow>
                    (let verdict = EvaluateUpdateStart ctx;
                         r1 = result\<lparr>authorization_start_decision := verdict\<rparr>
                     in if verdict \<noteq> Allowed
                          then ((r1\<lparr>authorization_status :=
                                   (if verdict = NetworkFeatureDisabled then AuthorizationNetworkDisabled
                                    else if verdict = NetworkNotReady then AuthorizationNetworkNotReady
                                    else AuthorizationNotExplicit)\<rparr>, Some unsealed), w1)
                        else
                          (case (if view_null (download_manifest d) \<or> view_size (download_manifest d) = 0
                                    \<or> view_size (download_manifest d) > kMaximumReleaseManifestBytes
                                 then None else Sha256Digest (download_manifest d)) of
                             None \<Rightarrow>
                               ((r1\<lparr>authorization_status := ConfigRevalidationFailed,
                                    authorization_config_status := ConfigDigestFailed\<rparr>, Some unsealed), w1)
                           | Some manifest_digest \<Rightarrow>
                               (case cs offer (request_board request) manifest_digest w1 of
                                  ((s, evidence), w2) \<Rightarrow>
                                    let r2 = r1\<lparr>authorization_config_status := s\<rparr>
                                    in if s \<noteq> ConfigConsentOk
                                         then ((r2\<lparr>authorization_status := ConfigRevalidationFailed\<rparr>,
                                                Some unsealed), w2)
                                       else (map_prod id Some (seal request evidence r2), w2)))))
         | _ \<Rightarrow> ((result, sealed), w))"

text \<open>
  \<open>ProbeInstallReadinessGate::Probe\<close>; \<open>probe\<close> is \<open>ProbeUpdateInstallReadiness\<close> on the object's file
  system and platform, \<open>None\<close> without a file system.
\<close>

definition Probe ::
  "(ReleaseManifest \<Rightarrow> 'w \<Rightarrow> UpdateInstallReadinessResult \<times> 'w) option \<Rightarrow> AuthenticatedUpdateBinding
   \<Rightarrow> ReleaseManifest \<Rightarrow> UpdateInstallReadinessResult \<Rightarrow> 'w
   \<Rightarrow> (InstallReadinessGateStatus \<times> UpdateInstallReadinessResult) \<times> 'w" where
  "Probe probe binding m prior w =
     (case probe of
        None \<Rightarrow> ((GateProbeFailed, prior), w)
      | Some f \<Rightarrow>
          if bound_board binding \<noteq> archive_board (manifest_asset m)
             \<or> bound_target_release_sequence binding \<noteq> manifest_release_sequence m
          then ((GateProbeFailed, prior), w)
          else (case f m w of (r, w1) \<Rightarrow> ((if readiness_ready r then GateReady else GateBlocked, r), w1)))"

text \<open>
  \<open>DirectUpdateInstallOperations\<close> forwards every operation to the installer it holds; without one
  each answers with the invalid result and the record of \<open>ReadJournal\<close> stays what the caller passed.
\<close>

definition DirectUpdateInstallOperations ::
  "'w UpdateInstallOperations option \<Rightarrow> JournalRecord \<Rightarrow> 'w UpdateInstallOperations" where
  "DirectUpdateInstallOperations ins untouched =
     (case ins of
        Some i \<Rightarrow>
          \<lparr>installer_ReadJournal = installer_ReadJournal i,
           installer_Stage = installer_Stage i,
           installer_ArmCandidate = installer_ArmCandidate i,
           installer_MarkCandidateHealthy = installer_MarkCandidateHealthy i,
           installer_Commit = installer_Commit i,
           installer_Rollback = installer_Rollback i,
           installer_RetireRolledBack = installer_RetireRolledBack i,
           installer_RetireCommitted = installer_RetireCommitted i\<rparr>
      | None \<Rightarrow>
          \<lparr>installer_ReadJournal = (\<lambda>root w. ((InvalidInstallerResult, untouched), w)),
           installer_Stage = (\<lambda>q ws w. (InvalidInstallerResult, w)),
           installer_ArmCandidate = (\<lambda>q w. (InvalidInstallerResult, w)),
           installer_MarkCandidateHealthy = (\<lambda>q w. (InvalidInstallerResult, w)),
           installer_Commit = (\<lambda>q ws w. (InvalidInstallerResult, w)),
           installer_Rollback = (\<lambda>q ws w. (InvalidInstallerResult, w)),
           installer_RetireRolledBack = (\<lambda>q ws w. (InvalidInstallerResult, w)),
           installer_RetireCommitted = (\<lambda>q ws w. (InvalidInstallerResult, w))\<rparr>)"

section \<open>Starting an update\<close>

text \<open>
  Rolling back, cleaning up and returning to the previous installation: the code has this sequence
  after a failed arming, a failed progress report and a failed reboot request, with the status to
  report at the end.
\<close>

definition roll_back_to_previous ::
  "UpdateOrchestratorStatus \<Rightarrow> 'w UpdateOrchestrator \<Rightarrow> 'w UpdateRecoveryProgress UpdateOrchestratorWorkspace
   \<Rightarrow> AuthenticatedUpdateBinding \<Rightarrow> InstallerRequest \<Rightarrow> UpdateOrchestratorResult \<Rightarrow> 'w
   \<Rightarrow> UpdateOrchestratorResult \<times> 'w" where
  "roll_back_to_previous failure orc ws binding request result w =
     (case MandatoryRollback (installer orc) (recovery_progress ws) request (installer_workspace ws) w of
        (rb, w1) \<Rightarrow>
          let r1 = result\<lparr>orchestrator_phase := PhaseRollback, rollback_attempted := True, rollback_result := rb\<rparr>
          in if \<not> RollbackAccepted (installer_status rb)
               then (r1\<lparr>orchestrator_status := InstallerProgressOr (installer_status rb) InstallerRollbackFailed\<rparr>, w1)
             else
               (case CleanupRolledBackTransaction orc request (installer_workspace ws) binding
                       (recovery_progress ws) r1 w1 of
                  ((cleanup_ok, r2), w2) \<Rightarrow>
                    (case DeactivatePendingRequest (request_persistence orc) (recovery_progress ws)
                            (r2\<lparr>orchestrator_phase := PhaseRequestPreviousReboot\<rparr>) w2 of
                       ((False, r3), w3) \<Rightarrow> (r3, w3)
                     | ((True, r3), w3) \<Rightarrow>
                         (case reboot_RequestReboot (the (reboot_object orc)) PreviousInstallation binding w3 of
                            (False, w4) \<Rightarrow> (r3\<lparr>orchestrator_status := PreviousRebootFailed\<rparr>, w4)
                          | (True, w4) \<Rightarrow>
                              (r3\<lparr>orchestrator_status :=
                                 (if cleanup_ok then failure else RolledBackCleanupFailureStatus r3)\<rparr>, w4)))))"

definition start_reboot ::
  "'w UpdateOrchestrator \<Rightarrow> 'w UpdateRecoveryProgress UpdateOrchestratorWorkspace \<Rightarrow> AuthenticatedUpdateBinding
   \<Rightarrow> InstallerRequest \<Rightarrow> UpdateOrchestratorResult \<Rightarrow> 'w \<Rightarrow> UpdateOrchestratorResult \<times> 'w" where
  "start_reboot orc ws binding request result w =
     (let r0 = result\<lparr>orchestrator_phase := PhaseRequestCandidateReboot\<rparr>
      in case ReportUpdateRecoveryProgress (recovery_progress ws) ForegroundStageComplete (Amount 1) (Amount 1) w of
           (False, w1) \<Rightarrow> roll_back_to_previous OrchestratorRecoveryProgressFailed orc ws binding request r0 w1
         | (True, w1) \<Rightarrow>
             (case ReportUpdateRecoveryProgress (recovery_progress ws) CandidateRebootCheckpoint (Amount 0) (Amount 0) w1 of
                (False, w2) \<Rightarrow> roll_back_to_previous OrchestratorRecoveryProgressFailed orc ws binding request r0 w2
              | (True, w2) \<Rightarrow>
                  (case reboot_RequestReboot (the (reboot_object orc)) OneShotCandidate binding w2 of
                     (False, w3) \<Rightarrow> roll_back_to_previous CandidateRebootFailed orc ws binding request r0 w3
                   | (True, w3) \<Rightarrow> (r0\<lparr>orchestrator_status := CandidateRebootRequested\<rparr>, w3))))"

definition start_arm ::
  "'w UpdateOrchestrator \<Rightarrow> 'w UpdateRecoveryProgress UpdateOrchestratorWorkspace \<Rightarrow> AuthenticatedUpdateBinding
   \<Rightarrow> InstallerRequest \<Rightarrow> UpdateOrchestratorResult \<Rightarrow> 'w \<Rightarrow> UpdateOrchestratorResult \<times> 'w" where
  "start_arm orc ws binding request result w =
     (case installer_ArmCandidate (the (installer orc)) request w of
        (ir, w1) \<Rightarrow>
          let r1 = result\<lparr>orchestrator_phase := PhaseArmCandidate, installer_result := ir\<rparr>
          in if \<not> ArmAccepted (installer_status ir)
               then roll_back_to_previous (InstallerProgressOr (installer_status ir) InstallerArmFailed)
                      orc ws binding request r1 w1
             else start_reboot orc ws binding request r1 w1)"

text \<open>A rollback before the candidate was armed: nothing has to be rebooted.\<close>

definition roll_back_staging ::
  "UpdateOrchestratorStatus \<Rightarrow> 'w UpdateOrchestrator \<Rightarrow> 'w UpdateRecoveryProgress UpdateOrchestratorWorkspace
   \<Rightarrow> AuthenticatedUpdateBinding \<Rightarrow> InstallerRequest \<Rightarrow> UpdateOrchestratorResult \<Rightarrow> 'w
   \<Rightarrow> UpdateOrchestratorResult \<times> 'w" where
  "roll_back_staging failure orc ws binding request result w =
     (case MandatoryRollback (installer orc) (recovery_progress ws) request (installer_workspace ws) w of
        (rb, w1) \<Rightarrow>
          let r1 = result\<lparr>orchestrator_phase := PhaseRollback, rollback_attempted := True, rollback_result := rb\<rparr>
          in if \<not> RollbackAccepted (installer_status rb)
               then (r1\<lparr>orchestrator_status := InstallerProgressOr (installer_status rb) InstallerRollbackFailed\<rparr>, w1)
             else
               (case CleanupRolledBackTransaction orc request (installer_workspace ws) binding
                       (recovery_progress ws) r1 w1 of
                  ((cleanup_ok, r2), w2) \<Rightarrow>
                    (r2\<lparr>orchestrator_status :=
                       (if cleanup_ok then failure else RolledBackCleanupFailureStatus r2)\<rparr>, w2)))"

definition start_stage ::
  "'w UpdateOrchestrator \<Rightarrow> 'w UpdateRecoveryProgress UpdateOrchestratorWorkspace \<Rightarrow> AuthenticatedUpdateBinding
   \<Rightarrow> InstallerRequest \<Rightarrow> UpdateOrchestratorResult \<Rightarrow> 'w \<Rightarrow> UpdateOrchestratorResult \<times> 'w" where
  "start_stage orc ws binding request result w =
     (case installer_Stage (the (installer orc)) request (installer_workspace ws) w of
        (ir, w1) \<Rightarrow>
          (case storage_CloseRead (the (storage orc)) w1 of
             (s, w2) \<Rightarrow>
               let r1 = result\<lparr>orchestrator_phase := PhaseStage, installer_result := ir, storage_status := s\<rparr>;
                   failure = InstallerProgressOr (installer_status ir) InstallerStageFailed
               in if \<not> StageAccepted (installer_status ir)
                    then
                      (if HasTransactionJournal ir \<and> installer_journal_state ir \<noteq> JIdle
                         then roll_back_staging failure orc ws binding request r1 w2
                       else
                         (case CleanupRolledBackTransaction orc request (installer_workspace ws) binding
                                 (recovery_progress ws) (r1\<lparr>orchestrator_status := failure\<rparr>) w2 of
                            ((cleanup_ok, r2), w3) \<Rightarrow>
                              ((if cleanup_ok then r2
                                else r2\<lparr>orchestrator_status := RolledBackCleanupFailureStatus r2\<rparr>), w3)))
                  else if s \<noteq> ArchiveOk then roll_back_staging StorageCloseFailed orc ws binding request r1 w2
                  else start_arm orc ws binding request r1 w2))"

definition start_prepare ::
  "'w UpdateOrchestrator \<Rightarrow> 'w UpdateRecoveryProgress UpdateOrchestratorWorkspace \<Rightarrow> ReleaseOffer
   \<Rightarrow> AuthenticatedUpdateBinding \<Rightarrow> zip_source \<Rightarrow> UpdateOrchestratorResult \<Rightarrow> 'w
   \<Rightarrow> UpdateOrchestratorResult \<times> 'w" where
  "start_prepare orc ws offer binding archive result w =
     (let give_up = (\<lambda>failure r w.
            case storage_CloseRead (the (storage orc)) w of
              (s, w1) \<Rightarrow>
                (case CleanupTransaction orc binding (recovery_progress ws) (r\<lparr>storage_status := s\<rparr>) w1 of
                   ((cleanup_ok, r1), w2) \<Rightarrow>
                     (r1\<lparr>orchestrator_status := (if cleanup_ok then failure else CleanupFailureStatus r1)\<rparr>, w2)))
      in case PrepareForStage (the (prepared_configs orc)) binding (offer_manifest offer) archive
                (recovery_progress ws \<noteq> None) w of
           ((p, prepared), w1) \<Rightarrow>
             let r1 = result\<lparr>orchestrator_phase := PhasePrepareConfiguration, prepared_config_status := p\<rparr>
             in if p \<noteq> PreparedOk
                  then give_up (if p = PreparedProgressFailed then OrchestratorRecoveryProgressFailed
                                else PreparedConfigFailed) r1 w1
                else if \<not> PreparedSetValid prepared binding (offer_manifest offer) True
                  then give_up PreparedConfigInvalid r1 w1
                else start_stage orc ws binding
                       (BuildInstallerRequest offer binding (Some archive) prepared (recovery_progress ws \<noteq> None))
                       r1 w1)"

definition start_verify ::
  "'w UpdateOrchestrator \<Rightarrow> 'w UpdateRecoveryProgress UpdateOrchestratorWorkspace \<Rightarrow> ReleaseOffer
   \<Rightarrow> AuthenticatedUpdateBinding \<Rightarrow> UpdateOrchestratorResult \<Rightarrow> 'w \<Rightarrow> UpdateOrchestratorResult \<times> 'w" where
  "start_verify orc ws offer binding result w =
     (let give_up = (\<lambda>failure r w.
            case DiscardDownloadedRequest orc binding (recovery_progress ws) r w of
              ((cleanup_ok, r1), w1) \<Rightarrow>
                (r1\<lparr>orchestrator_status := (if cleanup_ok then failure else CleanupFailed)\<rparr>, w1))
      in case storage_OpenRead (the (storage orc)) binding w of
           ((s, archive), w1) \<Rightarrow>
             let r1 = result\<lparr>orchestrator_phase := PhaseVerifyStoredArchive, storage_status := s\<rparr>
             in if s \<noteq> ArchiveOk \<or> archive = None then give_up StorageOpenFailed r1 w1
                else
                  (case RehashStoredArchive (the (storage orc)) archive binding (verification_buffer ws)
                          (recovery_progress ws) w1 of
                     ((False, verified, progress_failed), w2) \<Rightarrow>
                       (case storage_CloseRead (the (storage orc)) w2 of
                          (c, w3) \<Rightarrow>
                            give_up (if progress_failed then OrchestratorRecoveryProgressFailed
                                     else StoredArchiveVerificationFailed)
                              (r1\<lparr>verified_archive_bytes := verified, storage_status := c\<rparr>) w3)
                   | ((True, verified, progress_failed), w2) \<Rightarrow>
                       start_prepare orc ws offer binding (the archive)
                         (r1\<lparr>verified_archive_bytes := verified\<rparr>) w2))"

text \<open>The pieces of the response body go through the hashing sink into the storage.\<close>

fun deliver ::
  "('w \<Rightarrow> bytes \<Rightarrow> bool \<times> 'w) \<Rightarrow> 'w HashingBodySink \<Rightarrow> byte_view list \<Rightarrow> bool \<times> 'w HashingBodySink" where
  "deliver write hs [] = (True, hs)"
| "deliver write hs (piece # pieces) =
     (case hashing_Write write hs piece of
        (False, hs') \<Rightarrow> (False, hs')
      | (True, hs') \<Rightarrow> deliver write hs' pieces)"

definition Fetch ::
  "'w archive_transport \<Rightarrow> 'w UpdateArchiveStorage \<Rightarrow> cstring \<Rightarrow> u64 \<Rightarrow> 'w
   \<Rightarrow> (ArchiveFetchStatus \<times> 'w HashingBodySink) \<times> 'w" where
  "Fetch tr st url limit w =
     (case fetch_pieces tr url limit w of
        (pieces, w1) \<Rightarrow>
          (case deliver (storage_Write st) (make_hashing_sink (Some w1) limit) pieces of
             (delivered, hs) \<Rightarrow>
               (case fetch_end tr delivered (the (destination hs)) of (s, w2) \<Rightarrow> ((s, hs), w2))))"

definition start_download ::
  "'w UpdateOrchestrator \<Rightarrow> 'w UpdateRecoveryProgress UpdateOrchestratorWorkspace \<Rightarrow> ReleaseOffer
   \<Rightarrow> AuthenticatedUpdateBinding \<Rightarrow> UpdateOrchestratorResult \<Rightarrow> 'w \<Rightarrow> UpdateOrchestratorResult \<times> 'w" where
  "start_download orc ws offer binding result w =
     (let give_up = (\<lambda>failure r w.
            case AbortDownloadAndDiscardRequest orc binding (recovery_progress ws) r w of
              ((cleanup_ok, r1), w1) \<Rightarrow>
                (r1\<lparr>orchestrator_status := (if cleanup_ok then failure else CleanupFailed)\<rparr>, w1))
      in case Fetch (the (transport orc)) (the (storage orc)) (the (bound_archive_url binding))
                (bound_archive_size binding) w of
           ((f, hs), w1) \<Rightarrow>
             let r1 = result\<lparr>orchestrator_phase := PhaseDownload, fetch_status := f\<rparr>
             in if f \<noteq> FetchOk
                  then give_up (if f = FetchCanceled then DownloadCanceled else DownloadFailed) r1 w1
                else if (case fst (hashing_Finish True hs) of
                           None \<Rightarrow> True
                         | Some digest \<Rightarrow>
                             \<not> ConstantTimeDigestEqual (Some digest) (Some (bound_archive_sha256 binding)))
                  then give_up DownloadVerificationFailed r1 w1
                else
                  (case storage_Finish (the (storage orc)) w1 of
                     (s, w2) \<Rightarrow>
                       let r2 = r1\<lparr>storage_status := s\<rparr>
                       in if s \<noteq> ArchiveOk then give_up StorageFinishFailed r2 w2
                          else start_verify orc ws offer binding r2 w2))"

text \<open>From the final cancelable checkpoint on.\<close>

definition start_persist ::
  "'w UpdateOrchestrator \<Rightarrow> AuthenticatedUpdateRequest \<Rightarrow> 'w UpdateRecoveryProgress UpdateOrchestratorWorkspace
   \<Rightarrow> ReleaseOffer \<Rightarrow> AuthenticatedUpdateBinding \<Rightarrow> UpdateOrchestratorResult \<Rightarrow> 'w
   \<Rightarrow> UpdateOrchestratorResult \<times> 'w" where
  "start_persist orc request ws offer binding result w =
     (let r0 = result\<lparr>orchestrator_phase := PhaseDownload\<rparr>
      in case ReportUpdateRecoveryProgress (recovery_progress ws) ForegroundDownloadMutationCheckpoint
                (Amount 0) (Amount 0) w of
           (False, w1) \<Rightarrow> (r0\<lparr>orchestrator_status := OrchestratorRecoveryProgressFailed\<rparr>, w1)
         | (True, w1) \<Rightarrow>
             (case storage_Begin (the (storage orc)) binding w1 of
                (s, w2) \<Rightarrow>
                  let r1 = r0\<lparr>storage_status := s\<rparr>
                  in if s \<noteq> ArchiveOk then (r1\<lparr>orchestrator_status := StorageBeginFailed\<rparr>, w2)
                     else
                       (case Persist (the (request_persistence orc)) request w2 of
                          (q, w3) \<Rightarrow>
                            let r2 = r1\<lparr>orchestrator_phase := PhasePersistRequest, persistence_status := q\<rparr>
                            in if q \<noteq> PersistenceOk
                                 then
                                   (case AbortDownloadAndDiscardRequest orc binding (recovery_progress ws) r2 w3 of
                                      ((cleanup_ok, r3), w4) \<Rightarrow>
                                        (r3\<lparr>orchestrator_status :=
                                           (if cleanup_ok then RequestPersistenceFailed else CleanupFailed)\<rparr>, w4))
                               else start_download orc ws offer binding r2 w3)))"

text \<open>Authorization and readiness, for a validated request.\<close>

definition start_authorize ::
  "'w UpdateOrchestrator \<Rightarrow> AuthenticatedUpdateRequest \<Rightarrow> 'w UpdateRecoveryProgress UpdateOrchestratorWorkspace
   \<Rightarrow> ReleaseOffer \<Rightarrow> bytes \<Rightarrow> UpdateOrchestratorResult \<Rightarrow> 'w \<Rightarrow> UpdateOrchestratorResult \<times> 'w" where
  "start_authorize orc request ws offer manifest_digest result w =
     (case reboot_OneShotRecoverySupported (the (reboot_object orc)) w of
        (False, w1) \<Rightarrow> (result\<lparr>orchestrator_status := PlatformUnsupported\<rparr>, w1)
      | (True, w1) \<Rightarrow>
          if \<not> WorkspaceFitsManifest ws (offer_manifest offer)
            then (result\<lparr>orchestrator_status := OrchestratorWorkspaceTooSmall\<rparr>, w1)
          else
            (case the (authorization_gate orc) request offer w1 of
               ((a, sealed), w2) \<Rightarrow>
                 let r1 = result\<lparr>authorization := a\<rparr>
                 in if authorization_status a \<noteq> AuthorizationOk
                       \<or> \<not> BytesNonZero (sealed_consent_sha256 sealed)
                       \<or> sealed_reset_required sealed \<noteq> request_reset_required request
                       \<or> sealed_reset_approved sealed \<noteq> request_reset_approved request
                      then (r1\<lparr>orchestrator_status := AuthorizationDenied\<rparr>, w2)
                    else
                      (let binding = BuildBinding request offer manifest_digest sealed
                       in case the (readiness_gate orc) binding (offer_manifest offer) (readiness r1) w2 of
                            ((g, rd), w3) \<Rightarrow>
                              let r2 = r1\<lparr>readiness_status := g, readiness := rd\<rparr>
                              in if g \<noteq> GateReady \<or> \<not> readiness_ready rd
                                   then (r2\<lparr>orchestrator_status :=
                                          (if g = GateProbeFailed then ReadinessProbeFailed else ReadinessBlocked)\<rparr>, w3)
                                 else start_persist orc request ws offer binding r2 w3)))"

definition Start ::
  "repository \<Rightarrow> 'w UpdateOrchestrator \<Rightarrow> AuthenticatedUpdateRequest
   \<Rightarrow> 'w UpdateRecoveryProgress UpdateOrchestratorWorkspace \<Rightarrow> 'w \<Rightarrow> UpdateOrchestratorResult \<times> 'w" where
  "Start r orc request ws w =
     (let r0 = OrchestratorInitialResult\<lparr>orchestrator_phase := PhaseValidate\<rparr>
      in if release_validator orc = None \<or> authorization_gate orc = None \<or> readiness_gate orc = None
            \<or> transport orc = None \<or> storage orc = None \<or> request_persistence orc = None
            \<or> prepared_configs orc = None \<or> installer orc = None \<or> health_probe orc = None
            \<or> reboot_object orc = None \<or> \<not> OrchestratorWorkspaceValid ws True
         then (r0, w)
         else
           (case request_release request of
              None \<Rightarrow> (r0, w)
            | Some d \<Rightarrow>
                (case the (release_validator orc) d (request_board request) w of
                   ((v, offer), w1) \<Rightarrow>
                     let r1 = r0\<lparr>release_validation := v\<rparr>
                     in if validation_status v \<noteq> ReleaseAuthentic
                          then (r1\<lparr>orchestrator_status := AuthenticatedOfferInvalid\<rparr>, w1)
                        else
                          (case ValidateAuthenticatedRequest r request offer of
                             Inl e \<Rightarrow> (r1\<lparr>orchestrator_status := validation_failure e\<rparr>, w1)
                           | Inr manifest_digest \<Rightarrow>
                               start_authorize orc request ws offer manifest_digest r1 w1))))"

section \<open>Resuming after a boot\<close>

definition persisted_authorization :: "AuthenticatedUpdateRequest \<Rightarrow> SealedUpdateAuthorization" where
  "persisted_authorization request =
     \<lparr>sealed_consent_sha256 = request_consent_sha256 request,
      sealed_reset_required = request_reset_required request,
      sealed_reset_approved = request_reset_approved request\<rparr>"

text \<open>The tail: roll the candidate back and return to the previous installation.\<close>

definition resume_rollback ::
  "UpdateOrchestratorStatus \<Rightarrow> 'w UpdateOrchestrator \<Rightarrow> 'w UpdateRecoveryProgress UpdateOrchestratorWorkspace
   \<Rightarrow> AuthenticatedUpdateBinding \<Rightarrow> InstallerRequest \<Rightarrow> UpdateOrchestratorResult \<Rightarrow> 'w
   \<Rightarrow> UpdateOrchestratorResult \<times> 'w" where
  "resume_rollback trigger orc ws binding request result w =
     (let pg = recovery_progress ws; iws = installer_workspace ws;
          r0 = result\<lparr>orchestrator_phase := PhaseRollback, rollback_trigger := trigger\<rparr>
      in case ReportUpdateRecoveryProgress pg CandidateRollbackDecision (TriggerDetail trigger)
                (InstallerDetail (installer_status (installer_result r0))) w of
           (False, w1) \<Rightarrow> (r0\<lparr>orchestrator_status := OrchestratorRecoveryProgressFailed\<rparr>, w1)
         | (True, w1) \<Rightarrow>
             (case MandatoryRollback (installer orc) pg request iws w1 of
                (rb, w2) \<Rightarrow>
                  let r1 = r0\<lparr>rollback_attempted := True, rollback_result := rb\<rparr>
                  in if installer_status rb = InstallerProgressFailed
                       then (r1\<lparr>orchestrator_status := OrchestratorRecoveryProgressFailed\<rparr>, w2)
                     else if \<not> RollbackAccepted (installer_status rb)
                       then (r1\<lparr>orchestrator_status := InstallerRollbackFailed\<rparr>, w2)
                     else
                       (case CleanupRolledBackTransaction orc request iws binding pg
                               (r1\<lparr>orchestrator_phase := PhaseCleanup\<rparr>) w2 of
                          ((cleanup_ok, r2), w3) \<Rightarrow>
                            if \<not> cleanup_ok
                               \<and> RolledBackCleanupFailureStatus r2 = OrchestratorRecoveryProgressFailed
                              then (r2\<lparr>orchestrator_status := OrchestratorRecoveryProgressFailed\<rparr>, w3)
                            else
                              (case DeactivatePendingRequest (request_persistence orc) pg
                                      (r2\<lparr>orchestrator_phase := PhaseRequestPreviousReboot\<rparr>) w3 of
                                 ((False, r3), w4) \<Rightarrow> (r3, w4)
                               | ((True, r3), w4) \<Rightarrow>
                                   (case ReportUpdateRecoveryProgress pg CandidateRollbackComplete
                                           (Amount 1) (Amount 1) w4 of
                                      (False, w5) \<Rightarrow>
                                        (r3\<lparr>orchestrator_status := OrchestratorRecoveryProgressFailed\<rparr>, w5)
                                    | (True, w5) \<Rightarrow>
                                        (case reboot_RequestReboot (the (reboot_object orc)) PreviousInstallation
                                                binding w5 of
                                           (False, w6) \<Rightarrow>
                                             (r3\<lparr>orchestrator_status := PreviousRebootFailed\<rparr>, w6)
                                         | (True, w6) \<Rightarrow>
                                             (r3\<lparr>orchestrator_status :=
                                                (if cleanup_ok then RollbackRebootRequested
                                                 else CleanupFailed)\<rparr>, w6)))))))"

text \<open>Retaining a committed transaction, after a commit now or before an earlier reset.\<close>

definition retain_committed ::
  "'w UpdateOrchestrator \<Rightarrow> 'w UpdateRecoveryProgress UpdateOrchestratorWorkspace \<Rightarrow> AuthenticatedUpdateBinding
   \<Rightarrow> UpdateOrchestratorResult \<Rightarrow> 'w \<Rightarrow> UpdateOrchestratorResult \<times> 'w" where
  "retain_committed orc ws binding result w =
     (case RetainCommittedTransaction orc binding (recovery_progress ws)
             (result\<lparr>orchestrator_phase := PhaseCleanup\<rparr>) w of
        ((cleanup_ok, r1), w1) \<Rightarrow>
          (r1\<lparr>orchestrator_status :=
             (if cleanup_ok then UpdateCommitted
              else if CleanupFailureStatus r1 = OrchestratorRecoveryProgressFailed
                then OrchestratorRecoveryProgressFailed
              else PreviousRetentionFailed)\<rparr>, w1))"

text \<open>A healthy candidate is marked and committed.\<close>

definition resume_commit ::
  "'w UpdateOrchestrator \<Rightarrow> 'w UpdateRecoveryProgress UpdateOrchestratorWorkspace \<Rightarrow> AuthenticatedUpdateBinding
   \<Rightarrow> InstallerRequest \<Rightarrow> UpdateOrchestratorResult \<Rightarrow> 'w \<Rightarrow> UpdateOrchestratorResult \<times> 'w" where
  "resume_commit orc ws binding request result w =
     (case installer_MarkCandidateHealthy (the (installer orc)) request w of
        (m, w1) \<Rightarrow>
          let r1 = result\<lparr>orchestrator_phase := PhaseMarkHealthy, installer_result := m\<rparr>
          in if installer_status m = InstallerProgressFailed
               then (r1\<lparr>orchestrator_status := OrchestratorRecoveryProgressFailed\<rparr>, w1)
             else if \<not> HealthMarkAccepted (installer_status m)
               then resume_rollback InstallerHealthTransitionFailed orc ws binding request r1 w1
             else
               (case installer_Commit (the (installer orc)) request (installer_workspace ws) w1 of
                  (c, w2) \<Rightarrow>
                    let r2 = r1\<lparr>orchestrator_phase := PhaseCommit, installer_result := c\<rparr>
                    in if installer_status c = InstallerProgressFailed
                         then (r2\<lparr>orchestrator_status := OrchestratorRecoveryProgressFailed\<rparr>, w2)
                       else if CommitAccepted (installer_status c)
                         then retain_committed orc ws binding r2 w2
                       else resume_rollback InstallerCommitFailed orc ws binding request r2 w2))"

definition resume_health ::
  "'w UpdateOrchestrator \<Rightarrow> 'w UpdateRecoveryProgress UpdateOrchestratorWorkspace \<Rightarrow> ReleaseOffer
   \<Rightarrow> AuthenticatedUpdateBinding \<Rightarrow> InstallerRequest \<Rightarrow> UpdateOrchestratorResult \<Rightarrow> 'w
   \<Rightarrow> UpdateOrchestratorResult \<times> 'w" where
  "resume_health orc ws offer binding request result w =
     (case the (health_probe orc) binding (offer_manifest offer) w of
        ((evidence_available, evidence), w1) \<Rightarrow>
          let h = (if evidence_available \<and> HealthEvidenceBound evidence (offer_manifest offer)
                   then EvaluateCandidateHealth evidence else JournalUnavailable);
              r1 = result\<lparr>orchestrator_phase := PhaseProbeHealth, health_status := h\<rparr>
          in case ReportUpdateRecoveryProgress (recovery_progress ws) CandidateHealthEvaluated (HealthDetail h)
                    (ProbeDetail (probe_status evidence)) w1 of
               (False, w2) \<Rightarrow> (r1\<lparr>orchestrator_status := OrchestratorRecoveryProgressFailed\<rparr>, w2)
             | (True, w2) \<Rightarrow>
                 if \<not> evidence_available then resume_rollback HealthProbeFailed orc ws binding request r1 w2
                 else if h = Healthy then resume_commit orc ws binding request r1 w2
                 else resume_rollback CandidateUnhealthy orc ws binding request r1 w2)"

text \<open>The transaction was interrupted before there was a candidate: roll back and clean up.\<close>

definition resume_interrupted ::
  "'w UpdateOrchestrator \<Rightarrow> 'w UpdateRecoveryProgress UpdateOrchestratorWorkspace \<Rightarrow> AuthenticatedUpdateBinding
   \<Rightarrow> InstallerRequest \<Rightarrow> UpdateOrchestratorResult \<Rightarrow> 'w \<Rightarrow> UpdateOrchestratorResult \<times> 'w" where
  "resume_interrupted orc ws binding request result w =
     (case CleanupRolledBackTransaction orc request (installer_workspace ws) binding (recovery_progress ws)
             (result\<lparr>orchestrator_phase := PhaseCleanup\<rparr>) w of
        ((cleanup_ok, r1), w1) \<Rightarrow>
          (r1\<lparr>orchestrator_status :=
             (if cleanup_ok then InterruptedBeforeCandidateCleaned else RolledBackCleanupFailureStatus r1)\<rparr>, w1))"

definition resume_discovered ::
  "'w UpdateOrchestrator \<Rightarrow> 'w UpdateRecoveryProgress UpdateOrchestratorWorkspace \<Rightarrow> AuthenticatedUpdateBinding
   \<Rightarrow> InstallerRequest \<Rightarrow> UpdateOrchestratorResult \<Rightarrow> 'w \<Rightarrow> UpdateOrchestratorResult \<times> 'w" where
  "resume_discovered orc ws binding request result w =
     (case MandatoryRollback (installer orc) (recovery_progress ws) request (installer_workspace ws) w of
        (rb, w1) \<Rightarrow>
          let r1 = result\<lparr>orchestrator_phase := PhaseRollback, rollback_attempted := True, rollback_result := rb\<rparr>
          in if installer_status rb = InstallerProgressFailed
               then (r1\<lparr>orchestrator_status := OrchestratorRecoveryProgressFailed\<rparr>, w1)
             else if \<not> RollbackAccepted (installer_status rb)
               then (r1\<lparr>orchestrator_status := InstallerRollbackFailed\<rparr>, w1)
             else resume_interrupted orc ws binding request r1 w1)"

text \<open>From the restored configuration on, for a journal that is neither idle nor committed.\<close>

definition resume_restore ::
  "'w UpdateOrchestrator \<Rightarrow> 'w UpdateRecoveryProgress UpdateOrchestratorWorkspace \<Rightarrow> ReleaseOffer
   \<Rightarrow> AuthenticatedUpdateBinding \<Rightarrow> JournalState \<Rightarrow> UpdateOrchestratorResult \<Rightarrow> 'w
   \<Rightarrow> UpdateOrchestratorResult \<times> 'w" where
  "resume_restore orc ws offer binding jst result w =
     (case RestoreForResume (the (prepared_configs orc)) binding (offer_manifest offer)
             (recovery_progress ws \<noteq> None) w of
        ((p, prepared), w1) \<Rightarrow>
          let r1 = result\<lparr>orchestrator_phase := PhaseRestoreConfiguration, prepared_config_status := p\<rparr>
          in if p \<noteq> PreparedOk then
               (if p = PreparedProgressFailed
                then (r1\<lparr>orchestrator_status := OrchestratorRecoveryProgressFailed\<rparr>, w1)
                else RequestPreviousFailSafe orc PreparedConfigFailed (recovery_progress ws) r1 w1)
             else if \<not> PreparedSetValid prepared binding (offer_manifest offer) False
               then RequestPreviousFailSafe orc PreparedConfigInvalid (recovery_progress ws) r1 w1
             else
               (let request = BuildInstallerRequest offer binding None prepared (recovery_progress ws \<noteq> None)
                in if jst = JDiscovered \<or> jst = JDownloaded
                     then resume_discovered orc ws binding request r1 w1
                   else resume_health orc ws offer binding request r1 w1))"

definition resume_journal ::
  "'w UpdateOrchestrator \<Rightarrow> 'w UpdateRecoveryProgress UpdateOrchestratorWorkspace \<Rightarrow> ReleaseOffer
   \<Rightarrow> AuthenticatedUpdateBinding \<Rightarrow> UpdateOrchestratorResult \<Rightarrow> 'w \<Rightarrow> UpdateOrchestratorResult \<times> 'w" where
  "resume_journal orc ws offer binding result w =
     (case installer_ReadJournal (the (installer orc)) (bound_transaction_root binding) w of
        ((ir, journal), w1) \<Rightarrow>
          let r1 = result\<lparr>orchestrator_phase := PhaseInspectJournal, installer_result := ir\<rparr>;
              no_journal = (installer_status ir = WrongState \<and> installer_journal_selection ir = NoJournal)
          in if no_journal \<or> (installer_status ir = InstallerOk \<and> jstate journal = JIdle)
               then resume_interrupted orc ws binding
                      (BuildInstallerRequest offer binding None None (recovery_progress ws \<noteq> None)) r1 w1
             else if installer_status ir \<noteq> InstallerOk \<or> \<not> JournalBoundToTransaction journal binding
               then RequestPreviousFailSafe orc RecoveryJournalInvalid (recovery_progress ws) r1 w1
             else if jstate journal = JCommitted then retain_committed orc ws binding r1 w1
             else
               (case (case reboot_object orc of
                        None \<Rightarrow> (False, w1)
                      | Some rb \<Rightarrow> reboot_OneShotRecoverySupported rb w1) of
                  (False, w2) \<Rightarrow> RequestPreviousFailSafe orc PlatformUnsupported (recovery_progress ws) r1 w2
                | (True, w2) \<Rightarrow> resume_restore orc ws offer binding (jstate journal) r1 w2))"

definition ResumeAfterBoot ::
  "repository \<Rightarrow> 'w UpdateOrchestrator \<Rightarrow> AuthenticatedUpdateRequest
   \<Rightarrow> 'w UpdateRecoveryProgress UpdateOrchestratorWorkspace \<Rightarrow> 'w \<Rightarrow> UpdateOrchestratorResult \<times> 'w" where
  "ResumeAfterBoot r orc request ws w =
     (let r0 = OrchestratorInitialResult\<lparr>orchestrator_phase := PhaseValidate\<rparr>
      in if release_validator orc = None \<or> storage orc = None \<or> request_persistence orc = None
            \<or> prepared_configs orc = None \<or> installer orc = None \<or> health_probe orc = None
            \<or> \<not> OrchestratorWorkspaceValid ws False
         then RequestPreviousFailSafe orc OrchestratorInvalidArgument None r0 w
         else
           (case request_release request of
              None \<Rightarrow> RequestPreviousFailSafe orc OrchestratorInvalidArgument (recovery_progress ws) r0 w
            | Some d \<Rightarrow>
                (case the (release_validator orc) d (request_board request) w of
                   ((v, offer), w1) \<Rightarrow>
                     let r1 = r0\<lparr>release_validation := v\<rparr>
                     in if validation_status v \<noteq> ReleaseAuthentic
                          then RequestPreviousFailSafe orc AuthenticatedOfferInvalid (recovery_progress ws) r1 w1
                        else
                          (case ValidateAuthenticatedRequest r request offer of
                             Inl e \<Rightarrow>
                               RequestPreviousFailSafe orc (validation_failure e) (recovery_progress ws) r1 w1
                           | Inr manifest_digest \<Rightarrow>
                               resume_journal orc ws offer
                                 (BuildBinding request offer manifest_digest (persisted_authorization request))
                                 r1 w1))))"

section \<open>Retiring a committed update\<close>

definition retire_previous ::
  "'w UpdateOrchestrator \<Rightarrow> 'w UpdateRecoveryProgress UpdateOrchestratorWorkspace \<Rightarrow> AuthenticatedUpdateBinding
   \<Rightarrow> InstallerRequest \<Rightarrow> UpdateOrchestratorResult \<Rightarrow> 'w \<Rightarrow> UpdateOrchestratorResult \<times> 'w" where
  "retire_previous orc ws binding request result w =
     (case installer_RetireCommitted (the (installer orc)) request (installer_workspace ws) w of
        (ir, w1) \<Rightarrow>
          let r1 = result\<lparr>installer_result := ir\<rparr>
          in if installer_status ir \<noteq> InstallerOk \<and> installer_status ir \<noteq> AlreadyRetired
               then (r1\<lparr>orchestrator_status :=
                      (if installer_status ir = InstallerProgressFailed then OrchestratorRecoveryProgressFailed
                       else PreviousRetentionFailed)\<rparr>, w1)
             else
               (case DiscardRetainedCommitted (the (request_persistence orc)) binding
                       (recovery_progress ws \<noteq> None) w1 of
                  (s, w2) \<Rightarrow>
                    let r2 = r1\<lparr>persistence_status := s\<rparr>
                    in (r2\<lparr>orchestrator_status :=
                          (if s \<noteq> PersistenceOk
                             then (if s = PersistenceProgressFailed then OrchestratorRecoveryProgressFailed
                                   else PreviousRetentionFailed)
                           else PreviousRetired)\<rparr>, w2)))"

definition RetireCommitted_Orchestrator ::
  "repository \<Rightarrow> 'w UpdateOrchestrator \<Rightarrow> AuthenticatedUpdateRequest
   \<Rightarrow> 'w UpdateRecoveryProgress UpdateOrchestratorWorkspace \<Rightarrow> 'w \<Rightarrow> UpdateOrchestratorResult \<times> 'w" where
  "RetireCommitted_Orchestrator r orc request ws w =
     (let r0 = OrchestratorInitialResult\<lparr>orchestrator_phase := PhaseValidate\<rparr>
      in if release_validator orc = None \<or> request_persistence orc = None \<or> installer orc = None
            \<or> \<not> OrchestratorWorkspaceValid ws True \<or> request_release request = None
         then (r0, w)
         else
           (case the (release_validator orc) (the (request_release request)) (request_board request) w of
              ((v, offer), w1) \<Rightarrow>
                let r1 = r0\<lparr>release_validation := v\<rparr>
                in if validation_status v \<noteq> ReleaseAuthentic
                     then (r1\<lparr>orchestrator_status := AuthenticatedOfferInvalid\<rparr>, w1)
                   else
                     (case ValidateAuthenticatedRequest r request offer of
                        Inl e \<Rightarrow> (r1\<lparr>orchestrator_status := validation_failure e\<rparr>, w1)
                      | Inr manifest_digest \<Rightarrow>
                          (let binding = BuildBinding request offer manifest_digest (persisted_authorization request);
                               r2 = r1\<lparr>orchestrator_phase := PhaseRetirePrevious\<rparr>
                           in case ReportUpdateRecoveryProgress (recovery_progress ws)
                                     ForegroundRetireMutationCheckpoint (Amount 0) (Amount 0) w1 of
                                (False, w2) \<Rightarrow>
                                  (r2\<lparr>orchestrator_status := OrchestratorRecoveryProgressFailed\<rparr>, w2)
                              | (True, w2) \<Rightarrow>
                                  scoped_mandatory (recovery_progress ws)
                                    (retire_previous orc ws binding
                                       (BuildInstallerRequest offer binding None None (recovery_progress ws \<noteq> None)) r2)
                                    w2))))"

section \<open>Messages\<close>

fun UpdateOrchestratorStatusString :: "UpdateOrchestratorStatus \<Rightarrow> string" where
  "UpdateOrchestratorStatusString CandidateRebootRequested = ''candidate-reboot-requested''"
| "UpdateOrchestratorStatusString UpdateCommitted = ''update-committed''"
| "UpdateOrchestratorStatusString RollbackRebootRequested = ''rollback-reboot-requested''"
| "UpdateOrchestratorStatusString InterruptedBeforeCandidateCleaned = ''interrupted-before-candidate-cleaned''"
| "UpdateOrchestratorStatusString OrchestratorInvalidArgument = ''invalid-argument''"
| "UpdateOrchestratorStatusString AuthenticatedOfferInvalid = ''authenticated-offer-invalid''"
| "UpdateOrchestratorStatusString IdentityInvalid = ''identity-invalid''"
| "UpdateOrchestratorStatusString ConsentInvalid = ''consent-invalid''"
| "UpdateOrchestratorStatusString AuthorizationDenied = ''authorization-denied''"
| "UpdateOrchestratorStatusString PlatformUnsupported = ''platform-unsupported''"
| "UpdateOrchestratorStatusString OrchestratorWorkspaceTooSmall = ''workspace-too-small''"
| "UpdateOrchestratorStatusString ReadinessBlocked = ''readiness-blocked''"
| "UpdateOrchestratorStatusString ReadinessProbeFailed = ''readiness-probe-failed''"
| "UpdateOrchestratorStatusString StorageBeginFailed = ''storage-begin-failed''"
| "UpdateOrchestratorStatusString RequestPersistenceFailed = ''request-persistence-failed''"
| "UpdateOrchestratorStatusString DownloadFailed = ''download-failed''"
| "UpdateOrchestratorStatusString DownloadCanceled = ''download-canceled''"
| "UpdateOrchestratorStatusString DownloadVerificationFailed = ''download-verification-failed''"
| "UpdateOrchestratorStatusString StorageFinishFailed = ''storage-finish-failed''"
| "UpdateOrchestratorStatusString StorageOpenFailed = ''storage-open-failed''"
| "UpdateOrchestratorStatusString StoredArchiveVerificationFailed = ''stored-archive-verification-failed''"
| "UpdateOrchestratorStatusString StorageCloseFailed = ''storage-close-failed''"
| "UpdateOrchestratorStatusString PreparedConfigFailed = ''prepared-config-failed''"
| "UpdateOrchestratorStatusString PreparedConfigInvalid = ''prepared-config-invalid''"
| "UpdateOrchestratorStatusString InstallerStageFailed = ''installer-stage-failed''"
| "UpdateOrchestratorStatusString InstallerArmFailed = ''installer-arm-failed''"
| "UpdateOrchestratorStatusString CandidateRebootFailed = ''candidate-reboot-failed''"
| "UpdateOrchestratorStatusString HealthProbeFailed = ''health-probe-failed''"
| "UpdateOrchestratorStatusString CandidateUnhealthy = ''candidate-unhealthy''"
| "UpdateOrchestratorStatusString InstallerHealthTransitionFailed = ''installer-health-transition-failed''"
| "UpdateOrchestratorStatusString InstallerCommitFailed = ''installer-commit-failed''"
| "UpdateOrchestratorStatusString InstallerRollbackFailed = ''installer-rollback-failed''"
| "UpdateOrchestratorStatusString RecoveryJournalInvalid = ''recovery-journal-invalid''"
| "UpdateOrchestratorStatusString RecoveryDeactivationFailed = ''recovery-deactivation-failed''"
| "UpdateOrchestratorStatusString PreviousRebootFailed = ''previous-reboot-failed''"
| "UpdateOrchestratorStatusString OrchestratorRecoveryProgressFailed = ''recovery-progress-failed''"
| "UpdateOrchestratorStatusString PreviousRetentionFailed = ''previous-retention-failed''"
| "UpdateOrchestratorStatusString PreviousRetired = ''previous-retired''"
| "UpdateOrchestratorStatusString CleanupFailed = ''cleanup-failed''"

fun UpdateOrchestratorPhaseString :: "UpdateOrchestratorPhase \<Rightarrow> string" where
  "UpdateOrchestratorPhaseString PhaseNone = ''none''"
| "UpdateOrchestratorPhaseString PhaseValidate = ''validate''"
| "UpdateOrchestratorPhaseString PhaseInspectJournal = ''inspect-journal''"
| "UpdateOrchestratorPhaseString PhasePersistRequest = ''persist-request''"
| "UpdateOrchestratorPhaseString PhaseDownload = ''download''"
| "UpdateOrchestratorPhaseString PhaseVerifyStoredArchive = ''verify-stored-archive''"
| "UpdateOrchestratorPhaseString PhasePrepareConfiguration = ''prepare-configuration''"
| "UpdateOrchestratorPhaseString PhaseStage = ''stage''"
| "UpdateOrchestratorPhaseString PhaseArmCandidate = ''arm-candidate''"
| "UpdateOrchestratorPhaseString PhaseRequestCandidateReboot = ''request-candidate-reboot''"
| "UpdateOrchestratorPhaseString PhaseRestoreConfiguration = ''restore-configuration''"
| "UpdateOrchestratorPhaseString PhaseProbeHealth = ''probe-health''"
| "UpdateOrchestratorPhaseString PhaseMarkHealthy = ''mark-healthy''"
| "UpdateOrchestratorPhaseString PhaseCommit = ''commit''"
| "UpdateOrchestratorPhaseString PhaseRollback = ''rollback''"
| "UpdateOrchestratorPhaseString PhaseRequestPreviousReboot = ''request-previous-reboot''"
| "UpdateOrchestratorPhaseString PhaseCleanup = ''cleanup''"
| "UpdateOrchestratorPhaseString PhaseRetirePrevious = ''retire-previous''"

fun AuthorizationConsentStatusString :: "AuthorizationConsentStatus \<Rightarrow> string" where
  "AuthorizationConsentStatusString AuthorizationOk = ''ok''"
| "AuthorizationConsentStatusString AuthorizationInvalidArgument = ''invalid-argument''"
| "AuthorizationConsentStatusString AuthorizationNotExplicit = ''not-explicit-user-action''"
| "AuthorizationConsentStatusString AuthorizationNetworkDisabled = ''network-feature-disabled''"
| "AuthorizationConsentStatusString AuthorizationNetworkNotReady = ''network-not-ready''"
| "AuthorizationConsentStatusString ConfigRevalidationFailed = ''config-revalidation-failed''"
| "AuthorizationConsentStatusString ConfigBlocked = ''config-blocked''"
| "AuthorizationConsentStatusString ConsentMismatch = ''consent-mismatch''"
| "AuthorizationConsentStatusString ResetDecisionMismatch = ''reset-decision-mismatch''"

fun UpdateStartDecisionString :: "UpdateStartDecision \<Rightarrow> string" where
  "UpdateStartDecisionString Allowed = ''allowed''"
| "UpdateStartDecisionString NotExplicitUserAction = ''not-explicit-user-action''"
| "UpdateStartDecisionString NetworkFeatureDisabled = ''network-feature-disabled''"
| "UpdateStartDecisionString NetworkNotReady = ''network-not-ready''"

fun CurrentConfigConsentStatusString :: "CurrentConfigConsentStatus \<Rightarrow> string" where
  "CurrentConfigConsentStatusString ConfigConsentOk = ''ok''"
| "CurrentConfigConsentStatusString ConfigReadFailed = ''read-failed''"
| "CurrentConfigConsentStatusString ConfigInvalidOrBlocked = ''invalid-or-blocked''"
| "CurrentConfigConsentStatusString ConfigDigestFailed = ''digest-failed''"

end
