(* ===== verification/Recovery_Executor.thy ===== *)
theory Recovery_Executor
  imports Update_Orchestrator
begin

text \<open>
  \<open>update_recovery_executor.cpp\<close>: the one post-boot recovery step. The request store, the
  orchestrator, the reboot control and the candidate-boot probe are objects the executor only
  calls; they enter as operations on the machine state \<open>'w\<close> (an absent object is \<open>None\<close>), so that
  every theorem holds for any behaviour of theirs. The theorems fix the order of the calls, that
  recovery runs once per boot, and what happens on a closed reboot gate.
\<close>

section \<open>The code\<close>

datatype UpdateTransactionStoreStatus =
    StoreOk | StoreInvalidArgument | InvalidIdentity | DurabilityUnsupported | NotFound | Conflict
  | WorkspaceTooSmall | FileSystemError | StoreCorrupt | HashMismatch | StoreRecoveryProgressFailed

datatype UpdateRecoveryExecutorStatus =
    NoPendingTransaction | ResumeFinished | RejectedStateDiscarded | PreviousBootFailSafeRequested
  | InvalidArgument | AlreadyRun | LoadFailed | LoadWorkspaceTooSmall | DiscardFailed
  | PreviousBootFailSafeFailed | RecoveryProgressFailed

record UpdateRecoveryExecutorResult =
  status :: UpdateRecoveryExecutorStatus
  load_status :: UpdateTransactionStoreStatus
  discard_status :: UpdateTransactionStoreStatus
  resume_status :: UpdateOrchestratorStatus
  resume_phase :: UpdateOrchestratorPhase
  resume_called :: bool
  discard_attempted :: bool
  candidate_boot :: bool
  previous_boot_failsafe_requested :: bool

definition InitialResult :: UpdateRecoveryExecutorResult where
  "InitialResult =
     \<lparr>status = InvalidArgument, load_status = StoreInvalidArgument,
      discard_status = StoreInvalidArgument, resume_status = OrchestratorInvalidArgument,
      resume_phase = PhaseNone, resume_called = False, discard_attempted = False,
      candidate_boot = False, previous_boot_failsafe_requested = False\<rparr>"

record PersistedUpdateRequestBuffers =
  installed_build_info :: byte_view
  github_response :: byte_view
  manifest_buffer :: byte_view
  signature_buffer :: byte_view

definition BuffersValid :: "PersistedUpdateRequestBuffers \<Rightarrow> bool" where
  "BuffersValid b \<longleftrightarrow>
     \<not> view_null (installed_build_info b) \<and> view_size (installed_build_info b) \<noteq> 0
     \<and> \<not> view_null (github_response b) \<and> view_size (github_response b) \<noteq> 0
     \<and> \<not> view_null (manifest_buffer b) \<and> view_size (manifest_buffer b) \<noteq> 0
     \<and> \<not> view_null (signature_buffer b) \<and> view_size (signature_buffer b) \<noteq> 0"

text \<open>Opaque objects are \<open>unit option\<close>.\<close>

definition WorkspaceValid :: "'p UpdateOrchestratorWorkspace \<Rightarrow> bool" where
  "WorkspaceValid ws \<longleftrightarrow>
     release_offer ws \<noteq> None
     \<and> \<not> view_null (io_buffer (installer_workspace ws))
     \<and> view_size (io_buffer (installer_workspace ws)) \<ge> kInstallerMinimumIoBufferBytes
     \<and> \<not> view_null (verification_buffer ws) \<and> view_size (verification_buffer ws) \<ge> 4096
     \<and> recovery_progress ws \<noteq> None"

definition MustDeactivate :: "UpdateTransactionStoreStatus \<Rightarrow> bool" where
  "MustDeactivate s \<longleftrightarrow>
     s = InvalidIdentity \<or> s = Conflict \<or> s = FileSystemError \<or> s = StoreCorrupt
     \<or> s = HashMismatch"

record ('w, 'req) request_store =
  store_Load :: "BoardFamily \<Rightarrow> 'w \<Rightarrow> (UpdateTransactionStoreStatus \<times> 'req) \<times> 'w"
  store_Discard :: "'w \<Rightarrow> UpdateTransactionStoreStatus \<times> 'w"

record ('w, 'req) UpdateRecoveryExecutor =
  request_store :: "('w, 'req) request_store option"
  orchestrator_ResumeAfterBoot :: "('req \<Rightarrow> 'w \<Rightarrow> UpdateOrchestratorResult \<times> 'w) option"
  executor_failsafe :: "('w \<Rightarrow> bool \<times> 'w) option"
  executor_board :: BoardFamily
  request_buffers :: PersistedUpdateRequestBuffers
  orchestrator_workspace :: "unit UpdateOrchestratorWorkspace"
  scratch_release_download :: "unit option"
  candidate_boot_probe :: "('w \<Rightarrow> bool \<times> 'w) option"
  has_run :: bool

text \<open>\<open>Run\<close> from the discarding of a rejected record on.\<close>

definition discard_rejected ::
  "('w, 'req) request_store \<Rightarrow> ('w \<Rightarrow> bool \<times> 'w) \<Rightarrow> ('w \<Rightarrow> bool \<times> 'w)
   \<Rightarrow> UpdateRecoveryExecutorResult \<Rightarrow> 'w \<Rightarrow> UpdateRecoveryExecutorResult \<times> 'w" where
  "discard_rejected store failsafe probe result w =
     (case store_Discard store w of
        (ds, w1) \<Rightarrow>
          let r1 = result\<lparr>discard_attempted := True, discard_status := ds\<rparr>
          in if ds = StoreRecoveryProgressFailed then (r1\<lparr>status := RecoveryProgressFailed\<rparr>, w1)
             else if ds \<noteq> StoreOk then (r1\<lparr>status := DiscardFailed\<rparr>, w1)
             else
               (case probe w1 of
                  (cb, w2) \<Rightarrow>
                    let r2 = r1\<lparr>candidate_boot := cb\<rparr>
                    in if \<not> cb then (r2\<lparr>status := RejectedStateDiscarded\<rparr>, w2)
                       else
                         (case failsafe w2 of
                            (ok, w3) \<Rightarrow>
                              let r3 = r2\<lparr>previous_boot_failsafe_requested := True\<rparr>
                              in (r3\<lparr>status := (if ok then PreviousBootFailSafeRequested
                                                else PreviousBootFailSafeFailed)\<rparr>, w3))))"

definition run_body ::
  "('w, 'req) request_store \<Rightarrow> ('req \<Rightarrow> 'w \<Rightarrow> UpdateOrchestratorResult \<times> 'w)
   \<Rightarrow> ('w \<Rightarrow> bool \<times> 'w) \<Rightarrow> ('w \<Rightarrow> bool \<times> 'w) \<Rightarrow> BoardFamily \<Rightarrow> 'w
   \<Rightarrow> UpdateRecoveryExecutorResult \<times> 'w" where
  "run_body store resume failsafe probe running w =
     (case store_Load store running w of
        ((ls, request), w1) \<Rightarrow>
          let result = InitialResult\<lparr>load_status := ls\<rparr>
          in if ls = NotFound then (result\<lparr>status := NoPendingTransaction\<rparr>, w1)
             else if ls = StoreOk then
               (case resume request w1 of
                  (resumed, w2) \<Rightarrow>
                    (result\<lparr>resume_called := True,
                            resume_status := orchestrator_status resumed,
                            resume_phase := orchestrator_phase resumed,
                            previous_boot_failsafe_requested := orchestrator_failsafe_requested resumed,
                            status := ResumeFinished\<rparr>, w2))
             else if ls = StoreRecoveryProgressFailed
               then (result\<lparr>status := RecoveryProgressFailed\<rparr>, w1)
             else if ls = WorkspaceTooSmall then (result\<lparr>status := LoadWorkspaceTooSmall\<rparr>, w1)
             else if \<not> MustDeactivate ls then (result\<lparr>status := LoadFailed\<rparr>, w1)
             else discard_rejected store failsafe probe result w1)"

definition arguments_valid :: "('w, 'req) UpdateRecoveryExecutor \<Rightarrow> bool" where
  "arguments_valid e \<longleftrightarrow>
     \<not> (request_store e = None \<or> orchestrator_ResumeAfterBoot e = None
         \<or> executor_failsafe e = None
         \<or> \<not> IsKnownBoardFamily (executor_board e)
         \<or> \<not> BuffersValid (request_buffers e)
         \<or> \<not> WorkspaceValid (orchestrator_workspace e)
         \<or> scratch_release_download e = None
         \<or> candidate_boot_probe e = None)"

definition Run ::
  "('w, 'req) UpdateRecoveryExecutor \<Rightarrow> 'w
   \<Rightarrow> UpdateRecoveryExecutorResult \<times> ('w, 'req) UpdateRecoveryExecutor \<times> 'w" where
  "Run e w =
     (if has_run e then (InitialResult\<lparr>status := AlreadyRun\<rparr>, e, w)
      else
        (let e' = e\<lparr>has_run := True\<rparr>
         in if \<not> arguments_valid e then (InitialResult, e', w)
            else
              (case run_body (the (request_store e)) (the (orchestrator_ResumeAfterBoot e))
                      (the (executor_failsafe e)) (the (candidate_boot_probe e))
                      (executor_board e) w of
                 (result, w') \<Rightarrow> (result, e', w'))))"

fun UpdateRecoveryExecutorStatusString :: "UpdateRecoveryExecutorStatus \<Rightarrow> string" where
  "UpdateRecoveryExecutorStatusString NoPendingTransaction = ''no pending transaction''"
| "UpdateRecoveryExecutorStatusString ResumeFinished = ''resume finished''"
| "UpdateRecoveryExecutorStatusString RejectedStateDiscarded = ''rejected state discarded''"
| "UpdateRecoveryExecutorStatusString PreviousBootFailSafeRequested =
     ''previous boot failsafe requested''"
| "UpdateRecoveryExecutorStatusString InvalidArgument = ''invalid argument''"
| "UpdateRecoveryExecutorStatusString AlreadyRun = ''already run''"
| "UpdateRecoveryExecutorStatusString LoadFailed = ''load failed''"
| "UpdateRecoveryExecutorStatusString LoadWorkspaceTooSmall = ''load workspace too small''"
| "UpdateRecoveryExecutorStatusString DiscardFailed = ''discard failed''"
| "UpdateRecoveryExecutorStatusString PreviousBootFailSafeFailed = ''previous boot failsafe failed''"
| "UpdateRecoveryExecutorStatusString RecoveryProgressFailed = ''recovery progress failed''"

section \<open>The order of the calls\<close>

datatype recovery_event =
    EvLoad UpdateTransactionStoreStatus | EvResume | EvDiscard UpdateTransactionStoreStatus
  | EvProbe bool | EvFailSafe bool

definition traced_executor ::
  "('w, 'req) UpdateRecoveryExecutor \<Rightarrow> ('w \<times> recovery_event list, 'req) UpdateRecoveryExecutor" where
  "traced_executor e =
     \<lparr>request_store =
        map_option (\<lambda>s. \<lparr>store_Load = (\<lambda>b. traced (\<lambda>r. EvLoad (fst r)) (store_Load s b)),
                         store_Discard = traced EvDiscard (store_Discard s)\<rparr>) (request_store e),
      orchestrator_ResumeAfterBoot =
        map_option (\<lambda>f req. traced (\<lambda>_. EvResume) (f req)) (orchestrator_ResumeAfterBoot e),
      executor_failsafe =
        map_option (traced EvFailSafe) (executor_failsafe e),
      executor_board = executor_board e,
      request_buffers = request_buffers e,
      orchestrator_workspace = orchestrator_workspace e,
      scratch_release_download = scratch_release_download e,
      candidate_boot_probe = map_option (traced EvProbe) (candidate_boot_probe e),
      has_run = has_run e\<rparr>"

text \<open>The sequences of calls recovery may make.\<close>

inductive recovery_trace :: "recovery_event list \<Rightarrow> bool" where
  refused: "recovery_trace []"
| stopped: "s \<noteq> StoreOk \<Longrightarrow> \<not> MustDeactivate s \<Longrightarrow> recovery_trace [EvLoad s]"
| resumed: "recovery_trace [EvLoad StoreOk, EvResume]"
| discard_failed:
    "MustDeactivate s \<Longrightarrow> d \<noteq> StoreOk \<Longrightarrow> recovery_trace [EvLoad s, EvDiscard d]"
| normal_boot:
    "MustDeactivate s \<Longrightarrow> recovery_trace [EvLoad s, EvDiscard StoreOk, EvProbe False]"
| failsafe:
    "MustDeactivate s \<Longrightarrow>
     recovery_trace [EvLoad s, EvDiscard StoreOk, EvProbe True, EvFailSafe ok]"

lemma not_must_deactivate: "\<not> MustDeactivate StoreOk" "\<not> MustDeactivate NotFound"
  "\<not> MustDeactivate StoreRecoveryProgressFailed" "\<not> MustDeactivate WorkspaceTooSmall"
  by (simp_all add: MustDeactivate_def)

lemma discard_rejected_trace:
  assumes "MustDeactivate s"
    and "discard_rejected
           \<lparr>store_Load = ld, store_Discard = traced EvDiscard d\<rparr>
           (traced EvFailSafe fs) (traced EvProbe pr) r (w, [EvLoad s]) = (r', w', l)"
  shows "recovery_trace l"
  using assms
  by (auto simp: discard_rejected_def traced_def Let_def intro: recovery_trace.intros
      split: prod.splits if_splits)

section \<open>Properties\<close>

text \<open>
  (C30) Whatever the components answer, the calls made during one recovery form one of six
  sequences: none at all; a load that ends the run; a successful load and the resume; a rejected
  load and a discard that fails; a rejected load, the discard and a probe that finds a normal boot;
  or the same with a probe that finds a candidate boot, and then the fail-safe reboot. In
  particular the fail-safe is never requested before the record is gone, and never together with a
  resume.
\<close>

theorem Run_call_order:
  "case Run (traced_executor e) (w, []) of (result, e', w', calls) \<Rightarrow> recovery_trace calls"
proof -
  let ?e = "traced_executor e"
  show ?thesis
  proof (cases "has_run e \<or> \<not> arguments_valid ?e")
    case True
    then show ?thesis
      by (auto simp: Run_def Let_def intro: recovery_trace.refused) (simp add: traced_executor_def)
  next
    case False
    then obtain st rs fs pr where e: "request_store e = Some st"
      "orchestrator_ResumeAfterBoot e = Some rs" "executor_failsafe e = Some fs"
      "candidate_boot_probe e = Some pr"
      by (auto simp: arguments_valid_def traced_executor_def)
    have r: "has_run ?e = has_run e" by (simp add: traced_executor_def)
    obtain s req w1 where ld: "store_Load st (executor_board e) w = ((s, req), w1)"
      by (metis prod.collapse)
    show ?thesis
    proof (cases "MustDeactivate s")
      case True
      then have "s \<noteq> NotFound" "s \<noteq> StoreOk" "s \<noteq> StoreRecoveryProgressFailed" "s \<noteq> WorkspaceTooSmall"
        using not_must_deactivate by auto
      with False True r show ?thesis
        by (auto simp: Run_def Let_def run_body_def e ld traced_executor_def traced_def [of "\<lambda>r. EvLoad (fst r)"]
            intro: discard_rejected_trace [OF True] split: prod.splits)
    next
      case keep: False
      with False r show ?thesis
        by (auto simp: Run_def Let_def run_body_def e ld traced_executor_def traced_def
            intro: recovery_trace.intros split: prod.splits)
    qed
  qed
qed

text \<open>
  Recovery runs at most once per boot: after any call of \<open>Run\<close>, a further call reports that it
  has already run and touches neither the object nor the machine.
\<close>

theorem Run_at_most_once:
  assumes "Run e w = (result, e', w')"
  shows "Run e' v = (InitialResult\<lparr>status := AlreadyRun\<rparr>, e', v)"
proof -
  have "has_run e'"
    using assms by (auto simp: Run_def Let_def split: if_splits prod.splits)
  then show ?thesis by (simp add: Run_def)
qed

definition absent_executor :: "(nat, nat) UpdateRecoveryExecutor" where
  "absent_executor =
     \<lparr>request_store = None, orchestrator_ResumeAfterBoot = None,
      executor_failsafe = None, executor_board = Pi4Pi400,
      request_buffers = \<lparr>installed_build_info = NullView 0, github_response = NullView 0,
                         manifest_buffer = NullView 0, signature_buffer = NullView 0\<rparr>,
      orchestrator_workspace = \<lparr>installer_workspace =
           \<lparr>zip_entries_given = False, zip_entry_capacity = 0, expected_files_given = False,
            expected_file_capacity = 0, expected_directories_given = False,
            expected_directory_capacity = 0, zip_workspace_given = False, io_buffer = NullView 0\<rparr>,
         release_offer = None, verification_buffer = NullView 0, recovery_progress = None\<rparr>,
      scratch_release_download = None, candidate_boot_probe = None, has_run = False\<rparr>"

theorem Run_at_most_once_witness:
  "Run (absent_executor\<lparr>has_run := True\<rparr>) 5
   = (InitialResult\<lparr>status := AlreadyRun\<rparr>, absent_executor\<lparr>has_run := True\<rparr>, 5)"
  by (rule Run_at_most_once [of absent_executor 0 InitialResult _ 0])
    (simp add: Run_def absent_executor_def arguments_valid_def Let_def)

text \<open>
  The executor's client view of a reboot control: the fail-safe call of the control object \<open>c\<close>,
  with the object dropped after the call.
\<close>

definition failsafe_of :: "('c \<Rightarrow> 'w \<Rightarrow> bool \<times> 'c \<times> 'w) \<Rightarrow> 'c \<Rightarrow> 'w \<Rightarrow> bool \<times> 'w" where
  "failsafe_of f c w = (case f c w of (ok, c', w') \<Rightarrow> (ok, w'))"

context reboot_control
begin

lemma failsafe_of_refused:
  assumes "\<And>v. available c v = (False, v)"
  shows "failsafe_of failsafe c v = (False, v)"
  using failsafe_refused [OF assms [of v]] by (auto simp: failsafe_of_def)

lemma discard_rejected_gate_closed:
  assumes gate: "\<And>v. available c v = (False, v)"
    and discard: "store_Discard store w = (StoreOk, w1)"
    and probe: "probe w1 = (True, w2)"
  shows "discard_rejected store (failsafe_of failsafe c) probe result w
         = (result\<lparr>discard_attempted := True, discard_status := StoreOk, candidate_boot := True,
                   previous_boot_failsafe_requested := True,
                   status := PreviousBootFailSafeFailed\<rparr>, w2)"
  using discard probe
  by (simp add: discard_rejected_def failsafe_of_refused [OF gate] Let_def)

end

text \<open>
  With the tryboot reboot control of a build whose hardware gate is closed, a rejected record
  on a candidate boot is still discarded, and the fail-safe is reported as failed instead of
  rebooting: the machine is left exactly as the probe left it.
\<close>

theorem recovery_gate_closed:
  assumes "\<not> TrybootHardwareGateEnabled b"
    and "store_Discard store w = (StoreOk, w1)" "probe w1 = (True, w2)"
  shows "discard_rejected store
           (failsafe_of RequestPreviousBootFailSafe
              (make_reboot_control (ProductionTrybootRebootOperations b tags emux circle do_reboot)))
           probe result w
         = (result\<lparr>discard_attempted := True, discard_status := StoreOk, candidate_boot := True,
                   previous_boot_failsafe_requested := True,
                   status := PreviousBootFailSafeFailed\<rparr>, w2)"
  using assms
  by (intro tryboot.discard_rejected_gate_closed)
    (simp_all add: OneShotRecoverySupported_def OperationsValid_def make_reboot_control_def
      ProductionTrybootRebootOperations_def)

theorem recovery_gate_closed_witness:
  "status (fst (discard_rejected \<lparr>store_Load = (\<lambda>b w. ((StoreOk, 0 :: nat), w)), store_Discard = Pair StoreOk\<rparr>
      (failsafe_of RequestPreviousBootFailSafe
         (make_reboot_control
            (ProductionTrybootRebootOperations
               \<lparr>raspi_compile = False, enable_tryboot = True, enable_tryboot_observation = True\<rparr>
               flag_firmware (Pair 0) (Pair 0) id)))
      (Pair True) InitialResult (3, 4))) = PreviousBootFailSafeFailed"
  by (subst recovery_gate_closed [where ?w1.0 = "(3, 4)" and ?w2.0 = "(3, 4)"])
    (simp_all add: TrybootHardwareGateEnabled_def)

end
