(* ===== verification/Http_Head.thy ===== *)
theory Http_Head
  imports Update_Prelude
begin

text \<open>
  The head half of \<open>http_response_parser.cpp\<close>: status line and header fields. The input pointer
  and size are a \<open>byte_view\<close>; the pointer walks are recursions over the unread bytes. The two
  outputs, head and header size, are delivered with \<open>Inr\<close> when the code returns \<open>Ok\<close>; any other
  status is \<open>Inl\<close> (what is then left in the output structure is not modelled, callers discard it).
\<close>

section \<open>The code\<close>

definition kMaximumHttpHeaderBytes :: nat where "kMaximumHttpHeaderBytes = 32768"
definition kMaximumHttpLocationBytes :: nat where "kMaximumHttpLocationBytes = 2048"
definition kMaximumHttpContentTypeBytes :: nat where "kMaximumHttpContentTypeBytes = 96"

datatype HttpParseStatus =
    HttpOk | NeedMoreData | HttpInvalidArgument | HeaderTooLarge | InvalidStatusLine | InvalidHeader
  | DuplicateHeader | UnsupportedTransferEncoding | UnsupportedContentEncoding
  | AmbiguousBodyLength | MissingBodyLength | InvalidContentLength | MissingLocation
  | HttpOutputTooSmall

record HttpResponseHead =
  status_code :: nat
  has_content_length :: bool
  content_length :: u64
  chunked_body :: bool
  connection_close :: bool
  location :: cstring
  content_type :: cstring

text \<open>\<open>strchr\<close> also finds the terminating NUL of the set, hence the last disjunct.\<close>

definition IsTokenCharacter :: "byte \<Rightarrow> bool" where
  "IsTokenCharacter c \<longleftrightarrow>
     (ch CHR ''a'' \<le> c \<and> c \<le> ch CHR ''z'') \<or> (ch CHR ''A'' \<le> c \<and> c \<le> ch CHR ''Z'')
     \<or> (ch CHR ''0'' \<le> c \<and> c \<le> ch CHR ''9'')
     \<or> c \<in> set (ascii ''!#$%&'' @ [0x27] @ ascii ''*+-.^_'' @ [0x60] @ ascii ''|~'') \<or> c = 0"

definition HttpAsciiLower :: "byte \<Rightarrow> byte" where
  "HttpAsciiLower c =
     (if ch CHR ''A'' \<le> c \<and> c \<le> ch CHR ''Z'' then c - ch CHR ''A'' + ch CHR ''a'' else c)"

text \<open>\<open>NameEquals\<close> and \<open>ValueEqualsInsensitive\<close> have the same body.\<close>

definition NameEquals :: "bytes \<Rightarrow> cstring \<Rightarrow> bool" where
  "NameEquals name expected \<longleftrightarrow> length name = length expected \<and> map HttpAsciiLower name = expected"

definition ValueEqualsInsensitive :: "bytes \<Rightarrow> cstring \<Rightarrow> bool" where
  "ValueEqualsInsensitive v expected \<longleftrightarrow> length v = length expected \<and> map HttpAsciiLower v = expected"

definition CopyValue :: "bytes \<Rightarrow> nat \<Rightarrow> cstring option" where
  "CopyValue v output_size = (if length v \<ge> output_size then None else Some v)"

fun decimal_loop :: "bytes \<Rightarrow> u64 \<Rightarrow> u64 option" where
  "decimal_loop [] parsed = Some parsed"
| "decimal_loop (c # cs) parsed =
     (if c < ch CHR ''0'' \<or> c > ch CHR ''9'' then None
      else
        (let digit = ucast (c - ch CHR ''0'')
         in if parsed > (- 1 - digit) div 10 then None
            else decimal_loop cs (parsed * 10 + digit)))"

definition ParseDecimal :: "bytes \<Rightarrow> u64 option" where
  "ParseDecimal v = (if length v = 0 then None else decimal_loop v 0)"

fun FindCrlf :: "bytes \<Rightarrow> nat option" where
  "FindCrlf (a # b # rest) =
     (if a = 13 \<and> b = 10 then Some 0
      else if a = 10 then None
      else map_option Suc (FindCrlf (b # rest)))"
| "FindCrlf _ = None"

definition StatusMayHaveUnframedBody :: "nat \<Rightarrow> bool" where
  "StatusMayHaveUnframedBody s \<longleftrightarrow>
     (s \<ge> 100 \<and> s < 200) \<or> s = 204 \<or> s = 304 \<or> (s \<ge> 300 \<and> s < 400)"

definition is_digit_between :: "byte \<Rightarrow> byte \<Rightarrow> byte \<Rightarrow> bool" where
  "is_digit_between lo hi c \<longleftrightarrow> \<not> (c < lo \<or> c > hi)"

text \<open>The status line, without its line end; the result is the status code.\<close>

definition parse_status_line :: "bytes \<Rightarrow> nat option" where
  "parse_status_line line =
     (if length line < 12
         \<or> (take 9 line \<noteq> ascii ''HTTP/1.1 '' \<and> take 9 line \<noteq> ascii ''HTTP/1.0 '')
         \<or> \<not> is_digit_between (ch CHR ''1'') (ch CHR ''5'') (line ! 9)
         \<or> \<not> is_digit_between (ch CHR ''0'') (ch CHR ''9'') (line ! 10)
         \<or> \<not> is_digit_between (ch CHR ''0'') (ch CHR ''9'') (line ! 11)
         \<or> (length line > 12 \<and> line ! 12 \<noteq> ch CHR '' '')
      then None
      else if list_ex (\<lambda>c. c < 0x20 \<or> c > 0x7e) (drop 12 line) then None
      else Some (digit_value (line ! 9) * 100 + digit_value (line ! 10) * 10 + digit_value (line ! 11)))"

record header_state =
  head :: HttpResponseHead
  saw_transfer_encoding :: bool
  saw_content_encoding :: bool
  saw_location :: bool
  saw_content_type :: bool
  saw_connection :: bool

definition is_blank :: "byte \<Rightarrow> bool" where
  "is_blank c \<longleftrightarrow> c = ch CHR '' '' \<or> c = 9"

text \<open>The field value: what follows the colon, trimmed at both ends.\<close>

definition trim_value :: "bytes \<Rightarrow> bytes" where
  "trim_value v = rev (dropWhile is_blank (rev (dropWhile is_blank v)))"

text \<open>One recognised field; other names leave the state alone.\<close>

definition apply_header :: "header_state \<Rightarrow> bytes \<Rightarrow> bytes \<Rightarrow> HttpParseStatus + header_state" where
  "apply_header st name v =
     (if NameEquals name (ascii ''content-length'') then
        (if has_content_length (head st) then Inl DuplicateHeader
         else
           (case ParseDecimal v of
              None \<Rightarrow> Inl InvalidContentLength
            | Some n \<Rightarrow> Inr (st\<lparr>head := (head st)\<lparr>content_length := n, has_content_length := True\<rparr>\<rparr>)))
      else if NameEquals name (ascii ''transfer-encoding'') then
        (if saw_transfer_encoding st then Inl DuplicateHeader
         else if \<not> ValueEqualsInsensitive v (ascii ''chunked'') then Inl UnsupportedTransferEncoding
         else Inr (st\<lparr>saw_transfer_encoding := True, head := (head st)\<lparr>chunked_body := True\<rparr>\<rparr>))
      else if NameEquals name (ascii ''content-encoding'') then
        (if saw_content_encoding st then Inl DuplicateHeader
         else if \<not> ValueEqualsInsensitive v (ascii ''identity'') then Inl UnsupportedContentEncoding
         else Inr (st\<lparr>saw_content_encoding := True\<rparr>))
      else if NameEquals name (ascii ''location'') then
        (if saw_location st then Inl DuplicateHeader
         else
           (case CopyValue v kMaximumHttpLocationBytes of
              None \<Rightarrow> Inl HttpOutputTooSmall
            | Some l \<Rightarrow> Inr (st\<lparr>saw_location := True, head := (head st)\<lparr>location := l\<rparr>\<rparr>)))
      else if NameEquals name (ascii ''content-type'') then
        (if saw_content_type st then Inl DuplicateHeader
         else
           (case CopyValue v kMaximumHttpContentTypeBytes of
              None \<Rightarrow> Inl HttpOutputTooSmall
            | Some l \<Rightarrow> Inr (st\<lparr>saw_content_type := True, head := (head st)\<lparr>content_type := l\<rparr>\<rparr>)))
      else if NameEquals name (ascii ''connection'') then
        (if saw_connection st then Inl DuplicateHeader
         else Inr (st\<lparr>saw_connection := True,
                      head := (head st)\<lparr>connection_close := ValueEqualsInsensitive v (ascii ''close'')\<rparr>\<rparr>))
      else if NameEquals name (ascii ''content-range'') then Inl InvalidHeader
      else Inr st)"

text \<open>One header line, without its line end.\<close>

definition parse_header_line :: "header_state \<Rightarrow> bytes \<Rightarrow> HttpParseStatus + header_state" where
  "parse_header_line st line =
     (case memchr (ch CHR '':'') line of
        None \<Rightarrow> Inl InvalidHeader
      | Some colon \<Rightarrow>
          if colon = 0 then Inl InvalidHeader
          else if \<not> list_all IsTokenCharacter (take colon line) then Inl InvalidHeader
          else
            (let v = trim_value (drop (colon + 1) line)
             in if list_ex (\<lambda>c. (c < 0x20 \<and> c \<noteq> 9) \<or> c = 0x7f) v then Inl InvalidHeader
                else apply_header st (take colon line) v))"

text \<open>
  The loop over the lines: \<open>full\<close> says that the input reaches the size limit, \<open>pos\<close> is the number of
  bytes before \<open>rest\<close>.
\<close>

definition more_data :: "bool \<Rightarrow> HttpParseStatus" where
  "more_data full = (if full then HeaderTooLarge else NeedMoreData)"

function parse_headers ::
  "bool \<Rightarrow> nat \<Rightarrow> header_state \<Rightarrow> bytes \<Rightarrow> HttpParseStatus + (header_state \<times> nat)" where
  "parse_headers full pos st rest =
     (if length rest < 2 then Inl (more_data full)
      else if rest ! 0 = 13 \<and> rest ! 1 = 10 then Inr (st, pos + 2)
      else if is_blank (rest ! 0) then Inl InvalidHeader
      else
        (case FindCrlf rest of
           None \<Rightarrow> Inl (more_data full)
         | Some i \<Rightarrow>
             (case parse_header_line st (take i rest) of
                Inl e \<Rightarrow> Inl e
              | Inr st' \<Rightarrow> parse_headers full (pos + i + 2) st' (drop (i + 2) rest))))"
  by pat_completeness auto
termination
  by (relation "measure (\<lambda>(full, pos, st, rest). length rest)") auto

declare parse_headers.simps [simp del]

definition initial_header_state :: "nat \<Rightarrow> header_state" where
  "initial_header_state code =
     \<lparr>head = \<lparr>status_code = code, has_content_length = False, content_length = 0,
              chunked_body = False, connection_close = False, location = [], content_type = []\<rparr>,
      saw_transfer_encoding = False, saw_content_encoding = False, saw_location = False,
      saw_content_type = False, saw_connection = False\<rparr>"

definition check_framing :: "HttpResponseHead \<Rightarrow> HttpParseStatus" where
  "check_framing h =
     (if has_content_length h \<and> chunked_body h then AmbiguousBodyLength
      else if \<not> has_content_length h \<and> \<not> chunked_body h \<and> \<not> StatusMayHaveUnframedBody (status_code h)
        then MissingBodyLength
      else if status_code h \<ge> 300 \<and> status_code h < 400 \<and> location h = [] then MissingLocation
      else HttpOk)"

definition ParseHttpResponseHead ::
  "byte_view \<Rightarrow> bool \<Rightarrow> HttpParseStatus + (HttpResponseHead \<times> nat)" where
  "ParseHttpResponseHead input outputs_given =
     (if view_null input \<or> \<not> outputs_given then Inl HttpInvalidArgument
      else
        (let bs = take kMaximumHttpHeaderBytes (view_bytes input);
             full = (length bs = kMaximumHttpHeaderBytes)
         in case FindCrlf bs of
              None \<Rightarrow> Inl (more_data full)
            | Some i \<Rightarrow>
                (case parse_status_line (take i bs) of
                   None \<Rightarrow> Inl InvalidStatusLine
                 | Some code \<Rightarrow>
                     (case parse_headers full (i + 2) (initial_header_state code) (drop (i + 2) bs) of
                        Inl e \<Rightarrow> Inl e
                      | Inr (st, header_bytes) \<Rightarrow>
                          if check_framing (head st) \<noteq> HttpOk then Inl (check_framing (head st))
                          else Inr (head st, header_bytes)))))"

fun HttpParseStatusString :: "HttpParseStatus \<Rightarrow> string" where
  "HttpParseStatusString HttpOk = ''ok''"
| "HttpParseStatusString NeedMoreData = ''need more HTTP header data''"
| "HttpParseStatusString HttpInvalidArgument = ''invalid argument''"
| "HttpParseStatusString HeaderTooLarge = ''HTTP header too large''"
| "HttpParseStatusString InvalidStatusLine = ''invalid HTTP status line''"
| "HttpParseStatusString InvalidHeader = ''invalid HTTP header''"
| "HttpParseStatusString DuplicateHeader = ''duplicate HTTP header''"
| "HttpParseStatusString UnsupportedTransferEncoding = ''unsupported transfer encoding''"
| "HttpParseStatusString UnsupportedContentEncoding = ''unsupported content encoding''"
| "HttpParseStatusString AmbiguousBodyLength = ''ambiguous HTTP body length''"
| "HttpParseStatusString MissingBodyLength = ''missing HTTP body length''"
| "HttpParseStatusString InvalidContentLength = ''invalid content length''"
| "HttpParseStatusString MissingLocation = ''redirect location missing''"
| "HttpParseStatusString HttpOutputTooSmall = ''HTTP field too large''"

section \<open>Decimal numbers\<close>

lemma decimal_loop_Cons:
  "decimal_loop (c # cs) v =
     (if \<not> is_digit c \<or> 2 ^ 64 \<le> unat v * 10 + digit_value c then None
      else decimal_loop cs (v * 10 + ucast (c - ch CHR ''0'')))"
  by (simp only: decimal_loop.simps Let_def is_digit_guard decimal_step(1)) simp

lemma decimal_loop_iff:
  "decimal_loop ds v = Some n \<longleftrightarrow> list_all is_digit ds \<and> unat n = decimal_value ds (unat v)"
proof (induction ds arbitrary: v)
  case Nil
  then show ?case by (auto intro: unsigned_word_eqI [where 'a = nat])
next
  case (Cons c cs)
  show ?case
  proof (cases "2 ^ 64 \<le> unat v * 10 + digit_value c")
    case True
    with decimal_value_too_big [OF True] show ?thesis
      by (simp add: decimal_loop_Cons del: decimal_loop.simps decimal_value.simps)
  next
    case False
    with Cons decimal_step(2) [of v c] show ?thesis
      by (simp add: decimal_loop_Cons linorder_not_le del: decimal_loop.simps)
  qed
qed

section \<open>The parser looks at nothing behind the header\<close>

lemma FindCrlf_bound: "FindCrlf bs = Some i \<Longrightarrow> i + 2 \<le> length bs"
  by (induction bs arbitrary: i rule: FindCrlf.induct) (auto split: if_splits)

lemma FindCrlf_prefix:
  "FindCrlf bs = Some i \<Longrightarrow> i + 2 \<le> n \<Longrightarrow> FindCrlf (take n bs @ ext) = Some i"
proof (induction bs arbitrary: i n rule: FindCrlf.induct)
  case (1 a b rest)
  then obtain k where k: "n = Suc (Suc k)" by (metis add_2_eq_Suc' le_Suc_ex add_Suc)
  show ?case
  proof (cases "a = 13 \<and> b = 10 \<or> a = 10")
    case True
    with 1 k show ?thesis by (auto split: if_splits)
  next
    case False
    with 1 obtain j where j: "FindCrlf (b # rest) = Some j" "i = Suc j" by (auto split: if_splits)
    with 1 False k have "FindCrlf (take (Suc k) (b # rest) @ ext) = Some j"
      by (intro "1.IH") auto
    with False j k show ?thesis by auto
  qed
qed auto

text \<open>A successful run either stops at the empty line or reads one line and goes on.\<close>

lemma parse_headersE:
  assumes "parse_headers full pos st rest = Inr (st', n)"
  obtains (stop) "2 \<le> length rest" "rest ! 0 = 13 \<and> rest ! 1 = 10" "st' = st" "n = pos + 2"
  | (line) i st1 where "2 \<le> length rest" "\<not> (rest ! 0 = 13 \<and> rest ! 1 = 10)" "\<not> is_blank (rest ! 0)"
      "FindCrlf rest = Some i" "parse_header_line st (take i rest) = Inr st1"
      "parse_headers full (pos + i + 2) st1 (drop (i + 2) rest) = Inr (st', n)"
proof (cases "length rest < 2 \<or> rest ! 0 = 13 \<and> rest ! 1 = 10 \<or> is_blank (rest ! 0)")
  case True
  with assms have "2 \<le> length rest" "rest ! 0 = 13 \<and> rest ! 1 = 10" "st' = st" "n = pos + 2"
    by (subst (asm) parse_headers.simps, auto split: if_splits)+
  then show thesis by (rule stop)
next
  case False
  with assms obtain i st1 where "FindCrlf rest = Some i" "parse_header_line st (take i rest) = Inr st1"
    "parse_headers full (pos + i + 2) st1 (drop (i + 2) rest) = Inr (st', n)"
    by (subst (asm) parse_headers.simps) (auto split: if_splits option.splits sum.splits)
  with False show thesis by (intro line) auto
qed

lemma parse_headers_induct [consumes 1, case_names stop line]:
  assumes "parse_headers full pos st rest = Inr (st', n)"
    and "\<And>pos st rest. 2 \<le> length rest \<Longrightarrow> rest ! 0 = 13 \<and> rest ! 1 = 10 \<Longrightarrow> P pos st rest st (pos + 2)"
    and "\<And>pos st rest i st1 st' n. 2 \<le> length rest \<Longrightarrow> \<not> (rest ! 0 = 13 \<and> rest ! 1 = 10) \<Longrightarrow>
      \<not> is_blank (rest ! 0) \<Longrightarrow> FindCrlf rest = Some i \<Longrightarrow>
      parse_header_line st (take i rest) = Inr st1 \<Longrightarrow>
      P (pos + i + 2) st1 (drop (i + 2) rest) st' n \<Longrightarrow> P pos st rest st' n"
  shows "P pos st rest st' n"
  using assms(1)
proof (induction "length rest" arbitrary: pos st rest rule: less_induct)
  case less
  from less.prems show ?case
  proof (cases rule: parse_headersE)
    case stop
    with assms(2) show ?thesis by simp
  next
    case (line i st1)
    have "length (drop (i + 2) rest) < length rest" using line(1) by simp
    from less.hyps [OF this line(6)] show ?thesis by (intro assms(3) [OF line(1-5)])
  qed
qed

lemma parse_headers_bound:
  "parse_headers full pos st rest = Inr (st', n) \<Longrightarrow> pos + 2 \<le> n \<and> n \<le> pos + length rest"
proof (induction rule: parse_headers_induct)
  case (line pos st rest i st1 st' n)
  then have "pos + i + 4 \<le> n" "n \<le> pos + i + 2 + (length rest - (i + 2))" by simp_all
  with FindCrlf_bound [OF line(4)] show ?case by linarith
qed simp

lemma parse_headers_prefix:
  assumes "parse_headers full pos st rest = Inr (st', n)" "n - pos \<le> k"
  shows "parse_headers full' pos st (take k rest @ ext) = Inr (st', n)"
  using assms
proof (induction "length rest" arbitrary: pos st rest k rule: less_induct)
  case less
  have k2: "2 \<le> k" "2 \<le> length rest"
    using parse_headers_bound [OF less.prems(1)] less.prems(2) by linarith+
  then have nth: "(take k rest @ ext) ! 0 = rest ! 0" "(take k rest @ ext) ! 1 = rest ! 1"
    "\<not> length (take k rest @ ext) < 2"
    by (auto simp: nth_append)
  from less.prems(1) show ?case
  proof (cases rule: parse_headersE)
    case stop
    with nth show ?thesis by (subst parse_headers.simps) simp
  next
    case (line i st1)
    have ik: "i + 4 \<le> k" using parse_headers_bound [OF line(6)] less.prems(2) by linarith
    have "parse_headers full' (pos + i + 2) st1 (take (k - (i + 2)) (drop (i + 2) rest) @ ext) = Inr (st', n)"
      using less.prems(2) line(1) by (intro less.hyps [OF _ line(6)]) auto
    moreover have "drop (i + 2) (take k rest @ ext) = take (k - (i + 2)) (drop (i + 2) rest) @ ext"
      using ik FindCrlf_bound [OF line(4)] by (simp add: drop_take)
    moreover have "take i (take k rest @ ext) = take i rest"
      using ik FindCrlf_bound [OF line(4)] by (simp add: min_absorb1)
    moreover have "FindCrlf (take k rest @ ext) = Some i"
      using FindCrlf_prefix [OF line(4)] ik by simp
    ultimately show ?thesis
      using line nth by (subst parse_headers.simps) (simp only: if_False option.case sum.case)
  qed
qed

lemma parse_status_line_range:
  assumes "parse_status_line line = Some code"
  shows "100 \<le> code \<and> code \<le> 599"
proof -
  have dig: "digit_value c \<le> 9" if "is_digit_between (ch CHR ''0'') (ch CHR ''9'') c" for c
    using that by (auto simp: is_digit_between_def digit_value_def not_less word_le_nat_alt unat_sub)
  have first: "1 \<le> digit_value c \<and> digit_value c \<le> 5"
    if "is_digit_between (ch CHR ''1'') (ch CHR ''5'') c" for c
    using that by (auto simp: is_digit_between_def digit_value_def not_less word_le_nat_alt unat_sub)
  from assms have "code = digit_value (line ! 9) * 100 + digit_value (line ! 10) * 10 + digit_value (line ! 11)"
    "is_digit_between (ch CHR ''1'') (ch CHR ''5'') (line ! 9)"
    "is_digit_between (ch CHR ''0'') (ch CHR ''9'') (line ! 10)"
    "is_digit_between (ch CHR ''0'') (ch CHR ''9'') (line ! 11)"
    by (auto simp: parse_status_line_def split: if_splits)
  with first [of "line ! 9"] dig [of "line ! 10"] dig [of "line ! 11"] show ?thesis by linarith
qed

text \<open>
  Facts that hold of every state the header loop passes through, given that one line keeps them.
\<close>

lemma parse_headers_invariant:
  assumes "parse_headers full pos st rest = Inr (st', n)" "I st"
    and "\<And>st name v st'. I st \<Longrightarrow> apply_header st name v = Inr st' \<Longrightarrow> I st'"
  shows "I st'"
  using assms(1,2)
proof (induction rule: parse_headers_induct)
  case (line pos st rest i st1 st' n)
  then obtain name v where "apply_header st name v = Inr st1"
    by (auto simp: parse_header_line_def Let_def split: option.splits if_splits)
  with line.prems assms(3) have "I st1" by blast
  then show ?case by (rule line.IH)
qed

lemma head_of_parse:
  assumes "ParseHttpResponseHead (Bytes bs) True = Inr (h, n)"
  obtains i code st where "FindCrlf (take kMaximumHttpHeaderBytes bs) = Some i"
    "parse_status_line (take i (take kMaximumHttpHeaderBytes bs)) = Some code"
    "parse_headers (length (take kMaximumHttpHeaderBytes bs) = kMaximumHttpHeaderBytes) (i + 2)
       (initial_header_state code) (drop (i + 2) (take kMaximumHttpHeaderBytes bs)) = Inr (st, n)"
    "h = head st" "check_framing h = HttpOk"
  using assms
  by (auto simp: ParseHttpResponseHead_def Let_def split: option.splits sum.splits if_splits)

section \<open>Properties\<close>

text \<open>
  An accepted response head is unambiguously framed: it has a content length or the chunked
  coding but never both, it may lack both only for the statuses that carry no framed body, a
  redirect names its location, the status code lies between 100 and 599, and the header ends
  within the input and within the size limit.
\<close>

theorem accepted_head_framed:
  assumes "ParseHttpResponseHead (Bytes bs) True = Inr (h, n)"
  shows "\<not> (has_content_length h \<and> chunked_body h)
         \<and> (has_content_length h \<or> chunked_body h \<or> StatusMayHaveUnframedBody (status_code h))
         \<and> (status_code h < 300 \<or> 400 \<le> status_code h \<or> location h \<noteq> [])
         \<and> 100 \<le> status_code h \<and> status_code h \<le> 599
         \<and> n \<le> length bs \<and> n \<le> kMaximumHttpHeaderBytes"
proof -
  from assms obtain i code st where p: "FindCrlf (take kMaximumHttpHeaderBytes bs) = Some i"
    "parse_status_line (take i (take kMaximumHttpHeaderBytes bs)) = Some code"
    "parse_headers (length (take kMaximumHttpHeaderBytes bs) = kMaximumHttpHeaderBytes) (i + 2)
       (initial_header_state code) (drop (i + 2) (take kMaximumHttpHeaderBytes bs)) = Inr (st, n)"
    "h = head st" "check_framing h = HttpOk" by (rule head_of_parse)
  have "status_code (head st) = code"
    by (rule parse_headers_invariant [OF p(3)])
      (auto simp: initial_header_state_def apply_header_def split: if_splits option.splits)
  with parse_status_line_range [OF p(2)] p(4) have "100 \<le> status_code h \<and> status_code h \<le> 599" by simp
  moreover have "n \<le> length (take kMaximumHttpHeaderBytes bs)"
    using parse_headers_bound [OF p(3)] FindCrlf_bound [OF p(1)] unfolding length_drop by linarith
  ultimately show ?thesis
    using p(5) by (auto simp: check_framing_def split: if_splits)
qed

definition sample_response :: bytes where
  "sample_response =
     ascii ''HTTP/1.1 200 OK'' @ [13, 10] @ ascii ''Content-Length: 12'' @ [13, 10, 13, 10] @ ascii ''Hello''"

definition sample_head :: HttpResponseHead where
  "sample_head =
     \<lparr>status_code = 200, has_content_length = True, content_length = 12, chunked_body = False,
      connection_close = False, location = [], content_type = []\<rparr>"

lemma sample_response_ok: "ParseHttpResponseHead (Bytes sample_response) True = Inr (sample_head, 39)"
  by (simp add: ParseHttpResponseHead_def sample_response_def sample_head_def Let_def
      kMaximumHttpHeaderBytes_def parse_status_line_def is_digit_between_def digit_value_def
      parse_headers.simps is_blank_def parse_header_line_def memchr_def IsTokenCharacter_def
      trim_value_def apply_header_def NameEquals_def HttpAsciiLower_def ParseDecimal_def
      initial_header_state_def check_framing_def)

theorem accepted_head_framed_witness:
  "ParseHttpResponseHead (Bytes sample_response) True = Inr (sample_head, 39)
   \<and> has_content_length sample_head \<and> \<not> chunked_body sample_head \<and> 39 \<le> length sample_response"
  using sample_response_ok accepted_head_framed [OF sample_response_ok]
  by (simp add: sample_head_def)

text \<open>
  The parser reads nothing behind the header: once it has accepted a head of \<open>n\<close> bytes, it
  gives the same head for every input that starts with these \<open>n\<close> bytes, whatever follows and
  however much of it has arrived.
\<close>

theorem head_parsing_stable:
  assumes "ParseHttpResponseHead (Bytes bs) True = Inr (h, n)"
  shows "ParseHttpResponseHead (Bytes (take n bs @ ext)) True = Inr (h, n)"
proof -
  let ?M = kMaximumHttpHeaderBytes
  let ?bs = "take ?M bs"
  from assms obtain i code st where p: "FindCrlf ?bs = Some i" "parse_status_line (take i ?bs) = Some code"
    "parse_headers (length ?bs = ?M) (i + 2) (initial_header_state code) (drop (i + 2) ?bs) = Inr (st, n)"
    "h = head st" "check_framing h = HttpOk" by (rule head_of_parse)
  have b: "i + 4 \<le> n" "n \<le> length ?bs"
    using parse_headers_bound [OF p(3)] FindCrlf_bound [OF p(1)] unfolding length_drop by linarith+
  define x where "x = take ?M (take n bs @ ext)"
  have "x = take n ?bs @ take (?M - n) ext"
    using b by (simp add: x_def min_absorb1 min_absorb2)
  then obtain ext' where x: "x = take n ?bs @ ext'" by blast
  have drop_pre: "drop (i + 2) (take n B @ ext') = take (n - (i + 2)) (drop (i + 2) B) @ ext'"
    if "i + 4 \<le> n" "n \<le> length B" for B :: bytes
    using that by (simp add: drop_take)
  have "FindCrlf x = Some i" using FindCrlf_prefix [OF p(1), of n ext'] b by (simp add: x)
  moreover have "take i x = take i ?bs" using b by (simp add: x min_absorb1)
  moreover have "drop (i + 2) x = take (n - (i + 2)) (drop (i + 2) ?bs) @ ext'"
    unfolding x using drop_pre [OF b] .
  moreover have "parse_headers (length x = ?M) (i + 2) (initial_header_state code)
      (take (n - (i + 2)) (drop (i + 2) ?bs) @ ext') = Inr (st, n)"
    by (rule parse_headers_prefix [OF p(3)]) simp
  ultimately show ?thesis
    using p(2,4,5)
    unfolding ParseHttpResponseHead_def Let_def view_bytes.simps view_null.simps x_def [symmetric]
    by simp
qed

theorem head_parsing_stable_witness:
  "ParseHttpResponseHead (Bytes (take 39 sample_response @ [1, 2, 3])) True = Inr (sample_head, 39)"
  by (rule head_parsing_stable [OF sample_response_ok])

text \<open>
  A content length is read exactly: the decimal parser succeeds precisely on non-empty digit
  strings whose value fits 64 bits, and returns that value.
\<close>

theorem ParseDecimal_exact:
  "ParseDecimal ds = Some n \<longleftrightarrow> ds \<noteq> [] \<and> list_all is_digit ds \<and> unat n = decimal_value ds 0"
  by (auto simp: ParseDecimal_def decimal_loop_iff)

text \<open>
  The token test accepts the NUL byte, because \<open>strchr\<close> finds the terminator of its set: a
  header field name may contain NUL, which no HTTP token may.
\<close>

theorem IsTokenCharacter_accepts_nul: "IsTokenCharacter 0"
  by (simp add: IsTokenCharacter_def)

end
