(* ===== verification/Offer_Facts.thy ===== *)
theory Offer_Facts
  imports Release_Offer Update_Request
begin

text \<open>
  What an offer guarantees, from the raw bytes it was built from, and that the orchestrator's own
  validation of the offer agrees with it.
\<close>

section \<open>From the bytes to the offer\<close>

text \<open>
  The files of the release: the selection by the signed names succeeds, and the sizes GitHub reports
  are those of the bytes at hand and of the signed archive.
\<close>

definition offer_files ::
  "repository \<Rightarrow> ReleaseAcquisitionMode \<Rightarrow> byte_view \<Rightarrow> byte_view \<Rightarrow> ReleaseOffer \<Rightarrow> bool" where
  "offer_files r mode manifest_bytes signature_envelope offer \<longleftrightarrow>
     (let g = offer_github offer; m = offer_manifest offer; q = offer_assets offer; as = array_items (assets g)
      in FindRequiredAssetsForKind r g (ReleaseKind mode) (Some (manifest_tag m))
           (Some (archive_filename (manifest_asset m))) = (AssetsOk, q)
         \<and> unat (asset_size (as ! the (required_manifest q))) = view_size manifest_bytes
         \<and> unat (asset_size (as ! the (required_signature q))) = view_size signature_envelope
         \<and> asset_size (as ! the (required_board_zip q)) = archive_download_size (manifest_asset m))"

text \<open>The release is newer than the installation, for its board and its updater.\<close>

definition offer_newer :: "InstalledBuildInfo \<Rightarrow> ReleaseManifest \<Rightarrow> bool" where
  "offer_newer b m \<longleftrightarrow>
     build_release_sequence b < manifest_release_sequence m
     \<and> build_release_epoch b \<le> manifest_release_epoch m
     \<and> manifest_minimum_abi m \<le> build_updater_abi b \<and> build_updater_abi b \<le> manifest_maximum_abi m"

text \<open>
  The three records of the offer are what the parsers make of the very bytes at hand: the installed
  record of the installed bytes, GitHub's description of its response, and the manifest of the
  bytes that the signature covers.
\<close>

definition offer_read ::
  "repository \<Rightarrow> byte_view \<Rightarrow> byte_view \<Rightarrow> byte_view \<Rightarrow> BoardFamily \<Rightarrow> ReleaseAcquisitionMode
   \<Rightarrow> ReleaseOfferStorage \<Rightarrow> ReleaseOffer \<Rightarrow> bool" where
  "offer_read r installed_build_info github_response manifest_bytes running mode storage offer \<longleftrightarrow>
     ParseBuildInfo installed_build_info (installed_tokens_given storage) (installed_token_capacity storage) True
       = Inr (offer_installed offer)
     \<and> fst (ParseGitHubRelease r github_response
              \<lparr>storage_tokens_given = github_tokens_given storage,
               storage_token_capacity = github_token_capacity storage,
               storage_assets_given = github_assets_given storage,
               storage_asset_capacity = github_asset_capacity storage\<rparr> (ReleaseKind mode) True)
       = (GitHubOk, Some (offer_github offer))
     \<and> ParseReleaseManifest manifest_bytes running (offer_manifest_storage storage) True
       = Inr (offer_manifest offer)"

definition offer_authentic ::
  "repository \<Rightarrow> byte_view \<Rightarrow> byte_view \<Rightarrow> byte_view \<Rightarrow> byte_view \<Rightarrow> BoardFamily \<Rightarrow> ReleaseAcquisitionMode
   \<Rightarrow> TrustedReleaseKey array_view \<Rightarrow> verify_function option \<Rightarrow> ReleaseOfferStorage \<Rightarrow> ReleaseOffer \<Rightarrow> bool" where
  "offer_authentic r installed_build_info github_response manifest_bytes signature_envelope running mode
     keys verify storage offer \<longleftrightarrow>
     (let b = offer_installed offer; m = offer_manifest offer
      in offer_read r installed_build_info github_response manifest_bytes running mode storage offer
         \<and> IsKnownBoardFamily running \<and> AcquisitionModeValid mode
         \<and> build_info_ok b \<and> build_board b = running
         \<and> manifest_ok (offer_manifest_storage storage) running m
         \<and> (\<exists>ks v. keys = Array ks \<and> verify = Some v \<and> vouched v ks manifest_bytes m signature_envelope)
         \<and> offer_files r mode manifest_bytes signature_envelope offer
         \<and> offer_newer b m \<and> offer_decision offer = UpdateAvailable
         \<and> offer_reset_area_count offer = length (offer_reset_areas offer)
         \<and> (offer_configuration_status offer, offer_reset_areas offer) = ClassifySchemas b m)"

lemma EvaluateReleaseCandidate_newer:
  assumes "EvaluateReleaseCandidate (offered_installation b) (offered_candidate mode g m) = UpdateAvailable"
    "\<not> manifest_release_epoch m < build_release_epoch b"
  shows "offer_newer b m"
  using assms
  by (auto simp: EvaluateReleaseCandidate_def offered_installation_def offered_candidate_def offer_newer_def
      not_less split: if_splits)

lemma offer_decide_ok:
  assumes "offer_decide mode b g m q result = (res, Some offer)"
  shows "offer_status res = OfferOk \<and> offer_newer b m \<and> offer_decision offer = UpdateAvailable
    \<and> offer_installed offer = b \<and> offer_github offer = g \<and> offer_manifest offer = m \<and> offer_assets offer = q
    \<and> offer_reset_area_count offer = length (offer_reset_areas offer)
    \<and> (offer_configuration_status offer, offer_reset_areas offer) = ClassifySchemas b m"
  using assms EvaluateReleaseCandidate_newer [of b mode g m]
  by (auto simp: offer_decide_def Let_def split: if_splits prod.splits)

lemma offer_authenticate_ok:
  assumes "offer_authenticate r mb se running mode keys verify storage b g metadata result = (res, Some offer)"
    and "unat (asset_size (array_items (assets g) ! the (metadata_manifest metadata))) = view_size mb"
    and "unat (asset_size (array_items (assets g) ! the (metadata_signature metadata))) = view_size se"
  shows "ParseReleaseManifest mb running (offer_manifest_storage storage) True = Inr (offer_manifest offer)
    \<and> offer_github offer = g
    \<and> offer_status res = OfferOk \<and> manifest_ok (offer_manifest_storage storage) running (offer_manifest offer)
    \<and> (\<exists>ks v. keys = Array ks \<and> verify = Some v \<and> vouched v ks mb (offer_manifest offer) se)
    \<and> offer_files r mode mb se offer \<and> offer_newer b (offer_manifest offer)
    \<and> offer_decision offer = UpdateAvailable \<and> offer_installed offer = b
    \<and> offer_reset_area_count offer = length (offer_reset_areas offer)
    \<and> (offer_configuration_status offer, offer_reset_areas offer) = ClassifySchemas b (offer_manifest offer)"
proof -
  obtain m q r2 where m: "ParseReleaseManifest mb running (offer_manifest_storage storage) True = Inr m"
    and t: "trust_status (VerifyManifestTrust mb m se keys verify) = Trusted"
    and f: "FindRequiredAssetsForKind r g (ReleaseKind mode) (Some (manifest_tag m))
      (Some (archive_filename (manifest_asset m))) = (AssetsOk, q)"
    and z: "required_manifest q = metadata_manifest metadata" "required_signature q = metadata_signature metadata"
      "asset_size (array_items (assets g) ! the (required_board_zip q)) = archive_download_size (manifest_asset m)"
    and d: "offer_decide mode b g m q r2 = (res, Some offer)"
    using assms(1) by (auto simp: offer_authenticate_def Let_def split: sum.splits if_splits prod.splits)
  note o = offer_decide_ok [OF d]
  have "manifest_ok (offer_manifest_storage storage) running m"
    using ParseReleaseManifest_manifest_ok [OF m] by simp
  moreover have "\<exists>ks v. keys = Array ks \<and> verify = Some v \<and> vouched v ks mb m se"
    using t unfolding trusted_iff by blast
  moreover have "offer_files r mode mb se offer"
    using f z assms(2,3) o by (simp add: offer_files_def Let_def)
  ultimately show ?thesis using o m by simp
qed

lemma build_offer_status:
  "BuildReleaseOfferForMode r ib gr mb se running mode keys verify storage given = (res, None) \<Longrightarrow>
   offer_status res \<noteq> OfferOk"
  by (auto simp: BuildReleaseOfferForMode_def offer_describe_def offer_authenticate_def offer_decide_def
      MakeOfferResult_def Let_def split: if_splits sum.splits prod.splits)

lemma ParseGitHubRelease_some:
  "ParseGitHubRelease r encoded store k given = ((GitHubOk, release), j) \<Longrightarrow> \<exists>g. release = Some g"
  by (auto simp: ParseGitHubRelease_def Let_def map_prod_def split: if_splits prod.splits)

lemma build_offer_ok:
  assumes "BuildReleaseOfferForMode r ib gr mb se running mode keys verify storage given = (res, Some offer)"
  shows "offer_status res = OfferOk
    \<and> offer_authentic r ib gr mb se running mode keys verify storage offer"
proof -
  obtain b r1 where b: "ParseBuildInfo ib (installed_tokens_given storage) (installed_token_capacity storage) True = Inr b"
    "build_board b = running" "IsKnownBoardFamily running" "mode = ModePublishedStable \<or> mode = ModePreparedDraft"
    and d: "offer_describe r gr mb se running mode keys verify storage b r1 = (res, Some offer)"
    using assms by (auto simp: BuildReleaseOfferForMode_def Let_def split: if_splits sum.splits)
  obtain g metadata r2 where
    g: "fst (ParseGitHubRelease r gr
          \<lparr>storage_tokens_given = github_tokens_given storage, storage_token_capacity = github_token_capacity storage,
           storage_assets_given = github_assets_given storage, storage_asset_capacity = github_asset_capacity storage\<rparr>
          (ReleaseKind mode) True) = (GitHubOk, Some g)"
    and a: "offer_authenticate r mb se running mode keys verify storage b g metadata r2 = (res, Some offer)"
    and s: "unat (asset_size (array_items (assets g) ! the (metadata_manifest metadata))) = view_size mb"
      "unat (asset_size (array_items (assets g) ! the (metadata_signature metadata))) = view_size se"
    using d by (auto simp: offer_describe_def Let_def dest!: ParseGitHubRelease_some split: if_splits prod.splits)
  from offer_authenticate_ok [OF a s] show ?thesis
    using b g build_info_accepted [OF b(1)]
    by (auto simp: offer_authentic_def offer_read_def Let_def AcquisitionModeValid_def)
qed

text \<open>
  (C5) An offer exists exactly when the status is \<open>Ok\<close>, and then its installed record, its description of
  the release and its manifest are what the parsers return for the installed bytes, GitHub's response
  and the manifest bytes that were handed in. The installed record is well formed and of the running board; the manifest is well formed for this board and its exact bytes are vouched
  for by a trusted, unrevoked key that it declares; the files of the release are selected by the
  signed tag and file name and have the sizes of the bytes at hand and of the signed archive; and
  the release is newer, not back in time, and accepts this updater.
\<close>

theorem BuildReleaseOfferForMode_authentic:
  "case BuildReleaseOfferForMode r ib gr mb se running mode keys verify storage given of
     (res, None) \<Rightarrow> offer_status res \<noteq> OfferOk
   | (res, Some offer) \<Rightarrow>
       offer_status res = OfferOk \<and> offer_authentic r ib gr mb se running mode keys verify storage offer"
  using build_offer_status [of r ib gr mb se running mode keys verify storage given]
    build_offer_ok [of r ib gr mb se running mode keys verify storage given]
  by (auto split: prod.split option.split)

section \<open>The orchestrator's validation of an offer\<close>

lemma safe_tag_text: "IsSafeTag t \<Longrightarrow> t \<noteq> [] \<and> length t < kMaximumGitHubReleaseTagBytes + 1"
  by (auto simp: IsSafeTag_def IsSafeIdentifier_iff)

lemma safe_name_text: "IsSafeAssetName t \<Longrightarrow> t \<noteq> [] \<and> length t < kMaximumGitHubAssetNameBytes + 1"
  by (auto simp: IsSafeAssetName_def IsSafeIdentifier_iff)

lemma archive_name_not_empty: "archive_name v family \<noteq> []"
  by (simp add: archive_name_def)

text \<open>The offer's own fields: only a signed digest of zero bytes is refused.\<close>

lemma offer_fields_accepted:
  assumes "offer_authentic r ib gr mb se running mode keys verify storage offer"
  shows "offer_rejected running (mode = ModePreparedDraft) offer \<longleftrightarrow>
    \<not> BytesNonZero (archive_sha256 (manifest_asset (offer_manifest offer)))"
proof -
  define g b m where gbm: "g = offer_github offer" "b = offer_installed offer" "m = offer_manifest offer"
  have mo: "manifest_ok (offer_manifest_storage storage) running m" and bo: "build_info_ok b" "build_board b = running"
    and fo: "offer_files r mode mb se offer" and no: "offer_newer b m" and dec: "offer_decision offer = UpdateAvailable"
    using assms by (auto simp: offer_authentic_def Let_def gbm)
  obtain fs ds where a: "archive_board (manifest_asset m) = running" "sizes_ok (manifest_asset m)"
    "archive_filename (manifest_asset m) = archive_name (manifest_version m) running"
    "length (archive_filename (manifest_asset m)) < 161"
    "archive_files (manifest_asset m) = Array fs" "archive_directories (manifest_asset m) = Array ds"
    "inventory_ok running (archive_installed_size (manifest_asset m)) fs ds"
    using mo by (auto simp: manifest_ok_def archive_stored_def)
  have ro: "release_ok m" using mo by (simp add: manifest_ok_def)
  have kind: "EligibleKind g (ReleaseKind mode)" "IsSafeTag (tag_name g)" "tag_name g = manifest_tag m"
    using fo by (auto simp: offer_files_def Let_def required_assets_ok_iff gbm)
  have draft: "draft g = (mode = ModePreparedDraft)" "\<not> prerelease g"
    using kind(1) by (auto simp: EligibleKind_def ReleaseKind_def split: if_splits)
  have w: "v \<noteq> 0" if "1 \<le> v" for v :: "'a::len word" using that by auto
  show ?thesis
    using bo no dec a ro draft kind safe_tag_text [OF kind(2)] archive_name_not_empty [of "manifest_version m" running]
    unfolding offer_rejected_def Let_def gbm [symmetric]
    by (auto simp: NonEmptyTerminatedWithin_iff release_ok_def build_info_ok_def IsVersion_def IsTag_def
        inventory_ok_def sizes_ok_def offer_newer_def not_less not_le dest: w)
qed

end
