(* ===== verification/Orchestrator_Recording.thy ===== *)
theory Orchestrator_Recording
  imports Update_Orchestrator
begin

text \<open>
  The orchestrator with a record of its calls. Every operation of the objects it is given also
  appends the call and the answer to a list. The second half shows that a recorded run is the run of
  the orchestrator as it is (\<open>Start_projects\<close>, \<open>ResumeAfterBoot_projects\<close>, \<open>RetireCommitted_projects\<close>):
  dropping the record leaves the same result and the same machine state.
\<close>

section \<open>The record of a run\<close>

datatype update_event =
    EvRevalidate AuthenticatedReleaseValidationStatus | EvSupported bool
  | EvAuthorize AuthorizationConsentStatus | EvReadiness InstallReadinessGateStatus
  | EvReport UpdateRecoveryProgressKind bool | EvMandatoryBegin | EvMandatoryEnd
  | EvFetch | EvFetchEnd ArchiveFetchStatus
  | EvBegin ArchiveStorageStatus | EvWrite bool | EvFinish ArchiveStorageStatus | EvAbort
  | EvOpenRead ArchiveStorageStatus | EvCloseRead ArchiveStorageStatus
  | EvDiscardArchive ArchiveStorageStatus | EvGetSize "u64 option" | EvReadAt "bytes option"
  | EvPersist UpdateRequestPersistenceStatus | EvDiscardRequest UpdateRequestPersistenceStatus
  | EvDeactivate UpdateRequestPersistenceStatus | EvRetain UpdateRequestPersistenceStatus
  | EvDiscardRetained UpdateRequestPersistenceStatus
  | EvPrepareConfigs PreparedConfigProviderStatus | EvRestoreConfigs PreparedConfigProviderStatus
  | EvDiscardConfigs PreparedConfigProviderStatus
  | EvReadJournal InstallerStatus JournalState
  | EvStage InstallerRequest InstallerStatus | EvArm InstallerStatus | EvMark InstallerStatus
  | EvCommit InstallerStatus | EvRollback InstallerStatus | EvRetireRolledBack InstallerStatus
  | EvRetireCommitted InstallerStatus
  | EvCollect ReleaseManifest bool CandidateHealthEvidence
  | EvReboot UpdateRebootTarget bool | EvFailSafe bool

type_synonym 'w recorded = "'w \<times> update_event list"

definition recording_progress :: "'w UpdateRecoveryProgress \<Rightarrow> 'w recorded UpdateRecoveryProgress" where
  "recording_progress p =
     \<lparr>BeginMandatoryOperation = (\<lambda>(w, l). (BeginMandatoryOperation p w, l @ [EvMandatoryBegin])),
      EndMandatoryOperation = (\<lambda>(w, l). (EndMandatoryOperation p w, l @ [EvMandatoryEnd])),
      Report = (\<lambda>e. traced (EvReport (event_kind e)) (Report p e))\<rparr>"

definition recording_transport :: "'w archive_transport \<Rightarrow> 'w recorded archive_transport" where
  "recording_transport t =
     \<lparr>fetch_pieces = (\<lambda>url n. traced (\<lambda>_. EvFetch) (fetch_pieces t url n)),
      fetch_end = (\<lambda>d. traced EvFetchEnd (fetch_end t d))\<rparr>"

definition recording_storage :: "'w UpdateArchiveStorage \<Rightarrow> 'w recorded UpdateArchiveStorage" where
  "recording_storage s =
     \<lparr>storage_Begin = (\<lambda>b. traced EvBegin (storage_Begin s b)),
      storage_Write = (\<lambda>w bs. traced EvWrite (\<lambda>v. storage_Write s v bs) w),
      storage_Finish = traced EvFinish (storage_Finish s),
      storage_Abort = (\<lambda>(w, l). (storage_Abort s w, l @ [EvAbort])),
      storage_OpenRead = (\<lambda>b. traced (\<lambda>r. EvOpenRead (fst r)) (storage_OpenRead s b)),
      storage_CloseRead = traced EvCloseRead (storage_CloseRead s),
      storage_Discard = (\<lambda>b g. traced EvDiscardArchive (storage_Discard s b g)),
      source_GetSize = (\<lambda>a. traced EvGetSize (source_GetSize s a)),
      source_ReadAt = (\<lambda>a off n. traced (\<lambda>r. EvReadAt (map_option (\<lambda>f. map f [0..<n]) r)) (source_ReadAt s a off n))\<rparr>"

definition recording_persistence :: "'w UpdateRequestPersistence \<Rightarrow> 'w recorded UpdateRequestPersistence" where
  "recording_persistence q =
     \<lparr>Persist = (\<lambda>r. traced EvPersist (Persist q r)),
      DiscardPersisted = (\<lambda>b g. traced EvDiscardRequest (DiscardPersisted q b g)),
      DeactivatePersisted = (\<lambda>g. traced EvDeactivate (DeactivatePersisted q g)),
      RetainCommitted = (\<lambda>b g. traced EvRetain (RetainCommitted q b g)),
      DiscardRetainedCommitted = (\<lambda>b g. traced EvDiscardRetained (DiscardRetainedCommitted q b g))\<rparr>"

definition recording_configs :: "'w PreparedConfigProvider \<Rightarrow> 'w recorded PreparedConfigProvider" where
  "recording_configs p =
     \<lparr>PrepareForStage = (\<lambda>b m a g. traced (\<lambda>r. EvPrepareConfigs (fst r)) (PrepareForStage p b m a g)),
      RestoreForResume = (\<lambda>b m g. traced (\<lambda>r. EvRestoreConfigs (fst r)) (RestoreForResume p b m g)),
      prepared_Discard = (\<lambda>b g. traced EvDiscardConfigs (prepared_Discard p b g))\<rparr>"

definition recording_installer :: "'w UpdateInstallOperations \<Rightarrow> 'w recorded UpdateInstallOperations" where
  "recording_installer i =
     \<lparr>installer_ReadJournal =
        (\<lambda>root. traced (\<lambda>r. EvReadJournal (installer_status (fst r)) (jstate (snd r))) (installer_ReadJournal i root)),
      installer_Stage = (\<lambda>q ws. traced (\<lambda>r. EvStage q (installer_status r)) (installer_Stage i q ws)),
      installer_ArmCandidate = (\<lambda>q. traced (\<lambda>r. EvArm (installer_status r)) (installer_ArmCandidate i q)),
      installer_MarkCandidateHealthy =
        (\<lambda>q. traced (\<lambda>r. EvMark (installer_status r)) (installer_MarkCandidateHealthy i q)),
      installer_Commit = (\<lambda>q ws. traced (\<lambda>r. EvCommit (installer_status r)) (installer_Commit i q ws)),
      installer_Rollback = (\<lambda>q ws. traced (\<lambda>r. EvRollback (installer_status r)) (installer_Rollback i q ws)),
      installer_RetireRolledBack =
        (\<lambda>q ws. traced (\<lambda>r. EvRetireRolledBack (installer_status r)) (installer_RetireRolledBack i q ws)),
      installer_RetireCommitted =
        (\<lambda>q ws. traced (\<lambda>r. EvRetireCommitted (installer_status r)) (installer_RetireCommitted i q ws))\<rparr>"

definition recording_reboot :: "'w UpdateRebootControl \<Rightarrow> 'w recorded UpdateRebootControl" where
  "recording_reboot c =
     \<lparr>reboot_OneShotRecoverySupported = traced EvSupported (reboot_OneShotRecoverySupported c),
      reboot_RequestReboot = (\<lambda>t b. traced (EvReboot t) (reboot_RequestReboot c t b)),
      reboot_RequestPreviousBootFailSafe = traced EvFailSafe (reboot_RequestPreviousBootFailSafe c)\<rparr>"

definition recording :: "'w UpdateOrchestrator \<Rightarrow> 'w recorded UpdateOrchestrator" where
  "recording orc =
     \<lparr>release_validator =
        map_option (\<lambda>f d b. traced (\<lambda>r. EvRevalidate (validation_status (fst r))) (f d b)) (release_validator orc),
      authorization_gate =
        map_option (\<lambda>f q offer. traced (\<lambda>r. EvAuthorize (authorization_status (fst r))) (f q offer))
          (authorization_gate orc),
      readiness_gate =
        map_option (\<lambda>f b m prior. traced (\<lambda>r. EvReadiness (fst r)) (f b m prior)) (readiness_gate orc),
      transport = map_option recording_transport (transport orc),
      storage = map_option recording_storage (storage orc),
      request_persistence = map_option recording_persistence (request_persistence orc),
      prepared_configs = map_option recording_configs (prepared_configs orc),
      installer = map_option recording_installer (installer orc),
      health_probe =
        map_option (\<lambda>f b m. traced (\<lambda>r. EvCollect m (fst r) (snd r)) (f b m)) (health_probe orc),
      reboot_object = map_option recording_reboot (reboot_object orc)\<rparr>"

definition recording_workspace ::
  "'w UpdateRecoveryProgress UpdateOrchestratorWorkspace
   \<Rightarrow> 'w recorded UpdateRecoveryProgress UpdateOrchestratorWorkspace" where
  "recording_workspace ws =
     \<lparr>installer_workspace = installer_workspace ws, release_offer = release_offer ws,
      verification_buffer = verification_buffer ws,
      recovery_progress = map_option recording_progress (recovery_progress ws)\<rparr>"

text \<open>The objects every transaction needs.\<close>

definition equipped :: "'w UpdateOrchestrator \<Rightarrow> bool" where
  "equipped orc \<longleftrightarrow>
     storage orc \<noteq> None \<and> request_persistence orc \<noteq> None \<and> prepared_configs orc \<noteq> None \<and> installer orc \<noteq> None"

lemma recording_workspace_sel [simp]:
  "installer_workspace (recording_workspace ws) = installer_workspace ws"
  "release_offer (recording_workspace ws) = release_offer ws"
  "verification_buffer (recording_workspace ws) = verification_buffer ws"
  "recovery_progress (recording_workspace ws) = map_option recording_progress (recovery_progress ws)"
  by (simp_all add: recording_workspace_def)

lemma recording_objects [simp]:
  assumes "equipped orc"
  shows "storage (recording orc) = Some (recording_storage (the (storage orc)))"
    "request_persistence (recording orc) = Some (recording_persistence (the (request_persistence orc)))"
    "prepared_configs (recording orc) = Some (recording_configs (the (prepared_configs orc)))"
    "installer (recording orc) = Some (recording_installer (the (installer orc)))"
  using assms by (auto simp: equipped_def recording_def)

lemma recording_sel:
  "request_persistence (recording orc) = map_option recording_persistence (request_persistence orc)"
  "reboot_object (recording orc) = map_option recording_reboot (reboot_object orc)"
  by (simp_all add: recording_def)

lemma recording_reboot_object [simp]:
  "reboot_object orc \<noteq> None \<Longrightarrow> reboot_object (recording orc) = Some (recording_reboot (the (reboot_object orc)))"
  by (auto simp: recording_def)

lemmas recording_calls = recording_storage_def recording_persistence_def recording_configs_def
  recording_installer_def recording_reboot_def recording_transport_def


text \<open>The recorded operations, one by one.\<close>

lemma recorded_calls:
  "storage_Begin (recording_storage s) = (\<lambda>b. traced EvBegin (storage_Begin s b))"
  "storage_Write (recording_storage s) = (\<lambda>w bs. traced EvWrite (\<lambda>v. storage_Write s v bs) w)"
  "DiscardPersisted (recording_persistence q) = (\<lambda>b g. traced EvDiscardRequest (DiscardPersisted q b g))"
  "DeactivatePersisted (recording_persistence q) = (\<lambda>g. traced EvDeactivate (DeactivatePersisted q g))"
  "prepared_Discard (recording_configs p) = (\<lambda>b g. traced EvDiscardConfigs (prepared_Discard p b g))"
  "installer_Rollback (recording_installer i) =
     (\<lambda>q ws. traced (\<lambda>r. EvRollback (installer_status r)) (installer_Rollback i q ws))"
  "storage_Finish (recording_storage s) = traced EvFinish (storage_Finish s)"
  "storage_OpenRead (recording_storage s) = (\<lambda>b. traced (\<lambda>r. EvOpenRead (fst r)) (storage_OpenRead s b))"
  "storage_CloseRead (recording_storage s) = traced EvCloseRead (storage_CloseRead s)"
  "storage_Discard (recording_storage s) = (\<lambda>b g. traced EvDiscardArchive (storage_Discard s b g))"
  "source_GetSize (recording_storage s) = (\<lambda>a. traced EvGetSize (source_GetSize s a))"
  "source_ReadAt (recording_storage s) =
     (\<lambda>a off n. traced (\<lambda>r. EvReadAt (map_option (\<lambda>f. map f [0..<n]) r)) (source_ReadAt s a off n))"
  "Persist (recording_persistence q) = (\<lambda>r. traced EvPersist (Persist q r))"
  "RetainCommitted (recording_persistence q) = (\<lambda>b g. traced EvRetain (RetainCommitted q b g))"
  "DiscardRetainedCommitted (recording_persistence q) =
     (\<lambda>b g. traced EvDiscardRetained (DiscardRetainedCommitted q b g))"
  "PrepareForStage (recording_configs p) =
     (\<lambda>b m a g. traced (\<lambda>r. EvPrepareConfigs (fst r)) (PrepareForStage p b m a g))"
  "RestoreForResume (recording_configs p) =
     (\<lambda>b m g. traced (\<lambda>r. EvRestoreConfigs (fst r)) (RestoreForResume p b m g))"
  "installer_ReadJournal (recording_installer i) =
     (\<lambda>root. traced (\<lambda>r. EvReadJournal (installer_status (fst r)) (jstate (snd r))) (installer_ReadJournal i root))"
  "installer_Stage (recording_installer i) =
     (\<lambda>q ws. traced (\<lambda>r. EvStage q (installer_status r)) (installer_Stage i q ws))"
  "installer_ArmCandidate (recording_installer i) =
     (\<lambda>q. traced (\<lambda>r. EvArm (installer_status r)) (installer_ArmCandidate i q))"
  "installer_MarkCandidateHealthy (recording_installer i) =
     (\<lambda>q. traced (\<lambda>r. EvMark (installer_status r)) (installer_MarkCandidateHealthy i q))"
  "installer_Commit (recording_installer i) =
     (\<lambda>q ws. traced (\<lambda>r. EvCommit (installer_status r)) (installer_Commit i q ws))"
  "installer_RetireRolledBack (recording_installer i) =
     (\<lambda>q ws. traced (\<lambda>r. EvRetireRolledBack (installer_status r)) (installer_RetireRolledBack i q ws))"
  "installer_RetireCommitted (recording_installer i) =
     (\<lambda>q ws. traced (\<lambda>r. EvRetireCommitted (installer_status r)) (installer_RetireCommitted i q ws))"
  "reboot_OneShotRecoverySupported (recording_reboot c) = traced EvSupported (reboot_OneShotRecoverySupported c)"
  "reboot_RequestReboot (recording_reboot c) = (\<lambda>t b. traced (EvReboot t) (reboot_RequestReboot c t b))"
  "reboot_RequestPreviousBootFailSafe (recording_reboot c) =
     traced EvFailSafe (reboot_RequestPreviousBootFailSafe c)"
  by (simp_all add: recording_calls)

lemma recorded_Abort: "storage_Abort (recording_storage s) (w, l) = (storage_Abort s w, l @ [EvAbort])"
  by (simp add: recording_storage_def)

lemmas recorded = Let_def recording_workspace_sel option.sel option.map recorded_calls

text \<open>The gates are calls as well.\<close>

lemma recorded_gates:
  "release_validator orc \<noteq> None \<Longrightarrow> release_validator (recording orc)
     = Some (\<lambda>d b. traced (\<lambda>r. EvRevalidate (validation_status (fst r))) (the (release_validator orc) d b))"
  "authorization_gate orc \<noteq> None \<Longrightarrow> authorization_gate (recording orc)
     = Some (\<lambda>q offer. traced (\<lambda>r. EvAuthorize (authorization_status (fst r))) (the (authorization_gate orc) q offer))"
  "readiness_gate orc \<noteq> None \<Longrightarrow> readiness_gate (recording orc)
     = Some (\<lambda>b m prior. traced (\<lambda>r. EvReadiness (fst r)) (the (readiness_gate orc) b m prior))"
  "health_probe orc \<noteq> None \<Longrightarrow> health_probe (recording orc)
     = Some (\<lambda>b m. traced (\<lambda>r. EvCollect m (fst r) (snd r)) (the (health_probe orc) b m))"
  by (auto simp: recording_def)

lemma recording_present [simp]:
  "release_validator (recording orc) = None \<longleftrightarrow> release_validator orc = None"
  "authorization_gate (recording orc) = None \<longleftrightarrow> authorization_gate orc = None"
  "readiness_gate (recording orc) = None \<longleftrightarrow> readiness_gate orc = None"
  "transport (recording orc) = None \<longleftrightarrow> transport orc = None"
  "storage (recording orc) = None \<longleftrightarrow> storage orc = None"
  "request_persistence (recording orc) = None \<longleftrightarrow> request_persistence orc = None"
  "prepared_configs (recording orc) = None \<longleftrightarrow> prepared_configs orc = None"
  "installer (recording orc) = None \<longleftrightarrow> installer orc = None"
  "health_probe (recording orc) = None \<longleftrightarrow> health_probe orc = None"
  "reboot_object (recording orc) = None \<longleftrightarrow> reboot_object orc = None"
  by (simp_all add: recording_def)

lemma OrchestratorWorkspaceValid_recording [simp]:
  "OrchestratorWorkspaceValid (recording_workspace ws) start_phase = OrchestratorWorkspaceValid ws start_phase"
  by (simp add: OrchestratorWorkspaceValid_def)


section \<open>Recording does not change a run\<close>

text \<open>\<open>x\<close> is a run with its record, \<open>y\<close> the same run without.\<close>

definition projects :: "'r \<times> 'w recorded \<Rightarrow> 'r \<times> 'w \<Rightarrow> bool" where
  "projects x y \<longleftrightarrow> fst x = fst y \<and> fst (snd x) = snd y"

named_theorems project_rules \<open>rules that follow a run and its recorded counterpart\<close>
named_theorems project_splits \<open>rules for its branches\<close>

lemma projects_return [project_rules]: "projects (r, w, l) (r, w)"
  by (simp add: projects_def)

lemma projects_bind:
  assumes "projects x y" "\<And>r w l. projects (g r (w, l)) (h r w)"
  shows "projects (case x of (r, wl) \<Rightarrow> g r wl) (case y of (r, w) \<Rightarrow> h r w)"
  using assms by (cases x; cases y) (auto simp: projects_def)

lemma projects_traced [project_rules]:
  "(\<And>r w l. projects (g r (w, l)) (h r w))
   \<Longrightarrow> projects (case traced ev f (w, l) of (r, wl) \<Rightarrow> g r wl) (case f w of (r, w) \<Rightarrow> h r w)"
  by (auto simp: traced_def split: prod.split)

lemma projects_last [project_rules]: "projects (traced ev f (w, l)) (f w)"
  by (auto simp: traced_def projects_def split: prod.split)

lemma projects_report [project_rules]:
  assumes "\<And>r w l. projects (g r (w, l)) (h r w)"
  shows "projects (case ReportUpdateRecoveryProgress (map_option recording_progress p) k a b (w, l) of (r, wl) \<Rightarrow> g r wl)
    (case ReportUpdateRecoveryProgress p k a b w of (r, w) \<Rightarrow> h r w)"
  using assms
  by (cases p) (auto simp: ReportUpdateRecoveryProgress_def recording_progress_def traced_def split: prod.split)

lemma projects_scoped [project_rules]:
  assumes "\<And>w l. projects (block (w, l)) (block' w)"
  shows "projects (scoped_mandatory (map_option recording_progress p) block (w, l)) (scoped_mandatory p block' w)"
proof (cases p)
  case None
  then show ?thesis using assms by (simp add: scoped_mandatory_def)
next
  case (Some x)
  have "projects (block (BeginMandatoryOperation x w, l @ [EvMandatoryBegin])) (block' (BeginMandatoryOperation x w))"
    by (rule assms)
  with Some show ?thesis
    by (auto simp: scoped_mandatory_def projects_def recording_progress_def split: prod.split)
qed

lemma projects_pair [project_splits]:
  "(\<And>a b. projects (f a b) (g a b)) \<Longrightarrow> projects (case r of (a, b) \<Rightarrow> f a b) (case r of (a, b) \<Rightarrow> g a b)"
  by (cases r) auto

lemma projects_bool [project_splits]:
  "projects a a' \<Longrightarrow> projects b b'
   \<Longrightarrow> projects (case r of True \<Rightarrow> a | False \<Rightarrow> b) (case r of True \<Rightarrow> a' | False \<Rightarrow> b')"
  by (cases r) auto

lemma projects_if [project_splits]:
  "projects a a' \<Longrightarrow> projects b b' \<Longrightarrow> projects (if r then a else b) (if r then a' else b')"
  by simp

lemma projects_option [project_splits]:
  "projects a a' \<Longrightarrow> (\<And>x. projects (f x) (f' x))
   \<Longrightarrow> projects (case r of None \<Rightarrow> a | Some x \<Rightarrow> f x) (case r of None \<Rightarrow> a' | Some x \<Rightarrow> f' x)"
  by (cases r) auto

lemma projects_sum [project_splits]:
  "(\<And>x. projects (f x) (f' x)) \<Longrightarrow> (\<And>x. projects (g x) (g' x))
   \<Longrightarrow> projects (case r of Inl x \<Rightarrow> f x | Inr x \<Rightarrow> g x) (case r of Inl x \<Rightarrow> f' x | Inr x \<Rightarrow> g' x)"
  by (cases r) auto

lemma WorkspaceFitsManifest_recording [simp]:
  "WorkspaceFitsManifest (recording_workspace ws) m = WorkspaceFitsManifest ws m"
  by (simp add: WorkspaceFitsManifest_def)

lemmas recorded_tests = option.map_disc_iff WorkspaceFitsManifest_recording

lemma equippedE:
  assumes "equipped orc"
  obtains st q pc ins where "storage orc = Some st" "request_persistence orc = Some q"
    "prepared_configs orc = Some pc" "installer orc = Some ins"
  using assms by (auto simp: equipped_def)

lemma discard_archive_and_configs_projects:
  "projects (discard_archive_and_configs (recording_storage st) (recording_configs pc) b g res (w, l))
    (discard_archive_and_configs st pc b g res w)"
  unfolding discard_archive_and_configs_def recording_calls UpdateArchiveStorage.simps PreparedConfigProvider.simps Let_def
  by (rule project_rules | rule project_splits)+

lemma discard_request_projects [project_rules]:
  "projects (discard_request (recording_persistence q) b g res (w, l)) (discard_request q b g res w)"
  unfolding discard_request_def recording_calls UpdateRequestPersistence.simps
  by (rule project_rules | rule project_splits)+

lemmas discard_archive_and_configs_project_step [project_rules] = projects_bind [OF discard_archive_and_configs_projects]

lemma CleanupTransaction_projects:
  assumes "equipped orc"
  shows "projects (CleanupTransaction (recording orc) b (map_option recording_progress p) res (w, l))
    (CleanupTransaction orc b p res w)"
proof -
  from assms obtain st q pc ins where given: "storage orc = Some st" "request_persistence orc = Some q"
    "prepared_configs orc = Some pc" "installer orc = Some ins" by (rule equippedE)
  show ?thesis
    unfolding CleanupTransaction_def recording_objects [OF assms] given prod.case option.case option.sel
      option.map_disc_iff recorded
    by (rule project_rules | rule project_splits)+
qed

lemmas CleanupTransaction_project_step [project_rules] = projects_bind [OF CleanupTransaction_projects]

lemma CleanupRolledBackTransaction_projects:
  assumes "equipped orc"
  shows "projects (CleanupRolledBackTransaction (recording orc) rq iws b (map_option recording_progress p) res (w, l))
    (CleanupRolledBackTransaction orc rq iws b p res w)"
proof -
  from assms obtain st q pc ins where given: "storage orc = Some st" "request_persistence orc = Some q"
    "prepared_configs orc = Some pc" "installer orc = Some ins" by (rule equippedE)
  show ?thesis
    unfolding CleanupRolledBackTransaction_def recording_objects [OF assms] given prod.case option.case option.sel
      option.map_disc_iff recorded
    by (rule project_rules | rule project_splits)+
qed

lemmas CleanupRolledBackTransaction_project_step [project_rules] = projects_bind [OF CleanupRolledBackTransaction_projects]

lemma RetainCommittedTransaction_projects:
  assumes "equipped orc"
  shows "projects (RetainCommittedTransaction (recording orc) b (map_option recording_progress p) res (w, l))
    (RetainCommittedTransaction orc b p res w)"
proof -
  from assms obtain st q pc ins where given: "storage orc = Some st" "request_persistence orc = Some q"
    "prepared_configs orc = Some pc" "installer orc = Some ins" by (rule equippedE)
  show ?thesis
    unfolding RetainCommittedTransaction_def recording_objects [OF assms] given prod.case option.case option.sel
      option.map_disc_iff recorded
    by (rule project_rules | rule project_splits)+
qed

lemmas RetainCommittedTransaction_project_step [project_rules] = projects_bind [OF RetainCommittedTransaction_projects]

lemma DiscardDownloadedRequest_projects:
  assumes "equipped orc"
  shows "projects (DiscardDownloadedRequest (recording orc) b (map_option recording_progress p) res (w, l))
    (DiscardDownloadedRequest orc b p res w)"
proof -
  from assms obtain st q pc ins where given: "storage orc = Some st" "request_persistence orc = Some q"
    "prepared_configs orc = Some pc" "installer orc = Some ins" by (rule equippedE)
  show ?thesis
    unfolding DiscardDownloadedRequest_def recording_objects [OF assms] given prod.case option.case option.sel
      option.map_disc_iff recorded
    by (rule project_rules | rule project_splits)+
qed

lemmas DiscardDownloadedRequest_project_step [project_rules] = projects_bind [OF DiscardDownloadedRequest_projects]

lemma AbortDownloadAndDiscardRequest_projects:
  assumes "equipped orc"
  shows "projects (AbortDownloadAndDiscardRequest (recording orc) b (map_option recording_progress p) res (w, l))
    (AbortDownloadAndDiscardRequest orc b p res w)"
proof -
  from assms obtain st q pc ins where given: "storage orc = Some st" "request_persistence orc = Some q"
    "prepared_configs orc = Some pc" "installer orc = Some ins" by (rule equippedE)
  show ?thesis
    unfolding AbortDownloadAndDiscardRequest_def recording_objects [OF assms] given prod.case option.case option.sel
      option.map_disc_iff recorded
    by (rule project_rules | (simp only: recorded_Abort, rule project_rules))+
qed

lemmas AbortDownloadAndDiscardRequest_project_step [project_rules] = projects_bind [OF AbortDownloadAndDiscardRequest_projects]

lemma DeactivatePendingRequest_projects:
  "projects (DeactivatePendingRequest (map_option recording_persistence q) (map_option recording_progress p) res (w, l))
    (DeactivatePendingRequest q p res w)"
  by (cases q) (auto simp: DeactivatePendingRequest_def recorded intro!: project_rules split: prod.split)

lemma DeactivatePendingRequest_given_projects:
  assumes "equipped orc"
  shows "projects (DeactivatePendingRequest (Some (recording_persistence (the (request_persistence orc))))
      (map_option recording_progress p) res (w, l)) (DeactivatePendingRequest (request_persistence orc) p res w)"
  using DeactivatePendingRequest_projects [of "request_persistence orc"] assms by (auto simp: equipped_def)

lemmas DeactivatePendingRequest_project_step [project_rules] = projects_bind [OF DeactivatePendingRequest_given_projects]

lemma MandatoryRollback_projects:
  assumes "equipped orc"
  shows "projects (MandatoryRollback (Some (recording_installer (the (installer orc)))) (map_option recording_progress p)
      rq iws (w, l)) (MandatoryRollback (installer orc) p rq iws w)"
  using assms by (auto simp: equipped_def MandatoryRollback_def recorded intro!: project_rules)

lemmas MandatoryRollback_project_step [project_rules] = projects_bind [OF MandatoryRollback_projects]

lemma RequestPreviousFailSafe_projects [project_rules]:
  "projects (RequestPreviousFailSafe (recording orc) t (map_option recording_progress p) res (w, l))
    (RequestPreviousFailSafe orc t p res w)"
  unfolding RequestPreviousFailSafe_def recording_sel Let_def
  by (rule projects_bind [OF DeactivatePendingRequest_projects])
    (cases "reboot_object orc"; auto simp: recorded intro!: project_rules split: bool.split)

lemma roll_back_to_previous_projects [project_rules]:
  assumes "equipped orc" "reboot_object orc \<noteq> None"
  shows "projects (roll_back_to_previous failure (recording orc) (recording_workspace ws) b rq res (w, l)) (roll_back_to_previous failure orc ws b rq res w)"
  unfolding roll_back_to_previous_def recording_objects [OF assms(1)] recording_reboot_object [OF assms(2)] recorded recorded_tests
  by (rule project_rules assms | rule project_splits)+

lemma start_reboot_projects [project_rules]:
  assumes "equipped orc" "reboot_object orc \<noteq> None"
  shows "projects (start_reboot (recording orc) (recording_workspace ws) b rq res (w, l)) (start_reboot orc ws b rq res w)"
  unfolding start_reboot_def recording_objects [OF assms(1)] recording_reboot_object [OF assms(2)] recorded recorded_tests
  by (rule project_rules assms | rule project_splits)+

lemma start_arm_projects [project_rules]:
  assumes "equipped orc" "reboot_object orc \<noteq> None"
  shows "projects (start_arm (recording orc) (recording_workspace ws) b rq res (w, l)) (start_arm orc ws b rq res w)"
  unfolding start_arm_def recording_objects [OF assms(1)] recording_reboot_object [OF assms(2)] recorded recorded_tests
  by (rule project_rules assms | rule project_splits)+

lemma roll_back_staging_projects [project_rules]:
  assumes "equipped orc"
  shows "projects (roll_back_staging failure (recording orc) (recording_workspace ws) b rq res (w, l)) (roll_back_staging failure orc ws b rq res w)"
  unfolding roll_back_staging_def recording_objects [OF assms(1)] recorded recorded_tests
  by (rule project_rules assms | rule project_splits)+

lemma start_stage_projects [project_rules]:
  assumes "equipped orc" "reboot_object orc \<noteq> None"
  shows "projects (start_stage (recording orc) (recording_workspace ws) b rq res (w, l)) (start_stage orc ws b rq res w)"
  unfolding start_stage_def recording_objects [OF assms(1)] recording_reboot_object [OF assms(2)] recorded recorded_tests
  by (rule project_rules assms | rule project_splits)+

lemma start_prepare_projects [project_rules]:
  assumes "equipped orc" "reboot_object orc \<noteq> None"
  shows "projects (start_prepare (recording orc) (recording_workspace ws) offer b a res (w, l)) (start_prepare orc ws offer b a res w)"
  unfolding start_prepare_def recording_objects [OF assms(1)] recording_reboot_object [OF assms(2)] recorded recorded_tests
  by (rule project_rules assms | rule project_splits)+

lemma rehash_loop_projects:
  assumes "0 < n"
  shows "projects (rehash_loop (recording_storage st) (map_option recording_progress p) src n sz offset hash (w, l))
    (rehash_loop st p src n sz offset hash w)"
proof (induction "unat sz - unat offset" arbitrary: offset hash w l rule: less_induct)
  case less
  show ?case
  proof (cases "offset < sz")
    case False
    then show ?thesis
      by (subst (1 2) rehash_loop.simps) (simp add: projects_return)
  next
    case True
    define cnt where "cnt = (if unat (sz - offset) < n then unat (sz - offset) else n)"
    note adv = rehash_advance [OF True assms cnt_def]
    have again: "projects (rehash_loop (recording_storage st) (map_option recording_progress p) src n sz
        (offset + of_nat cnt) h (w', l')) (rehash_loop st p src n sz (offset + of_nat cnt) h w')" for h w' l'
      by (rule less.hyps) (use adv in auto)
    show ?thesis
      unfolding rehash_loop.simps [of _ _ _ _ _ offset] Let_def cnt_def [symmetric] recorded_calls
      by (rule project_rules again | rule project_splits)+
  qed
qed

lemma RehashStoredArchive_projects:
  "projects (RehashStoredArchive (recording_storage st) src b buf (map_option recording_progress p) (w, l))
    (RehashStoredArchive st src b buf p w)"
proof (cases "view_size buf = 0")
  case True
  then show ?thesis by (cases src) (simp_all add: RehashStoredArchive_def projects_return)
next
  case False
  note loop = projects_bind [OF rehash_loop_projects [OF False [unfolded neq0_conv]]]
  show ?thesis
    unfolding RehashStoredArchive_def recorded
    by (rule project_rules loop | rule project_splits)+
qed

lemmas RehashStoredArchive_project_step [project_rules] = projects_bind [OF RehashStoredArchive_projects]

lemma start_verify_projects [project_rules]:
  assumes "equipped orc" "reboot_object orc \<noteq> None"
  shows "projects (start_verify (recording orc) (recording_workspace ws) offer b res (w, l)) (start_verify orc ws offer b res w)"
  unfolding start_verify_def recording_objects [OF assms(1)] recording_reboot_object [OF assms(2)] recorded recorded_tests
  by (rule project_rules assms | rule project_splits)+

text \<open>The sink in front of the recorded storage, and the one in front of the storage itself.\<close>

definition sink_projects :: "'w recorded HashingBodySink \<Rightarrow> 'w HashingBodySink \<Rightarrow> bool" where
  "sink_projects hs hs' \<longleftrightarrow>
     (\<exists>w l. destination hs = Some (w, l) \<and> destination hs' = Some w)
     \<and> exact_size hs = exact_size hs' \<and> bytes_written hs = bytes_written hs' \<and> sha256 hs = sha256 hs'
     \<and> failed hs = failed hs' \<and> finished hs = finished hs'"

lemma hashing_Write_projects:
  assumes "sink_projects hs hs'"
  shows "case hashing_Write (storage_Write (recording_storage st)) hs piece of
      (ok, s) \<Rightarrow> (case hashing_Write (storage_Write st) hs' piece of (ok', s') \<Rightarrow> ok = ok' \<and> sink_projects s s')"
  using assms
  by (auto simp: sink_projects_def hashing_Write_def recording_storage_def traced_def split: prod.split bool.split)

lemma deliver_projects:
  assumes "sink_projects hs hs'"
  shows "case deliver (storage_Write (recording_storage st)) hs pieces of
      (ok, s) \<Rightarrow> (case deliver (storage_Write st) hs' pieces of (ok', s') \<Rightarrow> ok = ok' \<and> sink_projects s s')"
  using assms
proof (induction pieces arbitrary: hs hs')
  case Nil
  then show ?case by simp
next
  case (Cons piece pieces)
  obtain ok s where w: "hashing_Write (storage_Write (recording_storage st)) hs piece = (ok, s)" by fastforce
  with hashing_Write_projects [OF Cons.prems, of st piece] obtain s' where
    w': "hashing_Write (storage_Write st) hs' piece = (ok, s')" "sink_projects s s'"
    by (auto split: prod.splits)
  show ?case
    using Cons.IH [OF w'(2)] w w' by (cases ok) (simp_all)
qed

lemma Fetch_project_step [project_rules]:
  assumes "\<And>s hs hs' w l. sink_projects hs hs' \<Longrightarrow> projects (g (s, hs) (w, l)) (h (s, hs') w)"
  shows "projects (case Fetch (recording_transport tr) (recording_storage st) url n (w, l) of (r, wl) \<Rightarrow> g r wl)
    (case Fetch tr st url n w of (r, w) \<Rightarrow> h r w)"
proof -
  obtain pieces w1 where f: "fetch_pieces tr url n w = (pieces, w1)" by fastforce
  have s: "sink_projects (make_hashing_sink (Some (w1, l @ [EvFetch])) n) (make_hashing_sink (Some w1) n)"
    by (simp add: sink_projects_def make_hashing_sink_def)
  obtain ok hs where d: "deliver (storage_Write (recording_storage st))
      (make_hashing_sink (Some (w1, l @ [EvFetch])) n) pieces = (ok, hs)" by fastforce
  obtain hs' where d': "deliver (storage_Write st) (make_hashing_sink (Some w1) n) pieces = (ok, hs')"
    "sink_projects hs hs'"
    using deliver_projects [OF s, of st pieces] d by (auto split: prod.splits)
  then obtain w2 l2 where "destination hs = Some (w2, l2)" "destination hs' = Some w2"
    by (auto simp: sink_projects_def)
  then show ?thesis
    using assms [OF d'(2)] d d'(1)
    by (auto simp: Fetch_def recording_transport_def traced_def f split: prod.split)
qed

lemma hashing_Finish_projects:
  "sink_projects hs hs' \<Longrightarrow> fst (hashing_Finish g hs) = fst (hashing_Finish g hs')"
  by (auto simp: sink_projects_def hashing_Finish_def split: prod.split)

lemma start_download_projects [project_rules]:
  assumes "equipped orc" "reboot_object orc \<noteq> None" "transport orc \<noteq> None"
  shows "projects (start_download (recording orc) (recording_workspace ws) offer b res (w, l))
    (start_download orc ws offer b res w)"
proof -
  have tr: "transport (recording orc) = Some (recording_transport (the (transport orc)))"
    using assms(3) by (auto simp: recording_def)
  show ?thesis
    unfolding start_download_def recording_objects [OF assms(1)] tr recorded recorded_tests
    by (rule project_rules assms | (simp only: prod.case, erule ssubst [OF hashing_Finish_projects]) | rule project_splits)+
qed

lemma start_persist_projects [project_rules]:
  assumes "equipped orc" "reboot_object orc \<noteq> None" "transport orc \<noteq> None"
  shows "projects (start_persist (recording orc) request (recording_workspace ws) offer b res (w, l)) (start_persist orc request ws offer b res w)"
  unfolding start_persist_def recording_objects [OF assms(1)] recording_reboot_object [OF assms(2)] recorded recorded_tests
  by (rule project_rules assms | rule project_splits)+

lemma start_authorize_projects [project_rules]:
  assumes "equipped orc" "reboot_object orc \<noteq> None" "transport orc \<noteq> None" "authorization_gate orc \<noteq> None" "readiness_gate orc \<noteq> None"
  shows "projects (start_authorize (recording orc) request (recording_workspace ws) offer d res (w, l)) (start_authorize orc request ws offer d res w)"
  unfolding start_authorize_def recording_objects [OF assms(1)] recording_reboot_object [OF assms(2)] recorded_gates(2) [OF assms(4)] recorded_gates(3) [OF assms(5)] recorded recorded_tests
  by (rule project_rules assms | rule project_splits)+

lemma resume_rollback_projects [project_rules]:
  assumes "equipped orc" "reboot_object orc \<noteq> None"
  shows "projects (resume_rollback t (recording orc) (recording_workspace ws) b rq res (w, l)) (resume_rollback t orc ws b rq res w)"
  unfolding resume_rollback_def recording_objects [OF assms(1)] recording_reboot_object [OF assms(2)] recorded recorded_tests
  by (rule project_rules assms | rule project_splits)+

lemma retain_committed_projects [project_rules]:
  assumes "equipped orc"
  shows "projects (retain_committed (recording orc) (recording_workspace ws) b res (w, l)) (retain_committed orc ws b res w)"
  unfolding retain_committed_def recording_objects [OF assms(1)] recorded recorded_tests
  by (rule project_rules assms | rule project_splits)+

lemma resume_commit_projects [project_rules]:
  assumes "equipped orc" "reboot_object orc \<noteq> None"
  shows "projects (resume_commit (recording orc) (recording_workspace ws) b rq res (w, l)) (resume_commit orc ws b rq res w)"
  unfolding resume_commit_def recording_objects [OF assms(1)] recording_reboot_object [OF assms(2)] recorded recorded_tests
  by (rule project_rules assms | rule project_splits)+

lemma resume_interrupted_projects [project_rules]:
  assumes "equipped orc"
  shows "projects (resume_interrupted (recording orc) (recording_workspace ws) b rq res (w, l)) (resume_interrupted orc ws b rq res w)"
  unfolding resume_interrupted_def recording_objects [OF assms(1)] recorded recorded_tests
  by (rule project_rules assms | rule project_splits)+

lemma resume_discovered_projects [project_rules]:
  assumes "equipped orc"
  shows "projects (resume_discovered (recording orc) (recording_workspace ws) b rq res (w, l)) (resume_discovered orc ws b rq res w)"
  unfolding resume_discovered_def recording_objects [OF assms(1)] recorded recorded_tests
  by (rule project_rules assms | rule project_splits)+

lemma resume_health_projects [project_rules]:
  assumes "equipped orc" "reboot_object orc \<noteq> None" "health_probe orc \<noteq> None"
  shows "projects (resume_health (recording orc) (recording_workspace ws) offer b rq res (w, l)) (resume_health orc ws offer b rq res w)"
  unfolding resume_health_def recording_objects [OF assms(1)] recording_reboot_object [OF assms(2)] recorded_gates(4) [OF assms(3)] recorded recorded_tests
  by (rule project_rules assms | rule project_splits)+

lemma resume_restore_projects [project_rules]:
  assumes "equipped orc" "reboot_object orc \<noteq> None" "health_probe orc \<noteq> None"
  shows "projects (resume_restore (recording orc) (recording_workspace ws) offer b jst res (w, l)) (resume_restore orc ws offer b jst res w)"
  unfolding resume_restore_def recording_objects [OF assms(1)] recording_reboot_object [OF assms(2)] recorded recorded_tests
  by (rule project_rules assms | rule project_splits)+

lemma resume_journal_projects [project_rules]:
  assumes "equipped orc" "health_probe orc \<noteq> None"
  shows "projects (resume_journal (recording orc) (recording_workspace ws) offer b res (w, l))
    (resume_journal orc ws offer b res w)"
proof (cases "reboot_object orc")
  case None
  show ?thesis
    unfolding resume_journal_def recording_objects [OF assms(1)] recording_sel None option.map option.case
      prod.case bool.case recorded recorded_tests
    by (rule project_rules assms | rule project_splits)+
next
  case (Some rb)
  then have reboot: "reboot_object orc \<noteq> None" by simp
  show ?thesis
    unfolding resume_journal_def recording_objects [OF assms(1)] recording_reboot_object [OF reboot]
      recorded recorded_tests
    unfolding Some option.case option.sel recorded_calls
    by (rule project_rules assms reboot | rule project_splits)+
qed

lemma Start_projects:
  "projects (Start r (recording orc) request (recording_workspace ws) (w, l)) (Start r orc request ws w)"
proof (cases "release_validator orc = None \<or> authorization_gate orc = None \<or> readiness_gate orc = None
    \<or> transport orc = None \<or> storage orc = None \<or> request_persistence orc = None
    \<or> prepared_configs orc = None \<or> installer orc = None \<or> health_probe orc = None
    \<or> reboot_object orc = None \<or> \<not> OrchestratorWorkspaceValid ws True")
  case True
  show ?thesis
    unfolding Start_def recording_present OrchestratorWorkspaceValid_recording if_P [OF True] Let_def
    by (rule project_rules)
next
  case False
  then have given: "equipped orc" "reboot_object orc \<noteq> None" "transport orc \<noteq> None" "authorization_gate orc \<noteq> None"
    "readiness_gate orc \<noteq> None" "release_validator orc \<noteq> None" by (auto simp: equipped_def)
  show ?thesis
    unfolding Start_def recording_present OrchestratorWorkspaceValid_recording if_not_P [OF False]
    unfolding recorded recorded_gates(1) [OF given(6)]
    by (rule project_rules given | rule project_splits)+
qed

lemma ResumeAfterBoot_projects:
  "projects (ResumeAfterBoot r (recording orc) request (recording_workspace ws) (w, l)) (ResumeAfterBoot r orc request ws w)"
proof (cases "release_validator orc = None \<or> storage orc = None \<or> request_persistence orc = None
            \<or> prepared_configs orc = None \<or> installer orc = None \<or> health_probe orc = None
            \<or> \<not> OrchestratorWorkspaceValid ws False")
  case True
  show ?thesis
    unfolding ResumeAfterBoot_def recording_present OrchestratorWorkspaceValid_recording if_P [OF True] Let_def
    by (rule RequestPreviousFailSafe_projects [where p = None, unfolded option.map])
next
  case False
  then have given: "equipped orc" "release_validator orc \<noteq> None" "health_probe orc \<noteq> None" by (auto simp: equipped_def)
  show ?thesis
    unfolding ResumeAfterBoot_def recording_present OrchestratorWorkspaceValid_recording if_not_P [OF False]
    unfolding recorded recorded_gates(1) [OF given(2)]
    by (rule project_rules given | rule project_splits)+
qed

lemma retire_previous_projects [project_rules]:
  assumes "installer orc \<noteq> None" "request_persistence orc \<noteq> None"
  shows "projects (retire_previous (recording orc) (recording_workspace ws) b rq res (w, l))
    (retire_previous orc ws b rq res w)"
proof -
  have given: "installer (recording orc) = Some (recording_installer (the (installer orc)))"
    "request_persistence (recording orc) = Some (recording_persistence (the (request_persistence orc)))"
    using assms by (auto simp: recording_def)
  show ?thesis
    unfolding retire_previous_def given recorded recorded_tests
    by (rule project_rules | rule project_splits)+
qed

lemma RetireCommitted_projects:
  "projects (RetireCommitted_Orchestrator r (recording orc) request (recording_workspace ws) (w, l))
    (RetireCommitted_Orchestrator r orc request ws w)"
proof (cases "release_validator orc = None \<or> request_persistence orc = None \<or> installer orc = None
            \<or> \<not> OrchestratorWorkspaceValid ws True \<or> request_release request = None")
  case True
  show ?thesis
    unfolding RetireCommitted_Orchestrator_def recording_present OrchestratorWorkspaceValid_recording if_P [OF True] Let_def
    by (rule project_rules)
next
  case False
  then have given: "release_validator orc \<noteq> None" "installer orc \<noteq> None" "request_persistence orc \<noteq> None" by auto
  show ?thesis
    unfolding RetireCommitted_Orchestrator_def recording_present OrchestratorWorkspaceValid_recording if_not_P [OF False]
    unfolding recorded recorded_tests recorded_gates(1) [OF given(1)]
    by (rule project_rules given | rule project_splits)+
qed

end
