(* ===== verification/Orchestrator_Protocol.thy ===== *)
theory Orchestrator_Protocol
  imports Orchestrator_Recording
begin

text \<open>
  The order of the calls the orchestrator makes. The rules are stated on the record of a run
  (\<open>justified\<close>, \<open>orderly\<close>): staging only behind a persisted request and an archive that was read back
  and has the signed digest, arming and the candidate boot only behind accepted staging and without
  a rollback, a commit only behind healthy evidence, no rollback of a commit, a return to the previous
  installation only without an active request, the request record deleted last, and nothing after a
  granted reboot. A monitor that watches the record carries the proof: the rules for \<open>watched\<close> follow
  the control flow of the code, one lemma for each of its stages.
\<close>

section \<open>The monitor\<close>

record monitor =
  read_bytes :: bytes
  persisted :: bool
  prepared :: bool
  staging :: bool
  staged :: bool
  armed :: bool
  healthy :: bool
  marked :: bool
  committed :: bool
  journal_committed :: bool
  rolled_back :: bool
  archive_gone :: bool
  configs_gone :: bool
  stage_gone :: bool
  inactive :: bool
  retired :: bool
  rebooting :: bool
  candidate_granted :: bool
  previous_granted :: bool

text \<open>The archive that was read back is the one the installer request's manifest was signed for.\<close>

definition archive_verified :: "bytes \<Rightarrow> InstallerRequest \<Rightarrow> bool" where
  "archive_verified bs q \<longleftrightarrow>
     (let a = manifest_asset (installer_manifest q)
      in length bs = unat (archive_download_size a)
         \<and> ConstantTimeDigestEqual (Some (sha256_spec bs)) (Some (archive_sha256 a)))"

fun permitted :: "monitor \<Rightarrow> update_event \<Rightarrow> bool" where
  "permitted m (EvStage q s) \<longleftrightarrow> \<not> rebooting m \<and> persisted m \<and> prepared m \<and> archive_verified (read_bytes m) q"
| "permitted m (EvArm s) \<longleftrightarrow> \<not> rebooting m \<and> staged m \<and> \<not> rolled_back m"
| "permitted m (EvReboot OneShotCandidate ok) \<longleftrightarrow>
     \<not> rebooting m \<and> \<not> committed m \<and> staged m \<and> armed m \<and> \<not> rolled_back m"
| "permitted m (EvMark s) \<longleftrightarrow> \<not> rebooting m \<and> healthy m"
| "permitted m (EvCommit s) \<longleftrightarrow> \<not> rebooting m \<and> \<not> committed m \<and> healthy m \<and> marked m \<and> \<not> rolled_back m"
| "permitted m (EvRetain s) \<longleftrightarrow> \<not> rebooting m \<and> (committed m \<or> journal_committed m) \<and> archive_gone m \<and> configs_gone m"
| "permitted m (EvRollback s) \<longleftrightarrow> \<not> rebooting m \<and> \<not> committed m \<and> \<not> journal_committed m"
| "permitted m (EvRetireRolledBack s) \<longleftrightarrow> \<not> rebooting m \<and> \<not> committed m \<and> archive_gone m \<and> configs_gone m"
| "permitted m (EvDiscardRequest s) \<longleftrightarrow>
     \<not> rebooting m \<and> \<not> committed m \<and> archive_gone m \<and> (prepared m \<longrightarrow> configs_gone m) \<and> (staging m \<longrightarrow> stage_gone m)"
| "permitted m (EvDeactivate s) \<longleftrightarrow> \<not> rebooting m \<and> \<not> committed m"
| "permitted m (EvReboot PreviousInstallation ok) \<longleftrightarrow> \<not> rebooting m \<and> \<not> committed m \<and> rolled_back m \<and> inactive m"
| "permitted m (EvFailSafe ok) \<longleftrightarrow> \<not> rebooting m \<and> \<not> committed m \<and> inactive m"
| "permitted m (EvDiscardRetained s) \<longleftrightarrow> \<not> rebooting m \<and> retired m"
| "permitted m _ \<longleftrightarrow> \<not> rebooting m"

fun observe :: "monitor \<Rightarrow> update_event \<Rightarrow> monitor" where
  "observe m (EvPersist s) = m\<lparr>persisted := (s = PersistenceOk)\<rparr>"
| "observe m (EvOpenRead s) = m\<lparr>read_bytes := []\<rparr>"
| "observe m (EvReadAt r) = m\<lparr>read_bytes := read_bytes m @ (case r of None \<Rightarrow> [] | Some bs \<Rightarrow> bs)\<rparr>"
| "observe m (EvPrepareConfigs s) = m\<lparr>prepared := True\<rparr>"
| "observe m (EvStage q s) = m\<lparr>staging := True, staged := StageAccepted s, armed := False\<rparr>"
| "observe m (EvArm s) = m\<lparr>armed := ArmAccepted s\<rparr>"
| "observe m (EvCollect man available e) =
     m\<lparr>healthy := (available \<and> HealthEvidenceBound e man \<and> EvaluateCandidateHealth e = Healthy)\<rparr>"
| "observe m (EvMark s) = m\<lparr>marked := HealthMarkAccepted s\<rparr>"
| "observe m (EvCommit s) = m\<lparr>committed := CommitAccepted s\<rparr>"
| "observe m (EvReadJournal s j) = m\<lparr>journal_committed := (journal_committed m \<or> s = InstallerOk \<and> j = JCommitted)\<rparr>"
| "observe m (EvRollback s) = m\<lparr>rolled_back := (rolled_back m \<or> RollbackAccepted s)\<rparr>"
| "observe m (EvDiscardArchive s) = m\<lparr>archive_gone := (s = ArchiveOk)\<rparr>"
| "observe m EvAbort = m\<lparr>archive_gone := True\<rparr>"
| "observe m (EvDiscardConfigs s) = m\<lparr>configs_gone := (s = PreparedOk)\<rparr>"
| "observe m (EvRetireRolledBack s) = m\<lparr>stage_gone := RolledBackRetirementAccepted s\<rparr>"
| "observe m (EvDeactivate s) = m\<lparr>inactive := (s = PersistenceOk)\<rparr>"
| "observe m (EvRetireCommitted s) = m\<lparr>retired := (s = InstallerOk \<or> s = AlreadyRetired)\<rparr>"
| "observe m (EvReboot t ok) =
     m\<lparr>rebooting := ok,
       candidate_granted := (candidate_granted m \<or> ok \<and> t = OneShotCandidate),
       previous_granted := (previous_granted m \<or> ok \<and> t = PreviousInstallation)\<rparr>"
| "observe m (EvFailSafe ok) = m\<lparr>rebooting := ok\<rparr>"
| "observe m _ = m"

definition watch_step :: "monitor option \<Rightarrow> update_event \<Rightarrow> monitor option" where
  "watch_step s e =
     (case s of None \<Rightarrow> None | Some m \<Rightarrow> if permitted m e then Some (observe m e) else None)"

text \<open>\<open>None\<close> when some call was not permitted.\<close>

definition watch :: "monitor \<Rightarrow> update_event list \<Rightarrow> monitor option" where
  "watch m es = foldl watch_step (Some m) es"

definition fresh_monitor :: "bool \<Rightarrow> monitor" where
  "fresh_monitor resuming =
     \<lparr>read_bytes = [], persisted = False, prepared = resuming, staging = resuming, staged = False,
      armed = False, healthy = False, marked = False, committed = False, journal_committed = False, rolled_back = False,
      archive_gone = False, configs_gone = False, stage_gone = False, inactive = False, retired = False, rebooting = False,
      candidate_granted = False, previous_granted = False\<rparr>"

lemma watch_Nil [simp]: "watch m [] = Some m"
  by (simp add: watch_def)

lemma watch_snoc [simp]: "watch m (es @ [e]) = watch_step (watch m es) e"
  by (simp add: watch_def)

lemma watch_step_Some [simp]:
  "watch_step (Some m) e = (if permitted m e then Some (observe m e) else None)"
  by (simp add: watch_step_def)

section \<open>Reasoning about recorded runs\<close>

text \<open>The record behind \<open>x\<close> is allowed, and answer and monitor satisfy \<open>Q\<close>.\<close>

definition watched :: "monitor \<Rightarrow> ('r \<Rightarrow> monitor \<Rightarrow> bool) \<Rightarrow> 'r \<times> 'w recorded \<Rightarrow> bool" where
  "watched m0 Q x \<longleftrightarrow> (\<exists>m. watch m0 (snd (snd x)) = Some m \<and> Q (fst x) m)"

named_theorems watch_rules \<open>rules that follow the control flow of a recorded run\<close>

named_theorems watch_splits \<open>rules for its branches\<close>

lemma watched_return [watch_rules]: "watch m0 es = Some m \<Longrightarrow> Q r m \<Longrightarrow> watched m0 Q (r, w, es)"
  by (simp add: watched_def)

lemma watched_bind:
  assumes "watched m0 R x" "\<And>r w es m. watch m0 es = Some m \<Longrightarrow> R r m \<Longrightarrow> watched m0 Q (g r (w, es))"
  shows "watched m0 Q (case x of (r, wl) \<Rightarrow> g r wl)"
  using assms by (cases x) (auto simp: watched_def)

lemma watched_mono: "watched m0 R x \<Longrightarrow> (\<And>r m. R r m \<Longrightarrow> Q r m) \<Longrightarrow> watched m0 Q x"
  by (auto simp: watched_def)

lemma watched_traced [watch_rules]:
  assumes "watch m0 es = Some m" "\<And>r. permitted m (ev r)"
    "\<And>r w' es'. watch m0 es' = Some (observe m (ev r)) \<Longrightarrow> watched m0 Q (g r (w', es'))"
  shows "watched m0 Q (case traced ev f (w, es) of (r, wl) \<Rightarrow> g r wl)"
  using assms by (auto simp: traced_def split: prod.split)

lemma watched_last [watch_rules]:
  assumes "watch m0 es = Some m" "\<And>r. permitted m (ev r)" "\<And>r. Q r (observe m (ev r))"
  shows "watched m0 Q (traced ev f (w, es))"
  using assms by (auto simp: traced_def watched_def split: prod.split)

text \<open>Reports and brackets leave the monitor alone.\<close>

lemma watched_report [watch_rules]:
  assumes "watch m0 es = Some m" "\<not> rebooting m"
    "\<And>r w' es'. watch m0 es' = Some m \<Longrightarrow> watched m0 Q (g r (w', es'))"
  shows "watched m0 Q (case ReportUpdateRecoveryProgress (map_option recording_progress p) k a b (w, es) of
      (r, wl) \<Rightarrow> g r wl)"
proof (cases p)
  case None
  then show ?thesis using assms by (simp add: ReportUpdateRecoveryProgress_def)
next
  case (Some x)
  then show ?thesis
    using assms
    by (auto simp: ReportUpdateRecoveryProgress_def recording_progress_def traced_def split: prod.split)
qed

lemma watched_scoped:
  assumes "watch m0 es = Some m" "\<not> rebooting m"
    "\<And>w' es'. watch m0 es' = Some m \<Longrightarrow> watched m0 (\<lambda>r m'. \<not> rebooting m' \<and> Q r m') (block (w', es'))"
  shows "watched m0 Q (scoped_mandatory (map_option recording_progress p) block (w, es))"
proof (cases p)
  case None
  then show ?thesis using assms by (simp add: scoped_mandatory_def watched_def) blast
next
  case (Some x)
  have "watched m0 (\<lambda>r m'. \<not> rebooting m' \<and> Q r m')
      (block (BeginMandatoryOperation (recording_progress x) (w, es)))"
    using assms by (simp add: recording_progress_def)
  then show ?thesis
    using Some by (auto simp: scoped_mandatory_def watched_def recording_progress_def split: prod.split)
qed

lemma watched_bool [watch_splits]:
  "(r \<Longrightarrow> watched m0 Q a) \<Longrightarrow> (\<not> r \<Longrightarrow> watched m0 Q b) \<Longrightarrow> watched m0 Q (case r of True \<Rightarrow> a | False \<Rightarrow> b)"
  by (cases r) auto

lemma watched_if [watch_splits]:
  "(r \<Longrightarrow> watched m0 Q a) \<Longrightarrow> (\<not> r \<Longrightarrow> watched m0 Q b) \<Longrightarrow> watched m0 Q (if r then a else b)"
  by simp

lemma watched_pair [watch_splits]:
  "(\<And>a b. r = (a, b) \<Longrightarrow> watched m0 Q (f a b)) \<Longrightarrow> watched m0 Q (case r of (a, b) \<Rightarrow> f a b)"
  by (cases r) auto

lemma watched_outcome:
  assumes "watched m0 R x"
    "\<And>r w es m. watch m0 es = Some m \<Longrightarrow> R (False, r) m \<Longrightarrow> watched m0 Q (a r (w, es))"
    "\<And>r w es m. watch m0 es = Some m \<Longrightarrow> R (True, r) m \<Longrightarrow> watched m0 Q (b r (w, es))"
  shows "watched m0 Q (case x of ((False, r), wl) \<Rightarrow> a r wl | ((True, r), wl) \<Rightarrow> b r wl)"
  using assms by (cases x) (auto simp: watched_def split: prod.splits bool.splits)

lemma watched_option [watch_splits]:
  "(r = None \<Longrightarrow> watched m0 Q a) \<Longrightarrow> (\<And>x. r = Some x \<Longrightarrow> watched m0 Q (f x))
   \<Longrightarrow> watched m0 Q (case r of None \<Rightarrow> a | Some x \<Rightarrow> f x)"
  by (cases r) auto

lemma watched_sum [watch_splits]:
  "(\<And>x. r = Inl x \<Longrightarrow> watched m0 Q (f x)) \<Longrightarrow> (\<And>y. r = Inr y \<Longrightarrow> watched m0 Q (g y))
   \<Longrightarrow> watched m0 Q (case r of Inl x \<Rightarrow> f x | Inr y \<Rightarrow> g y)"
  by (cases r) auto

section \<open>The helpers\<close>

text \<open>What the cleanups leave alone.\<close>

definition kept :: "monitor \<Rightarrow> UpdateOrchestratorResult \<Rightarrow> bool \<times> UpdateOrchestratorResult \<Rightarrow> monitor \<Rightarrow> bool" where
  "kept m res r m' \<longleftrightarrow>
     orchestrator_status (snd r) = orchestrator_status res
     \<and> rebooting m' = rebooting m \<and> committed m' = committed m \<and> journal_committed m' = journal_committed m
     \<and> rolled_back m' = rolled_back m \<and> inactive m' = inactive m \<and> prepared m' = prepared m
     \<and> staging m' = staging m"

lemma discard_archive_and_configs_watched:
  assumes "watch m0 es = Some m" "\<not> rebooting m"
  shows "watched m0 (\<lambda>r m'. kept m res r m' \<and> (fst r \<longrightarrow> archive_gone m' \<and> configs_gone m'))
    (discard_archive_and_configs (recording_storage st) (recording_configs pc) b g res (w, es))"
  unfolding discard_archive_and_configs_def recording_calls Let_def using assms
  by (auto simp: watched_def traced_def kept_def split: prod.splits)

lemma discard_request_watched:
  assumes "watch m0 es = Some m" "permitted m (EvDiscardRequest s0)"
  shows "watched m0 (kept m res) (discard_request (recording_persistence q) b g res (w, es))"
  unfolding discard_request_def recording_calls using assms
  by (auto simp: watched_def traced_def kept_def split: prod.splits)

lemma CleanupTransaction_watched:
  assumes "watch m0 es = Some m" "\<not> rebooting m" "\<not> committed m" "\<not> staging m" "equipped orc"
  shows "watched m0 (kept m res) (CleanupTransaction (recording orc) b (map_option recording_progress p) res (w, es))"
  unfolding CleanupTransaction_def recording_objects [OF assms(5)] prod.case option.case
  using assms(2-4)
  by (intro watched_scoped [OF assms(1,2)] watched_outcome [OF discard_archive_and_configs_watched]
      watched_mono [OF discard_request_watched])
    (auto intro!: watched_return simp: kept_def)

lemma CleanupRolledBackTransaction_watched:
  assumes "watch m0 es = Some m" "\<not> rebooting m" "\<not> committed m" "equipped orc"
  shows "watched m0 (kept m res)
    (CleanupRolledBackTransaction (recording orc) q iws b (map_option recording_progress p) res (w, es))"
  unfolding CleanupRolledBackTransaction_def recording_objects [OF assms(4)] prod.case option.case
  using assms(2-3)
  apply (intro watched_scoped [OF assms(1,2)] watched_outcome [OF discard_archive_and_configs_watched])
     apply (auto intro!: watched_return simp: kept_def)[3]
  apply (simp add: recording_installer_def Let_def)
  apply (rule watched_traced, assumption)
   apply (simp add: kept_def)
  apply (rule watched_if)
   apply (rule watched_return, assumption, simp add: kept_def)
  apply (rule watched_mono, rule discard_request_watched, assumption)
  apply (auto simp add: kept_def)
  done

lemma RetainCommittedTransaction_watched:
  assumes "watch m0 es = Some m" "\<not> rebooting m" "committed m \<or> journal_committed m" "equipped orc"
  shows "watched m0 (kept m res) (RetainCommittedTransaction (recording orc) b (map_option recording_progress p) res (w, es))"
  unfolding RetainCommittedTransaction_def recording_objects [OF assms(4)] prod.case option.case
  using assms(2-3)
  apply (intro watched_scoped [OF assms(1,2)] watched_outcome [OF discard_archive_and_configs_watched])
     apply (auto intro!: watched_return simp: kept_def recording_calls watched_def traced_def split: prod.split)
  done


lemma DiscardDownloadedRequest_watched:
  assumes "watch m0 es = Some m" "\<not> rebooting m" "\<not> committed m" "\<not> prepared m" "\<not> staging m" "equipped orc"
  shows "watched m0 (kept m res)
    (DiscardDownloadedRequest (recording orc) b (map_option recording_progress p) res (w, es))"
  unfolding DiscardDownloadedRequest_def recording_objects [OF assms(6)] prod.case option.case Let_def
  using assms(2-5)
  apply (intro watched_scoped [OF assms(1,2)])
  apply (simp add: recording_storage_def)
  apply (rule watched_traced, assumption, simp)
  apply (rule watched_if)
   apply (rule watched_return, assumption, simp add: kept_def)
  apply (rule watched_mono, rule discard_request_watched, assumption)
  apply (auto simp add: kept_def)
  done

lemma AbortDownloadAndDiscardRequest_watched:
  assumes "watch m0 es = Some m" "\<not> rebooting m" "\<not> committed m" "\<not> prepared m" "\<not> staging m" "equipped orc"
  shows "watched m0 (kept m res)
    (AbortDownloadAndDiscardRequest (recording orc) b (map_option recording_progress p) res (w, es))"
  unfolding AbortDownloadAndDiscardRequest_def recording_objects [OF assms(6)] prod.case option.case
  using assms(2-5)
  apply (intro watched_scoped [OF assms(1,2)])
  apply (simp add: recording_storage_def)
  apply (rule watched_mono, rule discard_request_watched, simp, simp)
  apply (auto simp add: kept_def)
  done

lemma MandatoryRollback_watched:
  assumes "watch m0 es = Some m" "\<not> rebooting m" "\<not> committed m" "\<not> journal_committed m" "equipped orc"
  shows "watched m0 (\<lambda>r m'. m' = m\<lparr>rolled_back := (rolled_back m \<or> RollbackAccepted (installer_status r))\<rparr>)
    (MandatoryRollback (installer (recording orc)) (map_option recording_progress p) q iws (w, es))"
  using assms(2-4) unfolding recording_objects [OF assms(5)]
  by (auto simp: MandatoryRollback_def recording_installer_def intro!: watched_scoped [OF assms(1,2)] watched_last)

text \<open>What the reported status promises of the run.\<close>

fun claims :: "UpdateOrchestratorStatus \<Rightarrow> monitor \<Rightarrow> bool" where
  "claims CandidateRebootRequested m \<longleftrightarrow>
     candidate_granted m \<and> rebooting m \<and> staged m \<and> armed m \<and> \<not> rolled_back m"
| "claims UpdateCommitted m \<longleftrightarrow> (committed m \<or> journal_committed m) \<and> \<not> rebooting m"
| "claims RollbackRebootRequested m \<longleftrightarrow> previous_granted m \<and> rebooting m \<and> rolled_back m \<and> inactive m"
| "claims PreviousRetired m \<longleftrightarrow> retired m"
| "claims _ m \<longleftrightarrow> True"

definition honest :: "UpdateOrchestratorResult \<Rightarrow> monitor \<Rightarrow> bool" where
  "honest r m \<longleftrightarrow> claims (orchestrator_status r) m"

lemma claims_InstallerProgressOr [simp]: "claims s m \<Longrightarrow> claims (InstallerProgressOr i s) m"
  by (simp add: InstallerProgressOr_def)

lemma claims_CleanupFailureStatus [simp]: "claims (CleanupFailureStatus r) m"
  by (simp add: CleanupFailureStatus_def)

lemma claims_RolledBackCleanupFailureStatus [simp]: "claims (RolledBackCleanupFailureStatus r) m"
  by (simp add: RolledBackCleanupFailureStatus_def)

lemma claims_validation_failure [simp]: "claims (validation_failure e) m"
  by (simp add: validation_failure_def)

lemma DeactivatePendingRequest_watched:
  assumes "watch m0 es = Some m" "\<not> rebooting m" "\<not> committed m" 
  shows "watched m0 (\<lambda>r m'. m' = m\<lparr>inactive := inactive m'\<rparr>
      \<and> (if fst r then inactive m' else honest (snd r) m'))
    (DeactivatePendingRequest (map_option recording_persistence q) (map_option recording_progress p) res (w, es))"
  unfolding DeactivatePendingRequest_def recording_calls Let_def
  using assms
  apply (intro watched_scoped [OF assms(1,2)])
  apply (cases q)
  apply (auto simp: watched_def traced_def honest_def split: prod.splits)
  done

text \<open>The same facts as steps of a run, and the records spelt out.\<close>

lemmas CleanupTransaction_step [watch_rules] = watched_bind [OF CleanupTransaction_watched]
lemmas CleanupRolledBackTransaction_step [watch_rules] = watched_bind [OF CleanupRolledBackTransaction_watched]
lemmas RetainCommittedTransaction_step [watch_rules] = watched_bind [OF RetainCommittedTransaction_watched]
lemmas DiscardDownloadedRequest_step [watch_rules] = watched_bind [OF DiscardDownloadedRequest_watched]
lemmas AbortDownloadAndDiscardRequest_step [watch_rules] = watched_bind [OF AbortDownloadAndDiscardRequest_watched]

lemma MandatoryRollback_step [watch_rules]:
  assumes "watch m0 es = Some m" "\<not> rebooting m" "\<not> committed m" "\<not> journal_committed m" "equipped orc"
    "\<And>r w' es'. watch m0 es' = Some (m\<lparr>rolled_back := (rolled_back m \<or> RollbackAccepted (installer_status r))\<rparr>)
       \<Longrightarrow> watched m0 Q (g r (w', es'))"
  shows "watched m0 Q (case MandatoryRollback (Some (recording_installer (the (installer orc))))
      (map_option recording_progress p) q iws (w, es) of (r, wl) \<Rightarrow> g r wl)"
  by (rule watched_bind [OF MandatoryRollback_watched [OF assms(1-5), unfolded recording_objects [OF assms(5)]]])
    (use assms(6) in auto)

lemma DeactivatePendingRequest_step [watch_rules]:
  assumes "watch m0 es = Some m" "\<not> rebooting m" "\<not> committed m"
    "\<And>r w' es'. watch m0 es' = Some (m\<lparr>inactive := True\<rparr>) \<Longrightarrow> watched m0 honest (b r (w', es'))"
  shows "watched m0 honest (case DeactivatePendingRequest (map_option recording_persistence q)
      (map_option recording_progress p) res (w, es) of ((False, r), wl) \<Rightarrow> (r, wl) | ((True, r), wl) \<Rightarrow> b r wl)"
  by (rule watched_outcome [OF DeactivatePendingRequest_watched [OF assms(1-3)]])
    (use assms(4) in \<open>auto intro: watched_return\<close>)

lemmas DeactivatePendingRequest_given_step [watch_rules] =
  DeactivatePendingRequest_step [where q = "Some q" for q, unfolded option.map]

lemma RequestPreviousFailSafe_watched [watch_rules]:
  assumes "watch m0 es = Some m" "\<not> rebooting m" "\<not> committed m" "\<And>m. claims t m"
  shows "watched m0 honest (RequestPreviousFailSafe (recording orc) t (map_option recording_progress p) res (w, es))"
proof (cases "reboot_object orc")
  case None
  then show ?thesis
    unfolding RequestPreviousFailSafe_def recording_sel recorded using assms
    by (rule_tac DeactivatePendingRequest_step) (auto intro!: watched_return simp: honest_def)
next
  case (Some rb)
  show ?thesis
    unfolding RequestPreviousFailSafe_def recording_sel Some option.case recorded using assms
    by - ((rule watch_rules, assumption) | rule watch_splits | (simp add: honest_def; fail))+
qed

section \<open>Starting\<close>

lemma roll_back_to_previous_watched [watch_rules]:
  assumes "watch m0 es = Some m" "\<not> rebooting m" "\<not> committed m" "\<not> journal_committed m" "equipped orc"
    "reboot_object orc \<noteq> None" "\<And>m. claims failure m"
  shows "watched m0 honest
    (roll_back_to_previous failure (recording orc) (recording_workspace ws) b q res (w, es))"
  unfolding roll_back_to_previous_def recording_objects [OF assms(5)] recording_reboot_object [OF assms(6)] recorded
  using assms
  by - ((rule watch_rules, assumption) | rule watch_splits | (simp add: honest_def kept_def; fail))+

lemma start_reboot_watched [watch_rules]:
  assumes "watch m0 es = Some m" "\<not> rebooting m" "\<not> committed m" "\<not> journal_committed m" "equipped orc"
    "reboot_object orc \<noteq> None" "staged m" "armed m" "\<not> rolled_back m"
  shows "watched m0 honest (start_reboot (recording orc) (recording_workspace ws) b q res (w, es))"
  unfolding start_reboot_def recording_reboot_object [OF assms(6)] recorded using assms
  by - ((rule watch_rules, assumption) | rule watch_splits | (simp add: honest_def kept_def; fail))+

lemma start_arm_watched [watch_rules]:
  assumes "watch m0 es = Some m" "\<not> rebooting m" "\<not> committed m" "\<not> journal_committed m" "equipped orc"
    "reboot_object orc \<noteq> None" "staged m" "\<not> rolled_back m"
  shows "watched m0 honest (start_arm (recording orc) (recording_workspace ws) b q res (w, es))"
  unfolding start_arm_def recording_objects [OF assms(5)] recorded using assms
  by - ((rule watch_rules, assumption) | rule watch_splits | (simp add: honest_def kept_def; fail))+

lemma roll_back_staging_watched [watch_rules]:
  assumes "watch m0 es = Some m" "\<not> rebooting m" "\<not> committed m" "\<not> journal_committed m" "equipped orc"
    "\<And>m. claims failure m"
  shows "watched m0 honest
    (roll_back_staging failure (recording orc) (recording_workspace ws) b q res (w, es))"
  unfolding roll_back_staging_def recording_objects [OF assms(5)] recorded using assms
  by - ((rule watch_rules, assumption) | rule watch_splits | (simp add: honest_def kept_def; fail))+

lemma start_stage_watched [watch_rules]:
  assumes "watch m0 es = Some m" "\<not> rebooting m" "\<not> committed m" "\<not> journal_committed m" "equipped orc"
    "reboot_object orc \<noteq> None" "\<not> rolled_back m" "persisted m" "prepared m" "archive_verified (read_bytes m) q"
  shows "watched m0 honest (start_stage (recording orc) (recording_workspace ws) b q res (w, es))"
  unfolding start_stage_def recording_objects [OF assms(5)] recorded using assms
  by - ((rule watch_rules, assumption) | rule watch_splits | (simp add: honest_def kept_def; fail))+

lemma start_prepare_watched [watch_rules]:
  assumes "watch m0 es = Some m" "\<not> rebooting m" "\<not> committed m" "\<not> journal_committed m" "equipped orc"
    "reboot_object orc \<noteq> None" "\<not> rolled_back m" "persisted m" "\<not> staging m"
    "\<And>q. installer_manifest q = offer_manifest offer \<Longrightarrow> archive_verified (read_bytes m) q"
  shows "watched m0 honest (start_prepare (recording orc) (recording_workspace ws) offer b a res (w, es))"
  unfolding start_prepare_def recording_objects [OF assms(5)] recorded using assms
  by - ((rule watch_rules, assumption) | rule watch_splits | (simp add: honest_def kept_def BuildInstallerRequest_def; fail))+

section \<open>The stored archive\<close>

text \<open>The bytes read back so far are the ones the hash has absorbed.\<close>

lemma rehash_loop_watched:
  assumes "watch m0 es = Some m" "\<not> rebooting m" "Sha256_holds hash (read_bytes m)" "length (read_bytes m) = unat offset"
    "unat offset \<le> unat sz" "0 < n"
  shows "watched m0 (\<lambda>r m'. m' = m\<lparr>read_bytes := read_bytes m'\<rparr>
        \<and> (\<forall>h. r = Inr h \<longrightarrow> Sha256_holds h (read_bytes m') \<and> length (read_bytes m') = unat sz))
    (rehash_loop (recording_storage st) (map_option recording_progress p) src n sz offset hash (w, es))"
  using assms(1-5)
proof (induction "unat sz - unat offset" arbitrary: offset hash m w es rule: less_induct)
  case less
  show ?case
  proof (cases "offset < sz")
    case False
    then have "unat offset = unat sz" using less.prems(5) by (simp add: word_less_nat_alt)
    with False less.prems show ?thesis
      by (subst rehash_loop.simps) (auto intro!: watched_return)
  next
    case True
    define cnt where "cnt = (if unat (sz - offset) < n then unat (sz - offset) else n)"
    note adv = rehash_advance [OF True assms(6) cnt_def]
    let ?Q = "\<lambda>r m'. m' = m\<lparr>read_bytes := read_bytes m'\<rparr>
        \<and> (\<forall>h. r = Inr h \<longrightarrow> Sha256_holds h (read_bytes m') \<and> length (read_bytes m') = unat sz)"
    have next_piece: "watched m0 ?Q (rehash_loop (recording_storage st) (map_option recording_progress p) src n sz
        (offset + of_nat cnt) h (w', es'))"
      if "watch m0 es' = Some (m\<lparr>read_bytes := read_bytes m @ map f [0..<cnt]\<rparr>)"
        "Sha256_Update hash (Bytes (map f [0..<cnt])) = (True, h)" for f h w' es'
      using less.prems Sha256_Update_True [OF less.prems(3) that(2)] adv
      by (intro watched_mono [OF less.hyps [OF _ that(1)]]) auto
    have "watched m0 ?Q (case traced (\<lambda>r. EvReadAt (map_option (\<lambda>f. map f [0..<cnt]) r))
            (source_ReadAt st src offset cnt) (w, es) of
          (r, w1) \<Rightarrow> (case r of
             None \<Rightarrow> (Inl False, w1)
           | Some f \<Rightarrow> (case Sha256_Update hash (Bytes (map f [0..<cnt])) of
               (ok, h) \<Rightarrow> (case ok of
                  False \<Rightarrow> (Inl False, w1)
                | True \<Rightarrow> (case ReportUpdateRecoveryProgress (map_option recording_progress p)
                      StoredArchiveHashed (Amount (offset + of_nat cnt)) (Amount sz) w1 of
                    (False, w2) \<Rightarrow> (Inl True, w2)
                  | (True, w2) \<Rightarrow> rehash_loop (recording_storage st) (map_option recording_progress p) src n sz
                      (offset + of_nat cnt) h w2)))))"
      using less.prems(1,2)
      by - ((rule watch_rules, assumption) | rule watch_splits | (simp; fail) | (rule next_piece, simp, simp))+
    then show ?thesis
      using True assms(6)
      unfolding rehash_loop.simps [of _ _ _ _ _ offset] Let_def cnt_def [symmetric] recorded_calls by simp
  qed
qed

lemmas rehash_loop_step [watch_rules] = watched_bind [OF rehash_loop_watched]

lemma RehashStoredArchive_watched:
  assumes "watch m0 es = Some m" "\<not> rebooting m" "read_bytes m = []"
  shows "watched m0 (\<lambda>r m'. m' = m\<lparr>read_bytes := read_bytes m'\<rparr>
        \<and> (fst r \<longrightarrow> length (read_bytes m') = unat (bound_archive_size b)
             \<and> ConstantTimeDigestEqual (Some (sha256_spec (read_bytes m'))) (Some (bound_archive_sha256 b))))
    (RehashStoredArchive (recording_storage st) src b buf (map_option recording_progress p) (w, es))"
  unfolding RehashStoredArchive_def recorded using assms
  by - ((rule watch_rules, assumption) | rule watch_splits | (simp add: sha.holds_init; fail)
      | (auto dest: Sha256_Final_Some; fail))+

lemma RehashStoredArchive_step [watch_rules]:
  assumes "watch m0 es = Some m" "\<not> rebooting m" "read_bytes m = []"
    "\<And>r w' es' bs. watch m0 es' = Some (m\<lparr>read_bytes := bs\<rparr>)
       \<Longrightarrow> fst r \<longrightarrow> length bs = unat (bound_archive_size b)
             \<and> ConstantTimeDigestEqual (Some (sha256_spec bs)) (Some (bound_archive_sha256 b))
       \<Longrightarrow> watched m0 Q (g r (w', es'))"
  shows "watched m0 Q
    (case RehashStoredArchive (recording_storage st) src b buf (map_option recording_progress p) (w, es) of
       (r, wl) \<Rightarrow> g r wl)"
  by (rule watched_bind [OF RehashStoredArchive_watched [OF assms(1-3)]]) (metis assms(4))

definition binding_of :: "AuthenticatedUpdateBinding \<Rightarrow> ReleaseOffer \<Rightarrow> bool" where
  "binding_of b offer \<longleftrightarrow>
     bound_archive_size b = archive_download_size (manifest_asset (offer_manifest offer))
     \<and> bound_archive_sha256 b = archive_sha256 (manifest_asset (offer_manifest offer))"

lemma binding_of_BuildBinding [simp]: "binding_of (BuildBinding q offer d a) offer"
  by (simp add: binding_of_def BuildBinding_def)

lemma start_verify_watched [watch_rules]:
  assumes "watch m0 es = Some m" "\<not> rebooting m" "\<not> committed m" "\<not> journal_committed m" "equipped orc"
    "reboot_object orc \<noteq> None" "\<not> rolled_back m" "persisted m" "\<not> staging m" "\<not> prepared m" "binding_of b offer"
  shows "watched m0 honest (start_verify (recording orc) (recording_workspace ws) offer b res (w, es))"
  unfolding start_verify_def recording_objects [OF assms(5)] recorded using assms
  by - ((rule watch_rules, assumption) | rule watch_splits | (simp add: honest_def kept_def; fail)
    | (auto simp: archive_verified_def binding_of_def Let_def; fail))+

section \<open>The download\<close>

text \<open>The pieces go to the storage through the hashing sink, and nowhere else.\<close>

lemma hashing_Write_watched:
  assumes "hashing_Write (storage_Write (recording_storage st)) hs piece = (ok, hs')" "destination hs = Some (w, es)"
    "watch m0 es = Some m" "\<not> rebooting m"
  shows "\<exists>w' es'. destination hs' = Some (w', es') \<and> watch m0 es' = Some m"
  using assms
  by (auto simp: hashing_Write_def recorded_calls traced_def split: if_splits prod.splits bool.splits)

lemma deliver_watched:
  assumes "deliver (storage_Write (recording_storage st)) hs pieces = (ok, hs')" "destination hs = Some (w, es)"
    "watch m0 es = Some m" "\<not> rebooting m"
  shows "\<exists>w' es'. destination hs' = Some (w', es') \<and> watch m0 es' = Some m"
  using assms
proof (induction pieces arbitrary: hs w es)
  case Nil
  then show ?case by simp
next
  case (Cons piece pieces)
  obtain d hs1 where wr: "hashing_Write (storage_Write (recording_storage st)) hs piece = (d, hs1)" by fastforce
  from hashing_Write_watched [OF this Cons.prems(2-4)]
  obtain w1 es1 where "destination hs1 = Some (w1, es1)" "watch m0 es1 = Some m" by blast
  with Cons.IH [OF _ this(1,2)] Cons.prems(1,4) wr show ?case by (cases d) auto
qed

lemma Fetch_step [watch_rules]:
  assumes "watch m0 es = Some m" "\<not> rebooting m"
    "\<And>r w' es'. watch m0 es' = Some m \<Longrightarrow> watched m0 Q (g r (w', es'))"
  shows "watched m0 Q (case Fetch (recording_transport tr) (recording_storage st) url n (w, es) of (r, wl) \<Rightarrow> g r wl)"
proof -
  obtain pieces w1 where f: "fetch_pieces tr url n w = (pieces, w1)" by fastforce
  obtain ok hs where d: "deliver (storage_Write (recording_storage st))
      (make_hashing_sink (Some (w1, es @ [EvFetch])) n) pieces = (ok, hs)" by fastforce
  have "\<exists>w' es'. destination hs = Some (w', es') \<and> watch m0 es' = Some m"
    using assms(1,2) by (intro deliver_watched [OF d, of w1 "es @ [EvFetch]"]) (simp_all add: make_hashing_sink_def)
  then obtain w2 es2 where hs: "destination hs = Some (w2, es2)" "watch m0 es2 = Some m" by blast
  show ?thesis
    using assms(2,3) hs
    by (auto simp: Fetch_def recording_transport_def traced_def f d split: prod.split)
qed

lemma start_download_watched [watch_rules]:
  assumes "watch m0 es = Some m" "\<not> rebooting m" "\<not> committed m" "\<not> journal_committed m" "equipped orc"
    "reboot_object orc \<noteq> None" "\<not> rolled_back m" "persisted m" "\<not> staging m" "\<not> prepared m" "binding_of b offer"
    "transport orc \<noteq> None"
  shows "watched m0 honest (start_download (recording orc) (recording_workspace ws) offer b res (w, es))"
proof -
  have "transport (recording orc) = Some (recording_transport (the (transport orc)))"
    using assms(12) by (auto simp: recording_def)
  then show ?thesis
    unfolding start_download_def recording_objects [OF assms(5)] recorded using assms
    by - (simp only: option.sel, ((rule watch_rules, assumption) | rule watch_splits | (simp add: honest_def kept_def; fail))+)
qed

lemma start_persist_watched [watch_rules]:
  assumes "watch m0 es = Some m" "\<not> rebooting m" "\<not> committed m" "\<not> journal_committed m" "equipped orc"
    "reboot_object orc \<noteq> None" "\<not> rolled_back m" "\<not> staging m" "\<not> prepared m" "binding_of b offer"
    "transport orc \<noteq> None"
  shows "watched m0 honest (start_persist (recording orc) request (recording_workspace ws) offer b res (w, es))"
  unfolding start_persist_def recording_objects [OF assms(5)] recorded using assms
  by - ((rule watch_rules, assumption) | rule watch_splits | (simp add: honest_def kept_def; fail))+

lemma start_authorize_watched [watch_rules]:
  assumes "watch m0 es = Some m" "\<not> rebooting m" "\<not> committed m" "\<not> journal_committed m" "equipped orc"
    "reboot_object orc \<noteq> None" "\<not> rolled_back m" "\<not> staging m" "\<not> prepared m" "transport orc \<noteq> None"
    "authorization_gate orc \<noteq> None" "readiness_gate orc \<noteq> None"
  shows "watched m0 honest (start_authorize (recording orc) request (recording_workspace ws) offer d res (w, es))"
  unfolding start_authorize_def recording_reboot_object [OF assms(6)]
    recorded_gates(2) [OF assms(11)] recorded_gates(3) [OF assms(12)] recorded
  using assms
  by - ((rule watch_rules, assumption) | rule watch_splits | (simp add: honest_def kept_def; fail))+

lemma Start_watched:
  assumes "watch m0 es = Some m" "\<not> rebooting m" "\<not> committed m" "\<not> journal_committed m"
    "\<not> rolled_back m" "\<not> staging m" "\<not> prepared m"
  shows "watched m0 honest (Start r (recording orc) request (recording_workspace ws) (w, es))"
proof (cases "release_validator orc = None \<or> authorization_gate orc = None \<or> readiness_gate orc = None
    \<or> transport orc = None \<or> storage orc = None \<or> request_persistence orc = None
    \<or> prepared_configs orc = None \<or> installer orc = None \<or> health_probe orc = None
    \<or> reboot_object orc = None \<or> \<not> OrchestratorWorkspaceValid ws True")
  case True
  then show ?thesis
    using assms(1) by (auto simp: Start_def honest_def OrchestratorInitialResult_def intro: watched_return)
next
  case False
  then have given: "equipped orc" "reboot_object orc \<noteq> None" "transport orc \<noteq> None" "authorization_gate orc \<noteq> None"
    "readiness_gate orc \<noteq> None" "release_validator orc \<noteq> None" by (auto simp: equipped_def)
  show ?thesis
    unfolding Start_def recording_present OrchestratorWorkspaceValid_recording if_not_P [OF False] recorded
      recorded_gates(1) [OF given(6)]
    using assms given
    by - ((rule watch_rules, assumption) | rule watch_splits
        | (simp add: honest_def kept_def OrchestratorInitialResult_def; fail))+
qed

section \<open>Resuming\<close>

lemma resume_rollback_watched [watch_rules]:
  assumes "watch m0 es = Some m" "\<not> rebooting m" "\<not> committed m" "\<not> journal_committed m" "equipped orc"
    "reboot_object orc \<noteq> None" "\<And>m. claims t m"
  shows "watched m0 honest (resume_rollback t (recording orc) (recording_workspace ws) b q res (w, es))"
  unfolding resume_rollback_def recording_objects [OF assms(5)] recording_reboot_object [OF assms(6)] recorded using assms
  by - ((rule watch_rules, assumption) | rule watch_splits | (simp add: honest_def kept_def; fail))+

lemma retain_committed_watched [watch_rules]:
  assumes "watch m0 es = Some m" "\<not> rebooting m" "committed m \<or> journal_committed m" "equipped orc"
  shows "watched m0 honest (retain_committed (recording orc) (recording_workspace ws) b res (w, es))"
  unfolding retain_committed_def recording_objects [OF assms(4)] recorded using assms
  by - ((rule watch_rules, assumption) | rule watch_splits | (simp add: honest_def kept_def; fail))+

lemma resume_commit_watched [watch_rules]:
  assumes "watch m0 es = Some m" "\<not> rebooting m" "\<not> committed m" "\<not> journal_committed m" "equipped orc"
    "reboot_object orc \<noteq> None" "healthy m" "\<not> rolled_back m"
  shows "watched m0 honest (resume_commit (recording orc) (recording_workspace ws) b q res (w, es))"
  unfolding resume_commit_def recording_objects [OF assms(5)] recorded using assms
  by - ((rule watch_rules, assumption) | rule watch_splits | (simp add: honest_def kept_def; fail))+

lemma resume_interrupted_watched [watch_rules]:
  assumes "watch m0 es = Some m" "\<not> rebooting m" "\<not> committed m" "equipped orc"
  shows "watched m0 honest (resume_interrupted (recording orc) (recording_workspace ws) b q res (w, es))"
  unfolding resume_interrupted_def recording_objects [OF assms(4)] recorded using assms
  by - ((rule watch_rules, assumption) | rule watch_splits | (simp add: honest_def kept_def; fail))+

lemma resume_discovered_watched [watch_rules]:
  assumes "watch m0 es = Some m" "\<not> rebooting m" "\<not> committed m" "\<not> journal_committed m" "equipped orc"
  shows "watched m0 honest (resume_discovered (recording orc) (recording_workspace ws) b q res (w, es))"
  unfolding resume_discovered_def recording_objects [OF assms(5)] recorded using assms
  by - ((rule watch_rules, assumption) | rule watch_splits | (simp add: honest_def kept_def; fail))+



lemma resume_health_watched [watch_rules]:
  assumes "watch m0 es = Some m" "\<not> rebooting m" "\<not> committed m" "\<not> journal_committed m" "equipped orc"
    "reboot_object orc \<noteq> None" "\<not> rolled_back m" "health_probe orc \<noteq> None"
  shows "watched m0 honest (resume_health (recording orc) (recording_workspace ws) offer b q res (w, es))"
  unfolding resume_health_def recorded_gates(4) [OF assms(8)] recorded using assms
  by - ((rule watch_rules, assumption) | rule watch_splits | (simp add: honest_def kept_def split: if_splits; fail))+

lemma resume_restore_watched [watch_rules]:
  assumes "watch m0 es = Some m" "\<not> rebooting m" "\<not> committed m" "\<not> journal_committed m" "equipped orc"
    "reboot_object orc \<noteq> None" "\<not> rolled_back m" "health_probe orc \<noteq> None"
  shows "watched m0 honest (resume_restore (recording orc) (recording_workspace ws) offer b jst res (w, es))"
  unfolding resume_restore_def recording_objects [OF assms(5)] recorded using assms
  by - ((rule watch_rules, assumption) | rule watch_splits | (simp add: honest_def kept_def; fail))+

lemmas RequestPreviousFailSafe_quiet [watch_rules] =
  RequestPreviousFailSafe_watched [where p = None, unfolded option.map]

lemma resume_journal_watched [watch_rules]:
  assumes "watch m0 es = Some m" "\<not> rebooting m" "\<not> committed m" "equipped orc" "\<not> rolled_back m"
    "health_probe orc \<noteq> None" "\<not> journal_committed m"
  shows "watched m0 honest (resume_journal (recording orc) (recording_workspace ws) offer b res (w, es))"
proof (cases "reboot_object orc")
  case None
  then have "reboot_object (recording orc) = None" by simp
  then show ?thesis
    unfolding resume_journal_def recording_objects [OF assms(4)] recorded using assms
    by - (simp only: option.case prod.case bool.case, ((rule watch_rules, assumption) | rule watch_splits
        | (simp add: honest_def kept_def; fail))+)
next
  case (Some rb)
  then have given: "reboot_object orc \<noteq> None" by simp
  show ?thesis
    unfolding resume_journal_def recording_objects [OF assms(4)] recording_reboot_object [OF given] option.case recorded
    using assms given
    by - ((rule watch_rules, assumption) | rule watch_splits | (simp add: honest_def kept_def; fail) | (auto; fail))+
qed

lemma ResumeAfterBoot_watched:
  assumes "watch m0 es = Some m" "\<not> rebooting m" "\<not> committed m" "\<not> journal_committed m" "\<not> rolled_back m"
  shows "watched m0 honest (ResumeAfterBoot r (recording orc) request (recording_workspace ws) (w, es))"
proof (cases "release_validator orc = None \<or> storage orc = None \<or> request_persistence orc = None
            \<or> prepared_configs orc = None \<or> installer orc = None \<or> health_probe orc = None
            \<or> \<not> OrchestratorWorkspaceValid ws False")
  case True
  then show ?thesis
    unfolding ResumeAfterBoot_def recording_present OrchestratorWorkspaceValid_recording if_P [OF True] recorded
    using assms
    by - ((rule watch_rules, assumption) | rule watch_splits | (simp; fail))+
next
  case False
  then have given: "equipped orc" "release_validator orc \<noteq> None" "health_probe orc \<noteq> None" by (auto simp: equipped_def)
  show ?thesis
    unfolding ResumeAfterBoot_def recording_present OrchestratorWorkspaceValid_recording if_not_P [OF False] recorded
      recorded_gates(1) [OF given(2)]
    using assms given
    by - ((rule watch_rules, assumption) | rule watch_splits | (simp; fail))+
qed

section \<open>Retiring\<close>

lemma retire_previous_watched [watch_rules]:
  assumes "watch m0 es = Some m" "\<not> rebooting m" "installer orc \<noteq> None" "request_persistence orc \<noteq> None"
  shows "watched m0 (\<lambda>r m'. \<not> rebooting m' \<and> honest r m')
    (retire_previous (recording orc) (recording_workspace ws) b q res (w, es))"
proof -
  have given: "installer (recording orc) = Some (recording_installer (the (installer orc)))"
    "request_persistence (recording orc) = Some (recording_persistence (the (request_persistence orc)))"
    using assms(3,4) by (auto simp: recording_def)
  show ?thesis
    unfolding retire_previous_def given recorded using assms
    by - ((rule watch_rules, assumption) | rule watch_splits | (simp add: honest_def; fail))+
qed

lemma RetireCommitted_watched:
  assumes "watch m0 es = Some m" "\<not> rebooting m"
  shows "watched m0 honest (RetireCommitted_Orchestrator r (recording orc) request (recording_workspace ws) (w, es))"
proof (cases "release_validator orc = None \<or> request_persistence orc = None \<or> installer orc = None
            \<or> \<not> OrchestratorWorkspaceValid ws True \<or> request_release request = None")
  case True
  then show ?thesis
    using assms(1)
    by (auto simp: RetireCommitted_Orchestrator_def honest_def OrchestratorInitialResult_def intro: watched_return)
next
  case False
  then have given: "release_validator orc \<noteq> None" "installer orc \<noteq> None" "request_persistence orc \<noteq> None" by auto
  show ?thesis
    unfolding RetireCommitted_Orchestrator_def recording_present OrchestratorWorkspaceValid_recording if_not_P [OF False]
    unfolding recorded recorded_gates(1) [OF given(1)]
    using assms given
    by - ((rule watch_rules watched_scoped, assumption) | rule watch_splits | (simp add: honest_def; fail))+
qed


section \<open>The rules of a run, on the calls themselves\<close>

text \<open>The bytes read from the storage since it was last opened.\<close>

definition bytes_read :: "update_event list \<Rightarrow> bytes" where
  "bytes_read es =
     foldl (\<lambda>bs e. case e of EvOpenRead s \<Rightarrow> [] | EvReadAt (Some b) \<Rightarrow> bs @ b | _ \<Rightarrow> bs) [] es"

lemma bytes_read_snoc [simp]:
  "bytes_read (es @ [e]) = (case e of EvOpenRead s \<Rightarrow> [] | EvReadAt (Some b) \<Rightarrow> bytes_read es @ b | _ \<Rightarrow> bytes_read es)"
  by (cases e) (simp_all add: bytes_read_def split: option.split)

text \<open>
  Arming follows an accepted staging of an archive whose bytes, as read back from the storage, are
  the signed ones.
\<close>

definition armed_by :: "update_event list \<Rightarrow> bool" where
  "armed_by es \<longleftrightarrow>
     (\<exists>before q s between a rest. es = before @ EvStage q s # between @ EvArm a # rest
        \<and> archive_verified (bytes_read before) q \<and> StageAccepted s \<and> ArmAccepted a)"

definition staged_by :: "update_event list \<Rightarrow> bool" where
  "staged_by es \<longleftrightarrow>
     (\<exists>before q s rest. es = before @ EvStage q s # rest
        \<and> archive_verified (bytes_read before) q \<and> StageAccepted s)"

text \<open>Granted calls.\<close>

fun reboot_event :: "update_event \<Rightarrow> bool" where
  "reboot_event (EvReboot t ok) \<longleftrightarrow> ok"
| "reboot_event (EvFailSafe ok) \<longleftrightarrow> ok"
| "reboot_event _ \<longleftrightarrow> False"

fun accepted_commit :: "update_event \<Rightarrow> bool" where
  "accepted_commit (EvCommit s) \<longleftrightarrow> CommitAccepted s"
| "accepted_commit _ \<longleftrightarrow> False"

fun accepted_rollback :: "update_event \<Rightarrow> bool" where
  "accepted_rollback (EvRollback s) \<longleftrightarrow> RollbackAccepted s"
| "accepted_rollback _ \<longleftrightarrow> False"

fun accepted_mark :: "update_event \<Rightarrow> bool" where
  "accepted_mark (EvMark s) \<longleftrightarrow> HealthMarkAccepted s"
| "accepted_mark _ \<longleftrightarrow> False"

fun accepted_deactivation :: "update_event \<Rightarrow> bool" where
  "accepted_deactivation (EvDeactivate s) \<longleftrightarrow> s = PersistenceOk"
| "accepted_deactivation _ \<longleftrightarrow> False"

fun accepted_retirement :: "update_event \<Rightarrow> bool" where
  "accepted_retirement (EvRetireCommitted s) \<longleftrightarrow> s = InstallerOk \<or> s = AlreadyRetired"
| "accepted_retirement _ \<longleftrightarrow> False"

fun accepted_persist :: "update_event \<Rightarrow> bool" where
  "accepted_persist (EvPersist s) \<longleftrightarrow> s = PersistenceOk"
| "accepted_persist _ \<longleftrightarrow> False"

fun archive_discarded :: "update_event \<Rightarrow> bool" where
  "archive_discarded (EvDiscardArchive s) \<longleftrightarrow> s = ArchiveOk"
| "archive_discarded EvAbort \<longleftrightarrow> True"
| "archive_discarded _ \<longleftrightarrow> False"

fun configs_discarded :: "update_event \<Rightarrow> bool" where
  "configs_discarded (EvDiscardConfigs s) \<longleftrightarrow> s = PreparedOk"
| "configs_discarded _ \<longleftrightarrow> False"

fun committed_journal :: "update_event \<Rightarrow> bool" where
  "committed_journal (EvReadJournal s j) \<longleftrightarrow> s = InstallerOk \<and> j = JCommitted"
| "committed_journal _ \<longleftrightarrow> False"

fun healthy_evidence :: "update_event \<Rightarrow> bool" where
  "healthy_evidence (EvCollect man available e) \<longleftrightarrow>
     available \<and> HealthEvidenceBound e man \<and> EvaluateCandidateHealth e = Healthy"
| "healthy_evidence _ \<longleftrightarrow> False"

text \<open>What has to precede a call.\<close>

fun justified :: "update_event list \<Rightarrow> update_event \<Rightarrow> bool" where
  "justified es (EvStage q s) \<longleftrightarrow> archive_verified (bytes_read es) q \<and> list_ex accepted_persist es"
| "justified es (EvArm a) \<longleftrightarrow> staged_by es \<and> \<not> list_ex accepted_rollback es"
| "justified es (EvReboot OneShotCandidate ok) \<longleftrightarrow> armed_by es \<and> \<not> list_ex accepted_rollback es"
| "justified es (EvReboot PreviousInstallation ok) \<longleftrightarrow>
     list_ex accepted_rollback es \<and> list_ex accepted_deactivation es"
| "justified es (EvFailSafe ok) \<longleftrightarrow> list_ex accepted_deactivation es"
| "justified es (EvMark s) \<longleftrightarrow> list_ex healthy_evidence es"
| "justified es (EvCommit s) \<longleftrightarrow>
     list_ex healthy_evidence es \<and> list_ex accepted_mark es \<and> \<not> list_ex accepted_rollback es"
| "justified es (EvDiscardRetained s) \<longleftrightarrow> list_ex accepted_retirement es"
| "justified es (EvRetain s) \<longleftrightarrow>
     (list_ex accepted_commit es \<or> list_ex committed_journal es)
     \<and> list_ex archive_discarded es \<and> list_ex configs_discarded es"
| "justified es (EvRollback s) \<longleftrightarrow> \<not> list_ex committed_journal es"
| "justified es (EvRetireRolledBack s) \<longleftrightarrow> list_ex archive_discarded es \<and> list_ex configs_discarded es"
| "justified es (EvDiscardRequest s) \<longleftrightarrow> list_ex archive_discarded es"
| "justified es _ \<longleftrightarrow> True"

text \<open>What may not follow an accepted commit.\<close>

fun undoes_commit :: "update_event \<Rightarrow> bool" where
  "undoes_commit (EvRollback s) \<longleftrightarrow> True"
| "undoes_commit (EvRetireRolledBack s) \<longleftrightarrow> True"
| "undoes_commit (EvDiscardRequest s) \<longleftrightarrow> True"
| "undoes_commit (EvDeactivate s) \<longleftrightarrow> True"
| "undoes_commit (EvReboot t ok) \<longleftrightarrow> True"
| "undoes_commit (EvFailSafe ok) \<longleftrightarrow> True"
| "undoes_commit (EvCommit s) \<longleftrightarrow> True"
| "undoes_commit _ \<longleftrightarrow> False"

text \<open>
  The rules of a run: every call is justified by the calls before it, nothing follows a granted
  reboot, and nothing that undoes it follows an accepted commit.
\<close>

definition orderly :: "update_event list \<Rightarrow> bool" where
  "orderly calls \<longleftrightarrow>
     (\<forall>es e rest. calls = es @ e # rest \<longrightarrow>
        justified es e \<and> \<not> list_ex reboot_event es \<and> \<not> (list_ex accepted_commit es \<and> undoes_commit e))"

lemma orderly_Nil: "orderly []"
  by (simp add: orderly_def)

lemma orderly_snoc:
  assumes "orderly calls" "justified calls e" "\<not> list_ex reboot_event calls"
    "\<not> (list_ex accepted_commit calls \<and> undoes_commit e)"
  shows "orderly (calls @ [e])"
  unfolding orderly_def
proof (intro allI impI)
  fix es x rest
  assume s: "calls @ [e] = es @ x # rest"
  show "justified es x \<and> \<not> list_ex reboot_event es \<and> \<not> (list_ex accepted_commit es \<and> undoes_commit x)"
  proof (cases rest rule: rev_cases)
    case Nil
    with s assms show ?thesis by simp
  next
    case (snoc r y)
    with s have "calls = es @ x # r" by simp
    with assms(1) show ?thesis unfolding orderly_def by blast
  qed
qed

text \<open>What the monitor remembers of a run.\<close>

definition remembered :: "update_event list \<Rightarrow> monitor \<Rightarrow> bool" where
  "remembered es m \<longleftrightarrow>
     orderly es \<and> read_bytes m = bytes_read es
     \<and> (staged m \<longrightarrow> staged_by es) \<and> (staged m \<and> armed m \<longrightarrow> armed_by es)
     \<and> (healthy m \<longrightarrow> list_ex healthy_evidence es)
     \<and> (marked m \<longrightarrow> list_ex accepted_mark es)
     \<and> (rolled_back m \<longleftrightarrow> list_ex accepted_rollback es)
     \<and> (committed m \<longleftrightarrow> list_ex accepted_commit es)
     \<and> (inactive m \<longrightarrow> list_ex accepted_deactivation es)
     \<and> (retired m \<longrightarrow> list_ex accepted_retirement es)
     \<and> (rebooting m \<longleftrightarrow> list_ex reboot_event es)
     \<and> (candidate_granted m \<longrightarrow> EvReboot OneShotCandidate True \<in> set es)
     \<and> (previous_granted m \<longrightarrow> EvReboot PreviousInstallation True \<in> set es)
     \<and> (persisted m \<longrightarrow> list_ex accepted_persist es)
     \<and> (archive_gone m \<longrightarrow> list_ex archive_discarded es)
     \<and> (configs_gone m \<longrightarrow> list_ex configs_discarded es)
     \<and> (journal_committed m \<longleftrightarrow> list_ex committed_journal es)"

lemma staged_by_snoc: "staged_by es \<Longrightarrow> staged_by (es @ [e])"
  unfolding staged_by_def by (metis append.assoc append_Cons)

lemma armed_by_snoc: "armed_by es \<Longrightarrow> armed_by (es @ [e])"
  unfolding armed_by_def by (metis append.assoc append_Cons)

lemma staged_by_last:
  "archive_verified (bytes_read es) q \<Longrightarrow> StageAccepted s \<Longrightarrow> staged_by (es @ [EvStage q s])"
  by (auto simp: staged_by_def)

lemma armed_by_last: "staged_by es \<Longrightarrow> ArmAccepted a \<Longrightarrow> armed_by (es @ [EvArm a])"
  by (fastforce simp: staged_by_def armed_by_def)

lemma remembered_fresh: "remembered [] (fresh_monitor resuming)"
  by (simp add: remembered_def fresh_monitor_def orderly_Nil bytes_read_def)

lemma remembered_orderly:
  assumes "remembered es m" "permitted m e"
  shows "orderly (es @ [e])"
proof (rule orderly_snoc)
  show "orderly es" using assms(1) by (simp add: remembered_def)
  show "justified es e"
    using assms by (cases "(m, e)" rule: permitted.cases) (auto simp: remembered_def)
  have "\<not> rebooting m"
    using assms(2) by (cases "(m, e)" rule: permitted.cases) simp_all
  then show "\<not> list_ex reboot_event es" using assms(1) by (simp add: remembered_def)
  have "\<not> (committed m \<and> undoes_commit e)"
    using assms(2) by (cases "(m, e)" rule: permitted.cases) simp_all
  then show "\<not> (list_ex accepted_commit es \<and> undoes_commit e)" using assms(1) by (simp add: remembered_def)
qed

lemma remembered_step:
  assumes "remembered es m" "permitted m e"
  shows "remembered (es @ [e]) (observe m e)"
  unfolding remembered_def
proof (intro conjI)
  let ?m = "observe m e"
  note r = assms(1) [unfolded remembered_def]
  show "orderly (es @ [e])" by (rule remembered_orderly [OF assms])
  show "read_bytes ?m = bytes_read (es @ [e])" using r by (cases e) (simp_all split: option.split)
  show "staged ?m \<longrightarrow> staged_by (es @ [e])"
    using r assms(2) by (cases e) (simp_all add: staged_by_snoc staged_by_last)
  show "staged ?m \<and> armed ?m \<longrightarrow> armed_by (es @ [e])"
    using r by (cases e) (simp_all add: armed_by_snoc armed_by_last)
  show "healthy ?m \<longrightarrow> list_ex healthy_evidence (es @ [e])" using r by (cases e) simp_all
  show "marked ?m \<longrightarrow> list_ex accepted_mark (es @ [e])" using r by (cases e) simp_all
  show "rolled_back ?m \<longleftrightarrow> list_ex accepted_rollback (es @ [e])" using r by (cases e) auto
  show "committed ?m \<longleftrightarrow> list_ex accepted_commit (es @ [e])" using r assms(2) by (cases e) simp_all
  show "inactive ?m \<longrightarrow> list_ex accepted_deactivation (es @ [e])" using r by (cases e) simp_all
  show "retired ?m \<longrightarrow> list_ex accepted_retirement (es @ [e])" using r by (cases e) simp_all
  show "rebooting ?m \<longleftrightarrow> list_ex reboot_event (es @ [e])"
    using r assms(2) by (cases "(m, e)" rule: permitted.cases) simp_all
  show "candidate_granted ?m \<longrightarrow> EvReboot OneShotCandidate True \<in> set (es @ [e])"
    using r by (cases e) auto
  show "previous_granted ?m \<longrightarrow> EvReboot PreviousInstallation True \<in> set (es @ [e])"
    using r by (cases e) auto
  show "persisted ?m \<longrightarrow> list_ex accepted_persist (es @ [e])" using r by (cases e) simp_all
  show "archive_gone ?m \<longrightarrow> list_ex archive_discarded (es @ [e])" using r by (cases e) simp_all
  show "configs_gone ?m \<longrightarrow> list_ex configs_discarded (es @ [e])" using r by (cases e) simp_all
  show "journal_committed ?m \<longleftrightarrow> list_ex committed_journal (es @ [e])" using r by (cases e) simp_all
qed

lemma watch_remembered:
  "watch (fresh_monitor resuming) es = Some m \<Longrightarrow> remembered es m"
proof (induction es arbitrary: m rule: rev_induct)
  case Nil
  then show ?case using remembered_fresh by auto
next
  case (snoc e es)
  then obtain m1 where "watch (fresh_monitor resuming) es = Some m1" "permitted m1 e" "m = observe m1 e"
    by (auto simp: watch_step_def split: option.splits if_splits)
  with snoc.IH [of m1] show ?case by (simp add: remembered_step)
qed

text \<open>What a run of a phase guarantees: its calls are orderly and its status does not lie about them.\<close>

fun backed :: "UpdateOrchestratorStatus \<Rightarrow> update_event list \<Rightarrow> bool" where
  "backed CandidateRebootRequested es \<longleftrightarrow>
     armed_by es \<and> \<not> list_ex accepted_rollback es \<and> EvReboot OneShotCandidate True \<in> set es"
| "backed UpdateCommitted es \<longleftrightarrow>
     (list_ex accepted_commit es \<or> list_ex committed_journal es) \<and> \<not> list_ex reboot_event es"
| "backed RollbackRebootRequested es \<longleftrightarrow>
     list_ex accepted_rollback es \<and> list_ex accepted_deactivation es
     \<and> EvReboot PreviousInstallation True \<in> set es"
| "backed PreviousRetired es \<longleftrightarrow> list_ex accepted_retirement es"
| "backed _ es \<longleftrightarrow> True"

lemma watched_backed:
  assumes "watched (fresh_monitor resuming) honest (result, w', calls)"
  shows "orderly calls \<and> backed (orchestrator_status result) calls"
proof -
  from assms obtain m where m: "watch (fresh_monitor resuming) calls = Some m" "claims (orchestrator_status result) m"
    by (auto simp: watched_def honest_def)
  from watch_remembered [OF m(1)] m(2) show ?thesis
    by (cases "(orchestrator_status result, calls)" rule: backed.cases) (auto simp: remembered_def)
qed

section \<open>Properties\<close>

text \<open>
  (C1) Whatever its objects answer, a run of \<open>Start\<close> is orderly: nothing is staged before the request is
  persisted and the archive, read back from the storage, has the size and digest of the signed
  manifest; the candidate is booted only behind an accepted staging and an accepted arming with no
  accepted rollback; the previous installation is booted only behind an accepted rollback and a
  deactivated request; the request record is deleted only behind the archive; nothing follows a
  granted reboot. And a reported candidate reboot is a one-shot boot of the candidate that was armed and
  granted in this run, with no accepted rollback; being granted, it is the last call of the run.
\<close>

theorem Start_orderly:
  "case Start r (recording orc) request (recording_workspace ws) (w, []) of
     (result, w', calls) \<Rightarrow>
       Start r orc request ws w = (result, w')
       \<and> orderly calls \<and> backed (orchestrator_status result) calls"
proof -
  have "watched (fresh_monitor False) honest (Start r (recording orc) request (recording_workspace ws) (w, []))"
    by (rule Start_watched [where m = "fresh_monitor False"]) (simp_all add: fresh_monitor_def)
  moreover note Start_projects [of r orc request ws w "[]"]
  ultimately show ?thesis
    by (cases "Start r orc request ws w") (auto simp: projects_def dest: watched_backed split: prod.split)
qed

text \<open>
  (C2) Whatever its objects answer, a run of \<open>ResumeAfterBoot\<close> is orderly: a candidate is marked and
  committed only behind evidence of its health that belongs to the signed manifest, and never behind
  an accepted rollback; nothing that undoes it follows an accepted commit, and a journal that is
  already committed is never rolled back; the machine returns to the previous installation only
  without an active request. And a reported commit took place, in this run or in the journal that was
  read, with no reboot granted after it; a reported rollback reboot is a granted boot of the
  previous installation behind an accepted rollback.
\<close>

theorem ResumeAfterBoot_orderly:
  "case ResumeAfterBoot r (recording orc) request (recording_workspace ws) (w, []) of
     (result, w', calls) \<Rightarrow>
       ResumeAfterBoot r orc request ws w = (result, w')
       \<and> orderly calls \<and> backed (orchestrator_status result) calls"
proof -
  have "watched (fresh_monitor True) honest (ResumeAfterBoot r (recording orc) request (recording_workspace ws) (w, []))"
    by (rule ResumeAfterBoot_watched [where m = "fresh_monitor True"]) (simp_all add: fresh_monitor_def)
  moreover note ResumeAfterBoot_projects [of r orc request ws w "[]"]
  ultimately show ?thesis
    by (cases "ResumeAfterBoot r orc request ws w") (auto simp: projects_def dest: watched_backed split: prod.split)
qed

text \<open>
  (C4) Whatever its objects answer, a run of \<open>RetireCommitted\<close> is orderly: the retained request record is
  deleted only behind an accepted retirement of the previous installation.
\<close>

theorem RetireCommitted_orderly:
  "case RetireCommitted_Orchestrator r (recording orc) request (recording_workspace ws) (w, []) of
     (result, w', calls) \<Rightarrow>
       RetireCommitted_Orchestrator r orc request ws w = (result, w')
       \<and> orderly calls \<and> backed (orchestrator_status result) calls"
proof -
  have "watched (fresh_monitor True) honest (RetireCommitted_Orchestrator r (recording orc) request (recording_workspace ws) (w, []))"
    by (rule RetireCommitted_watched [where m = "fresh_monitor True"]) (simp_all add: fresh_monitor_def)
  moreover note RetireCommitted_projects [of r orc request ws w "[]"]
  ultimately show ?thesis
    by (cases "RetireCommitted_Orchestrator r orc request ws w") (auto simp: projects_def dest: watched_backed split: prod.split)
qed

end
