(* ===== verification/Spec2Isabelle.thy ===== *)
theory Spec2Isabelle
  imports
    Update_Policy Crc32 Sha256 Fat_Path_Policy Update_Journal Journal_Protocol
    Storage_Preflight Config_Schema Consent_Digest Candidate_Health Candidate_Watchdog
    Tryboot_Control Recovery_Executor Url_Policy Http_Head Http_Body
    Json_Parser Json_Tokens Json_Access Signature_Envelope Signature_Canonical
    Github_Release Update_Structures Migration_Registry Manifest_Paths Release_Manifest Manifest_Facts
    Manifest_Trust Build_Info Release_Offer Update_Request Offer_Facts
    Update_Orchestrator Orchestrator_Recording Orchestrator_Protocol
begin

text \<open>
  A verification library for the signed updater of BMX (\<open>src/src/update\<close>).
\<close>

section \<open>Recovery at boot, from the stored request to the orchestrator\<close>

text \<open>An operation that leaves the record of the orchestrator's calls alone.\<close>

definition unrecorded :: "('w \<Rightarrow> 'r \<times> 'w) \<Rightarrow> 'w recorded \<Rightarrow> 'r \<times> 'w recorded" where
  "unrecorded f x = (case x of (w, l) \<Rightarrow> (case f w of (r, w') \<Rightarrow> (r, w', l)))"

text \<open>The recovery executor over the orchestrator itself; its own calls are not recorded.\<close>

definition boot_executor ::
  "repository \<Rightarrow> 'w UpdateOrchestrator \<Rightarrow> 'w UpdateRecoveryProgress UpdateOrchestratorWorkspace
   \<Rightarrow> ('w, AuthenticatedUpdateRequest) UpdateRecoveryExecutor
   \<Rightarrow> ('w recorded, AuthenticatedUpdateRequest) UpdateRecoveryExecutor" where
  "boot_executor r orc ws e =
     \<lparr>request_store =
        map_option (\<lambda>s. \<lparr>store_Load = (\<lambda>b. unrecorded (store_Load s b)), store_Discard = unrecorded (store_Discard s)\<rparr>)
          (request_store e),
      orchestrator_ResumeAfterBoot =
        Some (\<lambda>request. ResumeAfterBoot r (recording orc) request (recording_workspace ws)),
      executor_failsafe = map_option unrecorded (executor_failsafe e),
      executor_board = executor_board e, request_buffers = request_buffers e,
      orchestrator_workspace = orchestrator_workspace e,
      scratch_release_download = scratch_release_download e,
      candidate_boot_probe = map_option unrecorded (candidate_boot_probe e), has_run = has_run e\<rparr>"

lemma discard_rejected_unrecorded:
  assumes "discard_rejected \<lparr>store_Load = ld, store_Discard = unrecorded d\<rparr> (unrecorded fs) (unrecorded pr) res (w, l)
      = (result, w', calls)"
  shows "calls = l \<and> resume_called result = resume_called res \<and> load_status result = load_status res"
  using assms
  by (auto simp: discard_rejected_def unrecorded_def Let_def split: prod.splits if_splits)

lemma resumed_run:
  assumes "ResumeAfterBoot r (recording orc) request (recording_workspace ws) (w, []) = (res, w', calls)"
  shows "orderly calls \<and> backed (orchestrator_status res) calls"
proof -
  have "watched (fresh_monitor True) honest
      (ResumeAfterBoot r (recording orc) request (recording_workspace ws) (w, []))"
    by (rule ResumeAfterBoot_watched [where m = "fresh_monitor True"]) (simp_all add: fresh_monitor_def)
  with assms show ?thesis by (simp add: watched_backed)
qed

text \<open>
  (C3) With the orchestrator as the executor's resume operation, recovery at boot calls nothing of the
  orchestrator's objects unless this is the first run, its arguments are valid and the store
  reports a loaded request; then it makes exactly the calls that \<open>ResumeAfterBoot\<close> makes on that
  request, once; these are orderly, and the status the executor passes on is the orchestrator's and
  is backed by them.
\<close>

theorem boot_recovery_orderly:
  "case Run (boot_executor r orc ws e) (w, []) of
     (result, e', w', calls) \<Rightarrow>
       has_run e' \<and>
       (if arguments_valid (boot_executor r orc ws e) \<and> has_run e = False
        then (case store_Load (the (request_store e)) (executor_board e) w of
                ((loaded, request), w1) \<Rightarrow>
                  load_status result = loaded \<and>
                  (if loaded = StoreOk
                   then (case ResumeAfterBoot r (recording orc) request (recording_workspace ws) (w1, []) of
                           (resumed, w2, resume_calls) \<Rightarrow>
                             resume_called result \<and> status result = ResumeFinished
                             \<and> resume_status result = orchestrator_status resumed
                             \<and> w' = w2 \<and> calls = resume_calls
                             \<and> orderly calls \<and> backed (resume_status result) calls)
                   else calls = [] \<and> \<not> resume_called result))
        else calls = [] \<and> \<not> resume_called result \<and> w' = w)"
proof (cases "arguments_valid (boot_executor r orc ws e) \<and> has_run e = False")
  case False
  then show ?thesis
    by (auto simp: Run_def Let_def InitialResult_def) (simp_all add: boot_executor_def)
next
  case True
  then obtain st fs pr where e: "request_store e = Some st" "executor_failsafe e = Some fs"
    "candidate_boot_probe e = Some pr"
    by (auto simp: arguments_valid_def boot_executor_def)
  have r: "has_run (boot_executor r orc ws e) = has_run e" by (simp add: boot_executor_def)
  obtain s req w1 where ld: "store_Load st (executor_board e) w = ((s, req), w1)" by (metis prod.collapse)
  obtain res w2 calls where rs:
    "ResumeAfterBoot r (recording orc) req (recording_workspace ws) (w1, []) = (res, w2, calls)"
    by (metis prod.collapse)
  show ?thesis
    using True r resumed_run [OF rs]
    by (auto simp: Run_def Let_def run_body_def e ld rs boot_executor_def unrecorded_def [of "store_Load st (executor_board e)"]
        InitialResult_def dest: discard_rejected_unrecorded split: prod.split)
qed

end
